(* ===== verification/Prelude.thy ===== *)
theory Prelude
  imports Main "HOL-Library.Word"
begin

text \<open>
  Shared vocabulary of the development: bytes, results, the collections of rewrite rules, and the
  facts on lists that several components use (array reads that may miss, slices, consecutive
  slices that rebuild a list).
\<close>

unbundle bit_operations_syntax

section \<open>Types and collections\<close>

type_synonym byte = "8 word"

named_theorems js_defs \<open>definitions of the JavaScript runtime operations\<close>
named_theorems limits \<open>definitions of the numeric ceilings of the source\<close>
named_theorems parse_simps \<open>characterisations of the validators\<close>
named_theorems ok_simps \<open>when a sequence of guards and calls returns a value\<close>

section \<open>Results\<close>

text \<open>
  A function of the source that may throw returns \<open>'e + 'a\<close>; \<open>Inl\<close> is the thrown error.
\<close>

definition is_ok :: "'e + 'a \<Rightarrow> bool" where
  "is_ok r \<longleftrightarrow> (case r of Inl _ \<Rightarrow> False | Inr _ \<Rightarrow> True)"

lemma is_ok_simps [simp]: "is_ok (Inr x)" "\<not> is_ok (Inl e)"
  by (simp_all add: is_ok_def)

lemma is_ok_iff: "is_ok r \<longleftrightarrow> (\<exists>x. r = Inr x)"
  by (cases r) simp_all

text \<open>Inversion of guards, of calls that may throw and of reads that may miss.\<close>

lemma guard_ok [ok_simps]: "(if b then Inl e else r) = Inr x \<longleftrightarrow> \<not> b \<and> r = Inr x"
  by simp

lemma call_ok [ok_simps]:
  "(case r of Inl e \<Rightarrow> Inl (f e) | Inr y \<Rightarrow> g y) = Inr x \<longleftrightarrow> (\<exists>y. r = Inr y \<and> g y = Inr x)"
  by (cases r) simp_all

lemma read_ok [ok_simps]:
  "(case r of None \<Rightarrow> Inl e | Some y \<Rightarrow> g y) = Inr x \<longleftrightarrow> (\<exists>y. r = Some y \<and> g y = Inr x)"
  by (cases r) simp_all

text \<open>\<open>xs.map(f)\<close> where \<open>f\<close> may throw: the first error wins.\<close>

fun mapE :: "('a \<Rightarrow> 'e + 'b) \<Rightarrow> 'a list \<Rightarrow> 'e + 'b list" where
  "mapE f [] = Inr []"
| "mapE f (x # xs) =
     (case f x of Inl e \<Rightarrow> Inl e
      | Inr y \<Rightarrow> (case mapE f xs of Inl e \<Rightarrow> Inl e | Inr ys \<Rightarrow> Inr (y # ys)))"

text \<open>A \<open>for\<close> loop whose body only throws.\<close>

fun eachE :: "('a \<Rightarrow> 'e + unit) \<Rightarrow> 'a list \<Rightarrow> 'e + unit" where
  "eachE f [] = Inr ()"
| "eachE f (x # xs) = (case f x of Inl e \<Rightarrow> Inl e | Inr _ \<Rightarrow> eachE f xs)"

lemma eachE_ok_iff [parse_simps]: "eachE f xs = Inr () \<longleftrightarrow> (\<forall>x \<in> set xs. f x = Inr ())"
  by (induction xs) (auto split: sum.splits)

lemma mapE_ok_length: "mapE f xs = Inr ys \<Longrightarrow> length ys = length xs"
  by (induction xs arbitrary: ys) (auto split: sum.splits)

lemma mapE_ok_nth: "mapE f xs = Inr ys \<Longrightarrow> i < length xs \<Longrightarrow> f (xs ! i) = Inr (ys ! i)"
  by (induction xs arbitrary: ys i) (auto split: sum.splits simp: nth_Cons')

lemma mapE_all_ok: "(\<And>x. x \<in> set xs \<Longrightarrow> f x = Inr (g x)) \<Longrightarrow> mapE f xs = Inr (map g xs)"
  by (induction xs) auto

lemma mapE_map_id: "(\<And>x. x \<in> set xs \<Longrightarrow> f (g x) = Inr x) \<Longrightarrow> mapE f (map g xs) = Inr xs"
  by (induction xs) auto

section \<open>Array reads and slices\<close>

text \<open>\<open>xs[i]\<close> of the source: \<open>undefined\<close> (here \<open>None\<close>) outside the array.\<close>

definition elem_at :: "'a list \<Rightarrow> nat \<Rightarrow> 'a option" where
  "elem_at xs i = (if i < length xs then Some (xs ! i) else None)"

lemma elem_at_simps [simp]:
  "elem_at [] i = None" "elem_at (x # xs) 0 = Some x" "elem_at (x # xs) (Suc i) = elem_at xs i"
  by (simp_all add: elem_at_def)

lemma elem_at_numeral [simp]: "elem_at (x # xs) (numeral n) = elem_at xs (pred_numeral n)"
  by (simp add: numeral_eq_Suc)

lemma elem_at_eq_Some_iff: "elem_at xs i = Some x \<longleftrightarrow> i < length xs \<and> xs ! i = x"
  by (auto simp: elem_at_def)

lemma elem_at_eq_None_iff: "elem_at xs i = None \<longleftrightarrow> length xs \<le> i"
  by (auto simp: elem_at_def)

lemma all_enumerate: "list_all (\<lambda>(i, x). P i x) (enumerate 0 xs) \<Longrightarrow> \<forall>i < length xs. P i (xs ! i)"
  by (simp add: list_all_length nth_enumerate_eq)

text \<open>\<open>bytes.subarray(a, b)\<close> and \<open>text.slice(a, b)\<close> for indices \<open>0 \<le> a\<close>, clamped at the end.\<close>

definition subarray :: "nat \<Rightarrow> nat \<Rightarrow> 'a list \<Rightarrow> 'a list" where
  "subarray a b xs = take (b - a) (drop a xs)"

lemma length_subarray: "length (subarray a b xs) = min (b - a) (length xs - a)"
  by (simp add: subarray_def)

lemma subarray_nth: "i < b - a \<Longrightarrow> a + i < length xs \<Longrightarrow> subarray a b xs ! i = xs ! (a + i)"
  by (simp add: subarray_def)

lemma subarray_full [simp]: "subarray 0 (length xs) xs = xs"
  by (simp add: subarray_def)

lemma subarray_same [simp]: "subarray a a xs = []"
  by (simp add: subarray_def)

lemma subarray_append_adjacent:
  "a \<le> b \<Longrightarrow> b \<le> c \<Longrightarrow> subarray a b xs @ subarray b c xs = subarray a c xs"
proof -
  assume ab: "a \<le> b" and bc: "b \<le> c"
  have "take (c - a) (drop a xs) = take (b - a) (drop a xs) @ take (c - b) (drop (b - a) (drop a xs))"
    using ab bc take_add [of "b - a" "c - b" "drop a xs"] by simp
  with ab show ?thesis by (simp add: subarray_def)
qed

lemma subarray_of_subarray:
  "c \<le> d \<Longrightarrow> d \<le> b - a \<Longrightarrow> subarray c d (subarray a b xs) = subarray (a + c) (a + d) xs"
  by (simp add: subarray_def take_drop add.commute min_def)

end
