(* ===== verification/Js_Values.thy ===== *)
theory Js_Values
  imports Prelude
begin

text \<open>
  The values of the JavaScript runtime the source computes with: numbers, strings of UTF-16 code
  units, untyped values handed in by a caller, and the text codecs (\<open>TextDecoder\<close> in fatal mode,
  \<open>TextEncoder\<close>). The codecs are proved to be inverse to one another.
\<close>

section \<open>Numbers\<close>

text \<open>
  An integral number is \<open>JInt\<close>. A finite number that is not integral is \<open>JFrac k t\<close>: its floor and the
  decimal text \<open>Number.prototype.toString\<close> prints for it, which determines the number.
\<close>

datatype jsnum = JInt int | JFrac int string | JInf | JNegInf | JNaN

fun isInteger :: "jsnum \<Rightarrow> bool" where
  "isInteger (JInt _) = True"
| "isInteger _ = False"

definition MAX_SAFE_INTEGER :: int where
  "MAX_SAFE_INTEGER = 9007199254740991"

fun isSafeInteger :: "jsnum \<Rightarrow> bool" where
  "isSafeInteger (JInt k) = (\<bar>k\<bar> \<le> MAX_SAFE_INTEGER)"
| "isSafeInteger _ = False"

fun isFinite :: "jsnum \<Rightarrow> bool" where
  "isFinite (JInt _) = True"
| "isFinite (JFrac _ _) = True"
| "isFinite _ = False"

text \<open>Comparison with an integer; every comparison with \<open>NaN\<close> is false.\<close>

fun num_gt :: "jsnum \<Rightarrow> int \<Rightarrow> bool" where
  "num_gt (JInt k) n = (n < k)"
| "num_gt (JFrac f _) n = (n \<le> f)"
| "num_gt JInf n = True"
| "num_gt JNegInf n = False"
| "num_gt JNaN n = False"

fun num_lt :: "jsnum \<Rightarrow> int \<Rightarrow> bool" where
  "num_lt (JInt k) n = (k < n)"
| "num_lt (JFrac f _) n = (f < n)"
| "num_lt JInf n = False"
| "num_lt JNegInf n = True"
| "num_lt JNaN n = False"

text \<open>The integer behind a number already known to be integral.\<close>

fun num_int :: "jsnum \<Rightarrow> int" where
  "num_int (JInt k) = k"
| "num_int _ = 0"

lemma isInteger_cases: "isInteger x \<longleftrightarrow> (\<exists>k. x = JInt k)"
  by (cases x) auto

lemma isSafeInteger_cases: "isSafeInteger x \<longleftrightarrow> (\<exists>k. x = JInt k \<and> \<bar>k\<bar> \<le> MAX_SAFE_INTEGER)"
  by (cases x) auto

section \<open>Strings\<close>

type_synonym cunit = "16 word"
type_synonym jsstring = "cunit list"

text \<open>A string literal of the source.\<close>

definition js :: "string \<Rightarrow> jsstring" where
  "js s = map of_char s"

text \<open>\<open>[A-Za-z0-9]\<close>\<close>

definition alnum :: "cunit \<Rightarrow> bool" where
  "alnum u \<longleftrightarrow> 48 \<le> unat u \<and> unat u \<le> 57 \<or> 65 \<le> unat u \<and> unat u \<le> 90 \<or> 97 \<le> unat u \<and> unat u \<le> 122"

section \<open>Untyped values\<close>

text \<open>
  \<open>VObj\<close> is an ordinary data object (prototype \<open>Object.prototype\<close>, own enumerable data properties with
  string keys, in insertion order), \<open>VArr\<close> an ordinary dense array, \<open>VBytes\<close> a \<open>Uint8Array\<close>. Everything
  else a caller can pass (functions, symbols, bigints, accessor properties, class instances, proxies)
  is \<open>VOther\<close>.
\<close>

datatype jsval =
    VUndef | VNull | VBool bool | VNum jsnum | VStr jsstring
  | VArr "jsval list" | VObj "(jsstring \<times> jsval) list" | VBytes "byte list" | VOther

text \<open>\<open>value[key]\<close>: \<open>undefined\<close> where there is no such own property.\<close>

definition getp :: "(jsstring \<times> jsval) list \<Rightarrow> jsstring \<Rightarrow> jsval" where
  "getp fs k = (case map_of fs k of None \<Rightarrow> VUndef | Some v \<Rightarrow> v)"

section \<open>UTF-8\<close>

definition surrogate :: "nat \<Rightarrow> bool" where
  "surrogate c \<longleftrightarrow> 55296 \<le> c \<and> c < 57344"

definition scalar :: "nat \<Rightarrow> bool" where
  "scalar c \<longleftrightarrow> c < 1114112 \<and> \<not> surrogate c"

fun utf8_enc :: "nat \<Rightarrow> byte list" where
  "utf8_enc c =
     (if c < 128 then [of_nat c]
      else if c < 2048 then [of_nat (192 + c div 64), of_nat (128 + c mod 64)]
      else if c < 65536 then
        [of_nat (224 + c div 4096), of_nat (128 + c div 64 mod 64), of_nat (128 + c mod 64)]
      else
        [of_nat (240 + c div 262144), of_nat (128 + c div 4096 mod 64),
         of_nat (128 + c div 64 mod 64), of_nat (128 + c mod 64)])"

definition is_cont :: "byte \<Rightarrow> bool" where
  "is_cont b \<longleftrightarrow> 128 \<le> unat b \<and> unat b < 192"

definition cp2 :: "byte \<Rightarrow> byte \<Rightarrow> nat" where
  "cp2 a b = (unat a - 192) * 64 + (unat b - 128)"

definition cp3 :: "byte \<Rightarrow> byte \<Rightarrow> byte \<Rightarrow> nat" where
  "cp3 a b c = (unat a - 224) * 4096 + (unat b - 128) * 64 + (unat c - 128)"

definition cp4 :: "byte \<Rightarrow> byte \<Rightarrow> byte \<Rightarrow> byte \<Rightarrow> nat" where
  "cp4 a b c d = (unat a - 240) * 262144 + (unat b - 128) * 4096 + (unat c - 128) * 64 + (unat d - 128)"

text \<open>The code points of a byte sequence; \<open>None\<close> where the fatal decoder throws.\<close>

fun utf8_dec :: "byte list \<Rightarrow> nat list option" where
  "utf8_dec [] = Some []"
| "utf8_dec (a # r) =
     (if unat a < 128 then map_option (Cons (unat a)) (utf8_dec r)
      else if unat a < 192 then None
      else if unat a < 224 then
        (case r of
           b # r' \<Rightarrow>
             if is_cont b \<and> 128 \<le> cp2 a b then map_option (Cons (cp2 a b)) (utf8_dec r') else None
         | _ \<Rightarrow> None)
      else if unat a < 240 then
        (case r of
           b # c # r' \<Rightarrow>
             if is_cont b \<and> is_cont c \<and> 2048 \<le> cp3 a b c \<and> \<not> surrogate (cp3 a b c)
             then map_option (Cons (cp3 a b c)) (utf8_dec r') else None
         | _ \<Rightarrow> None)
      else if unat a < 248 then
        (case r of
           b # c # d # r' \<Rightarrow>
             if is_cont b \<and> is_cont c \<and> is_cont d \<and> 65536 \<le> cp4 a b c d \<and> cp4 a b c d < 1114112
             then map_option (Cons (cp4 a b c d)) (utf8_dec r') else None
         | _ \<Rightarrow> None)
      else None)"

section \<open>UTF-16\<close>

fun utf16_enc :: "nat \<Rightarrow> jsstring" where
  "utf16_enc c =
     (if c < 65536 then [of_nat c]
      else [of_nat (55296 + (c - 65536) div 1024), of_nat (56320 + (c - 65536) mod 1024)])"

definition high_surrogate :: "cunit \<Rightarrow> bool" where
  "high_surrogate u \<longleftrightarrow> 55296 \<le> unat u \<and> unat u < 56320"

definition low_surrogate :: "cunit \<Rightarrow> bool" where
  "low_surrogate u \<longleftrightarrow> 56320 \<le> unat u \<and> unat u < 57344"

text \<open>The code points string iteration yields; an unpaired surrogate stands for itself.\<close>

fun code_points :: "jsstring \<Rightarrow> nat list" where
  "code_points [] = []"
| "code_points [u] = [unat u]"
| "code_points (u # v # s) =
     (if high_surrogate u \<and> low_surrogate v
      then (65536 + (unat u - 55296) * 1024 + (unat v - 56320)) # code_points s
      else unat u # code_points (v # s))"

text \<open>\<open>new TextDecoder('utf-8', {fatal: true, ignoreBOM: true}).decode\<close>: \<open>None\<close> where it throws.\<close>

definition text_decode :: "byte list \<Rightarrow> jsstring option" where
  "text_decode b = map_option (\<lambda>cs. concat (map utf16_enc cs)) (utf8_dec b)"

text \<open>\<open>new TextEncoder().encode\<close>: an unpaired surrogate becomes U+FFFD.\<close>

definition text_encode :: "jsstring \<Rightarrow> byte list" where
  "text_encode s = concat (map (\<lambda>c. utf8_enc (if surrogate c then 65533 else c)) (code_points s))"

declare utf8_enc.simps [simp del] utf16_enc.simps [simp del]

section \<open>The codecs are inverse to one another\<close>

lemma unat_byte: "n < 256 \<Longrightarrow> unat (of_nat n :: byte) = n"
  by (simp add: unat_of_nat)

lemma unat_cunit: "n < 65536 \<Longrightarrow> unat (of_nat n :: cunit) = n"
  by (simp add: unat_of_nat)

lemma byte_less: "unat (a :: byte) < 256"
  using unsigned_less [of a] by simp

lemma cunit_less: "unat (u :: cunit) < 65536"
  using unsigned_less [of u] by simp

lemma utf8_dec_1: "unat a < 128 \<Longrightarrow> utf8_dec (a # r) = map_option (Cons (unat a)) (utf8_dec r)"
  by simp

lemma utf8_dec_2:
  "192 \<le> unat a \<Longrightarrow> unat a < 224 \<Longrightarrow> is_cont b \<Longrightarrow> 128 \<le> cp2 a b \<Longrightarrow>
   utf8_dec (a # b # r) = map_option (Cons (cp2 a b)) (utf8_dec r)"
  by simp

lemma utf8_dec_3:
  "224 \<le> unat a \<Longrightarrow> unat a < 240 \<Longrightarrow> is_cont b \<Longrightarrow> is_cont c \<Longrightarrow> 2048 \<le> cp3 a b c \<Longrightarrow>
   \<not> surrogate (cp3 a b c) \<Longrightarrow>
   utf8_dec (a # b # c # r) = map_option (Cons (cp3 a b c)) (utf8_dec r)"
  by simp

lemma utf8_dec_4:
  "240 \<le> unat a \<Longrightarrow> unat a < 248 \<Longrightarrow> is_cont b \<Longrightarrow> is_cont c \<Longrightarrow> is_cont d \<Longrightarrow>
   65536 \<le> cp4 a b c d \<Longrightarrow> cp4 a b c d < 1114112 \<Longrightarrow>
   utf8_dec (a # b # c # d # r) = map_option (Cons (cp4 a b c d)) (utf8_dec r)"
  by simp

lemma utf8_enc_1: "c < 128 \<Longrightarrow> utf8_enc c = [of_nat c]"
  by (simp add: utf8_enc.simps)

lemma utf8_enc_2:
  "128 \<le> c \<Longrightarrow> c < 2048 \<Longrightarrow> utf8_enc c = [of_nat (192 + c div 64), of_nat (128 + c mod 64)]"
  by (simp add: utf8_enc.simps)

lemma utf8_enc_3:
  "2048 \<le> c \<Longrightarrow> c < 65536 \<Longrightarrow> utf8_enc c =
     [of_nat (224 + c div 64 div 64), of_nat (128 + c div 64 mod 64), of_nat (128 + c mod 64)]"
  by (simp add: utf8_enc.simps div_mult2_eq [symmetric])

lemma utf8_enc_4:
  "65536 \<le> c \<Longrightarrow> utf8_enc c =
     [of_nat (240 + c div 64 div 64 div 64), of_nat (128 + c div 64 div 64 mod 64),
      of_nat (128 + c div 64 mod 64), of_nat (128 + c mod 64)]"
  by (simp add: utf8_enc.simps div_mult2_eq [symmetric])

lemma join64: "y < 64 \<Longrightarrow> (x * 64 + y) div 64 = (x :: nat)" "y < 64 \<Longrightarrow> (x * 64 + y) mod 64 = (y :: nat)"
  by simp_all

lemma split64: "\<exists>x y. c = x * 64 + y \<and> y < (64 :: nat)"
  by (rule exI [of _ "c div 64"], rule exI [of _ "c mod 64"]) simp

lemma unat_tail: "y < 64 \<Longrightarrow> unat (of_nat (128 + y) :: byte) = 128 + y"
  by (rule unat_byte) simp

lemma is_cont_tail: "y < 64 \<Longrightarrow> is_cont (of_nat (128 + y))"
  unfolding is_cont_def by (subst unat_tail, assumption)+ simp

lemma utf8_dec_enc:
  assumes "scalar c"
  shows "utf8_dec (utf8_enc c @ r) = map_option (Cons c) (utf8_dec r)"
proof -
  obtain q z where z: "c = q * 64 + z" "z < 64" using split64 by blast
  obtain p y where y: "q = p * 64 + y" "y < 64" using split64 by blast
  obtain x w where w: "p = x * 64 + w" "w < 64" using split64 by blast
  have c: "c < 1114112" using assms by (simp add: scalar_def)
  consider "c < 128" | "128 \<le> c" "c < 2048" | "2048 \<le> c" "c < 65536" | "65536 \<le> c"
    by linarith
  then show ?thesis
  proof cases
    case 1
    then show ?thesis by (simp add: utf8_enc_1 unat_byte)
  next
    case 2
    let ?a = "of_nat (192 + q) :: byte" and ?b = "of_nat (128 + z) :: byte"
    have lt: "q < 32" using 2 z by linarith
    have a: "unat ?a = 192 + q" by (rule unat_byte) (use lt in linarith)
    have cp: "cp2 ?a ?b = c" unfolding cp2_def a unat_tail [OF z(2)] z(1) by simp
    have "utf8_dec (?a # ?b # r) = map_option (Cons (cp2 ?a ?b)) (utf8_dec r)"
      by (rule utf8_dec_2 [OF _ _ is_cont_tail [OF z(2)]]; unfold a cp) (use 2 lt in simp_all)
    then show ?thesis unfolding cp utf8_enc_2 [OF 2] unfolding z(1) join64 [OF z(2)] by (simp only: append_Cons append_Nil)
  next
    case 3
    let ?a = "of_nat (224 + p) :: byte" and ?b = "of_nat (128 + y) :: byte" and ?c = "of_nat (128 + z) :: byte"
    have lt: "p < 16" using 3 z y by linarith
    have a: "unat ?a = 224 + p" by (rule unat_byte) (use lt in linarith)
    have cp: "cp3 ?a ?b ?c = c" unfolding cp3_def a unat_tail [OF z(2)] unat_tail [OF y(2)] z(1) y(1) by simp
    have "utf8_dec (?a # ?b # ?c # r) = map_option (Cons (cp3 ?a ?b ?c)) (utf8_dec r)"
      by (rule utf8_dec_3 [OF _ _ is_cont_tail [OF y(2)] is_cont_tail [OF z(2)]]; unfold a cp)
        (use 3 lt assms in \<open>simp_all add: scalar_def\<close>)
    then show ?thesis unfolding cp utf8_enc_3 [OF 3]
      unfolding z(1) y(1) join64 [OF z(2)] join64 [OF y(2)] by (simp only: append_Cons append_Nil)
  next
    case 4
    let ?a = "of_nat (240 + x) :: byte" and ?b = "of_nat (128 + w) :: byte"
      and ?c = "of_nat (128 + y) :: byte" and ?d = "of_nat (128 + z) :: byte"
    have lt: "x < 8" using c z y w by linarith
    have a: "unat ?a = 240 + x" by (rule unat_byte) (use lt in linarith)
    have cp: "cp4 ?a ?b ?c ?d = c"
      unfolding cp4_def a unat_tail [OF z(2)] unat_tail [OF y(2)] unat_tail [OF w(2)] z(1) y(1) w(1) by simp
    have "utf8_dec (?a # ?b # ?c # ?d # r) = map_option (Cons (cp4 ?a ?b ?c ?d)) (utf8_dec r)"
      by (rule utf8_dec_4 [OF _ _ is_cont_tail [OF w(2)] is_cont_tail [OF y(2)] is_cont_tail [OF z(2)]]; unfold a cp)
        (use 4 lt c in simp_all)
    then show ?thesis unfolding cp utf8_enc_4 [OF 4]
      unfolding z(1) y(1) w(1) join64 [OF z(2)] join64 [OF y(2)] join64 [OF w(2)] by (simp only: append_Cons append_Nil)
  qed
qed

lemma enc1: "unat a < 128 \<Longrightarrow> utf8_enc (unat a) = [a] \<and> scalar (unat a)"
  by (simp add: utf8_enc_1 scalar_def surrogate_def)

lemma is_cont_unat: "is_cont b \<Longrightarrow> \<exists>y < 64. unat b = 128 + y"
  by (rule exI [of _ "unat b - 128"]) (auto simp: is_cont_def)

lemma enc2:
  assumes a: "192 \<le> unat a" "unat a < 224" and b: "is_cont b" and min: "128 \<le> cp2 a b"
  shows "utf8_enc (cp2 a b) = [a, b] \<and> scalar (cp2 a b)"
proof -
  from a(1) obtain x where x: "unat a = 192 + x" using le_Suc_ex by blast
  from is_cont_unat [OF b] obtain y where y: "unat b = 128 + y" "y < 64" by blast
  have c: "cp2 a b = x * 64 + y" using x y by (simp add: cp2_def)
  have "x \<le> 31" using x a by simp
  then have lt: "cp2 a b < 2048" using y unfolding c by linarith
  have "utf8_enc (cp2 a b) = [of_nat (unat a), of_nat (unat b)]"
    unfolding utf8_enc_2 [OF min lt] unfolding c join64 [OF y(2)] x y(1) ..
  with lt show ?thesis by (simp add: scalar_def surrogate_def)
qed

lemma enc3:
  assumes a: "224 \<le> unat a" "unat a < 240" and bc: "is_cont b" "is_cont c"
    and min: "2048 \<le> cp3 a b c" and ns: "\<not> surrogate (cp3 a b c)"
  shows "utf8_enc (cp3 a b c) = [a, b, c] \<and> scalar (cp3 a b c)"
proof -
  from a(1) obtain x where x: "unat a = 224 + x" using le_Suc_ex by blast
  from is_cont_unat [OF bc(1)] obtain y where y: "unat b = 128 + y" "y < 64" by blast
  from is_cont_unat [OF bc(2)] obtain z where z: "unat c = 128 + z" "z < 64" by blast
  have c: "cp3 a b c = (x * 64 + y) * 64 + z" using x y z by (simp add: cp3_def)
  have "x \<le> 15" using x a by simp
  then have lt: "cp3 a b c < 65536" using y z unfolding c by (simp add: add_mult_distrib)
  have "utf8_enc (cp3 a b c) = [of_nat (unat a), of_nat (unat b), of_nat (unat c)]"
    unfolding utf8_enc_3 [OF min lt] unfolding c join64 [OF y(2)] join64 [OF z(2)] x y(1) z(1) ..
  with lt ns show ?thesis by (simp add: scalar_def)
qed

lemma enc4:
  assumes a: "240 \<le> unat a" "unat a < 248" and bcd: "is_cont b" "is_cont c" "is_cont d"
    and min: "65536 \<le> cp4 a b c d" and max: "cp4 a b c d < 1114112"
  shows "utf8_enc (cp4 a b c d) = [a, b, c, d] \<and> scalar (cp4 a b c d)"
proof -
  from a(1) obtain x where x: "unat a = 240 + x" using le_Suc_ex by blast
  from is_cont_unat [OF bcd(1)] obtain y where y: "unat b = 128 + y" "y < 64" by blast
  from is_cont_unat [OF bcd(2)] obtain z where z: "unat c = 128 + z" "z < 64" by blast
  from is_cont_unat [OF bcd(3)] obtain u where u: "unat d = 128 + u" "u < 64" by blast
  have c: "cp4 a b c d = ((x * 64 + y) * 64 + z) * 64 + u" using x y z u by (simp add: cp4_def)
  have "utf8_enc (cp4 a b c d) = [of_nat (unat a), of_nat (unat b), of_nat (unat c), of_nat (unat d)]"
    unfolding utf8_enc_4 [OF min]
    unfolding c join64 [OF y(2)] join64 [OF z(2)] join64 [OF u(2)] x y(1) z(1) u(1) ..
  with min max show ?thesis by (simp add: scalar_def surrogate_def)
qed

lemma utf8_dec_Cons_cases [consumes 1, case_names one two three four]:
  assumes "utf8_dec (a # r) = Some cs"
  obtains cs' where "unat a < 128" "utf8_dec r = Some cs'" "cs = unat a # cs'"
    | b r' cs' where "192 \<le> unat a" "unat a < 224" "r = b # r'" "is_cont b" "128 \<le> cp2 a b"
        "utf8_dec r' = Some cs'" "cs = cp2 a b # cs'"
    | b c r' cs' where "224 \<le> unat a" "unat a < 240" "r = b # c # r'" "is_cont b" "is_cont c"
        "2048 \<le> cp3 a b c" "\<not> surrogate (cp3 a b c)" "utf8_dec r' = Some cs'" "cs = cp3 a b c # cs'"
    | b c d r' cs' where "240 \<le> unat a" "unat a < 248" "r = b # c # d # r'" "is_cont b" "is_cont c" "is_cont d"
        "65536 \<le> cp4 a b c d" "cp4 a b c d < 1114112" "utf8_dec r' = Some cs'" "cs = cp4 a b c d # cs'"
proof -
  consider "unat a < 128" | "128 \<le> unat a" "unat a < 192" | "192 \<le> unat a" "unat a < 224"
    | "224 \<le> unat a" "unat a < 240" | "240 \<le> unat a" "unat a < 248" | "248 \<le> unat a"
    by linarith
  then show ?thesis
  proof cases
    case 1
    with assms that(1) show ?thesis by (auto simp: utf8_dec.simps(2) [of a r])
  next
    case 3
    with assms show ?thesis
      by (auto simp: utf8_dec.simps(2) [of a r] simp del: utf8_dec.simps split: list.splits if_splits intro: that(2))
  next
    case 4
    with assms show ?thesis
      by (auto simp: utf8_dec.simps(2) [of a r] simp del: utf8_dec.simps split: list.splits if_splits intro: that(3))
  next
    case 5
    with assms show ?thesis
      by (auto simp: utf8_dec.simps(2) [of a r] simp del: utf8_dec.simps split: list.splits if_splits intro: that(4))
  qed (use assms in \<open>simp_all add: utf8_dec.simps(2) [of a r] del: utf8_dec.simps\<close>)
qed

lemma utf8_dec_sound:
  "utf8_dec b = Some cs \<Longrightarrow> concat (map utf8_enc cs) = b \<and> list_all scalar cs"
proof (induction "length b" arbitrary: b cs rule: less_induct)
  case less
  show ?case
  proof (cases b)
    case Nil
    with less.prems show ?thesis by simp
  next
    case (Cons a r)
    from less.prems [unfolded Cons] show ?thesis
    proof (cases rule: utf8_dec_Cons_cases)
      case (one cs')
      with less.hyps [OF _ one(2)] enc1 [of a] Cons show ?thesis by simp
    next
      case (two b' r' cs')
      with less.hyps [OF _ two(6)] enc2 [OF two(1,2,4,5)] Cons show ?thesis by simp
    next
      case (three b' c r' cs')
      with less.hyps [OF _ three(8)] enc3 [OF three(1,2,4-7)] Cons show ?thesis by simp
    next
      case (four b' c d r' cs')
      with less.hyps [OF _ four(9)] enc4 [OF four(1,2,4-8)] Cons show ?thesis by simp
    qed
  qed
qed

subsection \<open>UTF-16\<close>

lemma utf16_pair:
  assumes "c < 1114112" "65536 \<le> c"
  shows "\<exists>h l. c = 65536 + h * 1024 + l \<and> h < 1024 \<and> l < 1024 \<and>
    utf16_enc c = [of_nat (55296 + h), of_nat (56320 + l)]"
proof -
  let ?h = "(c - 65536) div 1024" and ?l = "(c - 65536) mod 1024"
  have "?h < 1024" by (rule less_mult_imp_div_less) (use assms in simp)
  moreover have "c = 65536 + ?h * 1024 + ?l" using assms by simp
  ultimately show ?thesis using assms
    by (intro exI [of _ ?h] exI [of _ ?l]) (simp add: utf16_enc.simps)
qed

lemma code_points_enc:
  assumes "scalar c"
  shows "code_points (utf16_enc c @ s) = c # code_points s"
proof (cases "c < 65536")
  case True
  with assms have "\<not> high_surrogate (of_nat c)" "unat (of_nat c :: cunit) = c"
    by (auto simp: unat_cunit high_surrogate_def scalar_def surrogate_def)
  with True show ?thesis by (cases s) (simp_all add: utf16_enc.simps)
next
  case False
  with assms utf16_pair [of c] obtain h l where c: "c = 65536 + h * 1024 + l" "h < 1024" "l < 1024"
    and e: "utf16_enc c = [of_nat (55296 + h), of_nat (56320 + l)]" by (auto simp: scalar_def)
  have u: "unat (of_nat (55296 + h) :: cunit) = 55296 + h" "unat (of_nat (56320 + l) :: cunit) = 56320 + l"
    by (rule unat_cunit, use c in simp)+
  have "high_surrogate (of_nat (55296 + h))" "low_surrogate (of_nat (56320 + l))"
    unfolding high_surrogate_def low_surrogate_def u using c by simp_all
  then show ?thesis unfolding e append_Cons append_Nil code_points.simps u using c by simp
qed

lemma code_points_concat: "list_all scalar cs \<Longrightarrow> code_points (concat (map utf16_enc cs)) = cs"
  by (induction cs) (simp_all add: code_points_enc)

lemma text_encode_decode: "text_decode b = Some s \<Longrightarrow> text_encode s = b"
  by (auto simp: text_decode_def text_encode_def code_points_concat scalar_def
      dest!: utf8_dec_sound intro!: arg_cong [of _ _ concat] simp: list_all_iff cong: map_cong)

lemma text_decode_length: "text_decode b = Some s \<Longrightarrow> length (text_encode s) = length b"
  by (simp add: text_encode_decode)

lemma utf8_dec_concat: "list_all scalar cs \<Longrightarrow> utf8_dec (concat (map utf8_enc cs) @ r) = map_option (\<lambda>x. cs @ x) (utf8_dec r)"
  by (induction cs) (cases "utf8_dec r"; simp add: utf8_dec_enc)+

lemma utf8_dec_append:
  assumes "utf8_dec a = Some cs"
  shows "utf8_dec (a @ b) = map_option (\<lambda>x. cs @ x) (utf8_dec b)"
  using utf8_dec_sound [OF assms] utf8_dec_concat [of cs b] by simp


text \<open>An ASCII byte is a boundary of every well-formed sequence around it.\<close>

lemma utf8_dec_ascii_split:
  "utf8_dec (a @ x # b) = Some cs \<Longrightarrow> unat x < 128 \<Longrightarrow>
   \<exists>cs1 cs2. utf8_dec a = Some cs1 \<and> utf8_dec b = Some cs2 \<and> cs = cs1 @ unat x # cs2"
proof (induction "length a" arbitrary: a cs rule: less_induct)
  case less
  show ?case
  proof (cases a)
    case Nil
    with less.prems show ?thesis by (auto simp: utf8_dec_1)
  next
    case (Cons y r)
    have nc: "\<not> is_cont x" using less.prems(2) by (simp add: is_cont_def)
    from less.prems(1) [unfolded Cons append_Cons] show ?thesis
    proof (cases rule: utf8_dec_Cons_cases)
      case (one cs')
      with less.hyps [of r cs'] less.prems(2) Cons show ?thesis by (auto simp: utf8_dec_1)
    next
      case (two b' r' cs')
      with nc obtain r1 where "r = b' # r1" "r' = r1 @ x # b" by (cases r) auto
      with two less.hyps [of r1 cs'] less.prems(2) Cons show ?thesis by (auto simp: utf8_dec_2)
    next
      case (three b' c r' cs')
      with nc obtain r1 where "r = b' # c # r1" "r' = r1 @ x # b"
        by (cases r; cases "tl r") auto
      with three less.hyps [of r1 cs'] less.prems(2) Cons show ?thesis by (auto simp: utf8_dec_3)
    next
      case (four b' c d r' cs')
      with nc obtain r1 where "r = b' # c # d # r1" "r' = r1 @ x # b"
        by (cases r; cases "tl r"; cases "tl (tl r)") auto
      with four less.hyps [of r1 cs'] less.prems(2) Cons show ?thesis by (auto simp: utf8_dec_4)
    qed
  qed
qed

declare utf8_dec.simps(2) [simp del]

lemma text_decode_ascii_split:
  assumes "text_decode (a @ x # b) \<noteq> None" "unat x < 128"
  shows "text_decode a \<noteq> None \<and> text_decode b \<noteq> None"
  using assms utf8_dec_ascii_split [of a x b] by (auto simp: text_decode_def)

lemma text_decode_Nil [simp]: "text_decode [] = Some []"
  by (simp add: text_decode_def)

lemma text_encode_Nil [simp]: "text_encode [] = []"
  by (simp add: text_encode_def)

lemma text_decode_append:
  "text_decode a = Some s \<Longrightarrow> text_decode (a @ b) = map_option (\<lambda>t. s @ t) (text_decode b)"
  by (auto simp: text_decode_def utf8_dec_append option.map_comp comp_def)

text \<open>A string without unpaired surrogates survives encoding and decoding.\<close>

definition well_formed :: "jsstring \<Rightarrow> bool" where
  "well_formed s \<longleftrightarrow> list_all (\<lambda>c. \<not> surrogate c) (code_points s)"

lemma code_points_less: "c \<in> set (code_points s) \<Longrightarrow> c < 1114112"
proof (induction s rule: code_points.induct)
  case (2 u)
  then show ?case using cunit_less [of u] by simp
next
  case (3 u v s)
  then show ?case using cunit_less [of u] by (auto simp: high_surrogate_def low_surrogate_def split: if_splits)
qed simp

lemma utf16_code_points: "concat (map utf16_enc (code_points s)) = s"
proof (induction s rule: code_points.induct)
  case (2 u)
  then show ?case using cunit_less [of u] by (simp add: utf16_enc.simps)
next
  case (3 u v s)
  show ?case
  proof (cases "high_surrogate u \<and> low_surrogate v")
    case True
    then have h: "unat u = 55296 + (unat u - 55296)" "unat u - 55296 < 1024"
      and l: "unat v = 56320 + (unat v - 56320)" "unat v - 56320 < 1024"
      by (auto simp: high_surrogate_def low_surrogate_def)
    let ?c = "65536 + (unat u - 55296) * 1024 + (unat v - 56320)"
    have "(?c - 65536) div 1024 = unat u - 55296" "(?c - 65536) mod 1024 = unat v - 56320"
      using l(2) by simp_all
    then have "utf16_enc ?c = [of_nat (unat u), of_nat (unat v)]"
      unfolding utf16_enc.simps using h l by simp
    with True 3(1) show ?thesis by simp
  next
    case False
    then have "code_points (u # v # s) = unat u # code_points (v # s)" by auto
    moreover have "utf16_enc (unat u) = [u]" using cunit_less [of u] by (simp add: utf16_enc.simps)
    ultimately show ?thesis using 3(2) [OF False] by simp
  qed
qed simp

lemma text_decode_encode: "well_formed s \<Longrightarrow> text_decode (text_encode s) = Some s"
proof -
  assume wf: "well_formed s"
  then have "list_all scalar (code_points s)"
    by (auto simp: well_formed_def list_all_iff scalar_def dest: code_points_less)
  then have "utf8_dec (concat (map utf8_enc (code_points s))) = Some (code_points s)"
    using utf8_dec_concat [of "code_points s" "[]"] by simp
  moreover have "text_encode s = concat (map utf8_enc (code_points s))"
    using wf unfolding text_encode_def well_formed_def
    by (intro arg_cong [of _ _ concat] map_cong) (auto simp: list_all_iff)
  ultimately show ?thesis by (simp add: text_decode_def utf16_code_points)
qed

end
