(* ===== verification/Sha256.thy ===== *)
theory Sha256
  imports Prelude
begin

text \<open>SHA-256.\<close>

section \<open>The compression function\<close>

type_synonym w32 = "32 word"

definition rotr :: "nat \<Rightarrow> w32 \<Rightarrow> w32" where
  "rotr n x = drop_bit n x OR push_bit (32 - n) x"

definition bsig0 :: "w32 \<Rightarrow> w32" where
  "bsig0 x = rotr 2 x XOR rotr 13 x XOR rotr 22 x"

definition bsig1 :: "w32 \<Rightarrow> w32" where
  "bsig1 x = rotr 6 x XOR rotr 11 x XOR rotr 25 x"

definition ssig0 :: "w32 \<Rightarrow> w32" where
  "ssig0 x = rotr 7 x XOR rotr 18 x XOR drop_bit 3 x"

definition ssig1 :: "w32 \<Rightarrow> w32" where
  "ssig1 x = rotr 17 x XOR rotr 19 x XOR drop_bit 10 x"

definition Ch :: "w32 \<Rightarrow> w32 \<Rightarrow> w32 \<Rightarrow> w32" where
  "Ch x y z = (x AND y) XOR (NOT x AND z)"

definition Maj :: "w32 \<Rightarrow> w32 \<Rightarrow> w32 \<Rightarrow> w32" where
  "Maj x y z = (x AND y) XOR (x AND z) XOR (y AND z)"

text \<open>
  The constants as the standard derives them: the first 32 bits of the fractional parts of the cube
  roots (round constants) and square roots (initial state) of the first primes. \<open>root_bits e n k 0\<close> is
  the greatest number of \<open>k\<close> bits whose \<open>e\<close>-th power is at most \<open>n\<close>.
\<close>

fun root_bits :: "nat \<Rightarrow> nat \<Rightarrow> nat \<Rightarrow> nat \<Rightarrow> nat" where
  "root_bits e n 0 acc = acc"
| "root_bits e n (Suc k) acc =
     (if (acc + 2 ^ k) ^ e \<le> n then root_bits e n k (acc + 2 ^ k) else root_bits e n k acc)"

definition root_fraction :: "nat \<Rightarrow> nat \<Rightarrow> w32" where
  "root_fraction e p = of_nat (root_bits e (p * 2 ^ (32 * e)) 37 0)"

definition primes_below :: "nat \<Rightarrow> nat list" where
  "primes_below n = filter (\<lambda>p. \<forall>d \<in> set [2..<p]. p mod d \<noteq> 0) [2..<n]"

definition K256 :: "w32 list" where
  "K256 = map (root_fraction 3) (primes_below 312)"

type_synonym hstate = "w32 \<times> w32 \<times> w32 \<times> w32 \<times> w32 \<times> w32 \<times> w32 \<times> w32"

definition H0 :: hstate where
  "H0 = (root_fraction 2 2, root_fraction 2 3, root_fraction 2 5, root_fraction 2 7,
         root_fraction 2 11, root_fraction 2 13, root_fraction 2 17, root_fraction 2 19)"

text \<open>The message schedule as a sliding window of sixteen words.\<close>

fun schedule_step :: "w32 list \<Rightarrow> w32 list" where
  "schedule_step ws = tl ws @ [ssig1 (ws ! 14) + ws ! 9 + ssig0 (ws ! 1) + ws ! 0]"

fun round_step :: "w32 \<Rightarrow> w32 \<Rightarrow> hstate \<Rightarrow> hstate" where
  "round_step k w (a, b, c, d, e, f, g, h) =
     (let t1 = h + bsig1 e + Ch e f g + k + w; t2 = bsig0 a + Maj a b c
      in (t1 + t2, a, b, c, d + t1, e, f, g))"

fun rounds :: "w32 list \<Rightarrow> w32 list \<Rightarrow> hstate \<Rightarrow> hstate" where
  "rounds [] ws st = st"
| "rounds (k # ks) ws st = rounds ks (schedule_step ws) (round_step k (ws ! 0) st)"

fun add_state :: "hstate \<Rightarrow> hstate \<Rightarrow> hstate" where
  "add_state (a, b, c, d, e, f, g, h) (a', b', c', d', e', f', g', h') =
     (a + a', b + b', c + c', d + d', e + e', f + f', g + g', h + h')"

section \<open>Padding and blocks\<close>

definition be32 :: "byte \<Rightarrow> byte \<Rightarrow> byte \<Rightarrow> byte \<Rightarrow> w32" where
  "be32 a b c d = push_bit 24 (ucast a) OR push_bit 16 (ucast b) OR push_bit 8 (ucast c) OR ucast d"

fun words_of :: "byte list \<Rightarrow> w32 list" where
  "words_of (a # b # c # d # r) = be32 a b c d # words_of r"
| "words_of _ = []"

definition bytes_of :: "w32 \<Rightarrow> byte list" where
  "bytes_of w = [ucast (drop_bit 24 w), ucast (drop_bit 16 w), ucast (drop_bit 8 w), ucast w]"

definition len_bytes :: "64 word \<Rightarrow> byte list" where
  "len_bytes n = map (\<lambda>i. ucast (drop_bit i n)) [56, 48, 40, 32, 24, 16, 8, 0]"

definition pad :: "byte list \<Rightarrow> byte list" where
  "pad m = m @ 0x80 # replicate ((119 - length m mod 64) mod 64) 0 @ len_bytes (8 * of_nat (length m))"

function compress :: "byte list \<Rightarrow> hstate \<Rightarrow> hstate" where
  "compress m st =
     (if m = [] then st
      else compress (drop 64 m) (add_state st (rounds K256 (words_of (take 64 m)) st)))"
  by pat_completeness auto
termination
  by (relation "measure (\<lambda>(m, st). length m)") auto

declare compress.simps [simp del]

fun digest_of :: "hstate \<Rightarrow> byte list" where
  "digest_of (a, b, c, d, e, f, g, h) = concat (map bytes_of [a, b, c, d, e, f, g, h])"

definition sha256 :: "byte list \<Rightarrow> byte list" where
  "sha256 m = digest_of (compress (pad m) H0)"

lemma length_digest_of: "length (digest_of st) = 32"
  by (cases st rule: digest_of.cases) (simp add: bytes_of_def)

lemma length_sha256 [simp]: "length (sha256 m) = 32"
  by (simp add: sha256_def length_digest_of)

end
