(* ===== verification/Hex.thy ===== *)
theory Hex
  imports Js_Values Sha256
begin

text \<open>
  Hexadecimal digests: \<open>Buffer.toString('hex')\<close>, \<open>Buffer.from(text, 'hex')\<close> and the lowercase
  64-digit pattern every digest field of the source is checked against; and the interface of the
  digest function, discharged for SHA-256.
\<close>

section \<open>Hexadecimal text\<close>

definition hex_digit :: "nat \<Rightarrow> cunit" where
  "hex_digit n = of_nat (if n < 10 then 48 + n else 87 + n)"

definition hex :: "byte list \<Rightarrow> jsstring" where
  "hex bs = concat (map (\<lambda>b. [hex_digit (unat b div 16), hex_digit (unat b mod 16)]) bs)"

definition hex_value :: "cunit \<Rightarrow> nat option" where
  "hex_value u =
     (if 48 \<le> unat u \<and> unat u \<le> 57 then Some (unat u - 48)
      else if 97 \<le> unat u \<and> unat u \<le> 102 then Some (unat u - 87)
      else if 65 \<le> unat u \<and> unat u \<le> 70 then Some (unat u - 55) else None)"

text \<open>Node stops at the first pair that is not two hexadecimal digits.\<close>

fun unhex :: "jsstring \<Rightarrow> byte list" where
  "unhex (a # b # r) =
     (case (hex_value a, hex_value b) of
        (Some x, Some y) \<Rightarrow> of_nat (16 * x + y) # unhex r
      | _ \<Rightarrow> [])"
| "unhex _ = []"

definition lower_hex :: "cunit \<Rightarrow> bool" where
  "lower_hex u \<longleftrightarrow> 48 \<le> unat u \<and> unat u \<le> 57 \<or> 97 \<le> unat u \<and> unat u \<le> 102"

definition HEX64_PATTERN :: "jsstring \<Rightarrow> bool" where
  "HEX64_PATTERN s \<longleftrightarrow> length s = 64 \<and> list_all lower_hex s"

lemma unat_hex_digit: "n < 16 \<Longrightarrow> unat (hex_digit n) = (if n < 10 then 48 + n else 87 + n)"
  unfolding hex_digit_def by (rule unat_cunit) simp

lemma hex_value_digit [simp]: "n < 16 \<Longrightarrow> hex_value (hex_digit n) = Some n"
  by (simp add: hex_value_def unat_hex_digit)

lemma lower_hex_digit: "n < 16 \<Longrightarrow> lower_hex (hex_digit n)"
  by (simp add: lower_hex_def unat_hex_digit)

lemma byte_halves: "unat (b :: byte) div 16 < 16"
  by (rule less_mult_imp_div_less) (use byte_less [of b] in simp)

lemma unhex_hex [simp]: "unhex (hex bs) = bs"
proof (induction bs)
  case (Cons b bs)
  have "16 * (unat b div 16) + unat b mod 16 = unat b" by simp
  with Cons show ?case by (simp add: hex_def byte_halves del: of_nat_add of_nat_mult)
qed (simp add: hex_def)

lemma hex_inj [simp]: "hex a = hex b \<longleftrightarrow> a = b"
  using unhex_hex by metis

lemma length_hex [simp]: "length (hex bs) = 2 * length bs"
  by (induction bs) (simp_all add: hex_def)

lemma hex_lower: "list_all lower_hex (hex bs)"
  by (induction bs) (simp_all add: hex_def lower_hex_digit byte_halves)

lemma HEX64_hex: "length d = 32 \<Longrightarrow> HEX64_PATTERN (hex d)"
  by (simp add: HEX64_PATTERN_def hex_lower)

lemma lower_hex_value:
  "lower_hex u \<Longrightarrow> \<exists>n < 16. hex_value u = Some n \<and> hex_digit n = u"
proof -
  assume "lower_hex u"
  then consider "48 \<le> unat u" "unat u \<le> 57" | "97 \<le> unat u" "unat u \<le> 102"
    by (auto simp: lower_hex_def)
  then show ?thesis
  proof cases
    case 1
    then have "unat u - 48 < 10" by linarith
    with 1 have "hex_digit (unat u - 48) = u" by (simp add: hex_digit_def del: of_nat_diff)
    with 1 show ?thesis by (intro exI [of _ "unat u - 48"]) (simp add: hex_value_def)
  next
    case 2
    then have "\<not> unat u - 87 < 10" by linarith
    with 2 have "hex_digit (unat u - 87) = u" by (simp add: hex_digit_def del: of_nat_diff)
    with 2 show ?thesis by (intro exI [of _ "unat u - 87"]) (simp add: hex_value_def)
  qed
qed

lemma hex_unhex_even: "list_all lower_hex s \<Longrightarrow> even (length s) \<Longrightarrow> hex (unhex s) = s"
proof (induction s rule: unhex.induct)
  case (1 a b r)
  from 1 lower_hex_value [of a] lower_hex_value [of b] obtain x y where
    x: "x < 16" "hex_value a = Some x" "hex_digit x = a" and
    y: "y < 16" "hex_value b = Some y" "hex_digit y = b" by auto
  have "unat (of_nat (16 * x + y) :: byte) = 16 * x + y"
    by (rule unat_byte) (use x(1) y(1) in linarith)
  with 1 x y show ?case by (simp add: hex_def del: of_nat_add of_nat_mult)
qed (simp_all add: hex_def)

lemma hex_unhex [simp]: "HEX64_PATTERN s \<Longrightarrow> hex (unhex s) = s"
  by (simp add: HEX64_PATTERN_def hex_unhex_even)

lemma length_unhex: "HEX64_PATTERN s \<Longrightarrow> length (unhex s) = 32"
  using length_hex [of "unhex s"] by (simp add: HEX64_PATTERN_def hex_unhex_even)

section \<open>Numerals\<close>

text \<open>\<open>n.toString(base)\<close> for bases up to 16.\<close>

function to_base :: "nat \<Rightarrow> nat \<Rightarrow> jsstring" where
  "to_base base n =
     (if base < 2 \<or> n < base then [hex_digit n] else to_base base (n div base) @ [hex_digit (n mod base)])"
  by pat_completeness auto
termination
  by (relation "measure (\<lambda>(base, n). n)") (auto intro!: div_less_dividend)

declare to_base.simps [simp del]

lemma to_base_digit: "2 \<le> b \<Longrightarrow> b \<le> 16 \<Longrightarrow> u \<in> set (to_base b n) \<Longrightarrow> \<exists>d < b. u = hex_digit d"
proof (induction n rule: less_induct)
  case (less n)
  show ?case
  proof (cases "n < b")
    case True
    with less.prems show ?thesis by (auto simp: to_base.simps [of b n])
  next
    case False
    with less.prems have "u \<in> set (to_base b (n div b)) \<or> u = hex_digit (n mod b)"
      by (auto simp: to_base.simps [of b n])
    moreover have "n mod b < b" "n div b < n" using False less.prems by (auto intro!: div_less_dividend)
    ultimately show ?thesis using less.IH [of "n div b"] less.prems by blast
  qed
qed

lemma to_base_not_Nil [simp]: "to_base b n \<noteq> []"
  by (subst to_base.simps) simp

section \<open>The digest interface\<close>

text \<open>
  What the source relies on of \<open>createHash('sha256')\<close>: every digest has 32 bytes. Collision
  resistance is never assumed globally; where a property needs it, it is a hypothesis on the
  finitely many inputs the computation hashes.
\<close>

type_synonym hashfn = "byte list \<Rightarrow> byte list"

locale digest =
  fixes H :: hashfn
  assumes digest_length [simp]: "length (H m) = 32"
begin

lemma HEX64_digest [simp]: "HEX64_PATTERN (hex (H m))"
  by (simp add: HEX64_hex)

end

interpretation sha: digest sha256
  by unfold_locales simp

end
