(* ===== verification/Chunk_Manifest.thy ===== *)
theory Chunk_Manifest
  imports Hex "HOL-Library.Log_Nat"
begin

text \<open>
  \<open>packages/server/src/artifact-chunk-manifest.ts\<close>: chunking, domain-separated chunk hashes, the
  Merkle tree with its odd-node duplication rule, inclusion proofs, and the validators and verifiers
  of manifests and proofs. Every operation takes the digest function \<open>H\<close> (\<open>createHash('sha256')\<close>).
\<close>

section \<open>Hash profile and bounds\<close>

definition ARTIFACT_CHUNK_MERKLE_PROFILE_VERSION :: jsstring where
  "ARTIFACT_CHUNK_MERKLE_PROFILE_VERSION = js ''artifact-chunk-merkle/0.1''"

definition rawDigest :: "hashfn \<Rightarrow> byte list \<Rightarrow> byte list" where
  "rawDigest H bytes = H bytes"

definition merkleLeafDigest :: "hashfn \<Rightarrow> byte list \<Rightarrow> byte list" where
  "merkleLeafDigest H chunkBytes = H (0x00 # chunkBytes)"

definition parentDigest :: "hashfn \<Rightarrow> byte list \<Rightarrow> byte list \<Rightarrow> byte list" where
  "parentDigest H left right = H (0x01 # left @ right)"

definition EMPTY_MERKLE_ROOT_DIGEST :: "hashfn \<Rightarrow> byte list" where
  "EMPTY_MERKLE_ROOT_DIGEST H = H [0x02]"

definition EMPTY_ARTIFACT_MERKLE_ROOT :: "hashfn \<Rightarrow> jsstring" where
  "EMPTY_ARTIFACT_MERKLE_ROOT H = hex (EMPTY_MERKLE_ROOT_DIGEST H)"

definition ALLOWED_CHUNK_SIZES :: "int list" where
  "ALLOWED_CHUNK_SIZES = [1024, 4096, 8192]"

definition DEFAULT_CHUNK_SIZE :: jsnum where
  "DEFAULT_CHUNK_SIZE = JInt 4096"

definition MAX_CALIBRATION_SOURCE_BYTES :: int where
  [limits]: "MAX_CALIBRATION_SOURCE_BYTES = 1048576"

definition MAX_CHUNK_COUNT :: int where
  [limits]: "MAX_CHUNK_COUNT = 4096"

definition MAX_MERKLE_PROOF_DEPTH :: int where
  [limits]: "MAX_MERKLE_PROOF_DEPTH = 32"

definition isAllowedChunkSize :: "jsnum \<Rightarrow> bool" where
  "isAllowedChunkSize value \<longleftrightarrow> value \<in> set (map JInt ALLOWED_CHUNK_SIZES)"

section \<open>Errors, manifests and proofs\<close>

datatype chunk_error =
    INVALID_INPUT_TYPE | UNSUPPORTED_CHUNK_SIZE | SOURCE_TOO_LARGE | CHUNK_COUNT_EXCEEDED
  | PROOF_DEPTH_EXCEEDED | INVALID_CHUNK_INDEX | MALFORMED_DIGEST | MALFORMED_PROOF_POSITION
  | INCONSISTENT_MANIFEST

fun assertIsUint8Array :: "jsval \<Rightarrow> chunk_error + byte list" where
  "assertIsUint8Array (VBytes b) = Inr b"
| "assertIsUint8Array _ = Inl INVALID_INPUT_TYPE"

record chunk_entry =
  chunkIndex :: jsnum
  byteStart :: jsnum
  byteLength :: jsnum
  chunkSha256 :: jsstring
  merkleLeafSha256 :: jsstring

record chunk_manifest =
  profileVersion :: jsstring
  sourceSha256 :: jsstring
  m_byteLength :: jsnum
  chunkSize :: jsnum
  chunkCount :: jsnum
  chunks :: "chunk_entry list"
  merkleRoot :: jsstring

text \<open>A proof node's position is the string the proof carries, checked before it is used.\<close>

record proof_node =
  siblingPosition :: jsstring
  siblingSha256 :: jsstring

record chunk_proof =
  p_profileVersion :: jsstring
  p_sourceSha256 :: jsstring
  sourceByteLength :: jsnum
  p_chunkSize :: jsnum
  totalChunkCount :: jsnum
  p_chunkIndex :: jsnum
  p_byteStart :: jsnum
  p_byteLength :: jsnum
  p_chunkSha256 :: jsstring
  p_merkleLeafSha256 :: jsstring
  proof_nodes :: "proof_node list"

definition LEFT :: jsstring where "LEFT = js ''left''"
definition RIGHT :: jsstring where "RIGHT = js ''right''"

section \<open>Merkle tree construction\<close>

text \<open>One level up: neighbours are paired, an unpaired last node is paired with itself.\<close>

fun next_level :: "hashfn \<Rightarrow> byte list list \<Rightarrow> byte list list" where
  "next_level H [] = []"
| "next_level H [x] = [parentDigest H x x]"
| "next_level H (x # y # r) = parentDigest H x y # next_level H r"

lemma length_next_level: "length (next_level H xs) = (length xs + 1) div 2"
  by (induction H xs rule: next_level.induct) auto

function levels_from :: "hashfn \<Rightarrow> byte list list \<Rightarrow> byte list list list" where
  "levels_from H current =
     (if 1 < length current then current # levels_from H (next_level H current) else [current])"
  by pat_completeness auto
termination
  by (relation "measure (\<lambda>(H, xs). length xs)") (auto simp: length_next_level)

declare levels_from.simps [simp del]

definition buildMerkleLevels :: "hashfn \<Rightarrow> byte list list \<Rightarrow> byte list list list" where
  "buildMerkleLevels H leaves =
     (if leaves = [] then [[EMPTY_MERKLE_ROOT_DIGEST H]] else levels_from H leaves)"

text \<open>\<open>levels[levels.length - 1]?.[0]\<close>\<close>

definition root_of :: "byte list list list \<Rightarrow> byte list option" where
  "root_of levels = (if levels = [] then None else elem_at (last levels) 0)"

definition expectedProofDepthFor :: "int \<Rightarrow> int" where
  "expectedProofDepthFor n = (if n \<le> 1 then 0 else int (ceillog2 (nat n)))"

text \<open>The loop visits every level but the last, halving the index each time.\<close>

fun buildProofNodesFromLevels ::
    "byte list list list \<Rightarrow> nat \<Rightarrow> chunk_error + proof_node list" where
  "buildProofNodesFromLevels (current # up # rest) index =
     (let isRightChild = index mod 2 = 1;
          siblingIndex = (if isRightChild then index - 1 else index + 1);
          siblingDigest =
            (if siblingIndex < length current then elem_at current siblingIndex else elem_at current index)
      in case siblingDigest of
           None \<Rightarrow> Inl INCONSISTENT_MANIFEST
         | Some d \<Rightarrow>
             (case buildProofNodesFromLevels (up # rest) (index div 2) of
                Inl e \<Rightarrow> Inl e
              | Inr nodes \<Rightarrow>
                  Inr (\<lparr>siblingPosition = (if isRightChild then LEFT else RIGHT),
                        siblingSha256 = hex d\<rparr> # nodes)))"
| "buildProofNodesFromLevels _ index = Inr []"

section \<open>Manifest validation\<close>

text \<open>
  One iteration of the loop over \<open>manifest.chunks\<close>: the checks on chunk \<open>i\<close>, given the running
  \<open>expectedStart\<close>.
\<close>

definition check_chunk :: "chunk_manifest \<Rightarrow> nat \<Rightarrow> int \<Rightarrow> chunk_entry \<Rightarrow> chunk_error + unit" where
  "check_chunk manifest i expectedStart chunk =
     (let csize = num_int (chunkSize manifest);
          isFinal = (i = length (chunks manifest) - 1);
          expectedByteLength =
            (if isFinal then num_int (m_byteLength manifest) - num_int (byteStart chunk) else csize)
      in if chunkIndex chunk \<noteq> JInt (int i) then Inl INCONSISTENT_MANIFEST
         else if byteStart chunk \<noteq> JInt (int i * csize) then Inl INCONSISTENT_MANIFEST
         else if byteStart chunk \<noteq> JInt expectedStart then Inl INCONSISTENT_MANIFEST
         else if byteLength chunk \<noteq> JInt expectedByteLength then Inl INCONSISTENT_MANIFEST
         else if num_lt (byteLength chunk) 1 \<or> num_gt (byteLength chunk) csize then Inl INCONSISTENT_MANIFEST
         else if \<not> HEX64_PATTERN (chunkSha256 chunk) then Inl MALFORMED_DIGEST
         else if \<not> HEX64_PATTERN (merkleLeafSha256 chunk) then Inl MALFORMED_DIGEST
         else Inr ())"

text \<open>The loop: it returns the leaf digests and the final \<open>expectedStart\<close>.\<close>

fun check_chunks ::
    "chunk_manifest \<Rightarrow> nat \<Rightarrow> int \<Rightarrow> chunk_entry list \<Rightarrow> chunk_error + (byte list list \<times> int)" where
  "check_chunks manifest i expectedStart [] = Inr ([], expectedStart)"
| "check_chunks manifest i expectedStart (chunk # rest) =
     (case check_chunk manifest i expectedStart chunk of
        Inl e \<Rightarrow> Inl e
      | Inr _ \<Rightarrow>
          (case check_chunks manifest (Suc i) (expectedStart + num_int (byteLength chunk)) rest of
             Inl e \<Rightarrow> Inl e
           | Inr (leafDigests, end) \<Rightarrow> Inr (unhex (merkleLeafSha256 chunk) # leafDigests, end)))"

text \<open>\<open>Math.ceil(a / b)\<close> for a positive divisor.\<close>

definition ceil_div :: "int \<Rightarrow> int \<Rightarrow> int" where
  "ceil_div a b = - ((- a) div b)"

definition assertManifestConsistent :: "hashfn \<Rightarrow> chunk_manifest \<Rightarrow> chunk_error + unit" where
  "assertManifestConsistent H manifest =
     (if profileVersion manifest \<noteq> ARTIFACT_CHUNK_MERKLE_PROFILE_VERSION then Inl INCONSISTENT_MANIFEST
      else if \<not> isAllowedChunkSize (chunkSize manifest) then Inl UNSUPPORTED_CHUNK_SIZE
      else if \<not> isInteger (m_byteLength manifest) \<or> num_lt (m_byteLength manifest) 0
        then Inl INCONSISTENT_MANIFEST
      else if num_gt (chunkCount manifest) MAX_CHUNK_COUNT then Inl CHUNK_COUNT_EXCEEDED
      else if num_gt (m_byteLength manifest) MAX_CALIBRATION_SOURCE_BYTES then Inl SOURCE_TOO_LARGE
      else
        (let len = num_int (m_byteLength manifest);
             expectedChunkCount = (if len = 0 then 0 else ceil_div len (num_int (chunkSize manifest)))
         in if chunkCount manifest \<noteq> JInt expectedChunkCount then Inl INCONSISTENT_MANIFEST
            else if \<not> HEX64_PATTERN (sourceSha256 manifest) then Inl MALFORMED_DIGEST
            else if \<not> HEX64_PATTERN (merkleRoot manifest) then Inl MALFORMED_DIGEST
            else if chunkCount manifest \<noteq> JInt (int (length (chunks manifest)))
              then Inl INCONSISTENT_MANIFEST
            else
              (case check_chunks manifest 0 0 (chunks manifest) of
                 Inl e \<Rightarrow> Inl e
               | Inr (leafDigests, expectedStart) \<Rightarrow>
                   if m_byteLength manifest \<noteq> JInt expectedStart then Inl INCONSISTENT_MANIFEST
                   else
                     (case root_of (buildMerkleLevels H leafDigests) of
                        None \<Rightarrow> Inl INCONSISTENT_MANIFEST
                      | Some reconstructedRoot \<Rightarrow>
                          if hex reconstructedRoot \<noteq> merkleRoot manifest then Inl INCONSISTENT_MANIFEST
                          else Inr ()))))"

section \<open>Proof shape validation\<close>

definition check_proof_node :: "proof_node \<Rightarrow> chunk_error + unit" where
  "check_proof_node node =
     (if siblingPosition node \<noteq> LEFT \<and> siblingPosition node \<noteq> RIGHT then Inl MALFORMED_PROOF_POSITION
      else if \<not> HEX64_PATTERN (siblingSha256 node) then Inl MALFORMED_DIGEST
      else Inr ())"

definition assertProofShapeConsistent :: "chunk_proof \<Rightarrow> chunk_error + unit" where
  "assertProofShapeConsistent p =
     (if p_profileVersion p \<noteq> ARTIFACT_CHUNK_MERKLE_PROFILE_VERSION then Inl INCONSISTENT_MANIFEST
      else if \<not> isAllowedChunkSize (p_chunkSize p) then Inl UNSUPPORTED_CHUNK_SIZE
      else if MAX_MERKLE_PROOF_DEPTH < int (length (proof_nodes p)) then Inl PROOF_DEPTH_EXCEEDED
      else if \<not> isInteger (sourceByteLength p) \<or> num_lt (sourceByteLength p) 1
              \<or> num_gt (sourceByteLength p) MAX_CALIBRATION_SOURCE_BYTES
        then Inl INCONSISTENT_MANIFEST
      else if \<not> isInteger (totalChunkCount p) \<or> num_lt (totalChunkCount p) 1 then Inl INCONSISTENT_MANIFEST
      else if num_gt (totalChunkCount p) MAX_CHUNK_COUNT then Inl CHUNK_COUNT_EXCEEDED
      else if totalChunkCount p
              \<noteq> JInt (ceil_div (num_int (sourceByteLength p)) (num_int (p_chunkSize p)))
        then Inl INCONSISTENT_MANIFEST
      else if \<not> isInteger (p_chunkIndex p) \<or> num_lt (p_chunkIndex p) 0 then Inl INVALID_CHUNK_INDEX
      else if num_int (p_chunkIndex p) \<ge> num_int (totalChunkCount p) then Inl INVALID_CHUNK_INDEX
      else if p_byteStart p \<noteq> JInt (num_int (p_chunkIndex p) * num_int (p_chunkSize p))
        then Inl INCONSISTENT_MANIFEST
      else
        (let isFinalChunk = (num_int (p_chunkIndex p) = num_int (totalChunkCount p) - 1);
             expectedByteLength =
               (if isFinalChunk then num_int (sourceByteLength p) - num_int (p_byteStart p)
                else num_int (p_chunkSize p))
         in if p_byteLength p \<noteq> JInt expectedByteLength then Inl INCONSISTENT_MANIFEST
            else if \<not> isInteger (p_byteLength p) \<or> num_lt (p_byteLength p) 1
                    \<or> num_gt (p_byteLength p) (num_int (p_chunkSize p))
              then Inl INCONSISTENT_MANIFEST
            else if \<not> HEX64_PATTERN (p_sourceSha256 p) then Inl MALFORMED_DIGEST
            else if \<not> HEX64_PATTERN (p_chunkSha256 p) then Inl MALFORMED_DIGEST
            else if \<not> HEX64_PATTERN (p_merkleLeafSha256 p) then Inl MALFORMED_DIGEST
            else if int (length (proof_nodes p)) \<noteq> expectedProofDepthFor (num_int (totalChunkCount p))
              then Inl INCONSISTENT_MANIFEST
            else eachE check_proof_node (proof_nodes p)))"

section \<open>The worker functions\<close>

definition chunk_entry_at :: "hashfn \<Rightarrow> byte list \<Rightarrow> nat \<Rightarrow> nat \<Rightarrow> chunk_entry" where
  "chunk_entry_at H source csize i =
     (let start = i * csize; end = min (start + csize) (length source);
          chunkBytes = subarray start end source
      in \<lparr>chunkIndex = JInt (int i), byteStart = JInt (int start), byteLength = JInt (int (end - start)),
          chunkSha256 = hex (rawDigest H chunkBytes),
          merkleLeafSha256 = hex (merkleLeafDigest H chunkBytes)\<rparr>)"

definition leaf_digest_at :: "hashfn \<Rightarrow> byte list \<Rightarrow> nat \<Rightarrow> nat \<Rightarrow> byte list" where
  "leaf_digest_at H source csize i =
     (let start = i * csize; end = min (start + csize) (length source)
      in merkleLeafDigest H (subarray start end source))"

definition buildArtifactChunkManifest ::
    "hashfn \<Rightarrow> jsval \<Rightarrow> jsnum \<Rightarrow> chunk_error + chunk_manifest" where
  "buildArtifactChunkManifest H bytes csize =
     (case assertIsUint8Array bytes of
        Inl e \<Rightarrow> Inl e
      | Inr source \<Rightarrow>
          if \<not> isAllowedChunkSize csize then Inl UNSUPPORTED_CHUNK_SIZE
          else if MAX_CALIBRATION_SOURCE_BYTES < int (length source) then Inl SOURCE_TOO_LARGE
          else
            (let count = (if source = [] then 0 else ceil_div (int (length source)) (num_int csize))
             in if MAX_CHUNK_COUNT < count then Inl CHUNK_COUNT_EXCEEDED
                else
                  (let entries = map (chunk_entry_at H source (nat (num_int csize))) [0..<nat count];
                       leafDigests = map (leaf_digest_at H source (nat (num_int csize))) [0..<nat count]
                   in case root_of (buildMerkleLevels H leafDigests) of
                        None \<Rightarrow> Inl INCONSISTENT_MANIFEST
                      | Some rootDigest \<Rightarrow>
                          Inr \<lparr>profileVersion = ARTIFACT_CHUNK_MERKLE_PROFILE_VERSION,
                               sourceSha256 = hex (rawDigest H source),
                               m_byteLength = JInt (int (length source)),
                               chunkSize = csize,
                               chunkCount = JInt count,
                               chunks = entries,
                               merkleRoot = hex rootDigest\<rparr>)))"

definition buildArtifactChunkProof ::
    "hashfn \<Rightarrow> chunk_manifest \<Rightarrow> jsnum \<Rightarrow> chunk_error + chunk_proof" where
  "buildArtifactChunkProof H manifest index =
     (case assertManifestConsistent H manifest of
        Inl e \<Rightarrow> Inl e
      | Inr _ \<Rightarrow>
          if \<not> isInteger index \<or> num_lt index 0 \<or> num_int index \<ge> num_int (chunkCount manifest)
          then Inl INVALID_CHUNK_INDEX
          else
            (let i = nat (num_int index);
                 leafDigests = map (\<lambda>chunk. unhex (merkleLeafSha256 chunk)) (chunks manifest);
                 levels = buildMerkleLevels H leafDigests
             in case buildProofNodesFromLevels levels i of
                  Inl e \<Rightarrow> Inl e
                | Inr proofNodes \<Rightarrow>
                    if MAX_MERKLE_PROOF_DEPTH < int (length proofNodes) then Inl PROOF_DEPTH_EXCEEDED
                    else
                      (case elem_at (chunks manifest) i of
                         None \<Rightarrow> Inl INVALID_CHUNK_INDEX
                       | Some chunk \<Rightarrow>
                           Inr \<lparr>p_profileVersion = profileVersion manifest,
                                p_sourceSha256 = sourceSha256 manifest,
                                sourceByteLength = m_byteLength manifest,
                                p_chunkSize = chunkSize manifest,
                                totalChunkCount = chunkCount manifest,
                                p_chunkIndex = chunkIndex chunk,
                                p_byteStart = byteStart chunk,
                                p_byteLength = byteLength chunk,
                                p_chunkSha256 = chunkSha256 chunk,
                                p_merkleLeafSha256 = merkleLeafSha256 chunk,
                                proof_nodes = proofNodes\<rparr>)))"

text \<open>
  The loop of the verifier over the proof nodes. \<open>None\<close> is an early \<open>return false\<close>; otherwise the
  digest reached and the width of the level reached.
\<close>

fun walk_proof :: "hashfn \<Rightarrow> byte list \<Rightarrow> nat \<Rightarrow> nat \<Rightarrow> proof_node list \<Rightarrow> (byte list \<times> nat) option" where
  "walk_proof H current index width [] = Some (current, width)"
| "walk_proof H current index width (node # rest) =
     (if width mod 2 = 1 \<and> index = width - 1 then
        if siblingPosition node \<noteq> RIGHT then None
        else if siblingSha256 node \<noteq> hex current then None
        else walk_proof H (parentDigest H current current) (index div 2) ((width + 1) div 2) rest
      else
        (let expectedPosition = (if index mod 2 = 1 then LEFT else RIGHT)
         in if siblingPosition node \<noteq> expectedPosition then None
            else
              (let siblingDigest = unhex (siblingSha256 node)
               in walk_proof H
                    (if siblingPosition node = LEFT then parentDigest H siblingDigest current
                     else parentDigest H current siblingDigest)
                    (index div 2) ((width + 1) div 2) rest)))"

definition verifyArtifactChunkProof ::
    "hashfn \<Rightarrow> jsval \<Rightarrow> chunk_proof \<Rightarrow> jsstring \<Rightarrow> chunk_error + bool" where
  "verifyArtifactChunkProof H chunkBytes p expectedRoot =
     (case assertIsUint8Array chunkBytes of
        Inl e \<Rightarrow> Inl e
      | Inr bytes \<Rightarrow>
          (case assertProofShapeConsistent p of
             Inl e \<Rightarrow> Inl e
           | Inr _ \<Rightarrow>
               if \<not> HEX64_PATTERN expectedRoot then Inl MALFORMED_DIGEST
               else if p_byteLength p \<noteq> JInt (int (length bytes)) then Inr False
               else if hex (rawDigest H bytes) \<noteq> p_chunkSha256 p then Inr False
               else if hex (merkleLeafDigest H bytes) \<noteq> p_merkleLeafSha256 p then Inr False
               else
                 (case walk_proof H (merkleLeafDigest H bytes) (nat (num_int (p_chunkIndex p)))
                         (nat (num_int (totalChunkCount p))) (proof_nodes p) of
                    None \<Rightarrow> Inr False
                  | Some (current, width) \<Rightarrow>
                      if width \<noteq> 1 then Inr False else Inr (hex current = expectedRoot))))"

text \<open>The loop of the source verifier: \<open>None\<close> is an early \<open>return false\<close>, otherwise the leaf digests.\<close>

fun recompute_leaves :: "hashfn \<Rightarrow> byte list \<Rightarrow> chunk_entry list \<Rightarrow> byte list list option" where
  "recompute_leaves H source [] = Some []"
| "recompute_leaves H source (chunk # rest) =
     (let start = nat (num_int (byteStart chunk));
          chunkBytes = subarray start (start + nat (num_int (byteLength chunk))) source
      in if hex (rawDigest H chunkBytes) \<noteq> chunkSha256 chunk then None
         else if hex (merkleLeafDigest H chunkBytes) \<noteq> merkleLeafSha256 chunk then None
         else map_option (Cons (merkleLeafDigest H chunkBytes)) (recompute_leaves H source rest))"

definition verifyArtifactSourceManifest ::
    "hashfn \<Rightarrow> jsval \<Rightarrow> chunk_manifest \<Rightarrow> chunk_error + bool" where
  "verifyArtifactSourceManifest H sourceBytes manifest =
     (case assertIsUint8Array sourceBytes of
        Inl e \<Rightarrow> Inl e
      | Inr source \<Rightarrow>
          (case assertManifestConsistent H manifest of
             Inl e \<Rightarrow> Inl e
           | Inr _ \<Rightarrow>
               if m_byteLength manifest \<noteq> JInt (int (length source)) then Inr False
               else if hex (rawDigest H source) \<noteq> sourceSha256 manifest then Inr False
               else
                 (case recompute_leaves H source (chunks manifest) of
                    None \<Rightarrow> Inr False
                  | Some recomputedLeafDigests \<Rightarrow>
                      (case root_of (buildMerkleLevels H recomputedLeafDigests) of
                         None \<Rightarrow> Inr False
                       | Some recomputedRoot \<Rightarrow>
                           if hex recomputedRoot \<noteq> merkleRoot manifest then Inr False else Inr True))))"

end
