(* ===== verification/Merkle_Tree.thy ===== *)
theory Merkle_Tree
  imports Chunk_Manifest
begin

text \<open>
  The Merkle tree behind the manifests: the levels end in one root, every leaf has a proof of the
  expected depth that walks back to the root (completeness), and a walk that reaches the root started
  from the leaf the tree holds at that position, unless the digest collides on an input that was
  hashed (soundness). The lemmas are proved for any function with the digest interface.
\<close>

section \<open>The root as a recursion over the levels\<close>

function mroot :: "hashfn \<Rightarrow> byte list list \<Rightarrow> byte list" where
  "mroot H xs = (if 1 < length xs then mroot H (next_level H xs) else hd xs)"
  by pat_completeness auto
termination
  by (relation "measure (\<lambda>(H, xs). length xs)") (auto simp: length_next_level)

declare mroot.simps [simp del]

lemma mroot_rec: "1 < length xs \<Longrightarrow> mroot H xs = mroot H (next_level H xs)"
  by (simp add: mroot.simps [of H xs])

lemma mroot_single [simp]: "mroot H [x] = x"
  by (simp add: mroot.simps)

lemma next_level_eq_Nil [simp]: "next_level H xs = [] \<longleftrightarrow> xs = []"
  by (induction H xs rule: next_level.induct) auto

lemma levels_from_rec: "1 < length xs \<Longrightarrow> levels_from H xs = xs # levels_from H (next_level H xs)"
  by (simp add: levels_from.simps [of H xs])

lemma levels_from_single [simp]: "levels_from H [x] = [[x]]"
  by (simp add: levels_from.simps)

lemma levels_from_not_Nil [simp]: "levels_from H xs \<noteq> []"
  by (simp add: levels_from.simps [of H xs])

lemma root_of_Cons: "ls \<noteq> [] \<Longrightarrow> root_of (l # ls) = root_of ls"
  by (simp add: root_of_def)

lemma length_cases_1:
  assumes "xs \<noteq> []"
  obtains x where "xs = [x]" | "1 < length xs"
  using assms by (cases xs; cases "tl xs") auto

lemma root_of_levels: "xs \<noteq> [] \<Longrightarrow> root_of (levels_from H xs) = Some (mroot H xs)"
proof (induction H xs rule: levels_from.induct)
  case (1 H xs)
  from 1(2) show ?case
  proof (cases rule: length_cases_1)
    case (1 x)
    then show ?thesis by (simp add: root_of_def)
  next
    case 2
    with 1 show ?thesis by (simp add: levels_from_rec root_of_Cons mroot_rec)
  qed
qed

lemma root_of_build:
  "root_of (buildMerkleLevels H xs) =
     Some (if xs = [] then EMPTY_MERKLE_ROOT_DIGEST H else mroot H xs)"
  by (cases "xs = []") (simp_all add: buildMerkleLevels_def root_of_levels root_of_def [of "[[x]]" for x])

lemma ceillog2_half: "1 < n \<Longrightarrow> ceillog2 n = Suc (ceillog2 ((n + 1) div 2))"
  using ceillog2_rec [of n] by simp

lemma length_levels_from: "xs \<noteq> [] \<Longrightarrow> length (levels_from H xs) = Suc (ceillog2 (length xs))"
proof (induction H xs rule: levels_from.induct)
  case (1 H xs)
  from 1(2) show ?case
  proof (cases rule: length_cases_1)
    case 2
    with 1 show ?thesis
      using ceillog2_half [of "length xs"] by (simp add: levels_from_rec length_next_level)
  qed simp
qed

lemma next_level_nth:
  "i < length xs \<Longrightarrow> next_level H xs ! (i div 2) =
     (if odd i then parentDigest H (xs ! (i - 1)) (xs ! i)
      else if Suc i < length xs then parentDigest H (xs ! i) (xs ! Suc i)
      else parentDigest H (xs ! i) (xs ! i))"
proof (induction H xs arbitrary: i rule: next_level.induct)
  case (3 H x y r)
  show ?case
  proof (cases "i < 2")
    case True
    then have "i = 0 \<or> i = 1" by auto
    then show ?thesis by auto
  next
    case False
    then obtain j where j: "i = Suc (Suc j)" by (metis add_2_eq_Suc le_Suc_ex not_less)
    with 3(1) [of j] "3.prems" show ?thesis by (cases j) auto
  qed
qed auto

section \<open>Completeness of inclusion proofs\<close>

text \<open>The sibling the proof carries for the node at index \<open>i\<close> of a level.\<close>

definition sibling :: "byte list list \<Rightarrow> nat \<Rightarrow> byte list" where
  "sibling xs i = (if odd i then xs ! (i - 1) else if Suc i < length xs then xs ! Suc i else xs ! i)"

lemma sibling_mem: "i < length xs \<Longrightarrow> sibling xs i \<in> set xs"
  by (simp add: sibling_def)

lemma proof_node_step:
  assumes "i < length xs" "1 < length xs"
  shows "buildProofNodesFromLevels (levels_from H xs) i =
      (case buildProofNodesFromLevels (levels_from H (next_level H xs)) (i div 2) of
         Inl e \<Rightarrow> Inl e
       | Inr nodes \<Rightarrow>
           Inr (\<lparr>siblingPosition = (if odd i then LEFT else RIGHT), siblingSha256 = hex (sibling xs i)\<rparr> # nodes))"
proof -
  obtain up rest where up: "levels_from H (next_level H xs) = up # rest"
    by (cases "levels_from H (next_level H xs)") auto
  have "(if (if odd i then i - 1 else i + 1) < length xs
      then elem_at xs (if odd i then i - 1 else i + 1) else elem_at xs i) = Some (sibling xs i)"
    using assms by (auto simp: elem_at_def sibling_def)
  then show ?thesis
    by (simp only: levels_from_rec [OF assms(2)] up odd_iff_mod_2_eq_one
        buildProofNodesFromLevels.simps Let_def option.case)
qed

lemma LEFT_neq_RIGHT [simp]: "LEFT \<noteq> RIGHT" "RIGHT \<noteq> LEFT"
  by (simp_all add: LEFT_def RIGHT_def js_def)

lemma proof_node_ok: "length d = 32 \<Longrightarrow> pos = LEFT \<or> pos = RIGHT \<Longrightarrow>
   check_proof_node \<lparr>siblingPosition = pos, siblingSha256 = hex d\<rparr> = Inr ()"
  by (auto simp: check_proof_node_def HEX64_hex)

text \<open>The condition of the duplication rule, by the parity of the index.\<close>

lemma duplicated_iff:
  "i < w \<Longrightarrow> (w mod 2 = 1 \<and> i = w - 1) = (even i \<and> \<not> Suc i < (w :: nat))"
  by presburger

lemma walk_step:
  assumes "i < length xs" "1 < length xs"
  shows "walk_proof H (xs ! i) i (length xs)
      (\<lparr>siblingPosition = (if odd i then LEFT else RIGHT), siblingSha256 = hex (sibling xs i)\<rparr> # nodes)
    = walk_proof H (next_level H xs ! (i div 2)) (i div 2) ((length xs + 1) div 2) nodes"
  unfolding walk_proof.simps duplicated_iff [OF assms(1)] odd_iff_mod_2_eq_one [symmetric]
    next_level_nth [OF assms(1)]
  by (auto simp: sibling_def Let_def)

context digest
begin

lemma length_parentDigest [simp]: "length (parentDigest H l r) = 32"
  by (simp add: parentDigest_def)

lemma length_merkleLeafDigest [simp]: "length (merkleLeafDigest H b) = 32"
  by (simp add: merkleLeafDigest_def)

lemma next_level_32: "d \<in> set (next_level H xs) \<Longrightarrow> length d = 32"
  by (induction xs rule: induct_list012) auto

lemma mroot_32: "xs \<noteq> [] \<Longrightarrow> \<forall>d \<in> set xs. length d = 32 \<Longrightarrow> length (mroot H xs) = 32"
proof (induction "length xs" arbitrary: xs rule: less_induct)
  case less
  from less(2) show ?case
  proof (cases rule: length_cases_1)
    case 2
    with less(1) [of "next_level H xs"] show ?thesis
      by (simp add: mroot_rec next_level_32 length_next_level less(2))
  qed (use less in auto)
qed

lemma proof_complete:
  "i < length xs \<Longrightarrow> \<forall>d \<in> set xs. length d = 32 \<Longrightarrow>
   \<exists>nodes. buildProofNodesFromLevels (levels_from H xs) i = Inr nodes
    \<and> length nodes = ceillog2 (length xs)
    \<and> eachE check_proof_node nodes = Inr ()
    \<and> walk_proof H (xs ! i) i (length xs) nodes = Some (mroot H xs, 1)"
proof (induction "length xs" arbitrary: xs i rule: less_induct)
  case less
  from less.prems(1) have "xs \<noteq> []" by auto
  then show ?case
  proof (cases rule: length_cases_1)
    case (1 x)
    then show ?thesis using less.prems by simp
  next
    case 2
    have half: "i div 2 < length (next_level H xs)" "length (next_level H xs) < length xs"
      using less.prems(1) 2 by (simp_all add: length_next_level)
    from less.hyps [OF half(2,1)] next_level_32 obtain nodes where nodes:
      "buildProofNodesFromLevels (levels_from H (next_level H xs)) (i div 2) = Inr nodes"
      "length nodes = ceillog2 ((length xs + 1) div 2)" "eachE check_proof_node nodes = Inr ()"
      "walk_proof H (next_level H xs ! (i div 2)) (i div 2) ((length xs + 1) div 2) nodes
         = Some (mroot H (next_level H xs), 1)"
      by (auto simp: length_next_level)
    let ?n = "\<lparr>siblingPosition = (if odd i then LEFT else RIGHT), siblingSha256 = hex (sibling xs i)\<rparr>"
    have "check_proof_node ?n = Inr ()"
      using less.prems sibling_mem [of i xs] by (intro proof_node_ok) auto
    with nodes(3) have "eachE check_proof_node (?n # nodes) = Inr ()" by simp
    moreover have "length (?n # nodes) = ceillog2 (length xs)"
      using nodes(2) ceillog2_half [OF 2] by simp
    moreover have "buildProofNodesFromLevels (levels_from H xs) i = Inr (?n # nodes)"
      by (simp only: proof_node_step [OF less.prems(1) 2] nodes(1) sum.case)
    moreover have "walk_proof H (xs ! i) i (length xs) (?n # nodes) = Some (mroot H xs, 1)"
      by (simp only: walk_step [OF less.prems(1) 2] nodes(4) mroot_rec [OF 2])
    ultimately show ?thesis by blast
  qed
qed

end

section \<open>Soundness of the proof walk\<close>

text \<open>The inputs the tree construction hashes.\<close>

fun pair_inputs :: "byte list list \<Rightarrow> byte list list" where
  "pair_inputs [] = []"
| "pair_inputs [x] = [0x01 # x @ x]"
| "pair_inputs (x # y # r) = (0x01 # x @ y) # pair_inputs r"

function tree_inputs :: "hashfn \<Rightarrow> byte list list \<Rightarrow> byte list list" where
  "tree_inputs H xs = (if 1 < length xs then pair_inputs xs @ tree_inputs H (next_level H xs) else [])"
  by pat_completeness auto
termination
  by (relation "measure (\<lambda>(H, xs). length xs)") (auto simp: length_next_level)

declare tree_inputs.simps [simp del]

lemma tree_inputs_rec:
  "1 < length xs \<Longrightarrow> tree_inputs H xs = pair_inputs xs @ tree_inputs H (next_level H xs)"
  by (simp add: tree_inputs.simps [of H xs])

text \<open>The inputs the proof walk hashes.\<close>

definition walk_input :: "byte list \<Rightarrow> proof_node \<Rightarrow> byte list" where
  "walk_input current node =
     (if siblingPosition node = LEFT then 0x01 # unhex (siblingSha256 node) @ current
      else 0x01 # current @ unhex (siblingSha256 node))"

fun walk_inputs :: "hashfn \<Rightarrow> byte list \<Rightarrow> proof_node list \<Rightarrow> byte list list" where
  "walk_inputs H current [] = []"
| "walk_inputs H current (node # rest) =
     walk_input current node # walk_inputs H (H (walk_input current node)) rest"

text \<open>The input hashed for the parent of index \<open>i\<close>.\<close>

definition pair_input :: "byte list list \<Rightarrow> nat \<Rightarrow> byte list" where
  "pair_input xs i =
     (if odd i then 0x01 # sibling xs i @ xs ! i else 0x01 # xs ! i @ sibling xs i)"

lemma pair_input_mem: "i < length xs \<Longrightarrow> pair_input xs i \<in> set (pair_inputs xs)"
proof (induction xs arbitrary: i rule: pair_inputs.induct)
  case (3 x y r)
  show ?case
  proof (cases "i < 2")
    case True
    then have "i = 0 \<or> i = 1" by auto
    then show ?thesis by (auto simp: pair_input_def sibling_def)
  next
    case False
    then obtain j where j: "i = Suc (Suc j)" by (metis add_2_eq_Suc le_Suc_ex not_less)
    with 3(1) [of j] "3.prems" show ?thesis
      by (cases j) (auto simp: pair_input_def sibling_def)
  qed
qed (auto simp: pair_input_def sibling_def)

lemma next_level_pair_input: "i < length xs \<Longrightarrow> next_level H xs ! (i div 2) = H (pair_input xs i)"
  by (simp add: next_level_nth pair_input_def sibling_def parentDigest_def)

text \<open>A walk that goes on hashed an input with the sibling on the side the parity of the index says.\<close>

lemma walk_proof_Cons:
  assumes "walk_proof H current i w (node # rest) = Some r" "i < w"
  shows "walk_proof H (H (walk_input current node)) (i div 2) ((w + 1) div 2) rest = Some r"
    and "siblingPosition node = (if odd i then LEFT else RIGHT)"
  using assms
  unfolding walk_proof.simps duplicated_iff [OF assms(2)] odd_iff_mod_2_eq_one [symmetric]
  by (auto simp: walk_input_def parentDigest_def Let_def split: if_splits)

lemma pair_input_inj:
  assumes "walk_input current node = pair_input xs i"
    "siblingPosition node = (if odd i then LEFT else RIGHT)"
    "length current = 32" "length (xs ! i) = 32" "length (sibling xs i) = 32"
  shows "current = xs ! i"
  using assms by (auto simp: walk_input_def pair_input_def split: if_splits)

context digest
begin

lemma walk_sound:
  "walk_proof H current i (length xs) nodes = Some (mroot H xs, w) \<Longrightarrow>
   i < length xs \<Longrightarrow> length current = 32 \<Longrightarrow> \<forall>d \<in> set xs. length d = 32 \<Longrightarrow>
   length nodes = ceillog2 (length xs) \<Longrightarrow>
   inj_on H (set (tree_inputs H xs @ walk_inputs H current nodes)) \<Longrightarrow> current = xs ! i"
proof (induction nodes arbitrary: current i xs)
  case Nil
  then have "length xs = 1" using ceillog2_half [of "length xs"] by (cases "1 < length xs") auto
  then obtain x where "xs = [x]" by (cases xs) auto
  with Nil show ?case by auto
next
  case (Cons node rest)
  note prems = Cons.prems
  have big: "1 < length xs" using prems(2,5) by (cases "length xs = 1") auto
  let ?up = "next_level H xs" and ?in = "walk_input current node"
  have up: "i div 2 < length ?up" using prems(2) by (simp add: length_next_level)
  have len: "length rest = ceillog2 (length ?up)"
    using prems(5) ceillog2_half [OF big] by (simp add: length_next_level)
  note step = walk_proof_Cons [OF prems(1,2)]
  have "inj_on H (set (tree_inputs H ?up @ walk_inputs H (H ?in) rest))"
    using prems(6) by (rule inj_on_subset) (auto simp: tree_inputs_rec [OF big])
  then have "H ?in = ?up ! (i div 2)"
    using Cons.IH [of "H ?in" "i div 2" ?up] step(1) up len next_level_32
    by (simp add: mroot_rec [OF big] length_next_level)
  then have "H ?in = H (pair_input xs i)" by (simp add: next_level_pair_input [OF prems(2)])
  moreover have "pair_input xs i \<in> set (tree_inputs H xs)"
    using pair_input_mem [OF prems(2)] by (simp add: tree_inputs_rec [OF big])
  ultimately have "?in = pair_input xs i"
    using prems(6) by (auto dest: inj_onD)
  then show ?case
    using pair_input_inj [OF _ step(2) prems(3)] prems(2,4) sibling_mem [OF prems(2)] by auto
qed

lemma walk_width:
  "walk_proof H current i w nodes = Some (d, v) \<Longrightarrow> i < w \<Longrightarrow> length nodes = ceillog2 w \<Longrightarrow> v = 1"
proof (induction nodes arbitrary: current i w)
  case Nil
  then show ?case using ceillog2_half [of w] by (cases "1 < w") auto
next
  case (Cons node rest)
  have big: "1 < w" using Cons.prems(2,3) by (cases "w = 1") auto
  from Cons.IH [OF walk_proof_Cons(1) [OF Cons.prems(1,2)]] Cons.prems(2,3) ceillog2_half [OF big]
  show ?case by simp
qed

lemma next_level_inj:
  "next_level H xs = next_level H ys \<Longrightarrow> length xs = length ys \<Longrightarrow>
   \<forall>d \<in> set xs \<union> set ys. length d = 32 \<Longrightarrow>
   inj_on H (set (pair_inputs xs @ pair_inputs ys)) \<Longrightarrow> xs = ys"
proof (induction xs arbitrary: ys rule: induct_list012)
  case (2 x)
  then obtain y where "ys = [y]" by (cases ys) auto
  with 2(4) inj_onD [OF 2(4), of "0x01 # x @ x" "0x01 # y @ y"] 2(1,3) show ?case
    by (simp add: parentDigest_def)
next
  case (3 x1 x2 xs)
  then obtain y1 y2 ys' where ys: "ys = y1 # y2 # ys'" by (cases ys; cases "tl ys") auto
  have "next_level H xs = next_level H ys'" using "3.prems"(1) ys by simp
  moreover have "inj_on H (set (pair_inputs xs @ pair_inputs ys'))"
    using "3.prems"(4) by (rule inj_on_subset) (auto simp: ys)
  moreover have "0x01 # x1 @ x2 = 0x01 # y1 @ y2"
    using "3.prems"(1) inj_onD [OF "3.prems"(4), of "0x01 # x1 @ x2" "0x01 # y1 @ y2"]
    by (simp add: parentDigest_def ys)
  ultimately show ?case using 3 ys by auto
qed simp

lemma mroot_inj:
  "mroot H xs = mroot H ys \<Longrightarrow> length xs = length ys \<Longrightarrow> xs \<noteq> [] \<Longrightarrow>
   \<forall>d \<in> set xs \<union> set ys. length d = 32 \<Longrightarrow>
   inj_on H (set (tree_inputs H xs @ tree_inputs H ys)) \<Longrightarrow> xs = ys"
proof (induction "length xs" arbitrary: xs ys rule: less_induct)
  case less
  from less.prems(3) show ?case
  proof (cases rule: length_cases_1)
    case (1 x)
    with less.prems(2) obtain y where "ys = [y]" by (cases ys) auto
    with 1 less.prems(1) show ?thesis by simp
  next
    case 2
    with less.prems(2) have 3: "1 < length ys" by simp
    note inj = less.prems(5) [unfolded tree_inputs_rec [OF 2] tree_inputs_rec [OF 3]]
    have "inj_on H (set (tree_inputs H (next_level H xs) @ tree_inputs H (next_level H ys)))"
      using inj by (rule inj_on_subset) auto
    moreover have "mroot H (next_level H xs) = mroot H (next_level H ys)"
      using less.prems(1) unfolding mroot_rec [OF 2] mroot_rec [OF 3] .
    ultimately have "next_level H xs = next_level H ys"
      using less.prems(2,3) 2 next_level_32
      by (intro less.hyps) (auto simp: length_next_level)
    moreover have "inj_on H (set (pair_inputs xs @ pair_inputs ys))"
      using inj by (rule inj_on_subset) auto
    ultimately show ?thesis using next_level_inj less.prems(2,4) by blast
  qed
qed

end

end
