(* ===== verification/Chunk_Correct.thy ===== *)
theory Chunk_Correct
  imports Merkle_Tree
begin

text \<open>
  Correctness of the chunk manifests: what the validators accept, the round trip from a source to its
  manifest and back, completeness and soundness of inclusion proofs, and the binding of a source to
  its Merkle root.
\<close>

section \<open>What the manifest validator accepts\<close>

definition entry_ok :: "int \<Rightarrow> int \<Rightarrow> nat \<Rightarrow> nat \<Rightarrow> chunk_entry \<Rightarrow> bool" where
  "entry_ok csize len n i e \<longleftrightarrow>
     chunkIndex e = JInt (int i) \<and> byteStart e = JInt (int i * csize) \<and>
     (let l = (if i = n - 1 then len - int i * csize else csize)
      in byteLength e = JInt l \<and> 1 \<le> l \<and> l \<le> csize) \<and>
     HEX64_PATTERN (chunkSha256 e) \<and> HEX64_PATTERN (merkleLeafSha256 e)"

definition leaf_digests :: "chunk_manifest \<Rightarrow> byte list list" where
  "leaf_digests m = map (\<lambda>chunk. unhex (merkleLeafSha256 chunk)) (chunks m)"

lemma check_chunk_ok_iff:
  "check_chunk m i st c = Inr () \<longleftrightarrow>
     entry_ok (num_int (chunkSize m)) (num_int (m_byteLength m)) (length (chunks m)) i c
       \<and> st = int i * num_int (chunkSize m)"
  by (auto simp: check_chunk_def entry_ok_def Let_def)

lemma check_chunks_ok_iff:
  "i + length cs = length (chunks m) \<Longrightarrow>
   check_chunks m i st cs = Inr (ls, e) \<longleftrightarrow>
     ls = map (\<lambda>chunk. unhex (merkleLeafSha256 chunk)) cs \<and>
     (\<forall>j < length cs. entry_ok (num_int (chunkSize m)) (num_int (m_byteLength m))
                        (length (chunks m)) (i + j) (cs ! j)) \<and>
     (cs \<noteq> [] \<longrightarrow> st = int i * num_int (chunkSize m)) \<and>
     e = (if cs = [] then st else num_int (m_byteLength m))"
proof (induction cs arbitrary: i st ls)
  case (Cons c cs)
  let ?ok = "entry_ok (num_int (chunkSize m)) (num_int (m_byteLength m)) (length (chunks m))"
  show ?case
  proof (cases "?ok i c \<and> st = int i * num_int (chunkSize m)")
    case True
    then have "check_chunk m i st c = Inr ()" by (simp add: check_chunk_ok_iff)
    moreover have "i = length (chunks m) - 1 \<longleftrightarrow> cs = []" using Cons.prems by (cases cs) auto
    then have next_start: "st + num_int (byteLength c) =
        (if cs = [] then num_int (m_byteLength m) else int (Suc i) * num_int (chunkSize m))"
      using True Cons.prems by (auto simp: entry_ok_def Let_def algebra_simps)
    ultimately show ?thesis
      using Cons.IH [of "Suc i" "st + num_int (byteLength c)" "tl ls"] Cons.prems True
      by (cases ls) (auto simp: All_less_Suc2 split: sum.splits)
  next
    case False
    then obtain er where "check_chunk m i st c = Inl er"
      using check_chunk_ok_iff [of m i st c] by (cases "check_chunk m i st c") auto
    with False show ?thesis by (auto simp: All_less_Suc2)
  qed
qed auto


definition manifest_ok :: "hashfn \<Rightarrow> nat \<Rightarrow> nat \<Rightarrow> chunk_manifest \<Rightarrow> bool" where
  "manifest_ok H csize len m \<longleftrightarrow>
     profileVersion m = ARTIFACT_CHUNK_MERKLE_PROFILE_VERSION \<and>
     int csize \<in> set ALLOWED_CHUNK_SIZES \<and> int len \<le> MAX_CALIBRATION_SOURCE_BYTES \<and>
     chunkSize m = JInt (int csize) \<and> m_byteLength m = JInt (int len) \<and>
     chunkCount m = JInt (int (length (chunks m))) \<and>
     ceil_div (int len) (int csize) = int (length (chunks m)) \<and>
     HEX64_PATTERN (sourceSha256 m) \<and> HEX64_PATTERN (merkleRoot m) \<and>
     (\<forall>i < length (chunks m). entry_ok (int csize) (int len) (length (chunks m)) i (chunks m ! i)) \<and>
     merkleRoot m = hex (if chunks m = [] then EMPTY_MERKLE_ROOT_DIGEST H else mroot H (leaf_digests m))"

lemma allowed_sizes: "csize \<in> set ALLOWED_CHUNK_SIZES \<longleftrightarrow> csize = 1024 \<or> csize = 4096 \<or> csize = 8192"
  by (simp add: ALLOWED_CHUNK_SIZES_def)

lemma isAllowed_iff: "isAllowedChunkSize v \<longleftrightarrow> (\<exists>c \<in> set ALLOWED_CHUNK_SIZES. v = JInt c)"
  by (auto simp: isAllowedChunkSize_def)

lemma ceil_div_0 [simp]: "ceil_div 0 c = 0"
  by (simp add: ceil_div_def)

lemma ceil_div_bounds:
  assumes "0 < c"
  shows "a \<le> ceil_div a c * c" "ceil_div a c * c < a + c"
proof -
  have "(- a) div c * c + (- a) mod c = - a" by (rule div_mult_mod_eq)
  moreover have "0 \<le> (- a) mod c" "(- a) mod c < c" using assms by simp_all
  ultimately show "a \<le> ceil_div a c * c" "ceil_div a c * c < a + c"
    unfolding ceil_div_def by linarith+
qed

lemma ceil_div_nonneg: "0 < c \<Longrightarrow> 0 \<le> a \<Longrightarrow> 0 \<le> ceil_div a c"
  unfolding ceil_div_def by (simp add: div_nonpos_pos_le0)

lemma ceil_div_eq_0: "0 < c \<Longrightarrow> 0 \<le> a \<Longrightarrow> ceil_div a c = 0 \<longleftrightarrow> a = 0"
  using ceil_div_bounds(1) [of c a] by auto

lemma ceil_div_count:
  assumes "c \<in> set ALLOWED_CHUNK_SIZES" "a \<le> MAX_CALIBRATION_SOURCE_BYTES"
  shows "ceil_div a c \<le> 1024"
proof -
  from assms(1) have c: "1024 \<le> c" "c \<le> 8192" by (auto simp: allowed_sizes)
  then have "ceil_div a c * c < 1048576 + c"
    using ceil_div_bounds(2) [of c a] assms(2) unfolding limits by linarith
  then have "(ceil_div a c - 1) * c < 1024 * 1024" by (simp add: algebra_simps)
  then have "ceil_div a c - 1 < 1024"
    using c(1) mult_mono [of 1024 "ceil_div a c - 1" 1024 c] by force
  then show ?thesis by simp
qed

lemma leaf_root: "root_of (buildMerkleLevels H (leaf_digests m)) =
   Some (if chunks m = [] then EMPTY_MERKLE_ROOT_DIGEST H else mroot H (leaf_digests m))"
  by (simp add: root_of_build leaf_digests_def)

lemma allowed_nat: "c \<in> set ALLOWED_CHUNK_SIZES \<Longrightarrow> \<exists>k. c = int k"
  by (intro exI [of _ "nat c"]) (auto simp: allowed_sizes)

lemma assertManifestConsistent_iff:
  "assertManifestConsistent H m = Inr () \<longleftrightarrow> (\<exists>csize len. manifest_ok H csize len m)"
proof
  assume acc: "assertManifestConsistent H m = Inr ()"
  then have "isAllowedChunkSize (chunkSize m)" "isInteger (m_byteLength m)" "\<not> num_lt (m_byteLength m) 0"
    by (simp_all add: assertManifestConsistent_def ok_simps Let_def)
  then obtain csize len where v: "chunkSize m = JInt (int csize)" "int csize \<in> set ALLOWED_CHUNK_SIZES"
    "m_byteLength m = JInt (int len)"
    by (auto simp: isAllowed_iff isInteger_cases not_less elim!: nonneg_int_cases)
      (metis allowed_nat)
  then have "chunkCount m = JInt (if len = 0 then 0 else ceil_div (int len) (int csize))"
    using acc by (simp add: assertManifestConsistent_def Let_def ok_simps)
  then have n: "chunkCount m = JInt (ceil_div (int len) (int csize))" by (cases "len = 0") auto
  from acc v n obtain ls e where
    c: "check_chunks m 0 0 (chunks m) = Inr (ls, e)" "e = int len"
      "\<exists>r. root_of (buildMerkleLevels H ls) = Some r \<and> hex r = merkleRoot m" and
    rest: "profileVersion m = ARTIFACT_CHUNK_MERKLE_PROFILE_VERSION"
      "int len \<le> MAX_CALIBRATION_SOURCE_BYTES"
      "HEX64_PATTERN (sourceSha256 m)" "HEX64_PATTERN (merkleRoot m)"
      "ceil_div (int len) (int csize) = int (length (chunks m))"
    by (auto simp: assertManifestConsistent_def Let_def ok_simps)
  from c(1) have "ls = leaf_digests m"
    "\<forall>i < length (chunks m). entry_ok (int csize) (int len) (length (chunks m)) i (chunks m ! i)"
    by (simp_all add: check_chunks_ok_iff leaf_digests_def v)
  with c(3) leaf_root [of H m] rest v n have "manifest_ok H csize len m"
    unfolding manifest_ok_def by (intro conjI) simp_all
  then show "\<exists>csize len. manifest_ok H csize len m" by blast
next
  assume "\<exists>csize len. manifest_ok H csize len m"
  then obtain csize len where ok: "manifest_ok H csize len m" by blast
  then have c: "int csize \<in> set ALLOWED_CHUNK_SIZES" "int len \<le> MAX_CALIBRATION_SOURCE_BYTES"
    by (auto simp: manifest_ok_def)
  then have "0 < int csize" by (auto simp: allowed_sizes)
  have count: "ceil_div (int len) (int csize) \<le> MAX_CHUNK_COUNT"
    using ceil_div_count [OF c] by (simp add: limits)
  have empty: "chunks m = [] \<longleftrightarrow> len = 0"
    using ok ceil_div_eq_0 [OF \<open>0 < int csize\<close>, of "int len"] by (auto simp: manifest_ok_def)
  have "check_chunks m 0 0 (chunks m) = Inr (leaf_digests m, int len)"
    using ok empty by (subst check_chunks_ok_iff) (auto simp: manifest_ok_def leaf_digests_def)
  with ok c count empty leaf_root [of H m] show "assertManifestConsistent H m = Inr ()"
    by (auto simp: assertManifestConsistent_def manifest_ok_def isAllowed_iff Let_def)
qed

section \<open>The chunks of a source\<close>

definition chunk_of :: "byte list \<Rightarrow> nat \<Rightarrow> nat \<Rightarrow> byte list" where
  "chunk_of source csize i = subarray (i * csize) (min (i * csize + csize) (length source)) source"

definition chunk_count :: "byte list \<Rightarrow> nat \<Rightarrow> nat" where
  "chunk_count source csize = nat (ceil_div (int (length source)) (int csize))"

lemma chunk_count_bounds:
  assumes "0 < csize"
  shows "length source \<le> chunk_count source csize * csize"
    and "chunk_count source csize * csize < length source + csize"
proof -
  have n: "int (chunk_count source csize) = ceil_div (int (length source)) (int csize)"
    using assms by (simp add: chunk_count_def ceil_div_nonneg)
  from ceil_div_bounds [of "int csize" "int (length source)"] assms
  show "length source \<le> chunk_count source csize * csize"
    "chunk_count source csize * csize < length source + csize"
    by (simp_all flip: n of_nat_mult of_nat_add)
qed

lemma chunk_start_less:
  assumes "0 < csize" "i < chunk_count source csize"
  shows "i * csize < length source"
proof -
  have "Suc i * csize \<le> chunk_count source csize * csize" using assms(2) by (intro mult_right_mono) auto
  with chunk_count_bounds(2) [OF assms(1), of source] show ?thesis by simp
qed

lemma chunk_end:
  assumes "0 < csize" "i < chunk_count source csize"
  shows "min (i * csize + csize) (length source) =
    (if i = chunk_count source csize - 1 then length source else i * csize + csize)"
proof (cases "i = chunk_count source csize - 1")
  case True
  with assms(2) have "Suc i = chunk_count source csize" by simp
  with chunk_count_bounds(1) [OF assms(1), of source] have "length source \<le> Suc i * csize" by simp
  with True show ?thesis by simp
next
  case False
  with assms have "Suc i * csize < length source" by (intro chunk_start_less) auto
  with False show ?thesis by simp
qed

lemma length_chunk_of: "0 < csize \<Longrightarrow> i < chunk_count source csize \<Longrightarrow> length (chunk_of source csize i) =
   (if i = chunk_count source csize - 1 then length source - i * csize else csize)"
  using chunk_start_less [of csize i source] chunk_end [of csize i source]
  by (auto simp: chunk_of_def length_subarray min_def split: if_splits)

lemma chunks_prefix:
  "concat (map (chunk_of source csize) [0..<k]) = subarray 0 (min (k * csize) (length source)) source"
proof (induction k)
  case (Suc k)
  show ?case
  proof (cases "k * csize \<le> length source")
    case True
    then show ?thesis
      using Suc subarray_append_adjacent [of 0 "k * csize" "min (k * csize + csize) (length source)" source]
      by (simp add: chunk_of_def min_absorb1 add.commute)
  next
    case False
    then show ?thesis using Suc by (simp add: chunk_of_def min_absorb2 subarray_def)
  qed
qed simp

lemma chunks_partition:
  "0 < csize \<Longrightarrow> concat (map (chunk_of source csize) [0..<chunk_count source csize]) = source"
  using chunk_count_bounds(1) [of csize source] by (simp add: chunks_prefix min_absorb2)

section \<open>Building a manifest\<close>

definition source_leaves :: "hashfn \<Rightarrow> byte list \<Rightarrow> nat \<Rightarrow> byte list list" where
  "source_leaves H source csize =
     map (\<lambda>i. merkleLeafDigest H (chunk_of source csize i)) [0..<chunk_count source csize]"

definition source_manifest :: "hashfn \<Rightarrow> byte list \<Rightarrow> nat \<Rightarrow> chunk_manifest" where
  "source_manifest H source csize =
     \<lparr>profileVersion = ARTIFACT_CHUNK_MERKLE_PROFILE_VERSION,
      sourceSha256 = hex (H source), m_byteLength = JInt (int (length source)),
      chunkSize = JInt (int csize), chunkCount = JInt (int (chunk_count source csize)),
      chunks = map (chunk_entry_at H source csize) [0..<chunk_count source csize],
      merkleRoot = hex (if source = [] then EMPTY_MERKLE_ROOT_DIGEST H
                        else mroot H (source_leaves H source csize))\<rparr>"

lemma chunk_entry_at_eq:
  "chunk_entry_at H source csize i =
     \<lparr>chunkIndex = JInt (int i), byteStart = JInt (int (i * csize)),
      byteLength = JInt (int (min (i * csize + csize) (length source) - i * csize)),
      chunkSha256 = hex (H (chunk_of source csize i)),
      merkleLeafSha256 = hex (merkleLeafDigest H (chunk_of source csize i))\<rparr>"
  by (simp add: chunk_entry_at_def chunk_of_def rawDigest_def Let_def)

lemma chunk_count_0: "0 < csize \<Longrightarrow> chunk_count source csize = 0 \<longleftrightarrow> source = []"
  using chunk_count_bounds [of csize source] by (auto simp: chunk_count_def)

lemma leaf_digests_source [simp]: "leaf_digests (source_manifest H source csize) = source_leaves H source csize"
  by (simp add: leaf_digests_def source_manifest_def source_leaves_def chunk_entry_at_eq)

lemma build_eq:
  assumes "int csize \<in> set ALLOWED_CHUNK_SIZES" "int (length source) \<le> MAX_CALIBRATION_SOURCE_BYTES"
  shows "buildArtifactChunkManifest H (VBytes source) (JInt (int csize)) = Inr (source_manifest H source csize)"
proof -
  have pos: "0 < csize" using assms(1) by (auto simp: allowed_sizes)
  have count: "(if source = [] then 0 else ceil_div (int (length source)) (int csize)) =
      int (chunk_count source csize)"
    using pos by (simp add: chunk_count_def ceil_div_nonneg)
  have small: "\<not> MAX_CHUNK_COUNT < int (chunk_count source csize)"
    using ceil_div_count [OF assms] ceil_div_nonneg [of "int csize" "int (length source)"] pos
    by (simp add: chunk_count_def limits)
  have leaves: "map (leaf_digest_at H source csize) [0..<chunk_count source csize] = source_leaves H source csize"
    by (simp add: source_leaves_def leaf_digest_at_def chunk_of_def Let_def)
  have empty: "source_leaves H source csize = [] \<longleftrightarrow> source = []"
    using chunk_count_0 [OF pos] by (simp add: source_leaves_def)
  show ?thesis
    unfolding buildArtifactChunkManifest_def assertIsUint8Array.simps num_int.simps sum.case count Let_def
      nat_int leaves root_of_build empty
    using assms small by (simp add: source_manifest_def rawDigest_def isAllowed_iff not_less)
qed

context digest
begin

lemma source_entry_ok:
  assumes "0 < csize" "i < chunk_count source csize"
  shows "entry_ok (int csize) (int (length source)) (chunk_count source csize) i (chunk_entry_at H source csize i)"
proof -
  define x final where "x = i * csize" and "final \<longleftrightarrow> i = chunk_count source csize - 1"
  have x: "int i * int csize = int x" by (simp add: x_def)
  have "x < length source" using chunk_start_less [OF assms] by (simp add: x_def)
  moreover have "min (x + csize) (length source) = (if final then length source else x + csize)"
    using chunk_end [OF assms] by (simp add: x_def final_def)
  ultimately show ?thesis
    using assms(1) unfolding entry_ok_def x final_def [symmetric] chunk_entry_at_eq x_def [symmetric]
    by (cases final) (auto simp: Let_def HEX64_hex of_nat_diff min_def split: if_splits)
qed

lemma source_manifest_ok:
  assumes "int csize \<in> set ALLOWED_CHUNK_SIZES" "int (length source) \<le> MAX_CALIBRATION_SOURCE_BYTES"
  shows "manifest_ok H csize (length source) (source_manifest H source csize)"
proof -
  have pos: "0 < csize" using assms(1) by (auto simp: allowed_sizes)
  have empty: "source_leaves H source csize = [] \<longleftrightarrow> source = []"
    using chunk_count_0 [OF pos] by (simp add: source_leaves_def)
  have "source \<noteq> [] \<Longrightarrow> length (mroot H (source_leaves H source csize)) = 32"
    by (rule mroot_32) (use empty in \<open>auto simp: source_leaves_def\<close>)
  then have root: "HEX64_PATTERN (merkleRoot (source_manifest H source csize))"
    by (auto simp: source_manifest_def EMPTY_MERKLE_ROOT_DIGEST_def HEX64_hex)
  have "int (chunk_count source csize) = ceil_div (int (length source)) (int csize)"
    using pos by (simp add: chunk_count_def ceil_div_nonneg)
  with assms root source_entry_ok [OF pos, of _ source] chunk_count_0 [OF pos, of source] show ?thesis
    unfolding manifest_ok_def leaf_digests_source by (simp add: source_manifest_def)
qed

end

section \<open>Verifying a source\<close>

definition entry_bytes :: "byte list \<Rightarrow> chunk_entry \<Rightarrow> byte list" where
  "entry_bytes source e =
     (let start = nat (num_int (byteStart e)) in subarray start (start + nat (num_int (byteLength e))) source)"

definition entry_matches :: "hashfn \<Rightarrow> byte list \<Rightarrow> chunk_entry \<Rightarrow> bool" where
  "entry_matches H source e \<longleftrightarrow>
     chunkSha256 e = hex (H (entry_bytes source e)) \<and>
     merkleLeafSha256 e = hex (merkleLeafDigest H (entry_bytes source e))"

lemma recompute_leaves_iff:
  "recompute_leaves H source cs = Some ls \<longleftrightarrow>
     (\<forall>c \<in> set cs. entry_matches H source c) \<and> ls = map (\<lambda>c. unhex (merkleLeafSha256 c)) cs"
proof (induction cs arbitrary: ls)
  case (Cons c cs)
  show ?case
  proof (cases "entry_matches H source c")
    case True
    then have "unhex (merkleLeafSha256 c) = merkleLeafDigest H (entry_bytes source c)"
      by (simp add: entry_matches_def)
    with True Cons show ?thesis
      by (auto simp: entry_matches_def entry_bytes_def rawDigest_def Let_def)
  next
    case False
    then show ?thesis by (auto simp: entry_matches_def entry_bytes_def rawDigest_def Let_def)
  qed
qed auto

lemma verify_source_iff:
  "verifyArtifactSourceManifest H (VBytes source) m = Inr True \<longleftrightarrow>
     assertManifestConsistent H m = Inr () \<and> m_byteLength m = JInt (int (length source)) \<and>
     sourceSha256 m = hex (H source) \<and> (\<forall>c \<in> set (chunks m). entry_matches H source c)"
proof (cases "assertManifestConsistent H m")
  case (Inr u)
  then obtain csize len where ok: "manifest_ok H csize len m"
    using assertManifestConsistent_iff [of H m] by auto
  have "recompute_leaves H source (chunks m) = Some ls \<Longrightarrow>
      \<exists>r. root_of (buildMerkleLevels H ls) = Some r \<and> hex r = merkleRoot m" for ls
    using ok leaf_root [of H m] by (auto simp: recompute_leaves_iff manifest_ok_def leaf_digests_def)
  moreover have "(\<exists>ls. recompute_leaves H source (chunks m) = Some ls) \<longleftrightarrow>
      (\<forall>c \<in> set (chunks m). entry_matches H source c)"
    by (auto simp: recompute_leaves_iff)
  ultimately show ?thesis
    using Inr by (auto simp: verifyArtifactSourceManifest_def rawDigest_def split: option.splits)
qed (simp add: verifyArtifactSourceManifest_def)

lemma entry_ok_bytes:
  assumes "entry_ok (int csize) (int (length source)) (chunk_count source csize) i e"
    "i < chunk_count source csize" "0 < csize"
  shows "entry_bytes source e = chunk_of source csize i"
    and "num_int (byteLength e) = int (min (i * csize + csize) (length source) - i * csize)"
proof -
  define x final where "x = i * csize" and "final \<longleftrightarrow> i = chunk_count source csize - 1"
  have x: "int i * int csize = int x" by (simp add: x_def)
  have less: "x < length source" using chunk_start_less [OF assms(3,2)] by (simp add: x_def)
  have m: "min (x + csize) (length source) = (if final then length source else x + csize)"
    using chunk_end [OF assms(3,2)] by (simp add: x_def final_def)
  from assms(1) have e: "byteStart e = JInt (int x)"
    "byteLength e = JInt (if final then int (length source) - int x else int csize)"
    unfolding entry_ok_def x final_def [symmetric] by (auto simp: Let_def)
  show "entry_bytes source e = chunk_of source csize i"
    unfolding entry_bytes_def chunk_of_def x_def [symmetric] m e using less
    by (auto simp: Let_def simp flip: of_nat_diff)
  show "num_int (byteLength e) = int (min (i * csize + csize) (length source) - i * csize)"
    unfolding x_def [symmetric] m e using less by (auto simp: of_nat_diff)
qed

lemma manifest_ok_count:
  assumes "manifest_ok H csize (length source) m"
  shows "0 < csize" "length (chunks m) = chunk_count source csize"
proof -
  have "int csize \<in> set ALLOWED_CHUNK_SIZES"
    "int (length (chunks m)) = ceil_div (int (length source)) (int csize)"
    using assms by (simp_all add: manifest_ok_def)
  then show "0 < csize" "length (chunks m) = chunk_count source csize"
    by (auto simp: allowed_sizes chunk_count_def simp flip: nat_int)
qed

lemma manifest_ok_entry:
  assumes "manifest_ok H csize (length source) m" "i < length (chunks m)"
  shows "entry_bytes source (chunks m ! i) = chunk_of source csize i"
    and "num_int (byteLength (chunks m ! i)) =
      int (min (i * csize + csize) (length source) - i * csize)"
proof -
  note c = manifest_ok_count [OF assms(1)]
  have "entry_ok (int csize) (int (length source)) (chunk_count source csize) i (chunks m ! i)"
    using assms c by (simp add: manifest_ok_def)
  from entry_ok_bytes [OF this _ c(1)] assms(2) c(2)
  show "entry_bytes source (chunks m ! i) = chunk_of source csize i"
    "num_int (byteLength (chunks m ! i)) = int (min (i * csize + csize) (length source) - i * csize)"
    by simp_all
qed

lemma verified_manifest_eq:
  assumes "manifest_ok H csize (length source) m" "sourceSha256 m = hex (H source)"
    "\<forall>c \<in> set (chunks m). entry_matches H source c"
  shows "m = source_manifest H source csize"
proof -
  note c = manifest_ok_count [OF assms(1)]
  have entries: "chunks m = map (chunk_entry_at H source csize) [0..<chunk_count source csize]"
  proof (rule nth_equalityI)
    fix i assume i: "i < length (chunks m)"
    have "entry_ok (int csize) (int (length source)) (length (chunks m)) i (chunks m ! i)"
      using assms(1) i by (simp add: manifest_ok_def)
    moreover have "entry_matches H source (chunks m ! i)" using assms(3) i by simp
    ultimately show "chunks m ! i = map (chunk_entry_at H source csize) [0..<chunk_count source csize] ! i"
      using manifest_ok_entry [OF assms(1) i] c i
      by (auto simp: chunk_entry_at_eq entry_matches_def entry_ok_def Let_def intro!: chunk_entry.equality)
  qed (simp add: c)
  then have "leaf_digests m = source_leaves H source csize"
    by (simp add: leaf_digests_def source_leaves_def chunk_entry_at_eq)
  then show ?thesis
    using assms(1,2) entries c chunk_count_0 [OF c(1), of source]
    by (intro chunk_manifest.equality) (auto simp: manifest_ok_def source_manifest_def)
qed

lemma source_entry_matches:
  assumes "0 < csize" "i < chunk_count source csize"
  shows "entry_matches H source (chunk_entry_at H source csize i)"
proof -
  have "entry_bytes source (chunk_entry_at H source csize i) = chunk_of source csize i"
    using chunk_start_less [OF assms]
    by (simp add: entry_bytes_def chunk_of_def chunk_entry_at_eq Let_def del: of_nat_mult of_nat_diff)
  then show ?thesis by (simp add: entry_matches_def chunk_entry_at_eq)
qed

lemma build_inversion:
  assumes "buildArtifactChunkManifest H (VBytes source) v = Inr m"
  obtains csize where "v = JInt (int csize)" "int csize \<in> set ALLOWED_CHUNK_SIZES"
    "int (length source) \<le> MAX_CALIBRATION_SOURCE_BYTES" "m = source_manifest H source csize"
proof -
  from assms have "isAllowedChunkSize v" and len: "int (length source) \<le> MAX_CALIBRATION_SOURCE_BYTES"
    by (simp_all add: buildArtifactChunkManifest_def ok_simps)
  then obtain c where c: "c \<in> set ALLOWED_CHUNK_SIZES" "v = JInt c" by (auto simp: isAllowed_iff)
  then have "c = int (nat c)" by (auto simp: allowed_sizes)
  with that [of "nat c"] build_eq [of "nat c" source H] c len assms show thesis by auto
qed

context digest
begin

lemma verify_source_eq_build:
  "verifyArtifactSourceManifest H (VBytes source) m = Inr True \<longleftrightarrow>
   buildArtifactChunkManifest H (VBytes source) (chunkSize m) = Inr m"
proof
  assume "verifyArtifactSourceManifest H (VBytes source) m = Inr True"
  then obtain csize where ok: "manifest_ok H csize (length source) m" and
    eq: "sourceSha256 m = hex (H source)" "\<forall>c \<in> set (chunks m). entry_matches H source c"
    unfolding verify_source_iff assertManifestConsistent_iff by (auto simp: manifest_ok_def)
  have "chunkSize m = JInt (int csize)" "int csize \<in> set ALLOWED_CHUNK_SIZES"
    "int (length source) \<le> MAX_CALIBRATION_SOURCE_BYTES"
    using ok by (auto simp: manifest_ok_def)
  with build_eq verified_manifest_eq [OF ok eq]
  show "buildArtifactChunkManifest H (VBytes source) (chunkSize m) = Inr m" by metis
next
  assume "buildArtifactChunkManifest H (VBytes source) (chunkSize m) = Inr m"
  then obtain csize where b: "int csize \<in> set ALLOWED_CHUNK_SIZES"
    "int (length source) \<le> MAX_CALIBRATION_SOURCE_BYTES" "m = source_manifest H source csize"
    by (rule build_inversion)
  then have pos: "0 < csize" by (auto simp: allowed_sizes)
  have "assertManifestConsistent H m = Inr ()"
    using source_manifest_ok [OF b(1,2)] b(3) assertManifestConsistent_iff [of H m] by auto
  moreover have "\<forall>c \<in> set (chunks m). entry_matches H source c"
    using source_entry_matches [OF pos, of _ source H] by (auto simp: b(3) source_manifest_def)
  ultimately show "verifyArtifactSourceManifest H (VBytes source) m = Inr True"
    unfolding verify_source_iff by (simp add: b(3) source_manifest_def)
qed

end

section \<open>Inclusion proofs\<close>

definition shape_ok :: "chunk_proof \<Rightarrow> nat \<Rightarrow> nat \<Rightarrow> nat \<Rightarrow> nat \<Rightarrow> bool" where
  "shape_ok p csize len n i \<longleftrightarrow>
     p_profileVersion p = ARTIFACT_CHUNK_MERKLE_PROFILE_VERSION \<and>
     p_chunkSize p = JInt (int csize) \<and> int csize \<in> set ALLOWED_CHUNK_SIZES \<and>
     sourceByteLength p = JInt (int len) \<and> 1 \<le> len \<and> int len \<le> MAX_CALIBRATION_SOURCE_BYTES \<and>
     totalChunkCount p = JInt (int n) \<and> ceil_div (int len) (int csize) = int n \<and>
     p_chunkIndex p = JInt (int i) \<and> i < n \<and> p_byteStart p = JInt (int i * int csize) \<and>
     (let l = (if i = n - 1 then int len - int i * int csize else int csize)
      in p_byteLength p = JInt l \<and> 1 \<le> l \<and> l \<le> int csize) \<and>
     HEX64_PATTERN (p_sourceSha256 p) \<and> HEX64_PATTERN (p_chunkSha256 p) \<and>
     HEX64_PATTERN (p_merkleLeafSha256 p) \<and>
     length (proof_nodes p) = ceillog2 n \<and> eachE check_proof_node (proof_nodes p) = Inr ()"

lemma expected_depth: "1 \<le> n \<Longrightarrow> expectedProofDepthFor (int n) = int (ceillog2 n)"
  by (cases "n = 1") (simp_all add: expectedProofDepthFor_def)

lemma ceillog2_count: "n \<le> 1024 \<Longrightarrow> ceillog2 n \<le> 10"
  using ceillog2_le_iff [of n 10] by (cases "n = 0") simp_all

lemma shape_imp:
  assumes "assertProofShapeConsistent p = Inr ()"
  shows "\<exists>csize len n i. shape_ok p csize len n i"
proof -
  from assms have "isAllowedChunkSize (p_chunkSize p)"
    "isInteger (sourceByteLength p)" "\<not> num_lt (sourceByteLength p) 1"
    "isInteger (totalChunkCount p)" "\<not> num_lt (totalChunkCount p) 1"
    "isInteger (p_chunkIndex p)" "\<not> num_lt (p_chunkIndex p) 0"
    unfolding assertProofShapeConsistent_def ok_simps Let_def de_Morgan_disj not_not by blast+
  then obtain csize l c j where ints: "p_chunkSize p = JInt (int csize)" "int csize \<in> set ALLOWED_CHUNK_SIZES"
    "sourceByteLength p = JInt l" "1 \<le> l" "totalChunkCount p = JInt c" "1 \<le> c"
    "p_chunkIndex p = JInt j" "0 \<le> j"
    by (auto simp: isAllowed_iff isInteger_cases not_less) (metis allowed_nat)
  moreover obtain len n i where nats: "l = int len" "c = int n" "j = int i"
    using ints(4,6,8) by (metis nonneg_int_cases zero_le_one order_trans)
  ultimately have v: "p_chunkSize p = JInt (int csize)" "int csize \<in> set ALLOWED_CHUNK_SIZES"
    "sourceByteLength p = JInt (int len)" "1 \<le> len" "totalChunkCount p = JInt (int n)" "1 \<le> n"
    "p_chunkIndex p = JInt (int i)" by auto
  have last: "int i = int n - 1 \<longleftrightarrow> i = n - 1" using v(6) by auto
  from assms v(1,2,4,6) have "shape_ok p csize len n i"
    unfolding assertProofShapeConsistent_def v(3,5,7) num_int.simps v(1) last
      expected_depth [OF v(6)] shape_ok_def ok_simps Let_def
    by (auto simp: v)
  then show ?thesis by blast
qed

lemma shape_ok_imp:
  assumes "shape_ok p csize len n i"
  shows "assertProofShapeConsistent p = Inr ()"
proof -
  have c: "int csize \<in> set ALLOWED_CHUNK_SIZES" "int len \<le> MAX_CALIBRATION_SOURCE_BYTES" "1 \<le> n"
    "ceil_div (int len) (int csize) = int n"
    using assms by (auto simp: shape_ok_def)
  with ceil_div_count [OF c(1,2)] have n: "n \<le> 1024" by simp
  have last: "int i = int n - 1 \<longleftrightarrow> i = n - 1" using c(3) by auto
  show ?thesis
    using assms c(1) n ceillog2_count [OF n]
    unfolding assertProofShapeConsistent_def ok_simps Let_def shape_ok_def
    by (auto simp: isAllowed_iff limits expected_depth [OF c(3)] last)
qed

lemma verify_proof_iff:
  "verifyArtifactChunkProof H (VBytes b) p rt = Inr True \<longleftrightarrow>
     assertProofShapeConsistent p = Inr () \<and> HEX64_PATTERN rt \<and> p_byteLength p = JInt (int (length b)) \<and>
     p_chunkSha256 p = hex (H b) \<and> p_merkleLeafSha256 p = hex (merkleLeafDigest H b) \<and>
     (\<exists>d. walk_proof H (merkleLeafDigest H b) (nat (num_int (p_chunkIndex p)))
             (nat (num_int (totalChunkCount p))) (proof_nodes p) = Some (d, 1) \<and> hex d = rt)"
  by (cases "assertProofShapeConsistent p")
    (auto simp: verifyArtifactChunkProof_def rawDigest_def split: option.splits)

definition proof_of :: "chunk_manifest \<Rightarrow> nat \<Rightarrow> proof_node list \<Rightarrow> chunk_proof" where
  "proof_of m i nodes =
     (let chunk = chunks m ! i in
      \<lparr>p_profileVersion = profileVersion m, p_sourceSha256 = sourceSha256 m,
       sourceByteLength = m_byteLength m, p_chunkSize = chunkSize m, totalChunkCount = chunkCount m,
       p_chunkIndex = chunkIndex chunk, p_byteStart = byteStart chunk, p_byteLength = byteLength chunk,
       p_chunkSha256 = chunkSha256 chunk, p_merkleLeafSha256 = merkleLeafSha256 chunk,
       proof_nodes = nodes\<rparr>)"

lemma proof_of_shape:
  assumes "manifest_ok H csize len m" "i < length (chunks m)"
    "length nodes = ceillog2 (length (chunks m))" "eachE check_proof_node nodes = Inr ()"
  shows "shape_ok (proof_of m i nodes) csize len (length (chunks m)) i"
proof -
  have "entry_ok (int csize) (int len) (length (chunks m)) i (chunks m ! i)"
    using assms(1,2) by (simp add: manifest_ok_def)
  moreover have "0 < len" using assms(1,2) by (cases "len = 0") (auto simp: manifest_ok_def)
  ultimately show ?thesis
    using assms unfolding shape_ok_def manifest_ok_def entry_ok_def proof_of_def Let_def
    by simp
qed

lemma leaf_digests_32: "manifest_ok H csize len m \<Longrightarrow> \<forall>d \<in> set (leaf_digests m). length d = 32"
  by (auto simp: leaf_digests_def manifest_ok_def entry_ok_def Let_def length_unhex in_set_conv_nth)

lemma length_leaf_digests [simp]: "length (leaf_digests m) = length (chunks m)"
  by (simp add: leaf_digests_def)

context digest
begin

lemma build_proof_ok:
  assumes ok: "manifest_ok H csize len m" and i: "i < length (chunks m)"
  shows "\<exists>nodes. buildArtifactChunkProof H m (JInt (int i)) = Inr (proof_of m i nodes)
    \<and> length nodes = ceillog2 (length (chunks m)) \<and> eachE check_proof_node nodes = Inr ()
    \<and> walk_proof H (leaf_digests m ! i) i (length (chunks m)) nodes = Some (unhex (merkleRoot m), 1)"
proof -
  from proof_complete [of i "leaf_digests m"] i leaf_digests_32 [OF ok] obtain nodes where nodes:
    "buildProofNodesFromLevels (levels_from H (leaf_digests m)) i = Inr nodes"
    "length nodes = ceillog2 (length (chunks m))" "eachE check_proof_node nodes = Inr ()"
    "walk_proof H (leaf_digests m ! i) i (length (chunks m)) nodes = Some (mroot H (leaf_digests m), 1)"
    by auto
  have c: "int csize \<in> set ALLOWED_CHUNK_SIZES" "int len \<le> MAX_CALIBRATION_SOURCE_BYTES"
    "ceil_div (int len) (int csize) = int (length (chunks m))" "chunks m \<noteq> []"
    using ok i by (auto simp: manifest_ok_def)
  then have "length (chunks m) \<le> 1024" using ceil_div_count [OF c(1,2)] by linarith
  from ceillog2_count [OF this] nodes(2) have depth: "\<not> MAX_MERKLE_PROOF_DEPTH < int (length nodes)"
    by (simp add: limits)
  have levels: "buildMerkleLevels H (leaf_digests m) = levels_from H (leaf_digests m)"
    using c(4) by (simp add: buildMerkleLevels_def leaf_digests_def)
  have count: "chunkCount m = JInt (int (length (chunks m)))" "merkleRoot m = hex (mroot H (leaf_digests m))"
    using ok c(4) by (auto simp: manifest_ok_def)
  have acc: "assertManifestConsistent H m = Inr ()" using ok assertManifestConsistent_iff by blast
  have "buildArtifactChunkProof H m (JInt (int i)) = Inr (proof_of m i nodes)"
    using i depth nodes(1) unfolding buildArtifactChunkProof_def acc sum.case Let_def count(1)
      leaf_digests_def [symmetric] levels
    by (simp add: elem_at_def proof_of_def Let_def count(1))
  with nodes count(2) show ?thesis by auto
qed

lemma verified_source_proofs:
  assumes "verifyArtifactSourceManifest H (VBytes source) m = Inr True" "i < length (chunks m)"
  shows "\<exists>p. buildArtifactChunkProof H m (JInt (int i)) = Inr p
    \<and> length (proof_nodes p) = ceillog2 (length (chunks m))
    \<and> verifyArtifactChunkProof H (VBytes (entry_bytes source (chunks m ! i))) p (merkleRoot m) = Inr True"
proof -
  from assms(1) obtain csize where ok: "manifest_ok H csize (length source) m" and
    eq: "\<forall>c \<in> set (chunks m). entry_matches H source c"
    unfolding verify_source_iff assertManifestConsistent_iff by (auto simp: manifest_ok_def)
  note c = manifest_ok_count [OF ok]
  from build_proof_ok [OF ok assms(2)] obtain nodes where nodes:
    "buildArtifactChunkProof H m (JInt (int i)) = Inr (proof_of m i nodes)"
    "length nodes = ceillog2 (length (chunks m))" "eachE check_proof_node nodes = Inr ()"
    "walk_proof H (leaf_digests m ! i) i (length (chunks m)) nodes = Some (unhex (merkleRoot m), 1)"
    by blast
  let ?e = "chunks m ! i" and ?b = "entry_bytes source (chunks m ! i)"
  have e: "chunkSha256 ?e = hex (H ?b)" "merkleLeafSha256 ?e = hex (merkleLeafDigest H ?b)"
    using eq assms(2) by (auto simp: entry_matches_def)
  have idx: "chunkIndex ?e = JInt (int i)" "HEX64_PATTERN (merkleRoot m)"
    "chunkCount m = JInt (int (length (chunks m)))" "\<exists>l. byteLength ?e = JInt l"
    using ok assms(2) by (auto simp: manifest_ok_def entry_ok_def Let_def)
  have "byteLength ?e = JInt (int (length ?b))"
    using manifest_ok_entry [OF ok assms(2)] chunk_start_less [OF c(1)] assms(2) idx(4)
    by (auto simp: chunk_of_def length_subarray c(2))
  moreover have "leaf_digests m ! i = merkleLeafDigest H ?b"
    using assms(2) e(2) by (simp add: leaf_digests_def)
  moreover note shape_ok_imp [OF proof_of_shape [OF ok assms(2) nodes(2,3)]]
  ultimately have "verifyArtifactChunkProof H (VBytes ?b) (proof_of m i nodes) (merkleRoot m) = Inr True"
    using nodes(4) e idx unfolding verify_proof_iff by (simp add: proof_of_def Let_def)
  with nodes(1,2) show ?thesis by (auto simp: proof_of_def Let_def)
qed

end

end
