(* ===== verification/Chunk_Properties.thy ===== *)
theory Chunk_Properties
  imports Chunk_Correct
begin

text \<open>
  The properties of the chunk manifests, stated for SHA-256: they rest on the interpretation of the
  digest interface. Collision resistance is not assumed; a property that needs it concludes with the
  explicit pair of colliding inputs among those the code hashed.
\<close>

section \<open>Soundness with extracted collisions\<close>

definition collision :: "hashfn \<Rightarrow> byte list list \<Rightarrow> bool" where
  "collision H ms \<longleftrightarrow> (\<exists>a \<in> set ms. \<exists>b \<in> set ms. a \<noteq> b \<and> H a = H b)"

lemma no_collision: "\<not> collision H ms \<longleftrightarrow> inj_on H (set ms)"
  by (auto simp: collision_def inj_on_def)

text \<open>The inputs hashed when a proof for \<open>b\<close> is checked against the tree of a manifest.\<close>

definition proof_check_inputs ::
    "hashfn \<Rightarrow> byte list \<Rightarrow> chunk_manifest \<Rightarrow> byte list \<Rightarrow> chunk_proof \<Rightarrow> byte list list" where
  "proof_check_inputs H source m b p =
     tree_inputs H (leaf_digests m) @ walk_inputs H (merkleLeafDigest H b) (proof_nodes p) @
     map (Cons 0x00) (b # map (entry_bytes source) (chunks m))"

text \<open>The inputs hashed when a manifest is built from a source.\<close>

definition manifest_inputs :: "hashfn \<Rightarrow> byte list \<Rightarrow> chunk_manifest \<Rightarrow> byte list list" where
  "manifest_inputs H source m =
     tree_inputs H (leaf_digests m) @ map (Cons 0x00) (map (entry_bytes source) (chunks m))"

lemma verified_leaf:
  assumes "\<forall>c \<in> set (chunks m). entry_matches H source c"
  shows "leaf_digests m = map (\<lambda>c. merkleLeafDigest H (entry_bytes source c)) (chunks m)"
  using assms by (auto simp: leaf_digests_def entry_matches_def)

lemma verified_manifest:
  assumes "verifyArtifactSourceManifest H (VBytes source) m = Inr True"
  obtains csize where "manifest_ok H csize (length source) m" "sourceSha256 m = hex (H source)"
    "\<forall>c \<in> set (chunks m). entry_matches H source c"
  using assms unfolding verify_source_iff assertManifestConsistent_iff by (auto simp: manifest_ok_def)

lemma concat_entries:
  assumes "manifest_ok H csize (length source) m"
  shows "concat (map (entry_bytes source) (chunks m)) = source"
proof -
  note c = manifest_ok_count [OF assms]
  have "map (entry_bytes source) (chunks m) = map (chunk_of source csize) [0..<chunk_count source csize]"
    by (rule nth_equalityI) (simp_all add: manifest_ok_entry(1) [OF assms] c)
  then show ?thesis using chunks_partition [OF c(1)] by simp
qed

context digest
begin

lemma proof_sound:
  assumes "verifyArtifactSourceManifest H (VBytes source) m = Inr True"
    and "verifyArtifactChunkProof H (VBytes b) p (merkleRoot m) = Inr True"
    and "totalChunkCount p = chunkCount m"
  shows "\<exists>i < length (chunks m). p_chunkIndex p = JInt (int i) \<and>
    (b = entry_bytes source (chunks m ! i) \<or> collision H (proof_check_inputs H source m b p))"
proof -
  from assms(1) obtain csize where ok: "manifest_ok H csize (length source) m"
    and eq: "\<forall>c \<in> set (chunks m). entry_matches H source c" by (rule verified_manifest)
  from assms(2) obtain d where v: "assertProofShapeConsistent p = Inr ()" "hex d = merkleRoot m"
    "walk_proof H (merkleLeafDigest H b) (nat (num_int (p_chunkIndex p)))
       (nat (num_int (totalChunkCount p))) (proof_nodes p) = Some (d, 1)"
    unfolding verify_proof_iff by blast
  from shape_imp [OF v(1)] obtain cs len n i where "shape_ok p cs len n i" by blast
  then have p: "p_chunkIndex p = JInt (int i)" "totalChunkCount p = JInt (int n)" "i < n"
    "length (proof_nodes p) = ceillog2 n" by (simp_all add: shape_ok_def)
  have n: "n = length (chunks m)" using p(2) assms(3) ok by (simp add: manifest_ok_def)
  with p(3) have i: "i < length (chunks m)" by simp
  then have "chunks m \<noteq> []" by auto
  then have "merkleRoot m = hex (mroot H (leaf_digests m))" using ok by (simp add: manifest_ok_def)
  with v(2,3) have walk: "walk_proof H (merkleLeafDigest H b) i (length (leaf_digests m)) (proof_nodes p)
      = Some (mroot H (leaf_digests m), 1)" by (simp add: p n)
  have "b = entry_bytes source (chunks m ! i)" if nc: "\<not> collision H (proof_check_inputs H source m b p)"
  proof -
    from nc have inj: "inj_on H (set (proof_check_inputs H source m b p))" by (simp add: no_collision)
    then have "inj_on H (set (tree_inputs H (leaf_digests m) @
        walk_inputs H (merkleLeafDigest H b) (proof_nodes p)))"
      by (rule inj_on_subset) (auto simp: proof_check_inputs_def)
    from walk_sound [OF walk _ _ leaf_digests_32 [OF ok] _ this] i p(4) n
    have "merkleLeafDigest H b = leaf_digests m ! i" by simp
    then have "H (0x00 # b) = H (0x00 # entry_bytes source (chunks m ! i))"
      using i by (simp add: verified_leaf [OF eq] merkleLeafDigest_def)
    with inj i show ?thesis
      by (auto simp: proof_check_inputs_def dest!: inj_onD [OF inj])
  qed
  with i p(1) show ?thesis by blast
qed

lemma root_binds:
  assumes "verifyArtifactSourceManifest H (VBytes a) m = Inr True"
    and "verifyArtifactSourceManifest H (VBytes b) m' = Inr True"
    and "merkleRoot m = merkleRoot m'" "chunkSize m = chunkSize m'" "length a = length b"
  shows "a = b \<or> collision H (manifest_inputs H a m @ manifest_inputs H b m')"
proof (rule disjCI)
  assume "\<not> collision H (manifest_inputs H a m @ manifest_inputs H b m')"
  then have inj: "inj_on H (set (manifest_inputs H a m @ manifest_inputs H b m'))"
    by (simp only: no_collision not_not)
  from assms(1) obtain c where ok: "manifest_ok H c (length a) m"
    and eq: "\<forall>c \<in> set (chunks m). entry_matches H a c" by (rule verified_manifest)
  from assms(2) obtain c' where ok': "manifest_ok H c' (length b) m'"
    and eq': "\<forall>c \<in> set (chunks m'). entry_matches H b c" by (rule verified_manifest)
  have n: "length (chunks m) = length (chunks m')"
    using ok ok' assms(4,5) by (simp add: manifest_ok_def)
  have "chunks m \<noteq> [] \<Longrightarrow> leaf_digests m = leaf_digests m'"
  proof (rule mroot_inj)
    assume ne: "chunks m \<noteq> []"
    then have "chunks m' \<noteq> []" using n by auto
    with ne show "mroot H (leaf_digests m) = mroot H (leaf_digests m')"
      using ok ok' assms(3) by (simp add: manifest_ok_def)
    show "inj_on H (set (tree_inputs H (leaf_digests m) @ tree_inputs H (leaf_digests m')))"
      using inj by (rule inj_on_subset) (auto simp: manifest_inputs_def)
  qed (use n leaf_digests_32 [OF ok] leaf_digests_32 [OF ok'] in \<open>auto simp: leaf_digests_def\<close>)
  moreover have "chunks m = [] \<Longrightarrow> leaf_digests m = leaf_digests m'"
    using n by (simp add: leaf_digests_def)
  ultimately have "leaf_digests m = leaf_digests m'" by blast
  then have "map (\<lambda>x. H (0x00 # x)) (map (entry_bytes a) (chunks m)) =
      map (\<lambda>x. H (0x00 # x)) (map (entry_bytes b) (chunks m'))"
    unfolding verified_leaf [OF eq] verified_leaf [OF eq'] by (simp add: merkleLeafDigest_def comp_def)
  moreover have "inj_on (\<lambda>x. H (0x00 # x))
      (set (map (entry_bytes a) (chunks m)) \<union> set (map (entry_bytes b) (chunks m')))"
  proof (rule inj_onI)
    fix x y
    assume "x \<in> set (map (entry_bytes a) (chunks m)) \<union> set (map (entry_bytes b) (chunks m'))"
      "y \<in> set (map (entry_bytes a) (chunks m)) \<union> set (map (entry_bytes b) (chunks m'))"
      "H (0x00 # x) = H (0x00 # y)"
    then show "x = y" using inj_onD [OF inj, of "0x00 # x" "0x00 # y"] by (auto simp: manifest_inputs_def)
  qed
  ultimately have "map (entry_bytes a) (chunks m) = map (entry_bytes b) (chunks m')"
    by (rule map_inj_on)
  then show "a = b" using concat_entries [OF ok] concat_entries [OF ok'] by simp
qed

end

section \<open>A two-chunk sample for the witnesses\<close>

definition sample_source :: "byte list" where
  "sample_source = replicate 1500 7"

definition sample_manifest :: chunk_manifest where
  "sample_manifest = source_manifest sha256 sample_source 1024"

lemma sample_build: "buildArtifactChunkManifest sha256 (VBytes sample_source) (JInt 1024) = Inr sample_manifest"
  using build_eq [of 1024 sample_source sha256]
  by (simp add: sample_manifest_def sample_source_def allowed_sizes limits)

lemma sample_fields: "chunkSize sample_manifest = JInt 1024" "length (chunks sample_manifest) = 2"
  "m_byteLength sample_manifest = JInt (int (length sample_source))"
  by (simp_all add: sample_manifest_def source_manifest_def chunk_count_def sample_source_def ceil_div_def)

lemma sample_verified: "verifyArtifactSourceManifest sha256 (VBytes sample_source) sample_manifest = Inr True"
  using sample_build by (simp add: sha.verify_source_eq_build sample_fields)

lemma sample_consistent: "assertManifestConsistent sha256 sample_manifest = Inr ()"
  using sample_verified by (simp add: verify_source_iff)

section \<open>Properties\<close>

text \<open>
  C6. \<open>verifyArtifactSourceManifest\<close> returns \<open>true\<close> for a source and a manifest exactly when the
  manifest is, field for field, the one \<open>buildArtifactChunkManifest\<close> builds from that source with the
  manifest's chunk size.
\<close>

theorem source_verification_iff_built:
  "verifyArtifactSourceManifest sha256 (VBytes source) m = Inr True \<longleftrightarrow>
   buildArtifactChunkManifest sha256 (VBytes source) (chunkSize m) = Inr m"
  by (rule sha.verify_source_eq_build)

text \<open>
  C1. Soundness of inclusion proofs: when a source verifies against a manifest, and some bytes verify
  against any proof with the manifest's chunk count under the manifest's root, then the bytes are the
  source's chunk at the index the proof declares, or two different inputs among those hashed have
  the same SHA-256 digest.
\<close>

theorem chunk_proof_sound:
  assumes "verifyArtifactSourceManifest sha256 (VBytes source) m = Inr True"
    and "verifyArtifactChunkProof sha256 (VBytes b) p (merkleRoot m) = Inr True"
    and "totalChunkCount p = chunkCount m"
  shows "\<exists>i < length (chunks m). p_chunkIndex p = JInt (int i) \<and>
    (b = entry_bytes source (chunks m ! i) \<or> collision sha256 (proof_check_inputs sha256 source m b p))"
  using assms by (rule sha.proof_sound)

theorem chunk_proof_sound_witness:
  "\<exists>p. verifyArtifactChunkProof sha256 (VBytes (entry_bytes sample_source (chunks sample_manifest ! 1))) p
        (merkleRoot sample_manifest) = Inr True
    \<and> (\<exists>i < length (chunks sample_manifest). p_chunkIndex p = JInt (int i) \<and>
         (entry_bytes sample_source (chunks sample_manifest ! 1) = entry_bytes sample_source (chunks sample_manifest ! i)
          \<or> collision sha256 (proof_check_inputs sha256 sample_source sample_manifest
               (entry_bytes sample_source (chunks sample_manifest ! 1)) p)))"
proof -
  have one: "1 < length (chunks sample_manifest)" by (simp add: sample_fields)
  obtain csize where ok: "manifest_ok sha256 csize (length sample_source) sample_manifest"
    using sample_verified by (rule verified_manifest)
  from sha.verified_source_proofs [OF sample_verified one] sha.build_proof_ok [OF ok one]
  obtain p nodes where "p = proof_of sample_manifest 1 nodes"
    "verifyArtifactChunkProof sha256 (VBytes (entry_bytes sample_source (chunks sample_manifest ! 1))) p
        (merkleRoot sample_manifest) = Inr True" by auto
  with chunk_proof_sound [OF sample_verified, of _ p] show ?thesis
    by (auto simp: proof_of_def Let_def)
qed

text \<open>
  C27. Completeness of inclusion proofs: for every chunk of a verified manifest a proof is built, it
  has the depth \<open>expectedProofDepthFor\<close> prescribes, at most 10 nodes, and it verifies for that
  chunk's bytes under the manifest's root.
\<close>

theorem chunk_proof_complete:
  assumes "verifyArtifactSourceManifest sha256 (VBytes source) m = Inr True" "i < length (chunks m)"
  shows "\<exists>p. buildArtifactChunkProof sha256 m (JInt (int i)) = Inr p
    \<and> int (length (proof_nodes p)) = expectedProofDepthFor (int (length (chunks m)))
    \<and> length (proof_nodes p) \<le> 10
    \<and> verifyArtifactChunkProof sha256 (VBytes (entry_bytes source (chunks m ! i))) p (merkleRoot m) = Inr True"
proof -
  from assms(1) obtain csize where ok: "manifest_ok sha256 csize (length source) m"
    by (rule verified_manifest)
  then have c: "int csize \<in> set ALLOWED_CHUNK_SIZES" "int (length source) \<le> MAX_CALIBRATION_SOURCE_BYTES"
    "ceil_div (int (length source)) (int csize) = int (length (chunks m))" by (simp_all add: manifest_ok_def)
  have "length (chunks m) \<le> 1024" using ceil_div_count [OF c(1,2)] c(3) by linarith
  then have "ceillog2 (length (chunks m)) \<le> 10" by (rule ceillog2_count)
  moreover have "expectedProofDepthFor (int (length (chunks m))) = int (ceillog2 (length (chunks m)))"
    using assms(2) by (intro expected_depth) simp
  ultimately show ?thesis using sha.verified_source_proofs [OF assms] by auto
qed

theorem chunk_proof_complete_witness:
  "verifyArtifactSourceManifest sha256 (VBytes sample_source) sample_manifest = Inr True
   \<and> (\<exists>p. buildArtifactChunkProof sha256 sample_manifest (JInt 1) = Inr p
       \<and> int (length (proof_nodes p)) = 1 \<and> length (proof_nodes p) \<le> 10
       \<and> verifyArtifactChunkProof sha256 (VBytes (entry_bytes sample_source (chunks sample_manifest ! 1))) p
            (merkleRoot sample_manifest) = Inr True)"
  using chunk_proof_complete [OF sample_verified, of 1] sample_verified
  by (simp add: sample_fields expectedProofDepthFor_def)

text \<open>
  C29. The Merkle root binds the source: two sources of the same length that verify against manifests
  with the same chunk size and the same root are equal, or two different inputs among those hashed
  have the same SHA-256 digest.
\<close>

theorem merkle_root_binds_source:
  assumes "verifyArtifactSourceManifest sha256 (VBytes a) m = Inr True"
    and "verifyArtifactSourceManifest sha256 (VBytes b) m' = Inr True"
    and "merkleRoot m = merkleRoot m'" "chunkSize m = chunkSize m'" "length a = length b"
  shows "a = b \<or> collision sha256 (manifest_inputs sha256 a m @ manifest_inputs sha256 b m')"
  using assms by (rule sha.root_binds)

theorem merkle_root_binds_source_witness:
  "sample_source = replicate 1500 7 \<or>
   collision sha256 (manifest_inputs sha256 sample_source sample_manifest
     @ manifest_inputs sha256 (replicate 1500 7) sample_manifest)"
  using merkle_root_binds_source [of sample_source sample_manifest "replicate 1500 7" sample_manifest]
    sample_verified
  by (simp add: sample_source_def)

text \<open>
  The ranges of a manifest that \<open>assertManifestConsistent\<close> accepts cut any source of the declared
  length into consecutive pieces: concatenated in order they are the source.
\<close>

lemma accepted_ranges_partition:
  assumes "assertManifestConsistent sha256 m = Inr ()" "m_byteLength m = JInt (int (length source))"
  shows "concat (map (entry_bytes source) (chunks m)) = source"
proof -
  from assms obtain csize where "manifest_ok sha256 csize (length source) m"
    unfolding assertManifestConsistent_iff by (auto simp: manifest_ok_def)
  then show ?thesis by (rule concat_entries)
qed

lemma accepted_ranges_partition_witness:
  "assertManifestConsistent sha256 sample_manifest = Inr ()
   \<and> concat (map (entry_bytes sample_source) (chunks sample_manifest)) = sample_source"
  using accepted_ranges_partition [OF sample_consistent sample_fields(3)] sample_consistent by simp

text \<open>
  Every outcome of \<open>buildArtifactChunkManifest\<close>: the three input errors in the order of the
  checks, and otherwise a manifest; the chunk-count and the missing-root errors are never thrown.
\<close>

lemma build_manifest_outcomes:
  "buildArtifactChunkManifest sha256 v c =
     (case v of
        VBytes source \<Rightarrow>
          if c \<notin> {JInt 1024, JInt 4096, JInt 8192} then Inl UNSUPPORTED_CHUNK_SIZE
          else if 1048576 < length source then Inl SOURCE_TOO_LARGE
          else Inr (source_manifest sha256 source (nat (num_int c)))
      | _ \<Rightarrow> Inl INVALID_INPUT_TYPE)"
proof (cases v)
  case (VBytes source)
  have allowed: "isAllowedChunkSize c \<longleftrightarrow> c \<in> {JInt 1024, JInt 4096, JInt 8192}"
    by (auto simp: isAllowedChunkSize_def ALLOWED_CHUNK_SIZES_def)
  show ?thesis
  proof (cases "isAllowedChunkSize c \<and> \<not> 1048576 < length source")
    case True
    then have "c = JInt (int (nat (num_int c)))" "int (nat (num_int c)) \<in> set ALLOWED_CHUNK_SIZES"
      "int (length source) \<le> MAX_CALIBRATION_SOURCE_BYTES"
      by (auto simp: allowed allowed_sizes limits)
    with build_eq [of "nat (num_int c)" source sha256] True VBytes show ?thesis
      unfolding allowed by simp
  next
    case False
    then show ?thesis unfolding buildArtifactChunkManifest_def VBytes
      by (auto simp: limits allowed)
  qed
qed (simp_all add: buildArtifactChunkManifest_def)

text \<open>
  Every outcome of \<open>buildArtifactChunkProof\<close> on a consistent manifest: a proof exactly for an
  integer index below the chunk count, otherwise \<open>INVALID_CHUNK_INDEX\<close>.
\<close>

lemma build_proof_outcomes:
  assumes "assertManifestConsistent sha256 m = Inr ()"
  shows "if \<exists>i < length (chunks m). index = JInt (int i)
    then is_ok (buildArtifactChunkProof sha256 m index)
    else buildArtifactChunkProof sha256 m index = Inl INVALID_CHUNK_INDEX"
proof -
  from assms obtain csize len where ok: "manifest_ok sha256 csize len m"
    using assertManifestConsistent_iff by blast
  then have n: "chunkCount m = JInt (int (length (chunks m)))" by (simp add: manifest_ok_def)
  have "isInteger index \<and> \<not> num_lt index 0 \<and> num_int index < num_int (chunkCount m) \<longleftrightarrow>
      (\<exists>i < length (chunks m). index = JInt (int i))"
    using n by (auto simp: isInteger_cases not_less elim!: nonneg_int_cases)
  then have "\<not> (\<exists>i < length (chunks m). index = JInt (int i)) \<Longrightarrow>
      buildArtifactChunkProof sha256 m index = Inl INVALID_CHUNK_INDEX"
    using assms by (auto simp: buildArtifactChunkProof_def not_le)
  moreover have "i < length (chunks m) \<Longrightarrow> is_ok (buildArtifactChunkProof sha256 m (JInt (int i)))" for i
    using sha.build_proof_ok [OF ok, of i] by (auto simp: is_ok_iff)
  ultimately show ?thesis by auto
qed

lemma build_proof_outcomes_witness:
  "is_ok (buildArtifactChunkProof sha256 sample_manifest (JInt 1))
   \<and> buildArtifactChunkProof sha256 sample_manifest (JInt 2) = Inl INVALID_CHUNK_INDEX"
proof
  have "\<exists>i < length (chunks sample_manifest). JInt 1 = JInt (int i)"
    by (intro exI [of _ 1]) (simp add: sample_fields)
  then show "is_ok (buildArtifactChunkProof sha256 sample_manifest (JInt 1))"
    using build_proof_outcomes [OF sample_consistent, of "JInt 1"] by simp
  have "\<not> (\<exists>i < length (chunks sample_manifest). JInt 2 = JInt (int i))"
    by (auto simp: sample_fields)
  then show "buildArtifactChunkProof sha256 sample_manifest (JInt 2) = Inl INVALID_CHUNK_INDEX"
    using build_proof_outcomes [OF sample_consistent, of "JInt 2"] by simp
qed

text \<open>
  The root does not commit to the chunk count: with 1024-byte chunks, a source of three full
  chunks and the longer source that repeats its last chunk have the same Merkle root, so a proof that
  declares four chunks verifies under the root of the three-chunk source.
\<close>

lemma root_ignores_repeated_last_chunk:
  assumes "length a = 1024" "length b = 1024" "length c = 1024"
  shows "\<exists>m m'. buildArtifactChunkManifest sha256 (VBytes (a @ b @ c)) (JInt 1024) = Inr m
    \<and> buildArtifactChunkManifest sha256 (VBytes (a @ b @ c @ c)) (JInt 1024) = Inr m'
    \<and> merkleRoot m = merkleRoot m'
    \<and> (\<exists>p. p_chunkIndex p = JInt 3 \<and> totalChunkCount p = JInt 4
          \<and> verifyArtifactChunkProof sha256 (VBytes c) p (merkleRoot m) = Inr True)"
proof -
  let ?s = "a @ b @ c" and ?t = "a @ b @ c @ c"
  let ?m = "source_manifest sha256 ?s 1024" and ?m' = "source_manifest sha256 ?t 1024"
  have ok: "int 1024 \<in> set ALLOWED_CHUNK_SIZES" "int (length ?s) \<le> MAX_CALIBRATION_SOURCE_BYTES"
    "int (length ?t) \<le> MAX_CALIBRATION_SOURCE_BYTES"
    using assms by (simp_all add: allowed_sizes limits)
  have n: "chunk_count ?s 1024 = 3" "chunk_count ?t 1024 = 4" "[0..<3] = [0, 1, 2 :: nat]"
    "[0..<4] = [0, 1, 2, 3 :: nat]"
    using assms by (simp_all add: chunk_count_def ceil_div_def upt_rec)
  have chunk: "chunk_of ?s 1024 0 = a" "chunk_of ?s 1024 1 = b" "chunk_of ?s 1024 2 = c"
    "chunk_of ?t 1024 0 = a" "chunk_of ?t 1024 1 = b" "chunk_of ?t 1024 2 = c" "chunk_of ?t 1024 3 = c"
    using assms by (simp_all add: chunk_of_def subarray_def)
  have root: "merkleRoot ?m = merkleRoot ?m'"
    using assms chunk by (auto simp: source_manifest_def source_leaves_def n mroot_rec)
  have b: "buildArtifactChunkManifest sha256 (VBytes ?s) (JInt 1024) = Inr ?m"
    "buildArtifactChunkManifest sha256 (VBytes ?t) (JInt 1024) = Inr ?m'"
    using build_eq [OF ok(1,2), of sha256] build_eq [OF ok(1,3), of sha256] by simp_all
  then have v: "verifyArtifactSourceManifest sha256 (VBytes ?t) ?m' = Inr True"
    by (simp add: sha.verify_source_eq_build) (simp add: source_manifest_def)
  have len: "length (chunks ?m') = 4" by (simp add: source_manifest_def n)
  have mok: "manifest_ok sha256 1024 (length ?t) ?m'" by (rule sha.source_manifest_ok [OF ok(1,3)])
  obtain p where p: "buildArtifactChunkProof sha256 ?m' (JInt (int 3)) = Inr p"
    "verifyArtifactChunkProof sha256 (VBytes (entry_bytes ?t (chunks ?m' ! 3))) p (merkleRoot ?m') = Inr True"
    using sha.verified_source_proofs [OF v, of 3] len by auto
  moreover have "entry_bytes ?t (chunks ?m' ! 3) = c"
    using manifest_ok_entry(1) [OF mok, of 3] len chunk by simp
  moreover have "p_chunkIndex p = JInt 3" "totalChunkCount p = JInt 4"
    using sha.build_proof_ok [OF mok, of 3] p(1) len mok
    by (auto simp: proof_of_def Let_def manifest_ok_def entry_ok_def)
  ultimately show ?thesis using b root by auto
qed

lemma root_ignores_repeated_last_chunk_witness:
  "\<exists>m m'. buildArtifactChunkManifest sha256
        (VBytes (replicate 1024 1 @ replicate 1024 2 @ replicate 1024 3)) (JInt 1024) = Inr m
    \<and> buildArtifactChunkManifest sha256
        (VBytes (replicate 1024 1 @ replicate 1024 2 @ replicate 1024 3 @ replicate 1024 3)) (JInt 1024) = Inr m'
    \<and> merkleRoot m = merkleRoot m'
    \<and> (\<exists>p. p_chunkIndex p = JInt 3 \<and> totalChunkCount p = JInt 4
          \<and> verifyArtifactChunkProof sha256 (VBytes (replicate 1024 3)) p (merkleRoot m) = Inr True)"
  by (rule root_ignores_repeated_last_chunk) simp_all

end
