(* ===== verification/Text_Index.thy ===== *)
theory Text_Index
  imports Hex
begin

text \<open>
  \<open>packages/server/src/artifact-text-index.ts\<close>: the line and heading index over UTF-8 text, the
  validator of an untrusted index, and the bounded readers. \<open>H\<close> is the digest function; \<open>nfc\<close> and
  \<open>lower\<close> are \<open>String.prototype.normalize('NFC')\<close> and \<open>String.prototype.toLowerCase\<close>, whose tables come
  from the Unicode version of the runtime: every result holds for any such functions.
\<close>

section \<open>Profile, errors and data\<close>

definition ARTIFACT_TEXT_INDEX_PROFILE_VERSION :: jsstring where
  "ARTIFACT_TEXT_INDEX_PROFILE_VERSION = js ''artifact-text-index/0.1''"

definition MAX_TEXT_INDEX_BYTES :: nat where
  [limits]: "MAX_TEXT_INDEX_BYTES = 262144"
definition MAX_TEXT_INDEX_LINES :: nat where
  [limits]: "MAX_TEXT_INDEX_LINES = 10000"
definition MAX_TEXT_INDEX_HEADINGS :: nat where
  [limits]: "MAX_TEXT_INDEX_HEADINGS = 1000"
definition MAX_HEADING_LEVEL :: nat where
  [limits]: "MAX_HEADING_LEVEL = 6"
definition MAX_HEADING_TEXT_CHARS :: nat where
  [limits]: "MAX_HEADING_TEXT_CHARS = 512"
definition MAX_LINE_READ_COUNT :: nat where
  [limits]: "MAX_LINE_READ_COUNT = 200"
definition MAX_TEXT_READ_BYTES :: nat where
  [limits]: "MAX_TEXT_READ_BYTES = 8192"

datatype text_error =
    TI_INVALID_INPUT_TYPE | TI_SOURCE_TOO_LARGE | TOO_MANY_LINES | TOO_MANY_HEADINGS
  | UNSUPPORTED_MEDIA_TYPE | INVALID_UTF8 | INVALID_LINE_RANGE | INVALID_HEADING_ID
  | RESPONSE_LIMIT_EXCEEDED | SOURCE_MISMATCH | INCONSISTENT_INDEX

record text_line =
  lineNumber :: int
  l_byteStart :: int
  contentByteLength :: int
  newlineByteLength :: int
  newlineKind :: jsstring

record text_heading =
  headingId :: jsstring
  level :: int
  rawText :: jsstring
  normalizedText :: jsstring
  h_lineNumber :: int
  h_byteStart :: int
  h_byteLength :: int

record text_index =
  i_profileVersion :: jsstring
  i_sourceSha256 :: jsstring
  i_byteLength :: int
  mediaType :: jsstring
  lineCount :: int
  lines :: "text_line list"
  headings :: "text_heading list"

record text_read =
  r_sourceSha256 :: jsstring
  contentTrust :: jsstring
  r_text :: jsstring

definition TEXT_PLAIN :: jsstring where "TEXT_PLAIN = js ''text/plain''"
definition TEXT_MARKDOWN :: jsstring where "TEXT_MARKDOWN = js ''text/markdown''"
definition NL_NONE :: jsstring where "NL_NONE = js ''none''"
definition NL_LF :: jsstring where "NL_LF = js ''lf''"
definition NL_CRLF :: jsstring where "NL_CRLF = js ''crlf''"

definition LF :: byte where "LF = 0x0a"
definition CR :: byte where "CR = 0x0d"

fun assertBytes :: "jsval \<Rightarrow> text_error + byte list" where
  "assertBytes (VBytes b) = Inr b"
| "assertBytes _ = Inl TI_INVALID_INPUT_TYPE"

definition assertMediaType :: "jsval \<Rightarrow> text_error + jsstring" where
  "assertMediaType v =
     (case v of
        VStr s \<Rightarrow> if s \<noteq> TEXT_PLAIN \<and> s \<noteq> TEXT_MARKDOWN then Inl UNSUPPORTED_MEDIA_TYPE else Inr s
      | _ \<Rightarrow> Inl UNSUPPORTED_MEDIA_TYPE)"

definition decode :: "byte list \<Rightarrow> text_error + jsstring" where
  "decode b = (case text_decode b of None \<Rightarrow> Inl INVALID_UTF8 | Some s \<Rightarrow> Inr s)"

section \<open>Lines\<close>

definition mk_line :: "nat \<Rightarrow> nat \<Rightarrow> nat \<Rightarrow> nat \<Rightarrow> jsstring \<Rightarrow> text_line" where
  "mk_line n start len nl kind =
     \<lparr>lineNumber = int n, l_byteStart = int start, contentByteLength = int len,
      newlineByteLength = int nl, newlineKind = kind\<rparr>"

text \<open>
  The scanning loop: \<open>acc\<close> is \<open>lines\<close>, the last argument the bytes from \<open>offset\<close> on. It returns the lines
  and the final \<open>start\<close> and \<open>lineNumber\<close>.
\<close>

function scan_from ::
    "text_line list \<Rightarrow> nat \<Rightarrow> nat \<Rightarrow> nat \<Rightarrow> byte list \<Rightarrow> text_error + (text_line list \<times> nat \<times> nat)" where
  "scan_from acc start n offset [] = Inr (acc, start, n)"
| "scan_from acc start n offset (current # rest) =
     (if current = LF \<or> current = CR \<and> elem_at rest 0 = Some LF then
        (let nl = (if current = CR then 2 else 1);
             acc' = acc @ [mk_line n start (offset - start) nl (if current = CR then NL_CRLF else NL_LF)]
         in if MAX_TEXT_INDEX_LINES < length acc' then Inl TOO_MANY_LINES
            else scan_from acc' (offset + nl) (n + 1) (offset + nl) (drop (nl - 1) rest))
      else scan_from acc start n (offset + 1) rest)"
  by pat_completeness auto
termination
  by (relation "measure (\<lambda>(acc, start, n, offset, bs). length bs)") auto

definition scanLines :: "byte list \<Rightarrow> text_error + text_line list" where
  "scanLines source =
     (case scan_from [] 0 1 0 source of
        Inl e \<Rightarrow> Inl e
      | Inr (acc, start, n) \<Rightarrow>
          (let acc' = (if start < length source
                       then acc @ [mk_line n start (length source - start) 0 NL_NONE] else acc)
           in if MAX_TEXT_INDEX_LINES < length acc' then Inl TOO_MANY_LINES else Inr acc'))"

section \<open>Fences\<close>

definition SPACE :: cunit where "SPACE = 0x20"
definition TAB :: cunit where "TAB = 0x09"
definition HASH :: cunit where "HASH = 0x23"
definition BACKTICK :: cunit where "BACKTICK = 0x60"
definition TILDE :: cunit where "TILDE = 0x7e"
definition HYPHEN :: cunit where "HYPHEN = 0x2d"

definition countLeadingSpaces :: "jsstring \<Rightarrow> nat" where
  "countLeadingSpaces s = length (takeWhile (\<lambda>u. u = SPACE) s)"

record fence =
  marker :: cunit
  f_length :: nat

definition parseFence :: "jsstring \<Rightarrow> fence option" where
  "parseFence s =
     (let indent = countLeadingSpaces s
      in if 3 < indent then None
         else case elem_at s indent of
           None \<Rightarrow> None
         | Some mk \<Rightarrow>
             if mk \<noteq> BACKTICK \<and> mk \<noteq> TILDE then None
             else (let run = length (takeWhile (\<lambda>u. u = mk) (drop indent s))
                   in if 3 \<le> run then Some \<lparr>marker = mk, f_length = run\<rparr> else None))"

definition isClosingFence :: "jsstring \<Rightarrow> fence \<Rightarrow> bool" where
  "isClosingFence s opening =
     (let indent = countLeadingSpaces s
      in if 3 < indent \<or> elem_at s indent \<noteq> Some (marker opening) then False
         else
           (let run = length (takeWhile (\<lambda>u. u = marker opening) (drop indent s))
            in if run < f_length opening then False
               else list_all (\<lambda>u. u = SPACE \<or> u = TAB) (drop (indent + run) s)))"

definition codePointCount :: "jsstring \<Rightarrow> nat" where
  "codePointCount s = length (code_points s)"

section \<open>Headings\<close>

text \<open>The white space of \<open>\\s\<close>, \<open>trim\<close> and \<open>trimEnd\<close>.\<close>

definition is_space :: "cunit \<Rightarrow> bool" where
  "is_space u \<longleftrightarrow>
     u \<in> {0x09, 0x0a, 0x0b, 0x0c, 0x0d, 0x20, 0xa0, 0x1680, 0x2028, 0x2029, 0x202f, 0x205f, 0x3000, 0xfeff}
     \<or> 0x2000 \<le> u \<and> u \<le> 0x200a"

definition trimEnd :: "jsstring \<Rightarrow> jsstring" where
  "trimEnd s = rev (dropWhile is_space (rev s))"

definition trim :: "jsstring \<Rightarrow> jsstring" where
  "trim s = dropWhile is_space (trimEnd s)"

text \<open>\<open>/\\s+#+\\s*$/u\<close> anchored at the start of the string.\<close>

definition closing_here :: "jsstring \<Rightarrow> bool" where
  "closing_here s =
     (let r = dropWhile is_space s
      in length r < length s \<and> elem_at r 0 = Some HASH \<and> list_all is_space (dropWhile (\<lambda>u. u = HASH) r))"

text \<open>The index of the leftmost match.\<close>

fun closing_index :: "jsstring \<Rightarrow> nat option" where
  "closing_index [] = None"
| "closing_index (u # s) = (if closing_here (u # s) then Some 0 else map_option Suc (closing_index s))"

definition parseAtxHeading :: "jsstring \<Rightarrow> text_error + (nat \<times> jsstring) option" where
  "parseAtxHeading s =
     (let indent = countLeadingSpaces s
      in if 3 < indent then Inr None
         else
           (let lev = length (takeWhile (\<lambda>u. u = HASH) (take (MAX_HEADING_LEVEL + 1) (drop indent s)))
            in if lev < 1 \<or> MAX_HEADING_LEVEL < lev \<or> elem_at s (indent + lev) \<noteq> Some SPACE then Inr None
               else
                 (let raw = drop (indent + lev + 1) s;
                      raw' = (case closing_index raw of None \<Rightarrow> raw | Some i \<Rightarrow> trimEnd (take i raw))
                  in if MAX_HEADING_TEXT_CHARS < codePointCount raw' then Inl RESPONSE_LIMIT_EXCEEDED
                     else Inr (Some (lev, raw')))))"

text \<open>\<open>replace(/\\s+/gu, ' ')\<close>\<close>

fun collapse_spaces :: "jsstring \<Rightarrow> jsstring" where
  "collapse_spaces [] = []"
| "collapse_spaces (u # s) =
     (if is_space u then
        (case s of
           [] \<Rightarrow> [SPACE]
         | v # _ \<Rightarrow> if is_space v then collapse_spaces s else SPACE # collapse_spaces s)
      else u # collapse_spaces s)"

type_synonym strfn = "jsstring \<Rightarrow> jsstring"

definition normalizedHeadingText :: "strfn \<Rightarrow> strfn \<Rightarrow> jsstring \<Rightarrow> jsstring" where
  "normalizedHeadingText nfc lower raw = lower (collapse_spaces (trim (nfc raw)))"

definition slug_sep :: "jsstring \<Rightarrow> bool \<Rightarrow> jsstring" where
  "slug_sep slug separator = (if separator \<and> slug \<noteq> [] then slug @ [HYPHEN] else slug)"

text \<open>One character of the slug loop, on the state \<open>(slug, separator)\<close>.\<close>

definition slug_step :: "nat \<Rightarrow> jsstring \<times> bool \<Rightarrow> jsstring \<times> bool" where
  "slug_step code st =
     (case st of (slug, separator) \<Rightarrow>
        if 0x61 \<le> code \<and> code \<le> 0x7a \<or> 0x30 \<le> code \<and> code \<le> 0x39
        then (slug_sep slug separator @ [of_nat code], False)
        else if 0x7f < code
        then (slug_sep slug separator @ js ''u--'' @ to_base 16 code @ js ''--'', False)
        else (slug, True))"

definition headingSlug :: "jsstring \<Rightarrow> jsstring" where
  "headingSlug s =
     (let slug = fst (fold slug_step (code_points s) ([], False))
      in if slug = [] then js ''heading'' else slug)"

definition id_suffix :: "nat \<Rightarrow> jsstring" where
  "id_suffix n = HYPHEN # to_base 10 n"

definition candidate :: "jsstring \<Rightarrow> nat \<Rightarrow> jsstring" where
  "candidate slug n =
     (if n = 1 then take 128 slug else take (128 - length (id_suffix n)) slug @ id_suffix n)"

subsection \<open>The search for a free identifier ends\<close>

text \<open>The candidates with a numeric suffix are pairwise different, so a finite set cannot hold them all.\<close>

definition digits_value :: "jsstring \<Rightarrow> nat" where
  "digits_value s = foldl (\<lambda>a u. a * 10 + the (hex_value u)) 0 s"

lemma to_base_value: "digits_value (to_base 10 n) = n"
proof (induction n rule: less_induct)
  case (less n)
  show ?case
    using less [of "n div 10"]
    by (cases "n < 10") (simp_all add: to_base.simps [of 10 n] digits_value_def)
qed

lemma hyphen_not_digit: "d < 16 \<Longrightarrow> hex_digit d \<noteq> HYPHEN"
  using unat_hex_digit [of d] by (auto simp: HYPHEN_def split: if_splits)

lemma suffix_of_candidate:
  assumes "2 \<le> n"
  shows "takeWhile (\<lambda>u. u \<noteq> HYPHEN) (rev (candidate slug n)) = rev (to_base 10 n)"
proof -
  have "\<forall>u \<in> set (rev (to_base 10 n)). u \<noteq> HYPHEN"
  proof
    fix u assume "u \<in> set (rev (to_base 10 n))"
    then obtain d where "d < 10" "u = hex_digit d" using to_base_digit [of 10 u n] by auto
    then show "u \<noteq> HYPHEN" using hyphen_not_digit [of d] by simp
  qed
  then have "takeWhile (\<lambda>u. u \<noteq> HYPHEN) (rev (to_base 10 n) @ HYPHEN # r) = rev (to_base 10 n)" for r
    by (subst takeWhile_append2) auto
  then show ?thesis using assms by (simp add: candidate_def id_suffix_def)
qed

lemma candidate_inj: "inj_on (candidate slug) {2..}"
proof (rule inj_onI)
  fix n m :: nat
  assume "n \<in> {2..}" "m \<in> {2..}" "candidate slug n = candidate slug m"
  then have "to_base 10 n = to_base 10 m"
    using suffix_of_candidate [of n slug] suffix_of_candidate [of m slug] by simp
  then show "n = m" by (metis to_base_value)
qed

lemma finite_taken: "finite {k. n \<le> k \<and> candidate slug k \<in> set used}"
proof -
  have "finite (candidate slug -` set used \<inter> {2..})"
    by (rule finite_vimage_IntI [OF _ candidate_inj]) simp
  moreover have "{k. n \<le> k \<and> candidate slug k \<in> set used} \<subseteq> (candidate slug -` set used \<inter> {2..}) \<union> {0, 1}"
    by auto
  ultimately show ?thesis by (meson finite.emptyI finite_insert finite_UnI finite_subset)
qed

function id_loop :: "jsstring \<Rightarrow> jsstring list \<Rightarrow> nat \<Rightarrow> jsstring" where
  "id_loop slug used n = (if candidate slug n \<in> set used then id_loop slug used (n + 1) else candidate slug n)"
  by pat_completeness auto
termination
proof (relation "measure (\<lambda>(slug, used, n). card {k. n \<le> k \<and> candidate slug k \<in> set used})")
  fix slug used n
  assume "candidate slug n \<in> set used"
  then have "n \<in> {k. n \<le> k \<and> candidate slug k \<in> set used} - {k. n + 1 \<le> k \<and> candidate slug k \<in> set used}"
    by simp
  then have "{k. n + 1 \<le> k \<and> candidate slug k \<in> set used} \<subset> {k. n \<le> k \<and> candidate slug k \<in> set used}"
    by fastforce
  then show "((slug, used, n + 1), slug, used, n)
      \<in> measure (\<lambda>(slug, used, n). card {k. n \<le> k \<and> candidate slug k \<in> set used})"
    by (simp add: psubset_card_mono finite_taken)
qed simp

declare id_loop.simps [simp del]

text \<open>The identifier, and \<open>used\<close> with it added.\<close>

definition nextHeadingId :: "jsstring \<Rightarrow> jsstring list \<Rightarrow> jsstring \<times> jsstring list" where
  "nextHeadingId slug used = (let c = id_loop slug used 1 in (c, c # used))"

subsection \<open>The heading scan\<close>

record scan_state =
  s_headings :: "text_heading list"
  s_ids :: "jsstring list"
  s_fence :: "fence option"

text \<open>One iteration of the loop over the lines.\<close>

definition heading_step ::
    "strfn \<Rightarrow> strfn \<Rightarrow> byte list \<Rightarrow> text_line \<Rightarrow> scan_state \<Rightarrow> text_error + scan_state" where
  "heading_step nfc lower source line st =
     (let start = nat (l_byteStart line)
      in case decode (subarray start (start + nat (contentByteLength line)) source) of
           Inl e \<Rightarrow> Inl e
         | Inr txt \<Rightarrow>
             (case s_fence st of
                Some f \<Rightarrow> Inr (if isClosingFence txt f then st\<lparr>s_fence := None\<rparr> else st)
              | None \<Rightarrow>
                  (case parseFence txt of
                     Some f \<Rightarrow> Inr (st\<lparr>s_fence := Some f\<rparr>)
                   | None \<Rightarrow>
                       (case parseAtxHeading txt of
                          Inl e \<Rightarrow> Inl e
                        | Inr None \<Rightarrow> Inr st
                        | Inr (Some (lev, raw)) \<Rightarrow>
                            (let norm = normalizedHeadingText nfc lower raw;
                                 (hid, ids) = nextHeadingId (headingSlug norm) (s_ids st);
                                 hs = s_headings st @
                                   [\<lparr>headingId = hid, level = int lev, rawText = raw, normalizedText = norm,
                                     h_lineNumber = lineNumber line, h_byteStart = l_byteStart line,
                                     h_byteLength = contentByteLength line\<rparr>]
                             in if MAX_TEXT_INDEX_HEADINGS < length hs then Inl TOO_MANY_HEADINGS
                                else Inr (st\<lparr>s_headings := hs, s_ids := ids\<rparr>))))))"

fun heading_loop ::
    "strfn \<Rightarrow> strfn \<Rightarrow> byte list \<Rightarrow> text_line list \<Rightarrow> scan_state \<Rightarrow> text_error + scan_state" where
  "heading_loop nfc lower source [] st = Inr st"
| "heading_loop nfc lower source (line # rest) st =
     (case heading_step nfc lower source line st of
        Inl e \<Rightarrow> Inl e
      | Inr st' \<Rightarrow> heading_loop nfc lower source rest st')"

definition scanHeadings ::
    "strfn \<Rightarrow> strfn \<Rightarrow> byte list \<Rightarrow> text_line list \<Rightarrow> jsstring \<Rightarrow> text_error + text_heading list" where
  "scanHeadings nfc lower source ls media =
     (if media = TEXT_PLAIN then Inr []
      else case heading_loop nfc lower source ls \<lparr>s_headings = [], s_ids = [], s_fence = None\<rparr> of
             Inl e \<Rightarrow> Inl e
           | Inr st \<Rightarrow> Inr (s_headings st))"

section \<open>Building an index\<close>

definition buildArtifactTextIndex ::
    "hashfn \<Rightarrow> strfn \<Rightarrow> strfn \<Rightarrow> jsval \<Rightarrow> jsval \<Rightarrow> text_error + text_index" where
  "buildArtifactTextIndex H nfc lower bytes media =
     (case assertBytes bytes of
        Inl e \<Rightarrow> Inl e
      | Inr source \<Rightarrow>
          (case assertMediaType media of
             Inl e \<Rightarrow> Inl e
           | Inr mt \<Rightarrow>
               if MAX_TEXT_INDEX_BYTES < length source then Inl TI_SOURCE_TOO_LARGE
               else
                 (case decode source of
                    Inl e \<Rightarrow> Inl e
                  | Inr _ \<Rightarrow>
                      (case scanLines source of
                         Inl e \<Rightarrow> Inl e
                       | Inr ls \<Rightarrow>
                           (case scanHeadings nfc lower source ls mt of
                              Inl e \<Rightarrow> Inl e
                            | Inr hs \<Rightarrow>
                                Inr \<lparr>i_profileVersion = ARTIFACT_TEXT_INDEX_PROFILE_VERSION,
                                     i_sourceSha256 = hex (H source),
                                     i_byteLength = int (length source),
                                     mediaType = mt,
                                     lineCount = int (length ls),
                                     lines = ls,
                                     headings = hs\<rparr>)))))"

section \<open>Validating an untrusted index\<close>

definition INDEX_KEYS :: "jsstring list" where
  "INDEX_KEYS = map js [''profileVersion'', ''sourceSha256'', ''byteLength'', ''mediaType'', ''lineCount'',
     ''lines'', ''headings'']"

definition LINE_KEYS :: "jsstring list" where
  "LINE_KEYS = map js [''lineNumber'', ''byteStart'', ''contentByteLength'', ''newlineByteLength'', ''newlineKind'']"

definition HEADING_KEYS :: "jsstring list" where
  "HEADING_KEYS = map js [''headingId'', ''level'', ''rawText'', ''normalizedText'', ''lineNumber'',
     ''byteStart'', ''byteLength'']"

definition assertOrdinaryDataRecord ::
    "jsval \<Rightarrow> jsstring list \<Rightarrow> text_error + (jsstring \<times> jsval) list" where
  "assertOrdinaryDataRecord v keys =
     (case v of
        VObj fs \<Rightarrow>
          if length fs \<noteq> length keys then Inl INCONSISTENT_INDEX
          else if \<not> list_all (\<lambda>k. k \<in> set (map fst fs)) keys then Inl INCONSISTENT_INDEX
          else Inr fs
      | _ \<Rightarrow> Inl INCONSISTENT_INDEX)"

fun assertOrdinaryArray :: "jsval \<Rightarrow> text_error + jsval list" where
  "assertOrdinaryArray (VArr xs) = Inr xs"
| "assertOrdinaryArray _ = Inl INCONSISTENT_INDEX"

definition assertSafeInteger :: "jsval \<Rightarrow> int \<Rightarrow> int \<Rightarrow> text_error + int" where
  "assertSafeInteger v minimum maximum =
     (case v of
        VNum x \<Rightarrow>
          if \<not> isSafeInteger x \<or> num_lt x minimum \<or> num_gt x maximum then Inl INCONSISTENT_INDEX
          else Inr (num_int x)
      | _ \<Rightarrow> Inl INCONSISTENT_INDEX)"

fun as_string :: "jsval \<Rightarrow> text_error + jsstring" where
  "as_string (VStr s) = Inr s"
| "as_string _ = Inl INCONSISTENT_INDEX"

definition assertLineShape :: "int \<Rightarrow> jsval \<Rightarrow> text_error + text_line" where
  "assertLineShape blen v =
     (case assertOrdinaryDataRecord v LINE_KEYS of
        Inl e \<Rightarrow> Inl e
      | Inr fs \<Rightarrow>
     (case assertSafeInteger (getp fs (js ''lineNumber'')) 1 (int MAX_TEXT_INDEX_LINES) of
        Inl e \<Rightarrow> Inl e
      | Inr n \<Rightarrow>
     (case assertSafeInteger (getp fs (js ''byteStart'')) 0 blen of
        Inl e \<Rightarrow> Inl e
      | Inr start \<Rightarrow>
     (case assertSafeInteger (getp fs (js ''contentByteLength'')) 0 blen of
        Inl e \<Rightarrow> Inl e
      | Inr len \<Rightarrow>
          if getp fs (js ''newlineByteLength'') \<notin> {VNum (JInt 0), VNum (JInt 1), VNum (JInt 2)}
             \<or> getp fs (js ''newlineKind'') \<notin> {VStr NL_NONE, VStr NL_LF, VStr NL_CRLF}
          then Inl INCONSISTENT_INDEX
          else
     (case (getp fs (js ''newlineByteLength''), getp fs (js ''newlineKind'')) of
        (VNum nl, VStr kind) \<Rightarrow>
          Inr \<lparr>lineNumber = n, l_byteStart = start, contentByteLength = len,
               newlineByteLength = num_int nl, newlineKind = kind\<rparr>
      | _ \<Rightarrow> Inl INCONSISTENT_INDEX)))))"

definition assertHeadingShape :: "int \<Rightarrow> int \<Rightarrow> jsval \<Rightarrow> text_error + text_heading" where
  "assertHeadingShape blen count v =
     (case assertOrdinaryDataRecord v HEADING_KEYS of
        Inl e \<Rightarrow> Inl e
      | Inr fs \<Rightarrow>
     (case as_string (getp fs (js ''headingId'')) of
        Inl e \<Rightarrow> Inl e
      | Inr hid \<Rightarrow>
          if length hid < 1 \<or> 128 < length hid then Inl INCONSISTENT_INDEX
          else
     (case as_string (getp fs (js ''rawText'')) of
        Inl e \<Rightarrow> Inl e
      | Inr raw \<Rightarrow>
          if MAX_HEADING_TEXT_CHARS < codePointCount raw then Inl INCONSISTENT_INDEX
          else
     (case as_string (getp fs (js ''normalizedText'')) of
        Inl e \<Rightarrow> Inl e
      | Inr norm \<Rightarrow>
     (case assertSafeInteger (getp fs (js ''level'')) 1 (int MAX_HEADING_LEVEL) of
        Inl e \<Rightarrow> Inl e
      | Inr lev \<Rightarrow>
     (case assertSafeInteger (getp fs (js ''lineNumber'')) 1 count of
        Inl e \<Rightarrow> Inl e
      | Inr n \<Rightarrow>
     (case assertSafeInteger (getp fs (js ''byteStart'')) 0 blen of
        Inl e \<Rightarrow> Inl e
      | Inr start \<Rightarrow>
     (case assertSafeInteger (getp fs (js ''byteLength'')) 0 blen of
        Inl e \<Rightarrow> Inl e
      | Inr len \<Rightarrow>
          Inr \<lparr>headingId = hid, level = lev, rawText = raw, normalizedText = norm,
               h_lineNumber = n, h_byteStart = start, h_byteLength = len\<rparr>))))))))"

text \<open>The assertion, returning the typed view of the value that the code uses afterwards.\<close>

definition assertIndexShape :: "jsval \<Rightarrow> text_error + text_index" where
  "assertIndexShape v =
     (case assertOrdinaryDataRecord v INDEX_KEYS of
        Inl e \<Rightarrow> Inl e
      | Inr fs \<Rightarrow>
     (case (getp fs (js ''sourceSha256''), getp fs (js ''mediaType'')) of
        (VStr sha, VStr mt) \<Rightarrow>
          if getp fs (js ''profileVersion'') \<noteq> VStr ARTIFACT_TEXT_INDEX_PROFILE_VERSION
             \<or> \<not> HEX64_PATTERN sha \<or> mt \<noteq> TEXT_PLAIN \<and> mt \<noteq> TEXT_MARKDOWN
          then Inl INCONSISTENT_INDEX
          else
     (case assertSafeInteger (getp fs (js ''byteLength'')) 0 (int MAX_TEXT_INDEX_BYTES) of
        Inl e \<Rightarrow> Inl e
      | Inr blen \<Rightarrow>
     (case assertSafeInteger (getp fs (js ''lineCount'')) 0 (int MAX_TEXT_INDEX_LINES) of
        Inl e \<Rightarrow> Inl e
      | Inr count \<Rightarrow>
     (case assertOrdinaryArray (getp fs (js ''lines'')) of
        Inl e \<Rightarrow> Inl e
      | Inr lvs \<Rightarrow>
     (case assertOrdinaryArray (getp fs (js ''headings'')) of
        Inl e \<Rightarrow> Inl e
      | Inr hvs \<Rightarrow>
          if int (length lvs) \<noteq> count \<or> MAX_TEXT_INDEX_HEADINGS < length hvs then Inl INCONSISTENT_INDEX
          else
     (case mapE (assertLineShape blen) lvs of
        Inl e \<Rightarrow> Inl e
      | Inr ls \<Rightarrow>
     (case mapE (assertHeadingShape blen count) hvs of
        Inl e \<Rightarrow> Inl e
      | Inr hs \<Rightarrow>
          Inr \<lparr>i_profileVersion = ARTIFACT_TEXT_INDEX_PROFILE_VERSION, i_sourceSha256 = sha,
               i_byteLength = blen, mediaType = mt, lineCount = count, lines = ls, headings = hs\<rparr>))))))
      | _ \<Rightarrow> Inl INCONSISTENT_INDEX))"

definition sameLine :: "text_line \<Rightarrow> text_line \<Rightarrow> bool" where
  "sameLine actual expected \<longleftrightarrow>
     lineNumber actual = lineNumber expected \<and> l_byteStart actual = l_byteStart expected \<and>
     contentByteLength actual = contentByteLength expected \<and>
     newlineByteLength actual = newlineByteLength expected \<and> newlineKind actual = newlineKind expected"

definition sameHeading :: "text_heading \<Rightarrow> text_heading \<Rightarrow> bool" where
  "sameHeading actual expected \<longleftrightarrow>
     headingId actual = headingId expected \<and> level actual = level expected \<and>
     rawText actual = rawText expected \<and> normalizedText actual = normalizedText expected \<and>
     h_lineNumber actual = h_lineNumber expected \<and> h_byteStart actual = h_byteStart expected \<and>
     h_byteLength actual = h_byteLength expected"

definition sameIndex :: "text_index \<Rightarrow> text_index \<Rightarrow> bool" where
  "sameIndex left right \<longleftrightarrow>
     i_profileVersion left = i_profileVersion right \<and> i_sourceSha256 left = i_sourceSha256 right \<and>
     i_byteLength left = i_byteLength right \<and> mediaType left = mediaType right \<and>
     lineCount left = lineCount right \<and> length (lines left) = length (lines right) \<and>
     length (headings left) = length (headings right) \<and>
     list_all2 sameLine (lines left) (lines right) \<and> list_all2 sameHeading (headings left) (headings right)"

definition assertConsistentIndex ::
    "hashfn \<Rightarrow> strfn \<Rightarrow> strfn \<Rightarrow> byte list \<Rightarrow> jsval \<Rightarrow> text_error + text_index" where
  "assertConsistentIndex H nfc lower bytes unsafeIndex =
     (case assertIndexShape unsafeIndex of
        Inl e \<Rightarrow> Inl e
      | Inr index \<Rightarrow>
          if i_sourceSha256 index \<noteq> hex (H bytes) then Inl SOURCE_MISMATCH
          else
            (case buildArtifactTextIndex H nfc lower (VBytes bytes) (VStr (mediaType index)) of
               Inl e \<Rightarrow> Inl e
             | Inr expected \<Rightarrow>
                 if \<not> sameIndex index expected then Inl INCONSISTENT_INDEX else Inr index))"

section \<open>Reading\<close>

definition assertReadBytes :: "jsval \<Rightarrow> text_error + byte list" where
  "assertReadBytes bytes =
     (case assertBytes bytes of
        Inl e \<Rightarrow> Inl e
      | Inr source \<Rightarrow>
          if MAX_TEXT_INDEX_BYTES < length source then Inl TI_SOURCE_TOO_LARGE
          else (case decode source of Inl e \<Rightarrow> Inl e | Inr _ \<Rightarrow> Inr source))"

definition untrustedRead :: "jsstring \<Rightarrow> byte list \<Rightarrow> text_error + text_read" where
  "untrustedRead sha bytes =
     (if MAX_TEXT_READ_BYTES < length bytes then Inl RESPONSE_LIMIT_EXCEEDED
      else case decode bytes of
             Inl e \<Rightarrow> Inl e
           | Inr t \<Rightarrow> Inr \<lparr>r_sourceSha256 = sha, contentTrust = js ''untrusted'', r_text = t\<rparr>)"

definition readIndexedLines ::
    "hashfn \<Rightarrow> strfn \<Rightarrow> strfn \<Rightarrow> jsval \<Rightarrow> jsval \<Rightarrow> jsnum \<Rightarrow> jsnum \<Rightarrow> text_error + text_read" where
  "readIndexedLines H nfc lower bytes index startLine count =
     (case assertReadBytes bytes of
        Inl e \<Rightarrow> Inl e
      | Inr source \<Rightarrow>
     (case assertConsistentIndex H nfc lower source index of
        Inl e \<Rightarrow> Inl e
      | Inr checked \<Rightarrow>
          if \<not> isSafeInteger startLine \<or> \<not> isSafeInteger count \<or> num_lt startLine 1 \<or> num_lt count 1
          then Inl INVALID_LINE_RANGE
          else if num_gt count (int MAX_LINE_READ_COUNT) then Inl RESPONSE_LIMIT_EXCEEDED
          else
            (let endLine = num_int startLine + num_int count - 1
             in if lineCount checked < endLine then Inl INVALID_LINE_RANGE
                else
                  (case (elem_at (lines checked) (nat (num_int startLine - 1)),
                         elem_at (lines checked) (nat (endLine - 1))) of
                     (Some fst_line, Some lst_line) \<Rightarrow>
                       (let end = l_byteStart lst_line + contentByteLength lst_line + newlineByteLength lst_line
                        in untrustedRead (i_sourceSha256 checked)
                             (subarray (nat (l_byteStart fst_line)) (nat end) source))
                   | _ \<Rightarrow> Inl INCONSISTENT_INDEX))))"

definition readIndexedHeading ::
    "hashfn \<Rightarrow> strfn \<Rightarrow> strfn \<Rightarrow> jsval \<Rightarrow> jsval \<Rightarrow> jsval \<Rightarrow> text_error + text_read" where
  "readIndexedHeading H nfc lower bytes index hid =
     (case assertReadBytes bytes of
        Inl e \<Rightarrow> Inl e
      | Inr source \<Rightarrow>
     (case assertConsistentIndex H nfc lower source index of
        Inl e \<Rightarrow> Inl e
      | Inr checked \<Rightarrow>
     (case hid of
        VStr s \<Rightarrow>
          if length s = 0 \<or> 128 < length s then Inl INVALID_HEADING_ID
          else
            (case find (\<lambda>h. headingId h = s) (headings checked) of
               None \<Rightarrow> Inl INVALID_HEADING_ID
             | Some h \<Rightarrow>
                 untrustedRead (i_sourceSha256 checked)
                   (subarray (nat (h_byteStart h)) (nat (h_byteStart h + h_byteLength h)) source))
      | _ \<Rightarrow> Inl INVALID_HEADING_ID)))"

end
