(* ===== verification/Text_Lines.thy ===== *)
theory Text_Lines
  imports Text_Index
begin

text \<open>
  The line scanner: the lines of a source are consecutive, cover it, are numbered from one, end where
  the first line break is, and decode whenever the source does.
\<close>

section \<open>Bytes of a line\<close>

definition line_content :: "byte list \<Rightarrow> text_line \<Rightarrow> byte list" where
  "line_content source l =
     subarray (nat (l_byteStart l)) (nat (l_byteStart l) + nat (contentByteLength l)) source"

definition line_break :: "byte list \<Rightarrow> text_line \<Rightarrow> byte list" where
  "line_break source l =
     (let e = nat (l_byteStart l) + nat (contentByteLength l)
      in subarray e (e + nat (newlineByteLength l)) source)"

definition line_bytes :: "byte list \<Rightarrow> text_line \<Rightarrow> byte list" where
  "line_bytes source l = line_content source l @ line_break source l"

definition line_end :: "text_line \<Rightarrow> nat" where
  "line_end l = nat (l_byteStart l) + nat (contentByteLength l) + nat (newlineByteLength l)"

text \<open>
  A well-placed line: its content has no line break, and the bytes after it are the break its kind
  names; a content before a bare LF does not end in CR, and only a line that ends the source has none.
\<close>

definition line_ok :: "byte list \<Rightarrow> text_line \<Rightarrow> bool" where
  "line_ok source l \<longleftrightarrow>
     0 \<le> l_byteStart l \<and> 0 \<le> contentByteLength l \<and> line_end l \<le> length source \<and>
     LF \<notin> set (line_content source l) \<and>
     (newlineKind l = NL_LF \<and> newlineByteLength l = 1 \<and> line_break source l = [LF] \<and>
        (line_content source l = [] \<or> last (line_content source l) \<noteq> CR)
      \<or> newlineKind l = NL_CRLF \<and> newlineByteLength l = 2 \<and> line_break source l = [CR, LF]
      \<or> newlineKind l = NL_NONE \<and> newlineByteLength l = 0 \<and> line_content source l \<noteq> [] \<and>
        line_end l = length source)"

text \<open>Consecutive lines, numbered from one, covering the source up to \<open>start\<close>.\<close>

definition lines_ok :: "byte list \<Rightarrow> text_line list \<Rightarrow> nat \<Rightarrow> bool" where
  "lines_ok source ls start \<longleftrightarrow>
     (\<forall>l \<in> set ls. line_ok source l) \<and>
     (\<forall>i < length ls. lineNumber (ls ! i) = int i + 1) \<and>
     (\<forall>i < length ls. l_byteStart (ls ! i) = (if i = 0 then 0 else int (line_end (ls ! (i - 1))))) \<and>
     start = (if ls = [] then 0 else line_end (last ls))"

lemma LF_neq_CR [simp]: "LF \<noteq> CR" "CR \<noteq> LF"
  by (simp_all add: LF_def CR_def)

lemma line_bytes_eq:
  "line_bytes source l = subarray (nat (l_byteStart l)) (line_end l) source"
  by (simp add: line_bytes_def line_content_def line_break_def line_end_def Let_def subarray_append_adjacent)

lemma lines_ok_snoc:
  assumes "lines_ok source ls start" "line_ok source l" "lineNumber l = int (length ls) + 1"
    "l_byteStart l = int start"
  shows "lines_ok source (ls @ [l]) (line_end l)"
  using assms by (auto simp: lines_ok_def nth_append last_conv_nth less_Suc_eq)

lemma lines_ok_snocD:
  assumes "lines_ok source (ls @ [l]) start"
  defines "s \<equiv> if ls = [] then 0 else line_end (last ls)"
  shows "lines_ok source ls s" "line_ok source l" "start = line_end l" "l_byteStart l = int s"
    "lineNumber l = int (length ls) + 1"
proof -
  let ?xs = "ls @ [l]"
  have all: "\<forall>l \<in> set ?xs. line_ok source l" "\<And>i. i < length ?xs \<Longrightarrow> lineNumber (?xs ! i) = int i + 1"
    "\<And>i. i < length ?xs \<Longrightarrow> l_byteStart (?xs ! i) = (if i = 0 then 0 else int (line_end (?xs ! (i - 1))))"
    "start = line_end l"
    using assms(1) by (auto simp: lines_ok_def)
  then show "line_ok source l" "start = line_end l" by auto
  show "l_byteStart l = int s" "lineNumber l = int (length ls) + 1"
    using all(3) [of "length ls"] all(2) [of "length ls"] by (auto simp: s_def nth_append last_conv_nth)
  have "lineNumber (ls ! i) = int i + 1" "l_byteStart (ls ! i) = (if i = 0 then 0 else int (line_end (ls ! (i - 1))))"
    if "i < length ls" for i
    using that all(2,3) [of i] by (auto simp: nth_append)
  with all(1) show "lines_ok source ls s" unfolding lines_ok_def s_def by auto
qed

lemma lines_cover: "lines_ok source ls start \<Longrightarrow> concat (map (line_bytes source) ls) = take start source"
proof (induction ls arbitrary: start rule: rev_induct)
  case (snoc l ls)
  let ?s = "if ls = [] then 0 else line_end (last ls)"
  note d = lines_ok_snocD [OF snoc.prems]
  from snoc.IH [OF d(1)] have "concat (map (line_bytes source) (ls @ [l])) = subarray 0 ?s source @ line_bytes source l"
    by (simp add: subarray_def)
  also have "\<dots> = subarray 0 ?s source @ subarray ?s (line_end l) source"
    unfolding line_bytes_eq d(4) nat_int ..
  also have "\<dots> = subarray 0 start source"
    unfolding d(3) by (rule subarray_append_adjacent) (use d(4) in \<open>simp_all add: line_end_def\<close>)
  finally show ?case by (simp add: subarray_def)
qed (simp add: lines_ok_def)

section \<open>The scanning loop\<close>

definition scan_inv :: "byte list \<Rightarrow> text_line list \<Rightarrow> nat \<Rightarrow> nat \<Rightarrow> nat \<Rightarrow> byte list \<Rightarrow> bool" where
  "scan_inv source acc start n offset bs \<longleftrightarrow>
     lines_ok source acc start \<and> n = length acc + 1 \<and> start \<le> offset \<and> offset \<le> length source \<and>
     bs = drop offset source \<and> (start = 0 \<or> source ! (start - 1) = LF) \<and> LF \<notin> set (subarray start offset source) \<and>
     (start < offset \<and> last (subarray start offset source) = CR \<longrightarrow> elem_at bs 0 \<noteq> Some LF)"

lemma scan_inv_init: "scan_inv source [] 0 1 0 source"
  by (simp add: scan_inv_def lines_ok_def)

lemma mk_line_simps [simp]:
  "lineNumber (mk_line n s c nl k) = int n" "l_byteStart (mk_line n s c nl k) = int s"
  "contentByteLength (mk_line n s c nl k) = int c" "newlineByteLength (mk_line n s c nl k) = int nl"
  "newlineKind (mk_line n s c nl k) = k"
  by (simp_all add: mk_line_def)

lemma scan_inv_break:
  assumes inv: "scan_inv source acc start n offset (current # rest)"
    and brk: "current = LF \<or> current = CR \<and> elem_at rest 0 = Some LF"
  shows "scan_inv source
      (acc @ [mk_line n start (offset - start) (if current = CR then 2 else 1) (if current = CR then NL_CRLF else NL_LF)])
      (offset + (if current = CR then 2 else 1)) (n + 1) (offset + (if current = CR then 2 else 1))
      (drop ((if current = CR then 2 else 1) - 1) rest)"
proof -
  let ?nl = "if current = CR then 2 else (1 :: nat)"
  let ?l = "mk_line n start (offset - start) ?nl (if current = CR then NL_CRLF else NL_LF)"
  from inv have d: "drop offset source = current # rest" "start \<le> offset" "lines_ok source acc start"
    "n = length acc + 1" "LF \<notin> set (subarray start offset source)"
    "start < offset \<Longrightarrow> last (subarray start offset source) = CR \<Longrightarrow> current \<noteq> LF"
    by (auto simp: scan_inv_def)
  have rest: "rest = drop (Suc offset) source" using d(1) by (metis drop_Suc list.sel(3) tl_drop)
  have len: "offset + ?nl \<le> length source" "drop (?nl - 1) rest = drop (offset + ?nl) source"
    using brk arg_cong [OF d(1), of length] by (auto simp: rest elem_at_def split: if_splits)
  have brk_bytes: "subarray offset (offset + ?nl) source = (if current = CR then [CR, LF] else [LF])"
    using d(1) brk by (cases rest) (auto simp: subarray_def split: if_splits)
  have parts: "line_content source ?l = subarray start offset source"
    "line_break source ?l = subarray offset (offset + ?nl) source" "line_end ?l = offset + ?nl"
    using d(2) by (simp_all add: line_content_def line_break_def line_end_def Let_def del: of_nat_diff)
  have "line_ok source ?l"
    unfolding line_ok_def parts brk_bytes using d len(1) brk
    by (auto simp: length_subarray subarray_def)
  with parts(3) have "lines_ok source (acc @ [?l]) (offset + ?nl)"
    using lines_ok_snoc [OF d(3), of ?l] d(4) by simp
  moreover have "source ! (offset + ?nl - 1) = LF"
    using arg_cong [OF d(1), of "\<lambda>xs. xs ! (?nl - 1)"] brk arg_cong [OF d(1), of length]
    by (auto simp: elem_at_eq_Some_iff)
  ultimately show ?thesis using d(4) len by (simp add: scan_inv_def)
qed

lemma scan_inv_step:
  assumes inv: "scan_inv source acc start n offset (current # rest)"
    and no: "\<not> (current = LF \<or> current = CR \<and> elem_at rest 0 = Some LF)"
  shows "scan_inv source acc start n (offset + 1) rest"
proof -
  from inv have d: "drop offset source = current # rest" "start \<le> offset"
    by (auto simp: scan_inv_def)
  then have off: "offset < length source" by (metis drop_all leI list.distinct(1))
  have "subarray start (offset + 1) source = subarray start offset source @ [current]"
    using subarray_append_adjacent [of start offset "offset + 1" source] d by (simp add: subarray_def)
  moreover have "rest = drop (offset + 1) source" using d(1) by (metis Suc_eq_plus1 drop_Suc list.sel(3) tl_drop)
  ultimately show ?thesis using inv no off by (auto simp: scan_inv_def)
qed

lemma scan_from_inv:
  "scan_inv source acc start n offset bs \<Longrightarrow> scan_from acc start n offset bs = Inr (acc', start', n') \<Longrightarrow>
   scan_inv source acc' start' n' (length source) []"
proof (induction acc start n offset bs rule: scan_from.induct)
  case (1 acc start n offset)
  then show ?case by (auto simp: scan_inv_def)
next
  case (2 acc start n offset current rest)
  show ?case
  proof (cases "current = LF \<or> current = CR \<and> elem_at rest 0 = Some LF")
    case True
    with 2(1) scan_inv_break [OF 2(3) True] 2(4) show ?thesis
      by (simp add: Let_def split: if_splits)
  next
    case False
    with 2(2) scan_inv_step [OF 2(3) False] 2(4) show ?thesis by simp
  qed
qed

lemma scan_from_count:
  "length acc \<le> MAX_TEXT_INDEX_LINES \<Longrightarrow>
   (MAX_TEXT_INDEX_LINES < length acc + count_list bs LF \<longrightarrow> scan_from acc start n offset bs = Inl TOO_MANY_LINES) \<and>
   (\<not> MAX_TEXT_INDEX_LINES < length acc + count_list bs LF \<longrightarrow>
      (\<exists>acc' start' n'. scan_from acc start n offset bs = Inr (acc', start', n')
           \<and> length acc' = length acc + count_list bs LF))"
proof (induction acc start n offset bs rule: scan_from.induct)
  case (2 acc start n offset current rest)
  show ?case
  proof (cases "current = LF \<or> current = CR \<and> elem_at rest 0 = Some LF")
    case True
    let ?nl = "if current = CR then 2 else (1 :: nat)"
    have cnt: "count_list (current # rest) LF = Suc (count_list (drop (?nl - 1) rest) LF)"
      using True by (cases rest) auto
    show ?thesis
    proof (cases "MAX_TEXT_INDEX_LINES < Suc (length acc)")
      case big: True
      then show ?thesis using True cnt 2(3) by (auto simp: Let_def)
    next
      case False
      then show ?thesis
        using 2(1) [OF True refl refl] 2(3) True cnt by (cases "current = CR") (simp_all add: Let_def)
    qed
  next
    case False
    then show ?thesis using 2(2) [OF False] 2(3) by auto
  qed
qed auto

section \<open>The scanner\<close>

text \<open>The number of lines of a source: one per LF, and one more for a last line without a break.\<close>

definition line_total :: "byte list \<Rightarrow> nat" where
  "line_total source = count_list source LF + (if source \<noteq> [] \<and> last source \<noteq> LF then 1 else 0)"

lemma scan_end:
  assumes "scan_inv source acc start n (length source) []"
  shows "start < length source \<longleftrightarrow> source \<noteq> [] \<and> last source \<noteq> LF"
proof (cases "start < length source")
  case True
  then have "last source = last (subarray start (length source) source)" "subarray start (length source) source \<noteq> []"
    by (auto simp: subarray_def)
  then have "last source \<in> set (subarray start (length source) source)" by (metis last_in_set)
  with assms True show ?thesis by (auto simp: scan_inv_def)
next
  case False
  with assms have "start = length source" "start = 0 \<or> source ! (start - 1) = LF" by (auto simp: scan_inv_def)
  then show ?thesis by (cases "source = []") (auto simp: last_conv_nth)
qed

lemma scanLines_outcome:
  "if MAX_TEXT_INDEX_LINES < line_total source then scanLines source = Inl TOO_MANY_LINES
   else \<exists>ls. scanLines source = Inr ls \<and> length ls = line_total source \<and> lines_ok source ls (length source)"
proof (cases "MAX_TEXT_INDEX_LINES < count_list source LF")
  case True
  then show ?thesis using scan_from_count [of "[]" source 0 1 0] by (simp add: scanLines_def line_total_def)
next
  case False
  then obtain acc start n where scan: "scan_from [] 0 1 0 source = Inr (acc, start, n)"
    and len: "length acc = count_list source LF"
    using scan_from_count [of "[]" source 0 1 0] by auto
  have inv: "scan_inv source acc start n (length source) []"
    by (rule scan_from_inv [OF scan_inv_init scan])
  then have ok: "lines_ok source acc start" "n = length acc + 1" "LF \<notin> set (subarray start (length source) source)"
    "start \<le> length source" by (auto simp: scan_inv_def)
  let ?l = "mk_line n start (length source - start) 0 NL_NONE"
  have "start < length source \<Longrightarrow> line_ok source ?l \<and> line_end ?l = length source"
    using ok(3) by (auto simp: line_ok_def line_content_def line_end_def subarray_def simp del: of_nat_diff)
  then have "start < length source \<Longrightarrow> lines_ok source (acc @ [?l]) (length source)"
    using lines_ok_snoc [OF ok(1), of ?l] ok(2) by simp
  with ok(1,4) have "lines_ok source (if start < length source then acc @ [?l] else acc) (length source)" by auto
  moreover have "length (if start < length source then acc @ [?l] else acc) = line_total source"
    using len scan_end [OF inv] by (auto simp: line_total_def)
  ultimately show ?thesis by (simp only: scanLines_def scan sum.case prod.case Let_def) auto
qed

lemma scanLines_ok:
  assumes "scanLines source = Inr ls"
  shows "lines_ok source ls (length source)" "length ls = line_total source" "length ls \<le> MAX_TEXT_INDEX_LINES"
  using scanLines_outcome [of source] assms by (auto split: if_splits)

section \<open>Every line decodes\<close>

text \<open>Positions next to an ASCII byte, or at an end of the source, are boundaries between characters.\<close>

definition cut_ok :: "byte list \<Rightarrow> nat \<Rightarrow> bool" where
  "cut_ok source p \<longleftrightarrow> p = 0 \<or> length source \<le> p \<or> unat (source ! (p - 1)) < 128 \<or> unat (source ! p) < 128"

lemma decode_cut:
  assumes dec: "text_decode source \<noteq> None" and cut: "cut_ok source p"
  shows "text_decode (take p source) \<noteq> None \<and> text_decode (drop p source) \<noteq> None"
proof -
  consider "p = 0" | "length source \<le> p"
    | "0 < p" "p < length source" "unat (source ! (p - 1)) < 128"
    | "p < length source" "unat (source ! p) < 128"
    using cut unfolding cut_ok_def by (metis gr0I not_le)
  then show ?thesis
  proof cases
    case 3
    let ?x = "source ! (p - 1)"
    have split: "source = take (p - 1) source @ ?x # drop p source"
      using 3 id_take_nth_drop [of "p - 1" source] by simp
    have ok: "text_decode (take (p - 1) source) \<noteq> None" "text_decode (drop p source) \<noteq> None"
      using text_decode_ascii_split [of "take (p - 1) source" ?x "drop p source"] dec split 3(3) by auto
    have "take p source = take (p - 1) source @ [?x]" using 3 take_Suc_conv_app_nth [of "p - 1" source] by simp
    moreover have "text_decode [?x] \<noteq> None" using 3(3) by (simp add: text_decode_def utf8_dec_1)
    ultimately show ?thesis using ok text_decode_append [of "take (p - 1) source" _ "[?x]"] by auto
  next
    case 4
    let ?x = "source ! p"
    have split: "source = take p source @ ?x # drop (Suc p) source" using 4 by (simp add: id_take_nth_drop)
    have ok: "text_decode (take p source) \<noteq> None" "text_decode (drop (Suc p) source) \<noteq> None"
      using text_decode_ascii_split [of "take p source" ?x "drop (Suc p) source"] dec split 4(2) by auto
    have "drop p source = [?x] @ drop (Suc p) source" using 4 by (simp add: Cons_nth_drop_Suc)
    moreover have "text_decode [?x] \<noteq> None" using 4(2) by (simp add: text_decode_def utf8_dec_1)
    ultimately show ?thesis using ok text_decode_append [of "[?x]" _ "drop (Suc p) source"] by auto
  qed (use dec in auto)
qed

lemma decode_between:
  assumes "text_decode source \<noteq> None" "cut_ok source p" "cut_ok source q" "p \<le> q"
  shows "text_decode (subarray p q source) \<noteq> None"
proof -
  have "text_decode (take q source) \<noteq> None" using decode_cut assms by blast
  moreover have "cut_ok (take q source) p" using assms(2,4) by (auto simp: cut_ok_def)
  ultimately have "text_decode (drop p (take q source)) \<noteq> None" using decode_cut by blast
  then show ?thesis by (simp add: subarray_def drop_take)
qed

lemma LF_CR_ascii: "unat LF < 128" "unat CR < 128"
  by (simp_all add: LF_def CR_def)

lemma line_cuts:
  assumes "line_ok source l"
  shows "cut_ok source (nat (l_byteStart l) + nat (contentByteLength l))" "cut_ok source (line_end l)"
proof -
  let ?e = "nat (l_byteStart l) + nat (contentByteLength l)"
  have nth: "source ! (?e + i) = line_break source l ! i" if "i < nat (newlineByteLength l)" for i
    using that assms by (simp add: line_break_def Let_def subarray_nth line_ok_def line_end_def)
  from assms consider (lf) "newlineByteLength l = 1" "line_break source l = [LF]"
    | (crlf) "newlineByteLength l = 2" "line_break source l = [CR, LF]"
    | (none) "newlineByteLength l = 0" "line_end l = length source"
    by (auto simp: line_ok_def)
  then have "cut_ok source ?e \<and> cut_ok source (line_end l)"
  proof cases
    case lf
    then show ?thesis using nth [of 0] LF_CR_ascii by (auto simp: cut_ok_def line_end_def)
  next
    case crlf
    then show ?thesis using nth [of 0] nth [of 1] LF_CR_ascii by (auto simp: cut_ok_def line_end_def)
  qed (auto simp: cut_ok_def line_end_def)
  then show "cut_ok source ?e" "cut_ok source (line_end l)" by auto
qed

lemma lines_start_cut:
  assumes "lines_ok source ls start" "i < length ls"
  shows "cut_ok source (nat (l_byteStart (ls ! i)))"
proof (cases "i = 0")
  case False
  then have "l_byteStart (ls ! i) = int (line_end (ls ! (i - 1)))" "line_ok source (ls ! (i - 1))"
    using assms by (auto simp: lines_ok_def)
  then show ?thesis using line_cuts(2) [of source "ls ! (i - 1)"] by simp
qed (use assms in \<open>auto simp: lines_ok_def cut_ok_def\<close>)

text \<open>The bytes of a run of lines, and of one line's content, decode when the source does.\<close>

lemma lines_starts_mono:
  assumes "lines_ok source ls start" "i \<le> j" "j < length ls"
  shows "nat (l_byteStart (ls ! i)) \<le> nat (l_byteStart (ls ! j))"
  using assms(2,3)
proof (induction j rule: dec_induct)
  case (step j)
  have "l_byteStart (ls ! Suc j) = int (line_end (ls ! j))"
    using assms(1) step.prems by (auto simp: lines_ok_def)
  with step show ?case by (auto simp: line_end_def)
qed simp

lemma lines_decode:
  assumes "text_decode source \<noteq> None" "lines_ok source ls start" "i \<le> j" "j < length ls"
  shows "text_decode (subarray (nat (l_byteStart (ls ! i))) (line_end (ls ! j)) source) \<noteq> None"
proof (rule decode_between [OF assms(1)])
  show "cut_ok source (nat (l_byteStart (ls ! i)))" using lines_start_cut [OF assms(2)] assms(3,4) by simp
  show "cut_ok source (line_end (ls ! j))" using line_cuts(2) assms(2,4) by (auto simp: lines_ok_def)
  show "nat (l_byteStart (ls ! i)) \<le> line_end (ls ! j)"
    using lines_starts_mono [OF assms(2-4)] by (simp add: line_end_def)
qed

lemma content_decode:
  assumes "text_decode source \<noteq> None" "lines_ok source ls start" "l \<in> set ls"
  shows "text_decode (line_content source l) \<noteq> None"
proof -
  from assms(3) obtain i where i: "i < length ls" "l = ls ! i" by (auto simp: in_set_conv_nth)
  show ?thesis unfolding line_content_def
    by (rule decode_between [OF assms(1)])
      (use lines_start_cut [OF assms(2) i(1)] line_cuts(1) [of source l] assms(2,3) i(2) in
        \<open>auto simp: lines_ok_def\<close>)
qed

text \<open>A run of lines is the concatenation of the lines.\<close>

lemma lines_run:
  assumes "lines_ok source ls start" "i \<le> j" "j < length ls"
  shows "subarray (nat (l_byteStart (ls ! i))) (line_end (ls ! j)) source =
    concat (map (\<lambda>k. line_bytes source (ls ! k)) [i..<Suc j])"
  using assms(2,3)
proof (induction j rule: dec_induct)
  case base
  then show ?case by (simp add: line_bytes_eq)
next
  case (step j)
  have next_start: "nat (l_byteStart (ls ! Suc j)) = line_end (ls ! j)"
    using assms(1) step.prems by (simp add: lines_ok_def)
  have "subarray (nat (l_byteStart (ls ! i))) (line_end (ls ! Suc j)) source =
      subarray (nat (l_byteStart (ls ! i))) (line_end (ls ! j)) source @ line_bytes source (ls ! Suc j)"
    unfolding line_bytes_eq next_start
    by (rule subarray_append_adjacent [symmetric])
      (use lines_starts_mono [OF assms(1), of i j] step.hyps step.prems next_start in \<open>auto simp: line_end_def\<close>)
  with step show ?case by simp
qed

section \<open>Extents\<close>

lemma line_within:
  assumes "line_ok b l"
  shows "int (line_end l) = l_byteStart l + contentByteLength l + newlineByteLength l" "int (line_end l) \<le> int (length b)"
    "l_byteStart l < int (line_end l)" "0 \<le> l_byteStart l" "0 \<le> contentByteLength l" "0 \<le> newlineByteLength l"
    "l_byteStart l + contentByteLength l \<le> int (length b)"
proof -
  have p: "0 \<le> l_byteStart l" "0 \<le> contentByteLength l" "0 \<le> newlineByteLength l" "line_end l \<le> length b"
    using assms by (auto simp: line_ok_def)
  have e: "int (line_end l) = l_byteStart l + contentByteLength l + newlineByteLength l"
    using p by (simp add: line_end_def)
  have "0 < newlineByteLength l \<or> line_content b l \<noteq> []" using assms by (auto simp: line_ok_def)
  then have "0 < newlineByteLength l \<or> 0 < contentByteLength l"
    by (auto simp: line_content_def subarray_def split: if_splits)
  with p e show "int (line_end l) = l_byteStart l + contentByteLength l + newlineByteLength l" "int (line_end l) \<le> int (length b)"
    "l_byteStart l < int (line_end l)" "0 \<le> l_byteStart l" "0 \<le> contentByteLength l" "0 \<le> newlineByteLength l"
    "l_byteStart l + contentByteLength l \<le> int (length b)" by linarith+
qed

end
