(* ===== verification/Text_Headings.thy ===== *)
theory Text_Headings
  imports Text_Lines
begin

text \<open>
  The heading scan: the identifiers of an index are pairwise different, fit the identifier format of
  the inspection contract, and every heading is one of the lines; no scan fails on decoding once the
  whole source has decoded.
\<close>

section \<open>The identifier format\<close>

definition MAX_HEADING_ID_LENGTH :: nat where
  [limits]: "MAX_HEADING_ID_LENGTH = 128"

text \<open>\<open>z.string().min(1).max(128).regex(/^[A-Za-z0-9][A-Za-z0-9_-]*$/)\<close>\<close>

definition HeadingIdSchema :: "jsstring \<Rightarrow> bool" where
  "HeadingIdSchema s \<longleftrightarrow>
     1 \<le> length s \<and> length s \<le> MAX_HEADING_ID_LENGTH \<and>
     (case s of [] \<Rightarrow> False
      | u # r \<Rightarrow> alnum u \<and> list_all (\<lambda>v. alnum v \<or> v = 0x5f \<or> v = 0x2d) r)"

definition id_char :: "cunit \<Rightarrow> bool" where
  "id_char u \<longleftrightarrow> alnum u \<or> u = HYPHEN"

definition slug_ok :: "jsstring \<Rightarrow> bool" where
  "slug_ok s \<longleftrightarrow> s \<noteq> [] \<and> alnum (hd s) \<and> list_all id_char s"

lemma slug_ok_append: "slug_ok a \<Longrightarrow> list_all id_char b \<Longrightarrow> slug_ok (a @ b)"
  by (auto simp: slug_ok_def)

lemma slug_ok_take: "slug_ok a \<Longrightarrow> 0 < n \<Longrightarrow> slug_ok (take n a)"
  by (cases a; cases n) (auto simp: slug_ok_def list_all_iff dest: in_set_takeD)

lemma HeadingIdSchema_slug: "slug_ok s \<Longrightarrow> length s \<le> 128 \<Longrightarrow> HeadingIdSchema s"
  by (cases s) (auto simp: slug_ok_def HeadingIdSchema_def limits id_char_def list_all_iff HYPHEN_def)

lemma alnum_hex_digit: "d < 16 \<Longrightarrow> alnum (hex_digit d)"
  by (auto simp: alnum_def unat_hex_digit)

lemma to_base_id_char: "2 \<le> b \<Longrightarrow> b \<le> 16 \<Longrightarrow> list_all id_char (to_base b n)"
proof -
  assume b: "2 \<le> b" "b \<le> 16"
  have "id_char u" if "u \<in> set (to_base b n)" for u
    using to_base_digit [OF b that] b(2) alnum_hex_digit by (auto simp: id_char_def)
  then show ?thesis by (simp add: list_all_iff)
qed

lemma length_to_base: "n < 10 ^ d \<Longrightarrow> 0 < d \<Longrightarrow> length (to_base 10 n) \<le> d"
proof (induction d arbitrary: n)
  case (Suc d)
  show ?case
  proof (cases "n < 10")
    case False
    have d: "0 < d" using Suc.prems(1) False by (cases d) auto
    have "n div 10 < 10 ^ d" using Suc.prems(1) by (simp add: less_mult_imp_div_less mult.commute)
    then show ?thesis using Suc.IH d False by (subst to_base.simps) simp
  qed (subst to_base.simps, simp)
qed simp

section \<open>Slugs and identifiers\<close>

definition slug_inv :: "jsstring \<times> bool \<Rightarrow> bool" where
  "slug_inv st \<longleftrightarrow> fst st = [] \<or> slug_ok (fst st)"

lemma slug_sep_inv: "slug = [] \<or> slug_ok slug \<Longrightarrow> list_all id_char (slug_sep slug b) \<and>
   (slug_sep slug b = [] \<or> slug_ok (slug_sep slug b))"
  by (auto simp: slug_sep_def slug_ok_def id_char_def)

lemma slug_token:
  assumes "slug = [] \<or> slug_ok slug" "slug_ok t"
  shows "slug_ok (slug_sep slug b @ t)"
  using slug_sep_inv [OF assms(1), of b] assms(2) by (auto simp: slug_ok_def)

lemma alnum_code: "0x61 \<le> c \<and> c \<le> 0x7a \<or> 0x30 \<le> c \<and> c \<le> 0x39 \<Longrightarrow> alnum (of_nat c)"
  using unat_cunit [of c] by (auto simp: alnum_def)

lemma escape_ok: "slug_ok (js ''u--'' @ to_base 16 c @ js ''--'')"
  using to_base_id_char [of 16 c] by (auto simp: slug_ok_def js_def alnum_def id_char_def HYPHEN_def)

lemma slug_step_inv: "slug_inv st \<Longrightarrow> slug_inv (slug_step c st)"
proof -
  assume inv: "slug_inv st"
  obtain slug b where st: "st = (slug, b)" by fastforce
  have tok: "slug_ok [of_nat c]" if "0x61 \<le> c \<and> c \<le> 0x7a \<or> 0x30 \<le> c \<and> c \<le> 0x39"
    using alnum_code [OF that] by (simp add: slug_ok_def id_char_def)
  show ?thesis
    using inv slug_token [of slug _ b] tok escape_ok [of c] unfolding st slug_step_def
    by (auto simp: slug_inv_def)
qed

lemma fold_slug_inv: "slug_inv st \<Longrightarrow> slug_inv (fold slug_step cs st)"
  by (induction cs arbitrary: st) (simp_all add: slug_step_inv)

lemma headingSlug_ok: "slug_ok (headingSlug s)"
  using fold_slug_inv [of "([], False)" "code_points s"]
  by (auto simp: headingSlug_def Let_def slug_inv_def slug_ok_def js_def alnum_def id_char_def)

lemma id_loop_fresh: "id_loop slug used n \<notin> set used"
  by (induction slug used n rule: id_loop.induct) (simp add: id_loop.simps)

lemma id_loop_candidate:
  "\<exists>k \<ge> n. id_loop slug used n = candidate slug k \<and> (\<forall>j. n \<le> j \<and> j < k \<longrightarrow> candidate slug j \<in> set used)"
proof (induction slug used n rule: id_loop.induct)
  case (1 slug used n)
  show ?case
  proof (cases "candidate slug n \<in> set used")
    case True
    with 1 obtain k where k: "n + 1 \<le> k" "id_loop slug used (n + 1) = candidate slug k"
      "\<forall>j. n + 1 \<le> j \<and> j < k \<longrightarrow> candidate slug j \<in> set used" by blast
    have "candidate slug j \<in> set used" if "n \<le> j" "j < k" for j
      using that k(3) True by (cases "j = n") auto
    with k True show ?thesis by (intro exI [of _ k]) (simp add: id_loop.simps [of slug used n])
  qed (auto simp: id_loop.simps [of slug used n] intro!: exI [of _ n])
qed

lemma id_loop_bound:
  obtains k where "id_loop slug used 1 = candidate slug k" "1 \<le> k" "k \<le> length used + 2"
proof -
  obtain k where k: "1 \<le> k" "id_loop slug used 1 = candidate slug k"
    "\<forall>j. 1 \<le> j \<and> j < k \<longrightarrow> candidate slug j \<in> set used"
    using id_loop_candidate [of 1 slug used] by blast
  have "inj_on (candidate slug) {2..<k}"
    using candidate_inj by (rule inj_on_subset) auto
  then have "k - 2 = card (candidate slug ` {2..<k})" by (simp add: card_image)
  also have "\<dots> \<le> card (set used)" using k(3) by (intro card_mono) auto
  also have "\<dots> \<le> length used" by (rule card_length)
  finally show thesis using that [OF k(2,1)] by simp
qed

lemma candidate_ok:
  assumes "slug_ok slug" "1 \<le> k" "k < 10000"
  shows "HeadingIdSchema (candidate slug k)"
proof (cases "k = 1")
  case True
  then show ?thesis using slug_ok_take [OF assms(1), of 128]
    by (auto simp: candidate_def intro: HeadingIdSchema_slug)
next
  case False
  have len: "length (id_suffix k) \<le> 5" using length_to_base [of k 4] assms(3) by (simp add: id_suffix_def)
  have "list_all id_char (id_suffix k)" using to_base_id_char [of 10 k] by (simp add: id_suffix_def id_char_def)
  then have "slug_ok (candidate slug k)"
    using slug_ok_append [OF slug_ok_take [OF assms(1), of "128 - length (id_suffix k)"]] len False
    by (simp add: candidate_def)
  moreover have "length (candidate slug k) \<le> 128" using len False by (auto simp: candidate_def)
  ultimately show ?thesis by (rule HeadingIdSchema_slug)
qed

lemma nextHeadingId_ok:
  assumes "slug_ok slug" "length used < 9000" "nextHeadingId slug used = (hid, used')"
  shows "hid \<notin> set used" "used' = hid # used" "HeadingIdSchema hid"
proof -
  from assms(3) have hid: "hid = id_loop slug used 1" "used' = hid # used"
    by (auto simp: nextHeadingId_def Let_def)
  then show "hid \<notin> set used" "used' = hid # used" using id_loop_fresh by auto
  obtain k where k: "id_loop slug used 1 = candidate slug k" "1 \<le> k" "k \<le> length used + 2"
    by (rule id_loop_bound)
  with assms(2) have "k < 10000" by simp
  with candidate_ok [OF assms(1) k(2)] k(1) hid(1) show "HeadingIdSchema hid" by simp
qed

section \<open>The heading scan\<close>

definition heading_ok :: "text_line list \<Rightarrow> text_heading \<Rightarrow> bool" where
  "heading_ok ls h \<longleftrightarrow>
     HeadingIdSchema (headingId h) \<and> 1 \<le> level h \<and> level h \<le> int MAX_HEADING_LEVEL \<and>
     codePointCount (rawText h) \<le> MAX_HEADING_TEXT_CHARS \<and>
     (\<exists>l \<in> set ls. h_lineNumber h = lineNumber l \<and> h_byteStart h = l_byteStart l \<and>
        h_byteLength h = contentByteLength l)"

definition headings_ok :: "text_line list \<Rightarrow> text_heading list \<Rightarrow> bool" where
  "headings_ok ls hs \<longleftrightarrow>
     (\<forall>h \<in> set hs. heading_ok ls h) \<and> distinct (map headingId hs) \<and> length hs \<le> MAX_TEXT_INDEX_HEADINGS"

definition scan_ok :: "text_line list \<Rightarrow> scan_state \<Rightarrow> bool" where
  "scan_ok ls st \<longleftrightarrow> headings_ok ls (s_headings st) \<and> s_ids st = rev (map headingId (s_headings st))"

lemma parseAtx_ok:
  assumes "parseAtxHeading txt = Inr (Some (lev, raw))"
  shows "1 \<le> lev" "lev \<le> MAX_HEADING_LEVEL" "codePointCount raw \<le> MAX_HEADING_TEXT_CHARS"
  using assms by (auto simp: parseAtxHeading_def Let_def not_less Suc_le_eq split: if_splits)

lemma heading_push_ok:
  assumes st: "scan_ok ls st" and l: "l \<in> set ls" and p: "parseAtxHeading txt = Inr (Some (lev, raw))"
    and id: "nextHeadingId (headingSlug norm) (s_ids st) = (hid, ids)"
    and len: "length (s_headings st) < MAX_TEXT_INDEX_HEADINGS"
  shows "scan_ok ls (st\<lparr>s_headings := s_headings st @
      [\<lparr>headingId = hid, level = int lev, rawText = raw, normalizedText = norm, h_lineNumber = lineNumber l,
        h_byteStart = l_byteStart l, h_byteLength = contentByteLength l\<rparr>], s_ids := ids\<rparr>)"
proof -
  have "length (s_ids st) < 9000" using st len by (simp add: scan_ok_def limits)
  note n = nextHeadingId_ok [OF headingSlug_ok this id]
  have "hid \<notin> headingId ` set (s_headings st)" "ids = hid # rev (map headingId (s_headings st))"
    using n(1,2) st by (auto simp: scan_ok_def)
  then show ?thesis
    using st l n(3) parseAtx_ok [OF p] len
    by (auto simp: scan_ok_def headings_ok_def heading_ok_def)
qed

lemma heading_step_ok:
  assumes st: "scan_ok ls st" and l: "l \<in> set ls" and r: "heading_step nfc lower source l st = Inr st'"
  shows "scan_ok ls st'"
proof -
  have fence: "scan_ok ls (st\<lparr>s_fence := f\<rparr>)" for f using st by (simp add: scan_ok_def)
  show ?thesis
    using r st fence heading_push_ok [OF st l]
    by (auto simp: heading_step_def Let_def not_less Suc_le_eq
        split: sum.splits option.splits if_splits prod.splits)
qed

lemma heading_loop_ok:
  "scan_ok ls st \<Longrightarrow> set rest \<subseteq> set ls \<Longrightarrow> heading_loop nfc lower source rest st = Inr st' \<Longrightarrow> scan_ok ls st'"
  by (induction rest arbitrary: st) (auto split: sum.splits dest: heading_step_ok)

lemma scanHeadings_ok: "scanHeadings nfc lower source ls media = Inr hs \<Longrightarrow> headings_ok ls hs"
  using heading_loop_ok [of ls "\<lparr>s_headings = [], s_ids = [], s_fence = None\<rparr>" ls]
  by (auto simp: scanHeadings_def scan_ok_def headings_ok_def split: if_splits sum.splits)

lemma heading_step_errors:
  assumes "text_decode (line_content source l) \<noteq> None" "heading_step nfc lower source l st = Inl e"
  shows "e \<in> {RESPONSE_LIMIT_EXCEEDED, TOO_MANY_HEADINGS}"
  using assms
  by (auto simp: heading_step_def decode_def parseAtxHeading_def line_content_def Let_def
      split: sum.splits option.splits if_splits prod.splits)

lemma heading_loop_errors:
  "\<forall>l \<in> set ls. text_decode (line_content source l) \<noteq> None \<Longrightarrow> heading_loop nfc lower source ls st = Inl e \<Longrightarrow>
   e \<in> {RESPONSE_LIMIT_EXCEEDED, TOO_MANY_HEADINGS}"
proof (induction ls arbitrary: st)
  case (Cons l ls)
  then show ?case
    using heading_step_errors [of source l nfc lower st e]
    by (cases "heading_step nfc lower source l st") auto
qed simp

end
