(* ===== verification/Text_Properties.thy ===== *)
theory Text_Properties
  imports Text_Headings
begin

text \<open>
  The properties of the text index: the readers accept exactly the index the builder makes, what they
  return is exactly the requested lines of the source, and the outcomes of the builder.
\<close>

section \<open>Comparing indexes\<close>

lemma sameLine_iff [simp]: "sameLine a b \<longleftrightarrow> a = b"
  by (auto simp: sameLine_def intro: text_line.equality)

lemma sameHeading_iff [simp]: "sameHeading a b \<longleftrightarrow> a = b"
  by (auto simp: sameHeading_def intro: text_heading.equality)

lemma list_all2_same: "list_all2 sameLine xs ys \<longleftrightarrow> xs = ys" "list_all2 sameHeading hs ks \<longleftrightarrow> hs = ks"
  by (auto simp: list_all2_conv_all_nth intro: nth_equalityI)

lemma sameIndex_iff: "sameIndex a b \<longleftrightarrow> a = b"
  by (auto simp: sameIndex_def list_all2_same intro: text_index.equality)

section \<open>The builder\<close>

lemma build_ok:
  assumes "buildArtifactTextIndex H nfc lower (VBytes b) (VStr mt) = Inr idx"
  shows "mediaType idx = mt" "mt = TEXT_PLAIN \<or> mt = TEXT_MARKDOWN" "length b \<le> MAX_TEXT_INDEX_BYTES"
    "text_decode b \<noteq> None" "scanLines b = Inr (lines idx)" "scanHeadings nfc lower b (lines idx) mt = Inr (headings idx)"
    "i_profileVersion idx = ARTIFACT_TEXT_INDEX_PROFILE_VERSION" "i_sourceSha256 idx = hex (H b)"
    "i_byteLength idx = int (length b)" "lineCount idx = int (length (lines idx))"
  using assms
  by (auto simp: buildArtifactTextIndex_def assertMediaType_def decode_def ok_simps split: option.splits)

lemma build_structure:
  assumes "buildArtifactTextIndex H nfc lower (VBytes b) (VStr mt) = Inr idx"
  shows "lines_ok b (lines idx) (length b)" "headings_ok (lines idx) (headings idx)"
    "length (lines idx) = line_total b" "length (lines idx) \<le> MAX_TEXT_INDEX_LINES"
  using build_ok [OF assms] scanLines_ok scanHeadings_ok by blast+

lemma assertConsistent_iff:
  "assertConsistentIndex H nfc lower b v = Inr idx \<longleftrightarrow>
     assertIndexShape v = Inr idx \<and> buildArtifactTextIndex H nfc lower (VBytes b) (VStr (mediaType idx)) = Inr idx"
  by (auto simp: assertConsistentIndex_def ok_simps sameIndex_iff dest: build_ok(8))

section \<open>The object the builder returns\<close>

definition line_val :: "text_line \<Rightarrow> jsval" where
  "line_val l = VObj
     [(js ''lineNumber'', VNum (JInt (lineNumber l))), (js ''byteStart'', VNum (JInt (l_byteStart l))),
      (js ''contentByteLength'', VNum (JInt (contentByteLength l))),
      (js ''newlineByteLength'', VNum (JInt (newlineByteLength l))), (js ''newlineKind'', VStr (newlineKind l))]"

definition heading_val :: "text_heading \<Rightarrow> jsval" where
  "heading_val h = VObj
     [(js ''headingId'', VStr (headingId h)), (js ''level'', VNum (JInt (level h))),
      (js ''rawText'', VStr (rawText h)), (js ''normalizedText'', VStr (normalizedText h)),
      (js ''lineNumber'', VNum (JInt (h_lineNumber h))), (js ''byteStart'', VNum (JInt (h_byteStart h))),
      (js ''byteLength'', VNum (JInt (h_byteLength h)))]"

definition index_val :: "text_index \<Rightarrow> jsval" where
  "index_val i = VObj
     [(js ''profileVersion'', VStr (i_profileVersion i)), (js ''sourceSha256'', VStr (i_sourceSha256 i)),
      (js ''byteLength'', VNum (JInt (i_byteLength i))), (js ''mediaType'', VStr (mediaType i)),
      (js ''lineCount'', VNum (JInt (lineCount i))), (js ''lines'', VArr (map line_val (lines i))),
      (js ''headings'', VArr (map heading_val (headings i)))]"

lemma line_shape:
  assumes "1 \<le> lineNumber l" "lineNumber l \<le> 10000" "0 \<le> l_byteStart l" "l_byteStart l \<le> n"
    "0 \<le> contentByteLength l" "contentByteLength l \<le> n" "n \<le> 262144" "newlineByteLength l \<in> {0, 1, 2}"
    "newlineKind l \<in> {NL_NONE, NL_LF, NL_CRLF}"
  shows "assertLineShape n (line_val l) = Inr l"
  using assms
  by (auto simp: assertLineShape_def line_val_def assertOrdinaryDataRecord_def LINE_KEYS_def js_def getp_def
      assertSafeInteger_def limits MAX_SAFE_INTEGER_def intro!: text_line.equality)

lemma heading_shape:
  assumes "1 \<le> length (headingId h)" "length (headingId h) \<le> 128" "codePointCount (rawText h) \<le> 512"
    "1 \<le> level h" "level h \<le> 6" "1 \<le> h_lineNumber h" "h_lineNumber h \<le> c" "c \<le> 10000"
    "0 \<le> h_byteStart h" "h_byteStart h \<le> n" "0 \<le> h_byteLength h" "h_byteLength h \<le> n" "n \<le> 262144"
  shows "assertHeadingShape n c (heading_val h) = Inr h"
  using assms
  by (auto simp: assertHeadingShape_def heading_val_def assertOrdinaryDataRecord_def HEADING_KEYS_def js_def getp_def
      assertSafeInteger_def limits MAX_SAFE_INTEGER_def intro!: text_heading.equality)

lemma lines_bounds:
  assumes "lines_ok b ls (length b)" "l \<in> set ls"
  shows "1 \<le> lineNumber l" "lineNumber l \<le> int (length ls)" "0 \<le> l_byteStart l" "l_byteStart l \<le> int (length b)"
    "0 \<le> contentByteLength l" "contentByteLength l \<le> int (length b)" "newlineByteLength l \<in> {0, 1, 2}"
    "newlineKind l \<in> {NL_NONE, NL_LF, NL_CRLF}"
proof -
  from assms have ok: "line_ok b l" by (simp add: lines_ok_def)
  from assms(2) obtain i where "i < length ls" "l = ls ! i" by (auto simp: in_set_conv_nth)
  with assms(1) show "1 \<le> lineNumber l" "lineNumber l \<le> int (length ls)" by (auto simp: lines_ok_def)
  from ok show "0 \<le> l_byteStart l" "0 \<le> contentByteLength l" "newlineByteLength l \<in> {0, 1, 2}"
    "newlineKind l \<in> {NL_NONE, NL_LF, NL_CRLF}" by (auto simp: line_ok_def)
  from ok have "nat (l_byteStart l) + nat (contentByteLength l) \<le> length b"
    by (auto simp: line_ok_def line_end_def)
  then show "l_byteStart l \<le> int (length b)" "contentByteLength l \<le> int (length b)" by linarith+
qed

lemma built_shape:
  assumes "buildArtifactTextIndex H nfc lower (VBytes b) (VStr mt) = Inr idx" "HEX64_PATTERN (hex (H b))"
  shows "assertIndexShape (index_val idx) = Inr idx"
proof -
  note f = build_ok [OF assms(1)] and st = build_structure [OF assms(1)]
  have n: "int (length b) \<le> 262144" "int (length (lines idx)) \<le> 10000"
    using f(3) st(4) by (auto simp: limits)
  have ls: "mapE (assertLineShape (int (length b))) (map line_val (lines idx)) = Inr (lines idx)"
  proof -
    have "assertLineShape (int (length b)) (line_val l) = Inr l" if "l \<in> set (lines idx)" for l
      using lines_bounds [OF st(1) that] n by (intro line_shape) auto
    then show ?thesis by (simp add: mapE_map_id)
  qed
  have hs: "mapE (assertHeadingShape (int (length b)) (int (length (lines idx)))) (map heading_val (headings idx))
      = Inr (headings idx)"
  proof -
    have "assertHeadingShape (int (length b)) (int (length (lines idx))) (heading_val h) = Inr h"
      if "h \<in> set (headings idx)" for h
    proof -
      from st(2) that have ok: "heading_ok (lines idx) h" by (simp add: headings_ok_def)
      then obtain l where l: "l \<in> set (lines idx)" "h_lineNumber h = lineNumber l" "h_byteStart h = l_byteStart l"
        "h_byteLength h = contentByteLength l" by (auto simp: heading_ok_def)
      show ?thesis
        using lines_bounds [OF st(1) l(1)] l(2-4) ok n
        by (intro heading_shape) (auto simp: heading_ok_def HeadingIdSchema_def limits)
    qed
    then show ?thesis by (simp add: mapE_map_id)
  qed
  have hl: "length (headings idx) \<le> 1000" using st(2) by (simp add: headings_ok_def limits)
  show ?thesis
    using f ls hs hl n assms(2)
    by (simp add: assertIndexShape_def index_val_def assertOrdinaryDataRecord_def INDEX_KEYS_def getp_def
        assertSafeInteger_def limits MAX_SAFE_INTEGER_def js_def)
qed

section \<open>The readers\<close>

lemma untrustedRead_decodes:
  assumes "text_decode bytes \<noteq> None"
  shows "untrustedRead sha bytes =
    (if MAX_TEXT_READ_BYTES < length bytes then Inl RESPONSE_LIMIT_EXCEEDED
     else Inr \<lparr>r_sourceSha256 = sha, contentTrust = js ''untrusted'', r_text = the (text_decode bytes)\<rparr>)"
  using assms by (auto simp: untrustedRead_def decode_def)

lemma assertReadBytes_ok:
  "length b \<le> MAX_TEXT_INDEX_BYTES \<Longrightarrow> text_decode b \<noteq> None \<Longrightarrow> assertReadBytes (VBytes b) = Inr b"
  by (auto simp: assertReadBytes_def decode_def)

lemma encode_the_decode: "text_decode b \<noteq> None \<Longrightarrow> text_encode (the (text_decode b)) = b"
  using text_encode_decode by auto

context digest
begin

lemma built_accepted:
  assumes "buildArtifactTextIndex H nfc lower (VBytes b) (VStr mt) = Inr idx"
  shows "assertConsistentIndex H nfc lower b (index_val idx) = Inr idx"
  using built_shape [OF assms HEX64_digest] assms build_ok(1) [OF assms] by (simp add: assertConsistent_iff)

lemma read_lines_built:
  assumes idx: "buildArtifactTextIndex H nfc lower (VBytes b) (VStr mt) = Inr idx"
    and s: "i < length (lines idx)" "1 \<le> c" "c \<le> 200" "i + c \<le> length (lines idx)"
  shows "readIndexedLines H nfc lower (VBytes b) (index_val idx) (JInt (int i + 1)) (JInt (int c)) =
    (let bytes = concat (map (\<lambda>k. line_bytes b (lines idx ! k)) [i..<i + c])
     in if 8192 < length bytes then Inl RESPONSE_LIMIT_EXCEEDED
        else Inr \<lparr>r_sourceSha256 = hex (H b), contentTrust = js ''untrusted'', r_text = the (text_decode bytes)\<rparr>)"
proof -
  note f = build_ok [OF idx] and st = build_structure [OF idx]
  let ?j = "i + c - Suc 0"
  let ?bytes = "concat (map (\<lambda>k. line_bytes b (lines idx ! k)) [i..<i + c])"
  have j: "i \<le> ?j" "?j < length (lines idx)" "Suc ?j = i + c" using s by auto
  have run: "subarray (nat (l_byteStart (lines idx ! i))) (line_end (lines idx ! ?j)) b = ?bytes"
    using lines_run [OF st(1) j(1,2)] unfolding j(3) .
  have dec: "text_decode ?bytes \<noteq> None" using lines_decode [OF f(4) st(1) j(1,2)] run by simp
  have "lines idx ! ?j \<in> set (lines idx)" using j(2) by simp
  from lines_bounds [OF st(1) this]
  have e: "nat (l_byteStart (lines idx ! ?j) + contentByteLength (lines idx ! ?j) + newlineByteLength (lines idx ! ?j))
      = line_end (lines idx ! ?j)"
    by (auto simp: line_end_def nat_add_distrib)
  have n: "int i + 1 \<le> 10000" using s(1) st(4) by (simp add: limits)
  have el: "elem_at (lines idx) (nat (int i + int c - 1)) = Some (lines idx ! ?j)"
    using j s(2) by (simp add: elem_at_def nat_diff_distrib nat_int_add)
  have "int i + int c \<le> int (length (lines idx))" using s(4) by linarith
  then show ?thesis
    using s n
    by (simp add: readIndexedLines_def assertReadBytes_ok [OF f(3,4)] built_accepted [OF idx] f(10) limits
        MAX_SAFE_INTEGER_def elem_at_def [of _ i] el run e untrustedRead_decodes [OF dec] f(8) Let_def)
qed

lemma read_heading_built:
  assumes idx: "buildArtifactTextIndex H nfc lower (VBytes b) (VStr mt) = Inr idx" and h: "h \<in> set (headings idx)"
  shows "\<exists>l \<in> set (lines idx). h_lineNumber h = lineNumber l \<and>
    readIndexedHeading H nfc lower (VBytes b) (index_val idx) (VStr (headingId h)) =
     (if 8192 < length (line_content b l) then Inl RESPONSE_LIMIT_EXCEEDED
      else Inr \<lparr>r_sourceSha256 = hex (H b), contentTrust = js ''untrusted'',
                r_text = the (text_decode (line_content b l))\<rparr>)"
proof -
  note f = build_ok [OF idx] and st = build_structure [OF idx]
  from st(2) h have ok: "heading_ok (lines idx) h" by (simp add: headings_ok_def)
  then obtain l where l: "l \<in> set (lines idx)" "h_lineNumber h = lineNumber l" "h_byteStart h = l_byteStart l"
    "h_byteLength h = contentByteLength l" by (auto simp: heading_ok_def)
  have found: "find (\<lambda>k. headingId k = headingId h) (headings idx) = Some h"
  proof -
    obtain k where k: "find (\<lambda>k. headingId k = headingId h) (headings idx) = Some k"
      using h by (cases "find (\<lambda>k. headingId k = headingId h) (headings idx)") (auto simp: find_None_iff)
    then have "k \<in> set (headings idx)" "headingId k = headingId h" by (auto simp: find_Some_iff)
    then have "k = h" using st(2) h by (auto simp: headings_ok_def distinct_map dest: inj_onD)
    with k show ?thesis by simp
  qed
  have bytes: "subarray (nat (h_byteStart h)) (nat (h_byteStart h + h_byteLength h)) b = line_content b l"
    using lines_bounds [OF st(1) l(1)] l by (simp add: line_content_def nat_add_distrib)
  have dec: "text_decode (line_content b l) \<noteq> None" by (rule content_decode [OF f(4) st(1) l(1)])
  have len: "headingId h \<noteq> []" "\<not> 128 < length (headingId h)"
    using ok by (auto simp: heading_ok_def HeadingIdSchema_def limits)
  show ?thesis
    by (rule bexI [OF _ l(1)])
      (simp add: readIndexedHeading_def assertReadBytes_ok [OF f(3,4)] built_accepted [OF idx] len found bytes
        untrustedRead_decodes [OF dec] f(8) l(2) limits)
qed

end

lemma read_lines_bounded:
  assumes "readIndexedLines H nfc lower (VBytes b) v sl c = Inr r"
  shows "length (text_encode (r_text r)) \<le> 8192 \<and> r_sourceSha256 r = hex (H b) \<and>
    (\<exists>i j. text_encode (r_text r) = subarray i j b)"
proof -
  from assms obtain idx sha i j where
    c: "assertConsistentIndex H nfc lower b v = Inr idx" "untrustedRead (i_sourceSha256 idx) (subarray i j b) = Inr r"
    unfolding readIndexedLines_def assertReadBytes_def ok_simps Let_def
    by (auto simp: ok_simps split: option.splits)
  from c(1) have "i_sourceSha256 idx = hex (H b)" by (auto simp: assertConsistent_iff dest: build_ok(8))
  with c(2) show ?thesis
    by (auto simp: untrustedRead_def decode_def limits ok_simps split: option.splits dest!: text_encode_decode)
      blast
qed

section \<open>A sample for the witnesses\<close>

text \<open>\<open>"# a\\nb"\<close> as Markdown.\<close>

definition sample_text :: "byte list" where
  "sample_text = [0x23, 0x20, 0x61, 0x0a, 0x62]"

definition sample_lines :: "text_line list" where
  "sample_lines = [mk_line 1 0 3 1 NL_LF, mk_line 2 4 1 0 NL_NONE]"

definition sample_headings :: "text_heading list" where
  "sample_headings = [\<lparr>headingId = js ''a'', level = 1, rawText = js ''a'', normalizedText = js ''a'',
      h_lineNumber = 1, h_byteStart = 0, h_byteLength = 3\<rparr>]"

definition sample_index :: text_index where
  "sample_index = \<lparr>i_profileVersion = ARTIFACT_TEXT_INDEX_PROFILE_VERSION, i_sourceSha256 = hex (sha256 sample_text),
     i_byteLength = 5, mediaType = TEXT_MARKDOWN, lineCount = 2, lines = sample_lines, headings = sample_headings\<rparr>"

lemma sample_scan: "scanLines sample_text = Inr sample_lines"
  by (simp add: scanLines_def sample_text_def sample_lines_def LF_def CR_def limits)

lemma sample_decode: "text_decode sample_text = Some (js [CHR ''#'', CHR '' '', CHR ''a'', CHR 0x0A, CHR ''b''])"
  by (simp add: sample_text_def text_decode_def utf8_dec_1 utf16_enc.simps js_def)

lemma sample_heads: "scanHeadings id id sample_text sample_lines TEXT_MARKDOWN = Inr sample_headings"
  by (simp add: scanHeadings_def sample_text_def sample_lines_def sample_headings_def heading_step_def TEXT_PLAIN_def
      TEXT_MARKDOWN_def js_def subarray_def decode_def text_decode_def utf8_dec_1 utf16_enc.simps mk_line_def
      parseFence_def parseAtxHeading_def countLeadingSpaces_def SPACE_def HASH_def TILDE_def BACKTICK_def limits
      closing_here_def is_space_def codePointCount_def normalizedHeadingText_def trim_def trimEnd_def
      headingSlug_def slug_step_def slug_sep_def nextHeadingId_def id_loop.simps candidate_def Let_def)

lemma sample_built: "buildArtifactTextIndex sha256 id id (VBytes sample_text) (VStr TEXT_MARKDOWN) = Inr sample_index"
proof -
  have "\<not> MAX_TEXT_INDEX_BYTES < length sample_text" "length sample_text = 5" "length sample_lines = 2"
    by (simp_all add: sample_text_def sample_lines_def limits)
  then show ?thesis
    by (simp add: buildArtifactTextIndex_def assertMediaType_def decode_def sample_scan sample_decode sample_heads
        sample_index_def)
qed

section \<open>Properties\<close>



text \<open>
  The lines of a built index, with their breaks, concatenate to the source; they are numbered from
  one, contain no LF, and the bytes after each content are the break its kind names.
\<close>

lemma index_lines_partition:
  assumes "buildArtifactTextIndex sha256 nfc lower (VBytes b) (VStr mt) = Inr idx"
  shows "concat (map (line_bytes b) (lines idx)) = b
    \<and> map lineNumber (lines idx) = map int [1..<Suc (length (lines idx))]
    \<and> list_all (line_ok b) (lines idx)"
proof (intro conjI)
  note st = build_structure [OF assms]
  show "concat (map (line_bytes b) (lines idx)) = b" using lines_cover [OF st(1)] by simp
  show "map lineNumber (lines idx) = map int [1..<Suc (length (lines idx))]"
    using st(1) by (intro nth_equalityI) (auto simp: lines_ok_def simp del: upt_Suc)
  show "list_all (line_ok b) (lines idx)" using st(1) by (simp add: lines_ok_def list_all_iff)
qed

text \<open>
  C32. Reading \<open>c\<close> lines from line \<open>i + 1\<close> of a built index returns the text whose UTF-8 encoding is exactly
  those lines of the source with their original breaks, or \<open>RESPONSE_LIMIT_EXCEEDED\<close> when they have more
  than 8192 bytes; decoding a run of lines never fails.
\<close>

theorem read_lines_exact:
  assumes "buildArtifactTextIndex sha256 nfc lower (VBytes b) (VStr mt) = Inr idx"
    and "i < length (lines idx)" "1 \<le> c" "c \<le> 200" "i + c \<le> length (lines idx)"
  defines "bytes \<equiv> concat (map (\<lambda>k. line_bytes b (lines idx ! k)) [i..<i + c])"
  shows "readIndexedLines sha256 nfc lower (VBytes b) (index_val idx) (JInt (int i + 1)) (JInt (int c)) =
      (if 8192 < length bytes then Inl RESPONSE_LIMIT_EXCEEDED
       else Inr \<lparr>r_sourceSha256 = hex (sha256 b), contentTrust = js ''untrusted'', r_text = the (text_decode bytes)\<rparr>)
    \<and> text_encode (the (text_decode bytes)) = bytes"
proof
  show "readIndexedLines sha256 nfc lower (VBytes b) (index_val idx) (JInt (int i + 1)) (JInt (int c)) =
      (if 8192 < length bytes then Inl RESPONSE_LIMIT_EXCEEDED
       else Inr \<lparr>r_sourceSha256 = hex (sha256 b), contentTrust = js ''untrusted'', r_text = the (text_decode bytes)\<rparr>)"
    using sha.read_lines_built [OF assms(1-5)] by (simp add: bytes_def Let_def)
  have j: "i \<le> i + c - 1" "i + c - 1 < length (lines idx)" "Suc (i + c - 1) = i + c" using assms(2-5) by auto
  have "bytes = subarray (nat (l_byteStart (lines idx ! i))) (line_end (lines idx ! (i + c - 1))) b"
    using lines_run [OF build_structure(1) [OF assms(1)] j(1,2)] unfolding j(3) bytes_def by simp
  then show "text_encode (the (text_decode bytes)) = bytes"
    using lines_decode [OF build_ok(4) [OF assms(1)] build_structure(1) [OF assms(1)] j(1,2)]
    by (intro encode_the_decode) simp
qed

theorem read_lines_exact_witness:
  "readIndexedLines sha256 id id (VBytes sample_text) (index_val sample_index) (JInt 2) (JInt 1) =
     Inr \<lparr>r_sourceSha256 = hex (sha256 sample_text), contentTrust = js ''untrusted'', r_text = js ''b''\<rparr>"
proof -
  have b: "line_bytes sample_text (lines sample_index ! Suc 0) = [0x62]"
    by (simp add: sample_index_def sample_lines_def sample_text_def line_bytes_eq line_end_def subarray_def)
  have d: "text_decode [0x62] = Some (js ''b'')" by (simp add: text_decode_def utf8_dec_1 utf16_enc.simps js_def)
  show ?thesis
    using read_lines_exact [OF sample_built, of 1 1] by (simp add: b d) (simp add: sample_index_def sample_lines_def)
qed

text \<open>
  Reading a heading of a built index by its identifier returns the complete content of the line the
  heading stands on, or \<open>RESPONSE_LIMIT_EXCEEDED\<close> when it has more than 8192 bytes.
\<close>

lemma read_heading_exact:
  assumes "buildArtifactTextIndex sha256 nfc lower (VBytes b) (VStr mt) = Inr idx" "h \<in> set (headings idx)"
  shows "\<exists>l \<in> set (lines idx). h_lineNumber h = lineNumber l \<and>
    readIndexedHeading sha256 nfc lower (VBytes b) (index_val idx) (VStr (headingId h)) =
     (if 8192 < length (line_content b l) then Inl RESPONSE_LIMIT_EXCEEDED
      else Inr \<lparr>r_sourceSha256 = hex (sha256 b), contentTrust = js ''untrusted'',
                r_text = the (text_decode (line_content b l))\<rparr>)"
  using assms by (rule sha.read_heading_built)

lemma read_heading_exact_witness:
  "is_ok (readIndexedHeading sha256 id id (VBytes sample_text) (index_val sample_index) (VStr (js ''a'')))"
  using read_heading_exact [OF sample_built, of "hd sample_headings"]
  by (auto simp: sample_index_def sample_headings_def sample_lines_def line_content_def sample_text_def subarray_def)

text \<open>
  Whatever index a caller supplies, a successful line read returns a contiguous piece of the source
  of at most 8192 bytes, labelled with the digest of the source.
\<close>

lemma read_lines_contiguous_bounded:
  assumes "readIndexedLines sha256 nfc lower (VBytes b) v sl c = Inr r"
  shows "length (text_encode (r_text r)) \<le> 8192 \<and> r_sourceSha256 r = hex (sha256 b)
    \<and> (\<exists>i j. text_encode (r_text r) = subarray i j b)"
  using assms by (rule read_lines_bounded)

lemma read_lines_contiguous_bounded_witness:
  "is_ok (readIndexedLines sha256 id id (VBytes sample_text) (index_val sample_index) (JInt 2) (JInt 1))
   \<and> length (text_encode (js ''b'')) \<le> 8192"
proof -
  have b: "line_bytes sample_text (lines sample_index ! Suc 0) = [0x62]"
    by (simp add: sample_index_def sample_lines_def sample_text_def line_bytes_eq line_end_def subarray_def)
  have d: "text_decode [0x62] = Some (js ''b'')" by (simp add: text_decode_def utf8_dec_1 utf16_enc.simps js_def)
  have "readIndexedLines sha256 id id (VBytes sample_text) (index_val sample_index) (JInt 2) (JInt 1) =
     Inr \<lparr>r_sourceSha256 = hex (sha256 sample_text), contentTrust = js ''untrusted'', r_text = js ''b''\<rparr>"
    using sha.read_lines_built [OF sample_built, of 1 1]
    by (simp add: b d) (simp add: sample_index_def sample_lines_def)
  with read_lines_contiguous_bounded [OF this] show ?thesis by simp
qed

text \<open>
  The headings of a built index have pairwise different identifiers, each of the format the
  inspection contract accepts as \<open>headingId\<close>, levels from 1 to 6, and at most 512 characters of text; there
  are at most 1000 of them, and each stands on a line of the index.
\<close>

lemma heading_identifiers:
  assumes "buildArtifactTextIndex sha256 nfc lower (VBytes b) (VStr mt) = Inr idx"
  shows "distinct (map headingId (headings idx)) \<and> length (headings idx) \<le> 1000 \<and>
    (\<forall>h \<in> set (headings idx). HeadingIdSchema (headingId h) \<and> 1 \<le> level h \<and> level h \<le> 6 \<and>
       codePointCount (rawText h) \<le> 512 \<and> h_lineNumber h \<in> lineNumber ` set (lines idx))"
  using build_structure(2) [OF assms] by (auto simp: headings_ok_def heading_ok_def limits)

lemma heading_identifiers_witness:
  "buildArtifactTextIndex sha256 id id (VBytes sample_text) (VStr TEXT_MARKDOWN) = Inr sample_index
   \<and> distinct (map headingId (headings sample_index)) \<and> HeadingIdSchema (js ''a'')"
  using heading_identifiers [OF sample_built] sample_built by (simp add: sample_index_def sample_headings_def)

text \<open>The checks before the heading scan, as one decision.\<close>

definition index_precheck :: "jsval \<Rightarrow> jsval \<Rightarrow> text_error option" where
  "index_precheck v mv =
     (case v of
        VBytes b \<Rightarrow>
          if mv \<noteq> VStr TEXT_PLAIN \<and> mv \<noteq> VStr TEXT_MARKDOWN then Some UNSUPPORTED_MEDIA_TYPE
          else if 262144 < length b then Some TI_SOURCE_TOO_LARGE
          else if text_decode b = None then Some INVALID_UTF8
          else if 10000 < line_total b then Some TOO_MANY_LINES
          else None
      | _ \<Rightarrow> Some TI_INVALID_INPUT_TYPE)"

lemma precheck_error: "index_precheck v mv = Some e \<Longrightarrow> buildArtifactTextIndex H nfc lower v mv = Inl e"
proof (cases v)
  case (VBytes b)
  assume e: "index_precheck v mv = Some e"
  have lines: "scanLines b = Inl TOO_MANY_LINES" if "10000 < line_total b"
    using scanLines_outcome [of b] that by (simp add: limits)
  have "mv = VStr TEXT_PLAIN \<or> mv = VStr TEXT_MARKDOWN \<or> assertMediaType mv = Inl UNSUPPORTED_MEDIA_TYPE"
    by (cases mv) (auto simp: assertMediaType_def)
  then show ?thesis
    using e lines
    by (auto simp: VBytes index_precheck_def buildArtifactTextIndex_def assertMediaType_def decode_def limits
        split: if_splits)
qed (auto simp: buildArtifactTextIndex_def index_precheck_def)

lemma precheck_passed:
  assumes "index_precheck v mv = None" "buildArtifactTextIndex H nfc lower v mv = Inl e"
  shows "mv = VStr TEXT_MARKDOWN \<and> e \<in> {RESPONSE_LIMIT_EXCEEDED, TOO_MANY_HEADINGS}"
proof -
  from assms(1) obtain b where b: "v = VBytes b" "mv = VStr TEXT_PLAIN \<or> mv = VStr TEXT_MARKDOWN"
    "length b \<le> 262144" "text_decode b \<noteq> None" "line_total b \<le> 10000"
    by (cases v) (auto simp: index_precheck_def split: if_splits)
  obtain ls where ls: "scanLines b = Inr ls" "lines_ok b ls (length b)"
    using scanLines_outcome [of b] b(5) by (auto simp: limits)
  have dec: "\<forall>l \<in> set ls. text_decode (line_content b l) \<noteq> None"
    using content_decode [OF b(4) ls(2)] by blast
  from b assms(2) obtain mt where mt: "mv = VStr mt" "scanHeadings nfc lower b ls mt = Inl e"
    by (auto simp: buildArtifactTextIndex_def assertMediaType_def decode_def ls limits split: sum.splits)
  then have "mt \<noteq> TEXT_PLAIN" "heading_loop nfc lower b ls \<lparr>s_headings = [], s_ids = [], s_fence = None\<rparr> = Inl e"
    by (auto simp: scanHeadings_def split: if_splits sum.splits)
  with heading_loop_errors [OF dec] mt(1) b(2) show ?thesis by blast
qed

text \<open>
  The outcomes of \<open>buildArtifactTextIndex\<close>, in the order of its checks: wrong types, too many bytes,
  invalid UTF-8, too many lines (one per LF and one for an unterminated last line); after those checks
  only the heading bounds can fail, and plain text always gets an index.
\<close>

lemma build_index_outcomes:
  "(index_precheck v mv = Some e \<longrightarrow> buildArtifactTextIndex sha256 nfc lower v mv = Inl e)
   \<and> (index_precheck v mv = None \<and> buildArtifactTextIndex sha256 nfc lower v mv = Inl e \<longrightarrow>
       mv = VStr TEXT_MARKDOWN \<and> e \<in> {RESPONSE_LIMIT_EXCEEDED, TOO_MANY_HEADINGS})"
  using precheck_error precheck_passed by blast

lemma build_index_outcomes_witness:
  "buildArtifactTextIndex sha256 id id (VBytes [0xff]) (VStr TEXT_PLAIN) = Inl INVALID_UTF8"
proof -
  have "text_decode [0xff] = None" by (simp add: text_decode_def utf8_dec.simps(2))
  then show ?thesis
    using build_index_outcomes [of "VBytes [0xff]" "VStr TEXT_PLAIN" INVALID_UTF8 id id]
    by (simp add: index_precheck_def)
qed

end
