(* ===== verification/Governor.thy ===== *)
theory Governor
  imports Wire
begin

text \<open>
  \<open>packages/server/src/read-tool-governor.ts\<close>: the process-wide limiter and the executor around every
  read tool. An execution has a synchronous part up to the call of \<open>execute\<close> (\<open>begin_call\<close>) and a part
  that runs when \<open>execute\<close> settles (\<open>finish_call\<close>); between the two, other calls run.
\<close>

section \<open>Limiter state\<close>

record limiter_state =
  active :: nat
  requestTimestamps :: "int list"
  lastTouchedAt :: int

text \<open>The process-global \<open>Map\<close>, in insertion order.\<close>

type_synonym limiter = "(jsstring \<times> limiter_state) list"

definition MAX_TRACKED_SCOPES :: nat where
  [limits]: "MAX_TRACKED_SCOPES = 1024"

record exec_context =
  requestId :: request_id
  principalId :: "jsstring option"
  clientId :: "jsstring option"

record error_mapping =
  em_validation :: read_error
  em_unavailable :: read_error
  em_responseLimit :: read_error
  em_timeout :: read_error
  em_unexpected :: read_error

text \<open>The schemas are the \<open>safeParse\<close> functions the descriptor carries.\<close>

record descriptor =
  operation :: jsstring
  inputSchema :: "jsval \<Rightarrow> jsval option"
  outputSchema :: "jsval \<Rightarrow> jsval option"
  maxRows :: nat
  maxResponseBytes :: nat
  errorMapping :: error_mapping

definition deriveLimiterScope :: "descriptor \<Rightarrow> exec_context \<Rightarrow> jsstring" where
  "deriveLimiterScope d ctx =
     (case principalId ctx of
        Some p \<Rightarrow> js ''principal:'' @ p
      | None \<Rightarrow>
          (case clientId ctx of
             Some c \<Rightarrow> js ''client:'' @ c
           | None \<Rightarrow> js ''operation:'' @ operation d))"

definition createDefaultState :: "int \<Rightarrow> limiter_state" where
  "createDefaultState now = \<lparr>active = 0, requestTimestamps = [], lastTouchedAt = now\<rparr>"

text \<open>Updating the state object stored under a key.\<close>

definition set_state :: "jsstring \<Rightarrow> (limiter_state \<Rightarrow> limiter_state) \<Rightarrow> limiter \<Rightarrow> limiter" where
  "set_state scope f lim = map (\<lambda>(k, s). (k, if k = scope then f s else s)) lim"

text \<open>\<open>None\<close> as second component: no state could be tracked.\<close>

definition getLimiterState :: "jsstring \<Rightarrow> int \<Rightarrow> limiter \<Rightarrow> limiter \<times> bool" where
  "getLimiterState scope now lim =
     (if scope \<in> fst ` set lim then (set_state scope (\<lambda>s. s\<lparr>lastTouchedAt := now\<rparr>) lim, True)
      else if MAX_TRACKED_SCOPES \<le> length lim then
        (case sort_key (\<lambda>(k, s). lastTouchedAt s) (filter (\<lambda>(k, s). active s = 0) lim) of
           [] \<Rightarrow> (lim, False)
         | (k, s) # _ \<Rightarrow> (filter (\<lambda>(k', _). k' \<noteq> k) lim @ [(scope, createDefaultState now)], True))
      else (lim @ [(scope, createDefaultState now)], True))"

definition stableNow :: "jsnum \<Rightarrow> int" where
  "stableNow t = (case t of JInt k \<Rightarrow> max 0 k | JFrac k _ \<Rightarrow> max 0 k | _ \<Rightarrow> 0)"

section \<open>Policy\<close>

record policy =
  maxConcurrentExecutions :: jsnum
  maxRequestsPerWindow :: jsnum
  requestWindowMs :: jsnum

definition DEFAULT_RATE_LIMIT :: policy where
  "DEFAULT_RATE_LIMIT = \<lparr>maxConcurrentExecutions = JInt 4, maxRequestsPerWindow = JInt 30, requestWindowMs = JInt 60000\<rparr>"

text \<open>The check of \<open>createReadToolExecutor\<close>; a policy that fails it is a \<open>TypeError\<close>.\<close>

definition policy_valid :: "policy \<Rightarrow> bool" where
  "policy_valid p \<longleftrightarrow>
     \<not> (\<not> isSafeInteger (maxConcurrentExecutions p) \<or> \<not> num_gt (maxConcurrentExecutions p) 0 \<or>
        \<not> isSafeInteger (maxRequestsPerWindow p) \<or> \<not> num_gt (maxRequestsPerWindow p) 0 \<or>
        \<not> isSafeInteger (requestWindowMs p) \<or> \<not> num_gt (requestWindowMs p) 0)"

definition enforceWindow :: "policy \<Rightarrow> int \<Rightarrow> limiter_state \<Rightarrow> limiter_state \<times> bool" where
  "enforceWindow p now st =
     (let windowStart = now - num_int (requestWindowMs p);
          kept = filter (\<lambda>t. windowStart < t) (requestTimestamps st)
      in if num_int (maxRequestsPerWindow p) \<le> int (length kept)
         then (st\<lparr>lastTouchedAt := now, requestTimestamps := kept\<rparr>, False)
         else (st\<lparr>lastTouchedAt := now, requestTimestamps := kept @ [now]\<rparr>, True))"

definition releaseConcurrency :: "limiter_state \<Rightarrow> limiter_state" where
  "releaseConcurrency st = (if 0 < active st then st\<lparr>active := active st - 1\<rparr> else st)"

section \<open>Classifying results\<close>

definition array_length :: "jsval \<Rightarrow> nat option" where
  "array_length v = (case v of VArr xs \<Rightarrow> Some (length xs) | _ \<Rightarrow> None)"

text \<open>The two shapes \<open>countRows\<close> looks for in an object: \<open>items\<close>, then \<open>record\<close>.\<close>

definition rows_of :: "(jsstring \<times> jsval) list \<Rightarrow> nat option" where
  "rows_of fs =
     (if getp fs (js ''ok'') \<noteq> VBool True then None
      else case array_length (getp fs (js ''items'')) of
             Some n \<Rightarrow> Some n
           | None \<Rightarrow>
               (case getp fs (js ''record'') of VUndef \<Rightarrow> None | VNull \<Rightarrow> Some 0 | _ \<Rightarrow> Some 1))"

definition countRows :: "jsval \<Rightarrow> nat" where
  "countRows output =
     (case output of
        VObj fs \<Rightarrow>
          (case rows_of fs of
             Some n \<Rightarrow> n
           | None \<Rightarrow>
               (case (getp fs (js ''ok''), getp fs (js ''outcome''), getp fs (js ''result'')) of
                  (VBool True, VStr _, VObj inner) \<Rightarrow>
                    (case rows_of inner of Some n \<Rightarrow> n | None \<Rightarrow> 0)
                | _ \<Rightarrow> 0))
      | _ \<Rightarrow> 0)"

text \<open>\<open>code\<close> is the value of the thrown object's \<open>code\<close> property, \<open>None\<close> when there is none.\<close>

definition causeToFailureCode :: "jsval option \<Rightarrow> read_error option" where
  "causeToFailureCode code =
     (case code of
        None \<Rightarrow> None
      | Some c \<Rightarrow>
          if c = VStr (js ''FIXED_CLIENT_TIMEOUT'') \<or> c = VStr (js ''DEADLINE_EXCEEDED'') then Some DEADLINE_EXCEEDED
          else if c = VStr (js ''FIXED_CLIENT_RESPONSE_TOO_LARGE'') then Some RT_RESPONSE_LIMIT_EXCEEDED
          else if c = VStr (js ''FIXED_CLIENT_INVALID_CREDENTIAL'') \<or> c = VStr (js ''FIXED_CLIENT_INVALID_REQUEST'')
          then Some INVALID_REQUEST
          else None)"

section \<open>The executor\<close>

datatype tool_outcome = Success | Blocked

record op_event =
  ev_requestId :: request_id
  ev_operation :: jsstring
  ev_scope :: jsstring
  ev_timestamp :: int
  ev_durationMs :: int
  ev_rowCount :: nat
  ev_outcome :: tool_outcome
  ev_denialClass :: "jsval option"
  ev_principalId :: "jsstring option"
  ev_clientId :: "jsstring option"

text \<open>A call between its two parts: what its closure keeps.\<close>

record running =
  run_desc :: descriptor
  run_ctx :: exec_context
  run_scope :: jsstring
  run_input :: jsval
  run_timestamp :: int
  run_startedAt :: int

definition mk_event ::
    "descriptor \<Rightarrow> exec_context \<Rightarrow> int \<Rightarrow> int \<Rightarrow> int \<Rightarrow> nat \<Rightarrow> tool_outcome \<Rightarrow> jsval option \<Rightarrow> op_event" where
  "mk_event d ctx timestamp startedAt now rows outcome denial =
     \<lparr>ev_requestId = requestId ctx, ev_operation = operation d, ev_scope = deriveLimiterScope d ctx,
      ev_timestamp = timestamp, ev_durationMs = max 0 (now - startedAt), ev_rowCount = rows,
      ev_outcome = outcome, ev_denialClass = denial, ev_principalId = principalId ctx, ev_clientId = clientId ctx\<rparr>"

datatype begin_result = Denied jsval op_event | Started running

text \<open>
  The part before \<open>execute\<close>. \<open>clock i\<close> is the value of \<open>stableNow(now)\<close> at the \<open>i\<close>-th reading of the clock
  (event time, start, limiter, window, emission).
\<close>

definition begin_call ::
    "policy \<Rightarrow> descriptor \<Rightarrow> exec_context \<Rightarrow> (nat \<Rightarrow> int) \<Rightarrow> jsval \<Rightarrow> limiter \<Rightarrow> limiter \<times> begin_result" where
  "begin_call p d ctx clock unsafeInput lim =
     (let scope = deriveLimiterScope d ctx;
          deny = (\<lambda>now code. Denied (createReadToolError code)
                    (mk_event d ctx (clock 0) (clock 1) now 0 Blocked (Some (VStr (error_code code)))))
      in case inputSchema d unsafeInput of
           None \<Rightarrow> (lim, deny (clock 2) (em_validation (errorMapping d)))
         | Some input \<Rightarrow>
             (case getLimiterState scope (clock 2) lim of
                (lim1, tracked) \<Rightarrow>
                  if \<not> tracked then (lim1, deny (clock 3) (em_unavailable (errorMapping d)))
                  else
                    (case map_of lim1 scope of
                       None \<Rightarrow> (lim1, deny (clock 3) (em_unavailable (errorMapping d)))
                     | Some st \<Rightarrow>
                         (case enforceWindow p (clock 3) st of
                            (st', admitted) \<Rightarrow>
                              (let lim2 = set_state scope (\<lambda>_. st') lim1
                               in if \<not> admitted then (lim2, deny (clock 4) (em_unavailable (errorMapping d)))
                                  else if num_int (maxConcurrentExecutions p) \<le> int (active st')
                                  then (lim2, deny (clock 4) (em_unavailable (errorMapping d)))
                                  else (set_state scope (\<lambda>s. s\<lparr>active := active s + 1\<rparr>) lim2,
                                        Started \<lparr>run_desc = d, run_ctx = ctx, run_scope = scope, run_input = input,
                                                 run_timestamp = clock 0, run_startedAt = clock 1\<rparr>))))))"

text \<open>How \<open>execute\<close> settles: a value, or a thrown object with its \<open>code\<close> property.\<close>

datatype settled = Resolved jsval | Rejected "jsval option"

fun declared_error :: "jsval \<Rightarrow> jsval option" where
  "declared_error (VObj fs) =
     (if getp fs (js ''ok'') \<noteq> VBool False then None
      else case getp fs (js ''error'') of
             VObj es \<Rightarrow> map_of es (js ''code'')
           | _ \<Rightarrow> None)"
| "declared_error _ = None"

text \<open>The \<open>try\<close> and \<open>catch\<close> blocks: output, row count, outcome and denial class.\<close>

definition settle_output ::
    "descriptor \<Rightarrow> request_id \<Rightarrow> bool \<Rightarrow> settled \<Rightarrow> jsval \<times> nat \<times> tool_outcome \<times> jsval option" where
  "settle_output d rid aborted r =
     (let em = errorMapping d;
          fail = (\<lambda>rows code. (createReadToolError code, rows, Blocked, Some (VStr (error_code code))))
      in case r of
           Resolved result \<Rightarrow>
             (case outputSchema d result of
                None \<Rightarrow> fail 0 (em_unexpected em)
              | Some data \<Rightarrow>
                  (case declared_error data of
                     Some code \<Rightarrow> (data, 0, Blocked, Some code)
                   | None \<Rightarrow>
                       (let rows = countRows data
                        in if maxRows d < rows then fail rows (em_responseLimit em)
                           else if maxResponseBytes d < readToolWireResponseByteLength rid data
                           then fail rows (em_responseLimit em)
                           else (data, rows, Success, None))))
         | Rejected code \<Rightarrow>
             (let mapped = causeToFailureCode code
              in fail 0
                   (if aborted then em_timeout em
                    else if mapped = Some INVALID_REQUEST then em_validation em
                    else if mapped = Some RT_RESPONSE_LIMIT_EXCEEDED then em_responseLimit em
                    else em_unexpected em)))"

definition finish_call ::
    "running \<Rightarrow> int \<Rightarrow> bool \<Rightarrow> settled \<Rightarrow> limiter \<Rightarrow> limiter \<times> jsval \<times> op_event" where
  "finish_call c now aborted r lim =
     (case settle_output (run_desc c) (requestId (run_ctx c)) aborted r of
        (output, rows, outcome, denial) \<Rightarrow>
          (set_state (run_scope c) releaseConcurrency lim, output,
           mk_event (run_desc c) (run_ctx c) (run_timestamp c) (run_startedAt c) now rows outcome denial))"

end
