(* ===== verification/Governor_Properties.thy ===== *)
theory Governor_Properties
  imports Governor
begin

text \<open>
  The governor as a transition system over interleaved calls: slot accounting, the bounds of the
  limiter, the rate bound over any window, and the classification of results.
\<close>

section \<open>Interleaved calls\<close>

record gov =
  g_lim :: limiter
  g_running :: "running list"

inductive gov_step :: "policy \<Rightarrow> gov \<Rightarrow> gov \<Rightarrow> bool" for p where
  denied: "begin_call p d ctx clock v (g_lim g) = (lim, Denied out ev) \<Longrightarrow> gov_step p g (g\<lparr>g_lim := lim\<rparr>)"
| started: "begin_call p d ctx clock v (g_lim g) = (lim, Started r) \<Longrightarrow>
    gov_step p g (g\<lparr>g_lim := lim, g_running := r # g_running g\<rparr>)"
| finished: "g_running g = a @ r # b \<Longrightarrow> finish_call r now aborted s (g_lim g) = (lim, out, ev) \<Longrightarrow>
    gov_step p g (g\<lparr>g_lim := lim, g_running := a @ b\<rparr>)"

inductive_cases gov_stepE: "gov_step p g g'"

inductive gov_reachable :: "policy \<Rightarrow> gov \<Rightarrow> bool" for p where
  start: "gov_reachable p \<lparr>g_lim = [], g_running = []\<rparr>"
| step: "gov_reachable p g \<Longrightarrow> gov_step p g g' \<Longrightarrow> gov_reachable p g'"

definition in_flight :: "running list \<Rightarrow> jsstring \<Rightarrow> nat" where
  "in_flight rs k = length (filter (\<lambda>r. run_scope r = k) rs)"

definition state_ok :: "policy \<Rightarrow> nat \<Rightarrow> limiter_state \<Rightarrow> bool" where
  "state_ok p n s \<longleftrightarrow> active s = n \<and> int n \<le> num_int (maxConcurrentExecutions p) \<and>
     int (length (requestTimestamps s)) \<le> num_int (maxRequestsPerWindow p)"

definition gov_inv :: "policy \<Rightarrow> limiter \<Rightarrow> running list \<Rightarrow> bool" where
  "gov_inv p lim rs \<longleftrightarrow>
     distinct (map fst lim) \<and> length lim \<le> MAX_TRACKED_SCOPES \<and>
     (\<forall>k s. (k, s) \<in> set lim \<longrightarrow> state_ok p (in_flight rs k) s) \<and>
     run_scope ` set rs \<subseteq> fst ` set lim"

lemma set_state_keys [simp]: "map fst (set_state k f lim) = map fst lim"
  by (induction lim) (auto simp: set_state_def)

lemma set_state_dom [simp]: "fst ` set (set_state k f lim) = fst ` set lim"
  by (metis set_state_keys list.set_map)

lemma length_set_state [simp]: "length (set_state k f lim) = length lim"
  by (simp add: set_state_def)

lemma set_state_mem:
  "(k', s') \<in> set (set_state k f lim) \<longleftrightarrow> (\<exists>s. (k', s) \<in> set lim \<and> s' = (if k' = k then f s else s))"
  by (force simp: set_state_def)

lemma gov_inv_set_state:
  assumes "gov_inv p lim rs" "run_scope ` set rs' \<subseteq> fst ` set lim"
    "\<And>s. (k, s) \<in> set lim \<Longrightarrow> state_ok p (in_flight rs k) s \<Longrightarrow> state_ok p (in_flight rs' k) (f s)"
    "\<And>k'. k' \<noteq> k \<Longrightarrow> in_flight rs' k' = in_flight rs k'"
  shows "gov_inv p (set_state k f lim) rs'"
proof -
  have "state_ok p (in_flight rs' k') s'" if "(k', s') \<in> set (set_state k f lim)" for k' s'
  proof -
    from that obtain s where s: "(k', s) \<in> set lim" "s' = (if k' = k then f s else s)"
      by (auto simp: set_state_mem)
    from s(1) assms(1) have "state_ok p (in_flight rs k') s" by (simp add: gov_inv_def)
    with s assms(3,4) show ?thesis by (cases "k' = k") auto
  qed
  with assms(1,2) show ?thesis by (simp add: gov_inv_def)
qed

lemma enforceWindow_active: "enforceWindow p now st = (st', ok) \<Longrightarrow> active st' = active st"
  by (auto simp: enforceWindow_def Let_def split: if_splits)

lemma enforceWindow_bound:
  assumes "enforceWindow p now st = (st', ok)"
    "int (length (requestTimestamps st)) \<le> num_int (maxRequestsPerWindow p)"
  shows "int (length (requestTimestamps st')) \<le> num_int (maxRequestsPerWindow p)"
proof -
  have "int (length (filter (\<lambda>t. now - num_int (requestWindowMs p) < t) (requestTimestamps st)))
      \<le> num_int (maxRequestsPerWindow p)"
    using assms(2) length_filter_le [of "\<lambda>t. now - num_int (requestWindowMs p) < t" "requestTimestamps st"]
    by linarith
  with assms(1) show ?thesis by (auto simp: enforceWindow_def Let_def split: if_splits)
qed

locale valid_policy =
  fixes p :: policy
  assumes valid: "policy_valid p"
begin

lemma policy_pos:
  "0 < num_int (maxConcurrentExecutions p)" "0 < num_int (maxRequestsPerWindow p)" "0 < num_int (requestWindowMs p)"
  using valid by (auto simp: policy_valid_def isSafeInteger_cases)

lemma getLimiterState_inv:
  assumes inv: "gov_inv p lim rs" and g: "getLimiterState k now lim = (lim', tracked)"
  shows "gov_inv p lim' rs" "tracked \<Longrightarrow> k \<in> fst ` set lim'"
proof -
  have fresh: "k \<notin> fst ` set lim \<Longrightarrow> in_flight rs k = 0"
    using inv by (auto simp: gov_inv_def in_flight_def filter_empty_conv)
  have add: "gov_inv p (xs @ [(k, createDefaultState now)]) rs"
    if "gov_inv p xs rs" "k \<notin> fst ` set lim" "fst ` set xs \<subseteq> fst ` set lim" "length xs < MAX_TRACKED_SCOPES" for xs
    using that fresh policy_pos by (auto simp: gov_inv_def createDefaultState_def state_ok_def)
  consider (old) "k \<in> fst ` set lim" "lim' = set_state k (\<lambda>s. s\<lparr>lastTouchedAt := now\<rparr>) lim" "tracked"
    | (none) "lim' = lim" "\<not> tracked"
    | (evict) k0 s0 where "k \<notin> fst ` set lim" "(k0, s0) \<in> set lim" "active s0 = 0" "tracked"
        "lim' = filter (\<lambda>(k', _). k' \<noteq> k0) lim @ [(k, createDefaultState now)]"
    | (new) "k \<notin> fst ` set lim" "length lim < MAX_TRACKED_SCOPES" "lim' = lim @ [(k, createDefaultState now)]" "tracked"
  proof (cases "k \<in> fst ` set lim")
    case True
    then show ?thesis using g that(1) by (auto simp: getLimiterState_def)
  next
    case False
    show ?thesis
    proof (cases "MAX_TRACKED_SCOPES \<le> length lim")
      case True
      let ?ev = "sort_key (\<lambda>(k, s). lastTouchedAt s) (filter (\<lambda>(k, s). active s = 0) lim)"
      show ?thesis
      proof (cases ?ev)
        case Nil
        then show ?thesis using g False True that(2) by (auto simp: getLimiterState_def)
      next
        case (Cons e es)
        obtain k0 s0 where e: "e = (k0, s0)" by fastforce
        have "(k0, s0) \<in> set ?ev" using Cons e by simp
        then have "(k0, s0) \<in> set lim" "active s0 = 0" by auto
        then show ?thesis using g False True that(3) Cons e by (auto simp: getLimiterState_def)
      qed
    next
      case False
      then show ?thesis using g \<open>k \<notin> fst ` set lim\<close> that(4) by (auto simp: getLimiterState_def)
    qed
  qed
  then have "gov_inv p lim' rs \<and> (tracked \<longrightarrow> k \<in> fst ` set lim')"
  proof cases
    case old
    have "gov_inv p lim' rs"
      unfolding old(2) by (rule gov_inv_set_state [OF inv]) (use inv in \<open>auto simp: gov_inv_def state_ok_def\<close>)
    then show ?thesis using old by auto
  next
    case (evict k0 s0)
    have "state_ok p (in_flight rs k0) s0" using inv evict by (auto simp: gov_inv_def)
    then have "in_flight rs k0 = 0" using evict by (simp add: state_ok_def)
    then have "k0 \<notin> run_scope ` set rs" by (auto simp: in_flight_def filter_empty_conv)
    moreover have "fst ` set (filter (\<lambda>(k', _). k' \<noteq> k0) lim) = fst ` set lim - {k0}" by force
    ultimately have "gov_inv p (filter (\<lambda>(k', _). k' \<noteq> k0) lim) rs"
      using inv by (auto simp: gov_inv_def distinct_map_filter le_trans [OF length_filter_le])
    moreover have "length (filter (\<lambda>(k', _). k' \<noteq> k0) lim) < length lim"
      using evict(2) by (intro length_filter_less) auto
    ultimately show ?thesis
      using add [of "filter (\<lambda>(k', _). k' \<noteq> k0) lim"] evict inv by (auto simp: gov_inv_def)
  next
    case new
    then show ?thesis using add [OF inv] by auto
  qed (use inv in auto)
  then show "gov_inv p lim' rs" "tracked \<Longrightarrow> k \<in> fst ` set lim'" by auto
qed

lemma begin_call_inv:
  assumes inv: "gov_inv p lim rs" and b: "begin_call p d ctx clock v lim = (lim', res)"
  shows "case res of Denied out ev \<Rightarrow> gov_inv p lim' rs | Started r \<Rightarrow> gov_inv p lim' (r # rs)"
proof (cases "inputSchema d v")
  case None
  then show ?thesis using b inv by (auto simp: begin_call_def Let_def)
next
  case (Some input)
  let ?k = "deriveLimiterScope d ctx"
  obtain lim1 tracked where g: "getLimiterState ?k (clock 2) lim = (lim1, tracked)" by fastforce
  note g1 = getLimiterState_inv [OF inv g]
  show ?thesis
  proof (cases tracked)
    case False
    then show ?thesis using b Some g g1 by (auto simp: begin_call_def Let_def)
  next
    case True
    then obtain st where st: "map_of lim1 ?k = Some st" "(?k, st) \<in> set lim1"
      using g1(2) by (metis map_of_SomeD domD dom_map_of_conv_image_fst)
    obtain st' adm where w: "enforceWindow p (clock 3) st = (st', adm)" by fastforce
    have uniq: "(?k, s) \<in> set lim1 \<Longrightarrow> s = st" for s
      using g1(1) st(2) eq_key_imp_eq_value [of lim1 ?k s st] by (simp add: gov_inv_def)
    let ?lim2 = "set_state ?k (\<lambda>_. st') lim1"
    have inv2: "gov_inv p ?lim2 rs"
      by (rule gov_inv_set_state [OF g1(1)])
        (use g1(1) uniq enforceWindow_active [OF w] enforceWindow_bound [OF w] in
          \<open>auto simp: gov_inv_def state_ok_def\<close>)
    show ?thesis
    proof (cases "adm \<and> int (active st') < num_int (maxConcurrentExecutions p)")
      case False
      then show ?thesis using b Some g \<open>tracked\<close> st(1) w inv2
        by (auto simp: begin_call_def Let_def split: if_splits)
    next
      case ok: True
      let ?r = "\<lparr>run_desc = d, run_ctx = ctx, run_scope = ?k, run_input = input,
                 run_timestamp = clock 0, run_startedAt = clock 1\<rparr>"
      have "gov_inv p (set_state ?k (\<lambda>s. s\<lparr>active := active s + 1\<rparr>) ?lim2) (?r # rs)"
      proof (rule gov_inv_set_state [OF inv2])
        show "run_scope ` set (?r # rs) \<subseteq> fst ` set ?lim2" using inv2 g1(2) True by (auto simp: gov_inv_def)
        fix s assume s: "(?k, s) \<in> set ?lim2" "state_ok p (in_flight rs ?k) s"
        from s(1) have "s = st'" by (auto simp: set_state_mem)
        with s(2) ok show "state_ok p (in_flight (?r # rs) ?k) (s\<lparr>active := active s + 1\<rparr>)"
          by (auto simp: state_ok_def in_flight_def)
      qed (simp add: in_flight_def)
      moreover have "lim' = set_state ?k (\<lambda>s. s\<lparr>active := active s + 1\<rparr>) ?lim2" "res = Started ?r"
        using b Some g \<open>tracked\<close> st(1) w ok by (auto simp: begin_call_def Let_def)
      ultimately show ?thesis by simp
    qed
  qed
qed

lemma finish_call_inv:
  assumes inv: "gov_inv p lim (a @ r # b)" and f: "finish_call r now ab s lim = (lim', out, ev)"
  shows "gov_inv p lim' (a @ b)"
proof -
  have "lim' = set_state (run_scope r) releaseConcurrency lim"
    using f by (auto simp: finish_call_def split: prod.splits)
  then show ?thesis
    by (simp only:) (rule gov_inv_set_state [OF inv];
        use inv in \<open>auto simp: gov_inv_def state_ok_def in_flight_def releaseConcurrency_def\<close>)
qed

lemma reachable_inv: "gov_reachable p g \<Longrightarrow> gov_inv p (g_lim g) (g_running g)"
proof (induction rule: gov_reachable.induct)
  case start
  then show ?case by (simp add: gov_inv_def)
next
  case (step g g')
  from step(2) show ?case
  proof cases
    case (denied d ctx clock v lim out ev)
    then show ?thesis using begin_call_inv [OF step.IH] by fastforce
  next
    case (started d ctx clock v lim r)
    then show ?thesis using begin_call_inv [OF step.IH] by fastforce
  next
    case (finished a r b now ab s lim out ev)
    then show ?thesis using finish_call_inv step.IH by simp
  qed
qed

end

interpretation default_policy: valid_policy DEFAULT_RATE_LIMIT
  by unfold_locales (simp add: policy_valid_def DEFAULT_RATE_LIMIT_def MAX_SAFE_INTEGER_def)

section \<open>The request window\<close>

text \<open>The times at which a sequence of requests is admitted by one limiter state.\<close>

fun admitted :: "policy \<Rightarrow> limiter_state \<Rightarrow> int list \<Rightarrow> int list" where
  "admitted p st [] = []"
| "admitted p st (t # ts) =
     (case enforceWindow p t st of (st', ok) \<Rightarrow> (if ok then [t] else []) @ admitted p st' ts)"

definition in_window :: "int \<Rightarrow> int \<Rightarrow> int list \<Rightarrow> int list" where
  "in_window w t h = filter (\<lambda>x. t - w < x \<and> x \<le> t) h"

text \<open>The state holds the admitted requests of the last window.\<close>

definition window_inv :: "policy \<Rightarrow> int list \<Rightarrow> limiter_state \<Rightarrow> int \<Rightarrow> bool" where
  "window_inv p h st now \<longleftrightarrow>
     (\<forall>x \<in> set h. x \<le> now) \<and>
     requestTimestamps st = filter (\<lambda>x. now - num_int (requestWindowMs p) < x) h \<and>
     (\<forall>t. int (length (in_window (num_int (requestWindowMs p)) t h)) \<le> num_int (maxRequestsPerWindow p))"

context valid_policy
begin

lemma window_step:
  assumes inv: "window_inv p h st now" and le: "now \<le> t" and e: "enforceWindow p t st = (st', ok)"
  shows "window_inv p (if ok then h @ [t] else h) st' t"
proof -
  let ?w = "num_int (requestWindowMs p)" and ?m = "num_int (maxRequestsPerWindow p)"
  let ?kept = "filter (\<lambda>x. t - ?w < x) h"
  have kept: "filter (\<lambda>x. t - ?w < x) (requestTimestamps st) = ?kept"
    using inv le by (auto simp: window_inv_def intro!: filter_cong)
  have old: "\<forall>x \<in> set h. x \<le> t" using inv le by (auto simp: window_inv_def)
  show ?thesis
  proof (cases "?m \<le> int (length ?kept)")
    case True
    then show ?thesis using e kept inv old by (auto simp: enforceWindow_def Let_def window_inv_def)
  next
    case False
    then have st': "st' = st\<lparr>lastTouchedAt := t, requestTimestamps := ?kept @ [t]\<rparr>" "ok"
      using e kept by (auto simp: enforceWindow_def Let_def)
    have "int (length (in_window ?w u (h @ [t]))) \<le> ?m" for u
    proof (cases "u < t")
      case True
      then show ?thesis using inv by (auto simp: window_inv_def in_window_def)
    next
      case later: False
      have "length (filter (\<lambda>x. u - ?w < x \<and> x \<le> u) h) \<le> length ?kept"
        using later by (induction h) auto
      then have "length (in_window ?w u (h @ [t])) \<le> length ?kept + 1" by (simp add: in_window_def)
      with False show ?thesis by linarith
    qed
    then show ?thesis using st' old policy_pos(3) by (auto simp: window_inv_def)
  qed
qed

lemma window_run:
  "window_inv p h st now \<Longrightarrow> sorted (now # ts) \<Longrightarrow>
   int (length (in_window (num_int (requestWindowMs p)) t (h @ admitted p st ts))) \<le> num_int (maxRequestsPerWindow p)"
proof (induction ts arbitrary: h st now)
  case Nil
  then show ?case by (simp add: window_inv_def)
next
  case (Cons t' ts)
  obtain st' ok where e: "enforceWindow p t' st = (st', ok)" by fastforce
  have "window_inv p (if ok then h @ [t'] else h) st' t'"
    using window_step [OF Cons.prems(1) _ e] Cons.prems(2) by simp
  from Cons.IH [OF this] Cons.prems(2) e show ?case by (cases ok) auto
qed

end

section \<open>Properties\<close>

text \<open>
  C16. In every reachable state, under any interleaving of calls, the recorded active count of a scope is
  the number of its calls in flight and at most the concurrency bound, the tracked request times are at
  most the window bound, at most 1024 scopes are tracked, and every scope with a call in flight is
  tracked (so its slot is released).
\<close>

theorem limiter_invariant:
  assumes "policy_valid p" "gov_reachable p g"
  shows "distinct (map fst (g_lim g)) \<and> length (g_lim g) \<le> 1024 \<and>
    (\<forall>(k, s) \<in> set (g_lim g). active s = in_flight (g_running g) k
        \<and> int (active s) \<le> num_int (maxConcurrentExecutions p)
        \<and> int (length (requestTimestamps s)) \<le> num_int (maxRequestsPerWindow p)) \<and>
    (\<forall>r \<in> set (g_running g). run_scope r \<in> fst ` set (g_lim g))"
  using valid_policy.reachable_inv [OF valid_policy.intro [OF assms(1)] assms(2)]
  by (auto simp: gov_inv_def state_ok_def limits)

theorem limiter_invariant_witness:
  "policy_valid DEFAULT_RATE_LIMIT \<and> gov_reachable DEFAULT_RATE_LIMIT \<lparr>g_lim = [], g_running = []\<rparr>
   \<and> length (g_lim \<lparr>g_lim = [], g_running = []\<rparr>) \<le> 1024"
  using limiter_invariant [OF default_policy.valid gov_reachable.start] default_policy.valid gov_reachable.start
  by blast

text \<open>
  For non-decreasing clock readings, the requests one limiter state admits within any window of
  \<open>requestWindowMs\<close> milliseconds are at most \<open>maxRequestsPerWindow\<close>.
\<close>

lemma window_rate_bound:
  assumes "policy_valid p" "sorted ts" "requestTimestamps st = []"
  shows "int (length (filter (\<lambda>x. t - num_int (requestWindowMs p) < x \<and> x \<le> t) (admitted p st ts)))
    \<le> num_int (maxRequestsPerWindow p)"
proof (cases ts)
  case Nil
  then show ?thesis
    using valid_policy.policy_pos(2) [OF valid_policy.intro [OF assms(1)]] by simp
next
  case (Cons t0 ts')
  have "window_inv p [] st t0"
    using assms(3) valid_policy.policy_pos(2) [OF valid_policy.intro [OF assms(1)]]
    by (simp add: window_inv_def in_window_def)
  from valid_policy.window_run [OF valid_policy.intro [OF assms(1)] this, of ts t] assms(2) Cons
  show ?thesis by (simp add: in_window_def)
qed

text \<open>
  An execution is reported as a success exactly when \<open>execute\<close> resolved to a value that the output
  schema accepts, that declares no error, has at most \<open>maxRows\<close> rows and at most \<open>maxResponseBytes\<close> bytes
  on the wire; the value returned is then the parsed one. Every other outcome is a blocked event with a
  denial class, and what is returned is an error envelope or the parsed error the tool declared.
\<close>

lemma success_iff_within_limits:
  assumes "finish_call c now ab r lim = (lim', out, ev)"
  shows "(ev_outcome ev = Success \<longleftrightarrow>
      (\<exists>v. r = Resolved v \<and> outputSchema (run_desc c) v = Some out \<and> declared_error out = None
        \<and> countRows out \<le> maxRows (run_desc c)
        \<and> readToolWireResponseByteLength (requestId (run_ctx c)) out \<le> maxResponseBytes (run_desc c)
        \<and> ev_denialClass ev = None \<and> ev_rowCount ev = countRows out))
    \<and> (ev_outcome ev = Blocked \<longrightarrow>
        (\<exists>code. out = createReadToolError code \<and> ev_denialClass ev = Some (VStr (error_code code)))
        \<or> (\<exists>v code. r = Resolved v \<and> outputSchema (run_desc c) v = Some out
            \<and> declared_error out = Some code \<and> ev_denialClass ev = Some code))"
  using assms
  by (auto simp: finish_call_def settle_output_def mk_event_def Let_def
      split: settled.splits option.splits if_splits prod.splits)

text \<open>
  Every way \<open>execute\<close> can fail and the error it becomes: the timeout class when the call was aborted,
  the validation and response-limit classes for the client's codes for them, and the unexpected class for
  everything else. A client timeout (\<open>FIXED_CLIENT_TIMEOUT\<close>) that arrives while the call is not aborted is
  recognised as \<open>DEADLINE_EXCEEDED\<close> by \<open>causeToFailureCode\<close> and still reported as unexpected.
\<close>

lemma rejection_classes:
  "settle_output d rid ab (Rejected code) =
     (let c = (if ab then em_timeout (errorMapping d)
               else if code \<in> Some ` VStr ` {js ''FIXED_CLIENT_INVALID_CREDENTIAL'', js ''FIXED_CLIENT_INVALID_REQUEST''}
               then em_validation (errorMapping d)
               else if code = Some (VStr (js ''FIXED_CLIENT_RESPONSE_TOO_LARGE'')) then em_responseLimit (errorMapping d)
               else em_unexpected (errorMapping d))
      in (createReadToolError c, 0, Blocked, Some (VStr (error_code c))))
   \<and> causeToFailureCode (Some (VStr (js ''FIXED_CLIENT_TIMEOUT''))) = Some DEADLINE_EXCEEDED
   \<and> settle_output d rid False (Rejected (Some (VStr (js ''FIXED_CLIENT_TIMEOUT'')))) =
       (createReadToolError (em_unexpected (errorMapping d)), 0, Blocked,
        Some (VStr (error_code (em_unexpected (errorMapping d)))))"
proof -
  have neq: "js ''FIXED_CLIENT_INVALID_CREDENTIAL'' \<noteq> js ''FIXED_CLIENT_TIMEOUT''"
    "js ''FIXED_CLIENT_INVALID_CREDENTIAL'' \<noteq> js ''DEADLINE_EXCEEDED''"
    "js ''FIXED_CLIENT_INVALID_CREDENTIAL'' \<noteq> js ''FIXED_CLIENT_RESPONSE_TOO_LARGE''"
    "js ''FIXED_CLIENT_INVALID_REQUEST'' \<noteq> js ''FIXED_CLIENT_TIMEOUT''"
    "js ''FIXED_CLIENT_INVALID_REQUEST'' \<noteq> js ''DEADLINE_EXCEEDED''"
    "js ''FIXED_CLIENT_INVALID_REQUEST'' \<noteq> js ''FIXED_CLIENT_RESPONSE_TOO_LARGE''"
    "js ''FIXED_CLIENT_RESPONSE_TOO_LARGE'' \<noteq> js ''FIXED_CLIENT_TIMEOUT''"
    "js ''FIXED_CLIENT_RESPONSE_TOO_LARGE'' \<noteq> js ''DEADLINE_EXCEEDED''"
    by (simp_all add: js_def)
  show ?thesis
    using neq neq [symmetric]
    by (auto simp: settle_output_def causeToFailureCode_def Let_def split: option.splits)
qed

end
