(* ===== verification/Storage_Bounds.thy ===== *)
theory Storage_Bounds
  imports Wire
begin

text \<open>
  \<open>packages/contracts/src/storage-bounds.ts\<close>: the validators of object keys, list prefixes, content types,
  sizes, inline base64 content and bucket identifiers.
\<close>

section \<open>Bounds and results\<close>

definition STORAGE_MAX_RELATIVE_KEY_BYTES :: nat where [limits]: "STORAGE_MAX_RELATIVE_KEY_BYTES = 512"
definition STORAGE_MAX_KEY_SEGMENTS :: nat where [limits]: "STORAGE_MAX_KEY_SEGMENTS = 8"
definition STORAGE_MAX_SEGMENT_BYTES :: nat where [limits]: "STORAGE_MAX_SEGMENT_BYTES = 128"
definition STORAGE_MAX_INLINE_BYTES :: nat where [limits]: "STORAGE_MAX_INLINE_BYTES = 32 * 1024"
definition STORAGE_MAX_OBJECT_BYTES :: nat where [limits]: "STORAGE_MAX_OBJECT_BYTES = 5 * 1024 * 1024"

datatype storage_rejection =
    not_a_string | empty | too_long | absolute_path | backslash | empty_segment | dot_segment
  | too_many_segments | segment_too_long | disallowed_character | missing_extension
  | disallowed_extension | disallowed_mime | mime_extension_mismatch | invalid_size | size_exceeded
  | invalid_base64 | invalid_bucket

text \<open>\<open>reject\<close> is \<open>Inl\<close>, \<open>accept\<close> is \<open>Inr\<close>.\<close>

definition utf8Bytes :: "jsstring \<Rightarrow> nat" where
  "utf8Bytes s = length (text_encode s)"

section \<open>Keys\<close>

definition SLASH :: cunit where "SLASH = 0x2f"
definition DOT :: cunit where "DOT = 0x2e"
definition BACKSLASH :: cunit where "BACKSLASH = 0x5c"

text \<open>\<open>/^[A-Za-z0-9][A-Za-z0-9._-]*$/\<close>\<close>

definition SEGMENT :: "jsstring \<Rightarrow> bool" where
  "SEGMENT s =
     (case s of [] \<Rightarrow> False
      | u # r \<Rightarrow> alnum u \<and> list_all (\<lambda>v. alnum v \<or> v = DOT \<or> v = 0x5f \<or> v = 0x2d) r)"

fun has_double :: "cunit \<Rightarrow> jsstring \<Rightarrow> bool" where
  "has_double c (u # v # s) = (u = c \<and> v = c \<or> has_double c (v # s))"
| "has_double c _ = False"

text \<open>\<open>s.split('/')\<close>\<close>

fun split_slash :: "jsstring \<Rightarrow> jsstring list" where
  "split_slash [] = [[]]"
| "split_slash (u # s) =
     (if u = SLASH then [] # split_slash s
      else case split_slash s of [] \<Rightarrow> [[u]] | seg # segs \<Rightarrow> (u # seg) # segs)"

definition check_segment :: "jsstring \<Rightarrow> storage_rejection + unit" where
  "check_segment segment =
     (if segment = [] then Inl empty_segment
      else if segment = [DOT] \<or> segment = [DOT, DOT] then Inl dot_segment
      else if STORAGE_MAX_SEGMENT_BYTES < utf8Bytes segment then Inl segment_too_long
      else if \<not> SEGMENT segment \<or> has_double DOT segment then Inl disallowed_character
      else Inr ())"

text \<open>\<open>leaf.lastIndexOf('.')\<close>; \<open>None\<close> is \<open>-1\<close>.\<close>

definition last_dot :: "jsstring \<Rightarrow> nat option" where
  "last_dot s =
     (if DOT \<in> set s then Some (length s - 1 - length (takeWhile (\<lambda>u. u \<noteq> DOT) (rev s))) else None)"

definition STORAGE_MIME_BY_EXTENSION :: "(jsstring \<times> jsstring) list" where
  "STORAGE_MIME_BY_EXTENSION = map (\<lambda>(e, t). (js e, js t))
     [(''txt'', ''text/plain''), (''md'', ''text/markdown''), (''csv'', ''text/csv''), (''json'', ''application/json''),
      (''pdf'', ''application/pdf''), (''png'', ''image/png''), (''jpg'', ''image/jpeg''), (''jpeg'', ''image/jpeg''),
      (''webp'', ''image/webp'')]"

definition STORAGE_ALLOWED_MIME_TYPES :: "jsstring list" where
  "STORAGE_ALLOWED_MIME_TYPES = remdups (map snd STORAGE_MIME_BY_EXTENSION)"

record storage_key =
  key :: jsstring
  segments :: "jsstring list"
  extension :: jsstring
  mimeType :: jsstring

text \<open>The checks both parsers share: length, leading slash, backslash, number and form of the segments.\<close>

definition check_path :: "jsstring \<Rightarrow> storage_rejection + jsstring list" where
  "check_path input =
     (if STORAGE_MAX_RELATIVE_KEY_BYTES < utf8Bytes input then Inl too_long
      else if take 1 input = [SLASH] then Inl absolute_path
      else if BACKSLASH \<in> set input then Inl backslash
      else
        (let segs = split_slash input
         in if STORAGE_MAX_KEY_SEGMENTS < length segs then Inl too_many_segments
            else (case eachE check_segment segs of Inl e \<Rightarrow> Inl e | Inr _ \<Rightarrow> Inr segs)))"

definition parseStorageRelativeKey :: "jsval \<Rightarrow> storage_rejection + storage_key" where
  "parseStorageRelativeKey v =
     (case v of
        VStr input \<Rightarrow>
          if input = [] then Inl empty
          else
            (case check_path input of
               Inl e \<Rightarrow> Inl e
             | Inr segs \<Rightarrow>
                 (let leaf = last segs
                  in case last_dot leaf of
                       None \<Rightarrow> Inl missing_extension
                     | Some d \<Rightarrow>
                         if d = 0 \<or> d = length leaf - 1 then Inl missing_extension
                         else
                           (let ext = drop (d + 1) leaf
                            in case map_of STORAGE_MIME_BY_EXTENSION ext of
                                 None \<Rightarrow> Inl disallowed_extension
                               | Some mt \<Rightarrow>
                                   Inr \<lparr>key = input, segments = segs, extension = ext, mimeType = mt\<rparr>)))
      | _ \<Rightarrow> Inl not_a_string)"

definition parseStorageListPrefix :: "jsval \<Rightarrow> storage_rejection + jsstring" where
  "parseStorageListPrefix v =
     (case v of
        VStr input \<Rightarrow>
          if input = [] then Inr []
          else (case check_path input of Inl e \<Rightarrow> Inl e | Inr _ \<Rightarrow> Inr input)
      | _ \<Rightarrow> Inl not_a_string)"

section \<open>Types and sizes\<close>

definition checkStorageMimeType :: "storage_key \<Rightarrow> jsval \<Rightarrow> storage_rejection + jsstring" where
  "checkStorageMimeType k declared =
     (case declared of
        VStr s \<Rightarrow>
          if s \<notin> set STORAGE_ALLOWED_MIME_TYPES then Inl disallowed_mime
          else if s \<noteq> mimeType k then Inl mime_extension_mismatch
          else Inr s
      | _ \<Rightarrow> Inl not_a_string)"

datatype size_mode = SM_inline | SM_signed

definition checkStorageSize :: "jsval \<Rightarrow> size_mode \<Rightarrow> storage_rejection + int" where
  "checkStorageSize v mode =
     (case v of
        VNum x \<Rightarrow>
          if \<not> isSafeInteger x \<or> num_lt x 0 then Inl invalid_size
          else if num_gt x (int (if mode = SM_inline then STORAGE_MAX_INLINE_BYTES else STORAGE_MAX_OBJECT_BYTES))
          then Inl size_exceeded
          else Inr (num_int x)
      | _ \<Rightarrow> Inl invalid_size)"

section \<open>Base64\<close>

definition b64_digit :: "nat \<Rightarrow> cunit" where
  "b64_digit n = of_nat
     (if n < 26 then 65 + n else if n < 52 then 71 + n else if n < 62 then n - 4 else if n = 62 then 43 else 47)"

definition b64_value :: "cunit \<Rightarrow> nat option" where
  "b64_value u =
     (let c = unat u
      in if 65 \<le> c \<and> c \<le> 90 then Some (c - 65) else if 97 \<le> c \<and> c \<le> 122 then Some (c - 71)
         else if 48 \<le> c \<and> c \<le> 57 then Some (c + 4) else if c = 43 then Some 62 else if c = 47 then Some 63
         else None)"

definition PAD :: cunit where "PAD = 0x3d"

text \<open>\<open>Buffer.toString('base64')\<close>\<close>

fun b64_enc :: "byte list \<Rightarrow> jsstring" where
  "b64_enc [] = []"
| "b64_enc [a] = [b64_digit (unat a div 4), b64_digit (unat a mod 4 * 16), PAD, PAD]"
| "b64_enc [a, b] =
     [b64_digit (unat a div 4), b64_digit (unat a mod 4 * 16 + unat b div 16), b64_digit (unat b mod 16 * 4), PAD]"
| "b64_enc (a # b # c # r) =
     b64_digit (unat a div 4) # b64_digit (unat a mod 4 * 16 + unat b div 16) #
     b64_digit (unat b mod 16 * 4 + unat c div 64) # b64_digit (unat c mod 64) # b64_enc r"

definition val64 :: "cunit \<Rightarrow> nat" where
  "val64 u = (case b64_value u of None \<Rightarrow> 0 | Some n \<Rightarrow> n)"

text \<open>\<open>Buffer.from(content, 'base64')\<close> on text of the strict pattern.\<close>

fun b64_dec :: "jsstring \<Rightarrow> byte list" where
  "b64_dec (x # y # z # w # r) =
     (if z = PAD then [of_nat (val64 x * 4 + val64 y div 16)]
      else if w = PAD then [of_nat (val64 x * 4 + val64 y div 16), of_nat (val64 y mod 16 * 16 + val64 z div 4)]
      else of_nat (val64 x * 4 + val64 y div 16) # of_nat (val64 y mod 16 * 16 + val64 z div 4) #
           of_nat (val64 z mod 4 * 64 + val64 w) # b64_dec r)"
| "b64_dec _ = []"

text \<open>\<open>/^(?:[A-Za-z0-9+/]{4})*(?:[A-Za-z0-9+/]{2}==|[A-Za-z0-9+/]{3}=)?$/\<close>\<close>

fun STRICT_BASE64 :: "jsstring \<Rightarrow> bool" where
  "STRICT_BASE64 [] = True"
| "STRICT_BASE64 (x # y # z # w # r) =
     (b64_value x \<noteq> None \<and> b64_value y \<noteq> None \<and>
      (b64_value z \<noteq> None \<and> b64_value w \<noteq> None \<and> STRICT_BASE64 r
       \<or> r = [] \<and> w = PAD \<and> (z = PAD \<or> b64_value z \<noteq> None)))"
| "STRICT_BASE64 _ = False"

definition ends_with :: "jsstring \<Rightarrow> jsstring \<Rightarrow> bool" where
  "ends_with s t \<longleftrightarrow> length t \<le> length s \<and> drop (length s - length t) s = t"

definition checkStorageInlineBase64 :: "jsval \<Rightarrow> storage_rejection + int" where
  "checkStorageInlineBase64 v =
     (case v of
        VStr content \<Rightarrow>
          (let maxEncoded = (STORAGE_MAX_INLINE_BYTES + 2) div 3 * 4
           in if maxEncoded < length content then Inl size_exceeded
              else if length content mod 4 \<noteq> 0 \<or> \<not> STRICT_BASE64 content then Inl invalid_base64
              else
                (let padding = (if ends_with content [PAD, PAD] then 2 else if ends_with content [PAD] then 1 else 0);
                     decoded = int (length content div 4 * 3) - padding
                 in if 0 < padding \<and> b64_enc (b64_dec content) \<noteq> content then Inl invalid_base64
                    else checkStorageSize (VNum (JInt decoded)) SM_inline))
      | _ \<Rightarrow> Inl not_a_string)"

section \<open>Buckets\<close>

definition lower_alnum :: "cunit \<Rightarrow> bool" where
  "lower_alnum u \<longleftrightarrow> 48 \<le> unat u \<and> unat u \<le> 57 \<or> 97 \<le> unat u \<and> unat u \<le> 122"

text \<open>\<open>/^[a-z0-9][a-z0-9-]{1,61}[a-z0-9]$/\<close>\<close>

definition BUCKET_ID :: "jsstring \<Rightarrow> bool" where
  "BUCKET_ID s \<longleftrightarrow>
     3 \<le> length s \<and> length s \<le> 63 \<and> lower_alnum (hd s) \<and> lower_alnum (last s) \<and>
     list_all (\<lambda>u. lower_alnum u \<or> u = 0x2d) s"

definition checkStorageBucketId :: "jsval \<Rightarrow> storage_rejection + jsstring" where
  "checkStorageBucketId v =
     (case v of
        VStr s \<Rightarrow> if \<not> BUCKET_ID s \<or> has_double 0x2d s then Inl invalid_bucket else Inr s
      | _ \<Rightarrow> Inl invalid_bucket)"

definition STORAGE_INLINE_ENVELOPE_HEADROOM_BYTES :: int where
  "STORAGE_INLINE_ENVELOPE_HEADROOM_BYTES = int MAX_RESPONSE_BYTES - int ((STORAGE_MAX_INLINE_BYTES + 2) div 3 * 4)"

end
