(* ===== verification/Storage_Properties.thy ===== *)
theory Storage_Properties
  imports Storage_Bounds
begin

text \<open>
  The storage validators: an accepted key stays below any base path, and inline content is accepted
  exactly when it is the canonical base64 text of at most 32768 bytes.
\<close>

section \<open>Base64\<close>

lemma b64_value_digit [simp]: "n < 64 \<Longrightarrow> b64_value (b64_digit n) = Some n"
proof -
  assume n: "n < 64"
  let ?c = "if n < 26 then 65 + n else if n < 52 then 71 + n else if n < 62 then n - 4 else if n = 62 then 43 else (47 :: nat)"
  have "?c < 65536" using n by auto
  then have "unat (b64_digit n) = ?c" unfolding b64_digit_def by (rule unat_cunit)
  with n show ?thesis by (auto simp: b64_value_def Let_def)
qed

lemma b64_value_Some: "b64_value u = Some n \<Longrightarrow> n < 64 \<and> b64_digit n = u"
proof -
  assume v: "b64_value u = Some n"
  have *: "u = of_nat (unat u)" by simp
  consider "65 \<le> unat u" "unat u \<le> 90" "n = unat u - 65" | "97 \<le> unat u" "unat u \<le> 122" "n = unat u - 71"
    | "48 \<le> unat u" "unat u \<le> 57" "n = unat u + 4" | "unat u = 43" "n = 62" | "unat u = 47" "n = 63"
    using v by (auto simp: b64_value_def Let_def split: if_splits)
  then show ?thesis
  proof cases
    case 1
    then have "(65 + n) = unat u" "n < 26" by auto
    then show ?thesis using * by (simp add: b64_digit_def del: of_nat_add)
  next
    case 2
    then have "71 + n = unat u" "\<not> n < 26" "n < 52" by auto
    then show ?thesis using * by (simp add: b64_digit_def del: of_nat_add)
  next
    case 3
    then have "n - 4 = unat u" "\<not> n < 26" "\<not> n < 52" "n < 62" by auto
    then show ?thesis using * by (simp add: b64_digit_def del: of_nat_diff)
  qed (use * in \<open>auto simp: b64_digit_def\<close>)
qed

lemma b64_PAD [simp]: "b64_value PAD = None"
  by (simp add: b64_value_def PAD_def)

lemma b64_digit_PAD [simp]: "n < 64 \<Longrightarrow> b64_digit n \<noteq> PAD"
  by (metis b64_PAD b64_value_digit option.distinct(1))

lemma val64_digit [simp]: "n < 64 \<Longrightarrow> val64 (b64_digit n) = n"
  by (simp add: val64_def)

lemma digit_val64: "b64_value u \<noteq> None \<Longrightarrow> val64 u < 64 \<and> b64_digit (val64 u) = u"
  by (auto simp: val64_def dest: b64_value_Some)

lemma byte_parts [simp]:
  fixes a b :: byte
  shows "unat a div 4 < 64" "unat a mod 4 * 16 + unat b div 16 < 64" "unat a mod 4 * 16 < 64"
    "unat a mod 16 * 4 < 64" "unat a mod 16 * 4 + unat b div 64 < 64" "unat a mod 64 < 64"
  using byte_less [of a] byte_less [of b] by (auto simp: less_mult_imp_div_less)

fun pad_count :: "jsstring \<Rightarrow> nat" where
  "pad_count (x # y # z # w # r) = (if r = [] then if w = PAD then if z = PAD then 2 else 1 else 0 else pad_count r)"
| "pad_count _ = 0"

lemma ends_with_rest: "r \<noteq> [] \<Longrightarrow> length t \<le> length r \<Longrightarrow> ends_with (x # y # z # w # r) t = ends_with r t"
  by (auto simp: ends_with_def Suc_diff_le)

lemma strict_length: "STRICT_BASE64 c \<Longrightarrow> length c mod 4 = 0 \<and> (c \<noteq> [] \<longrightarrow> 4 \<le> length c)"
  by (induction c rule: STRICT_BASE64.induct) auto

lemma strict_padding:
  "STRICT_BASE64 c \<Longrightarrow>
   (if ends_with c [PAD, PAD] then 2 else if ends_with c [PAD] then 1 else 0) = pad_count c"
proof (induction c rule: STRICT_BASE64.induct)
  case (2 x y z w r)
  show ?case
  proof (cases "r = []")
    case True
    then show ?thesis using 2(2) by (auto simp: ends_with_def)
  next
    case False
    then have "STRICT_BASE64 r" using 2(2) by auto
    moreover from this have "4 \<le> length r" using strict_length False by blast
    ultimately show ?thesis using 2(1) False 2(2) by (auto simp: ends_with_rest)
  qed
qed (auto simp: ends_with_def)

lemma strict_dec_length:
  "STRICT_BASE64 c \<Longrightarrow> int (length (b64_dec c)) = int (length c div 4 * 3) - int (pad_count c)"
proof (induction c rule: STRICT_BASE64.induct)
  case (2 x y z w r)
  have "z \<noteq> PAD \<and> w \<noteq> PAD" if "b64_value z \<noteq> None" "b64_value w \<noteq> None" using that b64_PAD by metis
  moreover have "(4 + length r) div 4 = Suc (length r div 4)" by simp
  ultimately show ?case using 2 by (cases "r = []") (auto simp: div_less)
qed auto

lemma regroup:
  assumes "x < 64" "y < 64" "z < 64" "w < (64 :: nat)"
  shows "x * 4 + y div 16 < 256" "y mod 16 * 16 + z div 4 < 256" "z mod 4 * 64 + w < 256"
    "(x * 4 + y div 16) div 4 = x" "(x * 4 + y div 16) mod 4 * 16 + (y mod 16 * 16 + z div 4) div 16 = y"
    "(y mod 16 * 16 + z div 4) mod 16 * 4 + (z mod 4 * 64 + w) div 64 = z" "(z mod 4 * 64 + w) mod 64 = w"
proof -
  obtain y1 y0 where y: "y = y1 * 16 + y0" "y0 < 16" "y1 < 4"
    using assms(2) that [of "y div 16" "y mod 16"] by simp
  obtain z1 z0 where z: "z = z1 * 4 + z0" "z0 < 4" "z1 < 16"
    using assms(3) that [of "z div 4" "z mod 4"] by simp
  have "y div 16 = y1" "y mod 16 = y0" "z div 4 = z1" "z mod 4 = z0" using y z by auto
  then show "x * 4 + y div 16 < 256" "y mod 16 * 16 + z div 4 < 256" "z mod 4 * 64 + w < 256"
    "(x * 4 + y div 16) div 4 = x" "(x * 4 + y div 16) mod 4 * 16 + (y mod 16 * 16 + z div 4) div 16 = y"
    "(y mod 16 * 16 + z div 4) mod 16 * 4 + (z mod 4 * 64 + w) div 64 = z" "(z mod 4 * 64 + w) mod 64 = w"
    using assms y z by auto
qed

lemma strict_unpadded: "STRICT_BASE64 c \<Longrightarrow> pad_count c = 0 \<Longrightarrow> b64_enc (b64_dec c) = c"
proof (induction c rule: STRICT_BASE64.induct)
  case (2 x y z w r)
  have v: "b64_value x \<noteq> None" "b64_value y \<noteq> None" "b64_value z \<noteq> None" "b64_value w \<noteq> None" "STRICT_BASE64 r"
    "z \<noteq> PAD" "w \<noteq> PAD" "pad_count r = 0"
    using 2(2,3) by (auto split: if_splits)
  note d = digit_val64 [OF v(1)] digit_val64 [OF v(2)] digit_val64 [OF v(3)] digit_val64 [OF v(4)]
  note g = regroup [of "val64 x" "val64 y" "val64 z" "val64 w"]
  have u: "unat (of_nat (val64 x * 4 + val64 y div 16) :: byte) = val64 x * 4 + val64 y div 16"
    "unat (of_nat (val64 y mod 16 * 16 + val64 z div 4) :: byte) = val64 y mod 16 * 16 + val64 z div 4"
    "unat (of_nat (val64 z mod 4 * 64 + val64 w) :: byte) = val64 z mod 4 * 64 + val64 w"
    by (rule unat_byte, use g d in simp)+
  show ?case
    using 2(1) v d g u by (simp del: of_nat_add of_nat_mult)
qed auto

lemma dec_enc: "b64_dec (b64_enc b) = b"
proof (induction b rule: b64_enc.induct)
  case (2 a)
  have "unat a div 4 * 4 + unat a mod 4 * 16 div 16 = unat a" by simp
  then show ?case by (simp del: of_nat_add of_nat_mult)
next
  case (3 a b)
  have "unat a div 4 * 4 + (unat a mod 4 * 16 + unat b div 16) div 16 = unat a"
    using byte_halves [of b] by simp
  moreover have "(unat a mod 4 * 16 + unat b div 16) mod 16 * 16 + unat b mod 16 * 4 div 4 = unat b"
    using byte_halves [of b] by simp
  ultimately show ?case by (simp del: of_nat_add of_nat_mult)
next
  case (4 a b c r)
  have q: "unat c div 64 < 4" using byte_less [of c] by (simp add: less_mult_imp_div_less)
  have "unat a div 4 * 4 + (unat a mod 4 * 16 + unat b div 16) div 16 = unat a"
    using byte_halves [of b] by simp
  moreover have "(unat a mod 4 * 16 + unat b div 16) mod 16 * 16 + (unat b mod 16 * 4 + unat c div 64) div 4 = unat b"
    using byte_halves [of b] q by simp
  moreover have "(unat b mod 16 * 4 + unat c div 64) mod 4 * 64 + unat c mod 64 = unat c"
    using q by simp
  ultimately show ?case using 4 by (simp del: of_nat_add of_nat_mult)
qed simp

lemma strict_enc: "STRICT_BASE64 (b64_enc b)"
proof (induction b rule: b64_enc.induct)
  case (2 a)
  then show ?case by simp
next
  case (3 a b)
  then show ?case by simp
next
  case (4 a b c r)
  then show ?case by simp
qed simp

lemma length_enc: "length (b64_enc b) = (length b + 2) div 3 * 4"
proof (induction b rule: b64_enc.induct)
  case (4 a b c r)
  have "(5 + length r) div 3 = Suc ((2 + length r) div 3)" by simp
  with 4 show ?case by simp
qed auto

lemma inline_size: "0 \<le> d \<Longrightarrow> checkStorageSize (VNum (JInt d)) SM_inline = Inr n \<longleftrightarrow> d \<le> 32768 \<and> n = d"
  by (auto simp: checkStorageSize_def js_defs limits MAX_SAFE_INTEGER_def)

lemma strict_inline:
  assumes "STRICT_BASE64 c" "length c \<le> 43692"
  shows "checkStorageInlineBase64 (VStr c) = Inr n \<longleftrightarrow>
    b64_enc (b64_dec c) = c \<and> length (b64_dec c) \<le> 32768 \<and> n = int (length (b64_dec c))"
proof -
  have "(if ends_with c [PAD, PAD] then 2 else if ends_with c [PAD] then 1 else 0) = int (pad_count c)"
    using strict_padding [OF assms(1)] by (auto split: if_splits)
  moreover have "length c mod 4 = 0" using strict_length [OF assms(1)] by simp
  ultimately show ?thesis
    using assms strict_dec_length [OF assms(1)] inline_size [of "int (length (b64_dec c))" n] strict_unpadded [OF assms(1)]
    by (auto simp: checkStorageInlineBase64_def Let_def limits)
qed

text \<open>
  C35. \<^const>\<open>checkStorageInlineBase64\<close> accepts exactly the canonical base64 text of at most 32768 bytes,
  and returns their number: a text with other characters, wrong length, misplaced padding or non-zero
  unused bits is refused, and no two accepted texts stand for the same bytes.
\<close>

theorem inline_base64_iff:
  "checkStorageInlineBase64 v = Inr n \<longleftrightarrow>
   (\<exists>b. v = VStr (b64_enc b) \<and> length b \<le> STORAGE_MAX_INLINE_BYTES \<and> n = int (length b))"
proof
  assume ok: "checkStorageInlineBase64 v = Inr n"
  then obtain c where c: "v = VStr c" by (auto simp: checkStorageInlineBase64_def split: jsval.splits)
  then have "STRICT_BASE64 c" "length c \<le> 43692"
    using ok by (auto simp: checkStorageInlineBase64_def Let_def limits split: if_splits)
  then show "\<exists>b. v = VStr (b64_enc b) \<and> length b \<le> STORAGE_MAX_INLINE_BYTES \<and> n = int (length b)"
    using strict_inline ok c by (intro exI [of _ "b64_dec c"]) (simp add: limits)
next
  assume "\<exists>b. v = VStr (b64_enc b) \<and> length b \<le> STORAGE_MAX_INLINE_BYTES \<and> n = int (length b)"
  then obtain b where b: "v = VStr (b64_enc b)" "length b \<le> 32768" "n = int (length b)" by (auto simp: limits)
  have "(length b + 2) div 3 \<le> 10923" using b(2) by simp
  then have "length (b64_enc b) \<le> 43692" by (simp add: length_enc)
  then show "checkStorageInlineBase64 v = Inr n"
    using b strict_inline [OF strict_enc] by (simp add: dec_enc)
qed

section \<open>Keys\<close>

text \<open>Joining with \<open>'/'\<close>, and path resolution: \<open>''\<close> and \<open>'.'\<close> are skipped, \<open>'..'\<close> leaves a directory.\<close>

fun join_slash :: "jsstring list \<Rightarrow> jsstring" where
  "join_slash [] = []"
| "join_slash [s] = s"
| "join_slash (s # t # r) = s @ SLASH # join_slash (t # r)"

fun resolve_path :: "jsstring list \<Rightarrow> jsstring list \<Rightarrow> jsstring list" where
  "resolve_path base [] = base"
| "resolve_path base (s # r) =
     (if s = [] \<or> s = [DOT] then resolve_path base r
      else if s = [DOT, DOT] then resolve_path (butlast base) r
      else resolve_path (base @ [s]) r)"

lemma split_not_Nil [simp]: "split_slash s \<noteq> []"
  by (induction s) (auto split: list.splits)

lemma join_split: "join_slash (split_slash s) = s"
proof (induction s)
  case (Cons u s)
  obtain seg segs where e: "split_slash s = seg # segs" by (cases "split_slash s") auto
  with Cons show ?case by (cases segs) auto
qed simp

lemma split_no_slash: "t \<in> set (split_slash s) \<Longrightarrow> SLASH \<notin> set t"
  by (induction s arbitrary: t) (auto split: if_splits list.splits)

lemma resolve_plain:
  "(\<And>s. s \<in> set r \<Longrightarrow> s \<noteq> [] \<and> s \<noteq> [DOT] \<and> s \<noteq> [DOT, DOT]) \<Longrightarrow> resolve_path base r = base @ r"
  by (induction r arbitrary: base) auto

lemma last_dot_Some:
  assumes "last_dot s = Some d"
  shows "d < length s" "s = take d s @ DOT # drop (d + 1) s" "DOT \<notin> set (drop (d + 1) s)"
proof -
  let ?w = "takeWhile (\<lambda>u. u \<noteq> DOT) (rev s)"
  have m: "DOT \<in> set s" and d: "d = length s - 1 - length ?w" using assms by (auto simp: last_dot_def split: if_splits)
  have l: "length ?w < length (rev s)" using m
    by (metis (mono_tags, lifting) length_takeWhile_le le_neq_implies_less set_rev takeWhile_eq_all_conv takeWhile_eq_take take_all order_refl)
  show less: "d < length s" using d l by simp
  have "rev s ! length ?w = DOT" using nth_length_takeWhile [of "\<lambda>u. u \<noteq> DOT" "rev s"] l by auto
  then have n: "s ! d = DOT" using l d by (simp add: rev_nth)
  show "s = take d s @ DOT # drop (d + 1) s" using id_take_nth_drop [OF less] n by simp
  have "drop (d + 1) s = rev (take (length ?w) (rev s))" using d l by (simp add: take_rev Suc_diff_Suc)
  also have "take (length ?w) (rev s) = ?w" by (metis takeWhile_eq_take)
  finally show "DOT \<notin> set (drop (d + 1) s)" using set_takeWhileD by fastforce
qed

lemma check_path_ok:
  assumes "check_path s = Inr segs"
  shows "segs = split_slash s" "utf8Bytes s \<le> 512" "length segs \<le> 8"
    "\<And>t. t \<in> set segs \<Longrightarrow> check_segment t = Inr ()"
  using assms by (auto simp: check_path_def Let_def limits ok_simps eachE_ok_iff)

text \<open>
  A key accepted by \<^const>\<open>parseStorageRelativeKey\<close> is the input itself; its segments joined with
  \<open>'/'\<close> give it back; resolved against any base path it stays exactly the segments below that base
  (no empty, dot or dot-dot segment survives); it has at most 8 segments of at most 128 bytes and of
  the allowed characters, at most 512 bytes; and the last segment is a non-empty stem, a dot and an
  extension whose entry in the table is the returned content type.
\<close>

lemma accepted_key_stays_below_base:
  assumes "parseStorageRelativeKey v = Inr k"
  shows "v = VStr (key k) \<and> key k = join_slash (segments k) \<and>
    resolve_path base (segments k) = base @ segments k \<and>
    utf8Bytes (key k) \<le> 512 \<and> length (segments k) \<in> {1..8} \<and>
    (\<forall>s \<in> set (segments k). SEGMENT s \<and> SLASH \<notin> set s \<and> \<not> has_double DOT s \<and> utf8Bytes s \<le> 128) \<and>
    (\<exists>stem. stem \<noteq> [] \<and> last (segments k) = stem @ DOT # extension k) \<and> DOT \<notin> set (extension k) \<and>
    map_of STORAGE_MIME_BY_EXTENSION (extension k) = Some (mimeType k)"
proof -
  obtain s segs d mt where v: "v = VStr s" and p: "check_path s = Inr segs" and d: "last_dot (last segs) = Some d" "d \<noteq> 0"
    and mt: "map_of STORAGE_MIME_BY_EXTENSION (drop (d + 1) (last segs)) = Some mt"
    and k: "k = \<lparr>key = s, segments = segs, extension = drop (d + 1) (last segs), mimeType = mt\<rparr>"
    using assms by (auto simp: parseStorageRelativeKey_def Let_def ok_simps split: jsval.splits)
  note c = check_path_ok [OF p]
  have seg: "t \<noteq> [] \<and> t \<noteq> [DOT] \<and> t \<noteq> [DOT, DOT] \<and> utf8Bytes t \<le> 128 \<and> SEGMENT t \<and> \<not> has_double DOT t"
    if "t \<in> set segs" for t
    using c(4) [OF that] by (auto simp: check_segment_def limits split: if_splits)
  have "resolve_path base segs = base @ segs" using seg resolve_plain by blast
  moreover have "join_slash segs = s" using c(1) join_split by simp
  moreover have "1 \<le> length segs" using c(1) split_not_Nil [of s] by (simp add: Suc_le_eq)
  moreover have "take d (last segs) \<noteq> []" using d last_dot_Some(1) [OF d(1)] by auto
  then have "\<exists>stem. stem \<noteq> [] \<and> last segs = stem @ DOT # drop (d + 1) (last segs)"
    using last_dot_Some(2) [OF d(1)] by blast
  moreover have "\<forall>s \<in> set segs. SLASH \<notin> set s" using split_no_slash c(1) by blast
  ultimately show ?thesis
    using v k c(2,3) seg mt last_dot_Some(3) [OF d(1)] by simp
qed

lemma accepted_key_stays_below_base_witness:
  "parseStorageRelativeKey (VStr (js ''a/b.txt'')) =
     Inr \<lparr>key = js ''a/b.txt'', segments = [js ''a'', js ''b.txt''], extension = js ''txt'', mimeType = js ''text/plain''\<rparr>
   \<and> resolve_path [js ''root''] [js ''a'', js ''b.txt''] = [js ''root'', js ''a'', js ''b.txt'']"
proof -
  have *: "parseStorageRelativeKey (VStr (js ''a/b.txt'')) =
     Inr \<lparr>key = js ''a/b.txt'', segments = [js ''a'', js ''b.txt''], extension = js ''txt'', mimeType = js ''text/plain''\<rparr>"
    by (simp add: parseStorageRelativeKey_def check_path_def check_segment_def utf8Bytes_def SEGMENT_def alnum_def
        last_dot_def STORAGE_MIME_BY_EXTENSION_def js_def DOT_def SLASH_def BACKSLASH_def limits
        text_encode_def surrogate_def high_surrogate_def Let_def utf8_enc.simps)
  from accepted_key_stays_below_base [OF *, of "[js ''root'']"] show ?thesis using * by simp
qed

text \<open>
  \<^const>\<open>parseStorageListPrefix\<close> accepts the empty prefix, which lists everything, and otherwise exactly
  the paths whose check succeeds, unchanged; every accepted non-empty prefix stays below the base.
\<close>

lemma accepted_prefix_stays_below_base:
  "parseStorageListPrefix v = Inr p \<longleftrightarrow>
     v = VStr p \<and> (p = [] \<or> (utf8Bytes p \<le> 512 \<and> BACKSLASH \<notin> set p \<and> take 1 p \<noteq> [SLASH] \<and> length (split_slash p) \<le> 8 \<and>
       list_all (\<lambda>s. check_segment s = Inr ()) (split_slash p) \<and>
       resolve_path base (split_slash p) = base @ split_slash p))"
proof -
  have "resolve_path base (split_slash p) = base @ split_slash p"
    if "list_all (\<lambda>s. check_segment s = Inr ()) (split_slash p)"
    using that by (intro resolve_plain) (auto simp: list_all_iff check_segment_def split: if_splits)
  then show ?thesis
    by (auto simp: parseStorageListPrefix_def check_path_def Let_def limits ok_simps eachE_ok_iff list_all_iff
        split: jsval.splits if_splits)
qed

end
