(* ===== verification/Zod.thy ===== *)
theory Zod
  imports Text_Headings "HOL-Library.Monad_Syntax"
begin

text \<open>
  The schema combinators the contracts are declared with, in the documented behaviour of their parsers
  on ordinary data: a schema is a parser that returns the parsed value, or \<open>None\<close> where \<open>safeParse\<close>
  reports failure.
\<close>

type_synonym 'a schema = "jsval \<Rightarrow> 'a option"

text \<open>\<open>z.object({...}).strict()\<close>: an object without keys outside the shape; the field parsers read its fields.\<close>

definition z_strict :: "string list \<Rightarrow> jsval \<Rightarrow> (string \<Rightarrow> jsval) option" where
  "z_strict keys v =
     (case v of
        VObj fs \<Rightarrow> if set (map fst fs) \<subseteq> set (map js keys) then Some (\<lambda>k. getp fs (js k)) else None
      | _ \<Rightarrow> None)"

fun z_string :: "jsstring schema" where
  "z_string (VStr s) = Some s"
| "z_string _ = None"

fun z_boolean :: "bool schema" where
  "z_boolean (VBool b) = Some b"
| "z_boolean _ = None"

text \<open>\<open>.refine\<close>, \<open>.min\<close>, \<open>.max\<close>, \<open>.regex\<close>: a further condition on the parsed value.\<close>

definition z_refine :: "('a \<Rightarrow> bool) \<Rightarrow> 'a schema \<Rightarrow> 'a schema" where
  "z_refine p f v = (case f v of None \<Rightarrow> None | Some x \<Rightarrow> if p x then Some x else None)"

definition z_enum :: "(string \<times> 'a) list \<Rightarrow> 'a schema" where
  "z_enum table v =
     (case v of VStr s \<Rightarrow> map_of (map (\<lambda>(n, x). (js n, x)) table) s | _ \<Rightarrow> None)"

definition z_array :: "'a schema \<Rightarrow> 'a list schema" where
  "z_array f v = (case v of VArr xs \<Rightarrow> those (map f xs) | _ \<Rightarrow> None)"

definition z_optional :: "'a schema \<Rightarrow> 'a option schema" where
  "z_optional f v = (case v of VUndef \<Rightarrow> Some None | _ \<Rightarrow> map_option Some (f v))"

text \<open>\<open>z.int().min(lo).max(hi)\<close>: a safe integer within bounds.\<close>

definition z_int :: "int \<Rightarrow> int \<Rightarrow> int schema" where
  "z_int lo hi v =
     (case v of
        VNum x \<Rightarrow> if isSafeInteger x \<and> \<not> num_lt x lo \<and> \<not> num_gt x hi then Some (num_int x) else None
      | _ \<Rightarrow> None)"

section \<open>When a parser accepts\<close>

named_theorems z_simps \<open>when a schema accepts\<close>

lemma z_strict_Some [z_simps]:
  "z_strict keys v = Some f \<longleftrightarrow>
   (\<exists>fs. v = VObj fs \<and> fst ` set fs \<subseteq> js ` set keys \<and> f = (\<lambda>k. getp fs (js k)))"
  by (cases v) (auto simp: z_strict_def)

lemma z_string_Some [z_simps]: "z_string v = Some s \<longleftrightarrow> v = VStr s"
  by (cases v) auto

lemma z_boolean_Some [z_simps]: "z_boolean v = Some b \<longleftrightarrow> v = VBool b"
  by (cases v) auto

lemma z_refine_Some [z_simps]: "z_refine p f v = Some x \<longleftrightarrow> f v = Some x \<and> p x"
  by (auto simp: z_refine_def split: option.splits)

lemma z_enum_Some [z_simps]:
  "z_enum table v = Some x \<longleftrightarrow> (\<exists>s. v = VStr s \<and> map_of (map (\<lambda>(n, y). (js n, y)) table) s = Some x)"
  by (cases v) (auto simp: z_enum_def)

lemma those_Some: "those xs = Some ys \<longleftrightarrow> xs = map Some ys"
  by (induction xs arbitrary: ys) (auto split: option.splits simp: Cons_eq_map_conv)

lemma z_array_Some [z_simps]: "z_array f v = Some ys \<longleftrightarrow> (\<exists>xs. v = VArr xs \<and> map f xs = map Some ys)"
  by (cases v) (auto simp: z_array_def those_Some)

lemma z_int_Some [z_simps]:
  "z_int lo hi v = Some k \<longleftrightarrow> v = VNum (JInt k) \<and> \<bar>k\<bar> \<le> MAX_SAFE_INTEGER \<and> lo \<le> k \<and> k \<le> hi"
  by (cases v) (auto simp: z_int_def isSafeInteger_cases split: jsnum.splits)

lemma z_optional_Some [z_simps]:
  "z_optional f v = Some r \<longleftrightarrow> (case r of None \<Rightarrow> v = VUndef | Some x \<Rightarrow> v \<noteq> VUndef \<and> f v = Some x)"
  by (cases v) (auto simp: z_optional_def split: option.splits)

lemma js_eq [simp]: "js s = js t \<longleftrightarrow> s = t"
proof -
  have "inj (of_char :: char \<Rightarrow> cunit)"
  proof
    fix c d :: char
    assume "(of_char c :: cunit) = of_char d"
    then have "unat (of_nat (of_char c) :: cunit) = unat (of_nat (of_char d) :: cunit)"
      by (simp only: of_nat_of_char)
    moreover have "unat (of_nat (of_char x) :: cunit) = of_char x" for x :: char
      by (rule unat_cunit) (use nat_of_char_less_256 [of x] in linarith)
    ultimately show "c = d" by (metis of_char_eq_iff)
  qed
  then show ?thesis by (simp add: js_def inj_map_eq_map)
qed

end
