(* ===== verification/Authorization.thy ===== *)
theory Authorization
  imports Zod
begin

text \<open>
  \<open>packages/contracts/src/authorization.ts\<close>: the rows of the access matrix, the order of the denial
  reasons, and the refinement that every row's declared result is the derived one.
\<close>

datatype principal_kind = human | delegated_agent | service_agent | reviewer | system_worker
datatype eligibility = verified | denied
datatype auth_state = active | expired | revoked
datatype capability = memory_search | memory_read
datatype denial_reason = identity_denied | client_denied | membership_denied | capability_denied | record_unavailable
datatype expected_result = Allow | Deny denial_reason
datatype record_state = present | absent

definition PrincipalKindSchema :: "principal_kind schema" where
  "PrincipalKindSchema = z_enum [(''human'', human), (''delegated_agent'', delegated_agent),
     (''service_agent'', service_agent), (''reviewer'', reviewer), (''system_worker'', system_worker)]"

definition IdentityEligibilitySchema :: "eligibility schema" where
  "IdentityEligibilitySchema = z_enum [(''verified'', verified), (''denied'', denied)]"

definition AuthorizationStateSchema :: "auth_state schema" where
  "AuthorizationStateSchema = z_enum [(''active'', active), (''expired'', expired), (''revoked'', revoked)]"

definition CapabilitySchema :: "capability schema" where
  "CapabilitySchema = z_enum [(''memory:search'', memory_search), (''memory:read'', memory_read)]"

definition DenialReasonClassSchema :: "denial_reason schema" where
  "DenialReasonClassSchema = z_enum [(''identity_denied'', identity_denied), (''client_denied'', client_denied),
     (''membership_denied'', membership_denied), (''capability_denied'', capability_denied),
     (''record_unavailable'', record_unavailable)]"

definition RecordStateSchema :: "record_state schema" where
  "RecordStateSchema = z_enum [(''present'', present), (''absent'', absent)]"

text \<open>The discriminated union: the key \<open>decision\<close> selects the object schema.\<close>

definition ExpectedResultSchema :: "expected_result schema" where
  "ExpectedResultSchema v =
     (case v of
        VObj fs \<Rightarrow>
          if getp fs (js ''decision'') = VStr (js ''allow'')
          then map_option (\<lambda>_. Allow) (z_strict [''decision''] v)
          else if getp fs (js ''decision'') = VStr (js ''deny'')
          then do {
            f \<leftarrow> z_strict [''decision'', ''denialReason''] v;
            r \<leftarrow> DenialReasonClassSchema (f ''denialReason'');
            Some (Deny r) }
          else None
      | _ \<Rightarrow> None)"

text \<open>\<open>/^[A-Za-z0-9][A-Za-z0-9._:-]{0,127}$/\<close>\<close>

definition AuthorizationIdentifier :: "jsstring \<Rightarrow> bool" where
  "AuthorizationIdentifier s \<longleftrightarrow>
     (case s of [] \<Rightarrow> False | u # r \<Rightarrow> alnum u \<and> length r \<le> 127 \<and> list_all (\<lambda>v. alnum v \<or> v \<in> set (js ''._:-'')) r)"

definition AuthorizationIdentifierSchema :: "jsstring schema" where
  "AuthorizationIdentifierSchema = z_refine AuthorizationIdentifier z_string"

record access_row =
  principal_id :: jsstring
  principal_kind :: principal_kind
  identityEligibility :: eligibility
  client_id :: jsstring
  client_state :: auth_state
  workspace_id :: jsstring
  membershipState :: auth_state
  grantState :: auth_state
  capability :: capability
  recordState :: record_state
  expectedResult :: expected_result

definition AuthorizationAccessRowBaseSchema :: "access_row schema" where
  "AuthorizationAccessRowBaseSchema v = do {
     f \<leftarrow> z_strict [''principal'', ''client'', ''workspace'', ''grantState'', ''capability'', ''recordState'',
            ''expectedResult''] v;
     p \<leftarrow> z_strict [''id'', ''kind'', ''identityEligibility''] (f ''principal'');
     pid \<leftarrow> AuthorizationIdentifierSchema (p ''id'');
     kind \<leftarrow> PrincipalKindSchema (p ''kind'');
     eligible \<leftarrow> IdentityEligibilitySchema (p ''identityEligibility'');
     c \<leftarrow> z_strict [''id'', ''state''] (f ''client'');
     cid \<leftarrow> AuthorizationIdentifierSchema (c ''id'');
     cstate \<leftarrow> AuthorizationStateSchema (c ''state'');
     w \<leftarrow> z_strict [''id'', ''membershipState''] (f ''workspace'');
     wid \<leftarrow> AuthorizationIdentifierSchema (w ''id'');
     member \<leftarrow> AuthorizationStateSchema (w ''membershipState'');
     grant \<leftarrow> AuthorizationStateSchema (f ''grantState'');
     cap \<leftarrow> CapabilitySchema (f ''capability'');
     rec \<leftarrow> RecordStateSchema (f ''recordState'');
     res \<leftarrow> ExpectedResultSchema (f ''expectedResult'');
     Some \<lparr>principal_id = pid, principal_kind = kind, identityEligibility = eligible, client_id = cid,
       client_state = cstate, workspace_id = wid, membershipState = member, grantState = grant,
       capability = cap, recordState = rec, expectedResult = res\<rparr> }"

definition expectedDenialReason :: "access_row \<Rightarrow> denial_reason option" where
  "expectedDenialReason row =
     (if identityEligibility row \<noteq> verified then Some identity_denied
      else if client_state row \<noteq> active then Some client_denied
      else if membershipState row \<noteq> active then Some membership_denied
      else if grantState row \<noteq> active then Some capability_denied
      else if recordState row \<noteq> present then Some record_unavailable
      else None)"

definition resultIsCoherent :: "access_row \<Rightarrow> bool" where
  "resultIsCoherent row \<longleftrightarrow>
     (case expectedDenialReason row of
        Some reason \<Rightarrow> (case expectedResult row of Deny r \<Rightarrow> r = reason | Allow \<Rightarrow> False)
      | None \<Rightarrow> expectedResult row = Allow)"

definition AuthorizationAccessRowSchema :: "access_row schema" where
  "AuthorizationAccessRowSchema = z_refine resultIsCoherent AuthorizationAccessRowBaseSchema"

definition AccessMatrixSchema :: "access_row list schema" where
  "AccessMatrixSchema = z_refine (\<lambda>rows. 1 \<le> length rows) (z_array AuthorizationAccessRowSchema)"

section \<open>Properties\<close>

text \<open>The gates in the order of their precedence: the reason and whether the row passes.\<close>

definition gates :: "access_row \<Rightarrow> (denial_reason \<times> bool) list" where
  "gates row =
     [(identity_denied, identityEligibility row = verified), (client_denied, client_state row = active),
      (membership_denied, membershipState row = active), (capability_denied, grantState row = active),
      (record_unavailable, recordState row = present)]"

lemma expectedDenialReason_gates:
  "expectedDenialReason row = map_option fst (find (\<lambda>(_, pass). \<not> pass) (gates row))"
  by (simp add: expectedDenialReason_def gates_def)

lemma matrix_rows:
  "AccessMatrixSchema v = Some rows \<Longrightarrow> row \<in> set rows \<Longrightarrow> resultIsCoherent row"
proof -
  assume "AccessMatrixSchema v = Some rows" and r: "row \<in> set rows"
  then obtain xs where "map AuthorizationAccessRowSchema xs = map Some rows"
    by (auto simp: AccessMatrixSchema_def z_simps)
  then have "Some row \<in> AuthorizationAccessRowSchema ` set xs" using r by (metis image_set imageI)
  then show "resultIsCoherent row" by (auto simp: AuthorizationAccessRowSchema_def z_simps dest!: sym [of "Some row"])
qed

text \<open>
  Every row of an accepted access matrix declares the derived result: it allows exactly when all five
  gates pass, and denies with a reason exactly when that gate is the first that fails. Rows that agree
  on everything but the result are equal, so an accepted matrix cannot contradict itself.
\<close>

lemma access_matrix_coherent:
  assumes "AccessMatrixSchema v = Some rows" "row \<in> set rows"
  shows "(expectedResult row = Allow \<longleftrightarrow> list_all snd (gates row)) \<and>
    (\<forall>r. expectedResult row = Deny r \<longleftrightarrow>
       (\<exists>i < 5. gates row ! i = (r, False) \<and> (\<forall>j < i. snd (gates row ! j)))) \<and>
    (\<forall>row' \<in> set rows. \<forall>res. row' = row\<lparr>expectedResult := res\<rparr> \<longrightarrow> row' = row)"
proof -
  let ?res = "case expectedDenialReason row of None \<Rightarrow> Allow | Some r \<Rightarrow> Deny r"
  have res: "expectedResult row = ?res"
    using matrix_rows [OF assms] by (auto simp: resultIsCoherent_def split: option.splits expected_result.splits)
  have "row' = row" if "row' \<in> set rows" "row' = row\<lparr>expectedResult := r\<rparr>" for row' r
  proof -
    have "expectedDenialReason row' = expectedDenialReason row" using that(2) by (simp add: expectedDenialReason_def)
    then have "expectedResult row' = ?res"
      using matrix_rows [OF assms(1) that(1)] by (auto simp: resultIsCoherent_def split: option.splits expected_result.splits)
    then show ?thesis using that(2) res by simp
  qed
  moreover have "expectedResult row = Allow \<longleftrightarrow> list_all snd (gates row)"
    by (simp add: res expectedDenialReason_def gates_def)
  moreover have "(\<exists>i < 5. P i) \<longleftrightarrow> P 0 \<or> P 1 \<or> P 2 \<or> P 3 \<or> P (4 :: nat)" for P
    by (auto simp: numeral_eq_Suc less_Suc_eq)
  then have "expectedResult row = Deny r \<longleftrightarrow> (\<exists>i < 5. gates row ! i = (r, False) \<and> (\<forall>j < i. snd (gates row ! j)))" for r
    by (auto simp: res expectedDenialReason_def gates_def numeral_eq_Suc less_Suc_eq all_conj_distrib split: if_splits)
  ultimately show ?thesis by blast
qed

definition sample_row :: jsval where
  "sample_row = VObj
     [(js ''principal'', VObj [(js ''id'', VStr (js ''p1'')), (js ''kind'', VStr (js ''human'')), (js ''identityEligibility'', VStr (js ''verified''))]),
      (js ''client'', VObj [(js ''id'', VStr (js ''c1'')), (js ''state'', VStr (js ''revoked''))]),
      (js ''workspace'', VObj [(js ''id'', VStr (js ''w1'')), (js ''membershipState'', VStr (js ''expired''))]),
      (js ''grantState'', VStr (js ''active'')), (js ''capability'', VStr (js ''memory:read'')),
      (js ''recordState'', VStr (js ''present'')),
      (js ''expectedResult'', VObj [(js ''decision'', VStr (js ''deny'')), (js ''denialReason'', VStr (js ''client_denied''))])]"

definition sample_access :: access_row where
  "sample_access =
     \<lparr>principal_id = js ''p1'', principal_kind = human, identityEligibility = verified, client_id = js ''c1'',
      client_state = revoked, workspace_id = js ''w1'', membershipState = expired, grantState = active,
      capability = memory_read, recordState = present, expectedResult = Deny client_denied\<rparr>"

lemmas schema_defs = PrincipalKindSchema_def IdentityEligibilitySchema_def AuthorizationStateSchema_def
  CapabilitySchema_def DenialReasonClassSchema_def RecordStateSchema_def ExpectedResultSchema_def
  AuthorizationIdentifierSchema_def AuthorizationIdentifier_def

lemma sample_accepted: "AccessMatrixSchema (VArr [sample_row]) = Some [sample_access]"
  by (simp add: AccessMatrixSchema_def AuthorizationAccessRowSchema_def AuthorizationAccessRowBaseSchema_def
      sample_row_def sample_access_def schema_defs z_refine_def z_array_def z_strict_def z_enum_def getp_def
      resultIsCoherent_def expectedDenialReason_def js_def alnum_def)

lemma access_matrix_coherent_witness:
  "AccessMatrixSchema (VArr [sample_row]) = Some [sample_access] \<and>
   expectedResult sample_access = Deny client_denied \<and> \<not> list_all snd (gates sample_access)"
  using sample_accepted access_matrix_coherent [OF sample_accepted, of sample_access]
  by (simp add: sample_access_def)

end
