(* ===== verification/Credential_Policy.thy ===== *)
theory Credential_Policy
  imports Zod
begin

text \<open>
  \<open>packages/contracts/src/local-credential-protocol-policy.ts\<close>: the supported protocol version and the
  policy on an observed local credential, one error class per branch.
\<close>

definition supportedVersions :: "jsstring list" where
  "supportedVersions = [js ''2026-07-28'']"

datatype version_error = UnsupportedMcpProtocolVersionError

definition assertSupportedMcpProtocolVersion :: "jsstring \<Rightarrow> version_error + unit" where
  "assertSupportedMcpProtocolVersion version =
     (if elem_at supportedVersions 0 \<noteq> Some version then Inl UnsupportedMcpProtocolVersionError else Inr ())"

datatype credential_error =
    InvalidLocalCredentialObservationError | UnsupportedCredentialTransportError
  | CredentialSourceAbsentError | CredentialSourceUnreadableError | UnsafeCredentialSourceError
  | CredentialMalformedError | CredentialExpiredError | CredentialRevokedError
  | CredentialRefreshRequiredError

definition credential_code :: "credential_error \<Rightarrow> string" where
  "credential_code e =
     (case e of
        InvalidLocalCredentialObservationError \<Rightarrow> ''credential_observation_invalid''
      | UnsupportedCredentialTransportError \<Rightarrow> ''credential_transport_forbidden''
      | CredentialSourceAbsentError \<Rightarrow> ''credential_source_absent''
      | CredentialSourceUnreadableError \<Rightarrow> ''credential_source_unreadable''
      | UnsafeCredentialSourceError \<Rightarrow> ''credential_source_unsafe''
      | CredentialMalformedError \<Rightarrow> ''credential_malformed''
      | CredentialExpiredError \<Rightarrow> ''credential_expired''
      | CredentialRevokedError \<Rightarrow> ''credential_revoked''
      | CredentialRefreshRequiredError \<Rightarrow> ''credential_refresh_required'')"

datatype cred_transport = protected_local_file | cli_argument | query_parameter | tool_argument
datatype file_type = regular_file | symbolic_link | other
datatype token_state = valid | malformed | token_expired | token_revoked | refresh_required

record observation =
  transport :: cred_transport
  exists_flag :: bool
  fileType :: file_type
  ownerOnly :: bool
  ownedByCurrentUser :: bool
  readable :: bool
  tokenState :: token_state

definition allowedTransport :: cred_transport where "allowedTransport = protected_local_file"
definition requiredFileType :: file_type where "requiredFileType = regular_file"

definition transport_names :: "(string \<times> cred_transport) list" where
  "transport_names = [(''protected-local-file'', protected_local_file), (''cli-argument'', cli_argument),
     (''query-parameter'', query_parameter), (''tool-argument'', tool_argument)]"

definition file_type_names :: "(string \<times> file_type) list" where
  "file_type_names = [(''regular-file'', regular_file), (''symbolic-link'', symbolic_link), (''other'', other)]"

definition token_state_names :: "(string \<times> token_state) list" where
  "token_state_names = [(''valid'', valid), (''malformed'', malformed), (''expired'', token_expired),
     (''revoked'', token_revoked), (''refresh-required'', refresh_required)]"

definition localCredentialObservationSchema :: "observation schema" where
  "localCredentialObservationSchema v = do {
     f \<leftarrow> z_strict [''transport'', ''exists'', ''fileType'', ''ownerOnly'', ''ownedByCurrentUser'', ''readable'',
            ''tokenState''] v;
     t \<leftarrow> z_enum transport_names (f ''transport'');
     e \<leftarrow> z_boolean (f ''exists'');
     ft \<leftarrow> z_enum file_type_names (f ''fileType'');
     oo \<leftarrow> z_boolean (f ''ownerOnly'');
     ou \<leftarrow> z_boolean (f ''ownedByCurrentUser'');
     r \<leftarrow> z_boolean (f ''readable'');
     ts \<leftarrow> z_enum token_state_names (f ''tokenState'');
     Some \<lparr>transport = t, exists_flag = e, fileType = ft, ownerOnly = oo, ownedByCurrentUser = ou, readable = r,
       tokenState = ts\<rparr> }"

definition assertLocalCredentialPolicy :: "jsval \<Rightarrow> credential_error + unit" where
  "assertLocalCredentialPolicy v =
     (case localCredentialObservationSchema v of
        None \<Rightarrow> Inl InvalidLocalCredentialObservationError
      | Some ob \<Rightarrow>
          if transport ob \<noteq> allowedTransport then Inl UnsupportedCredentialTransportError
          else if \<not> exists_flag ob then Inl CredentialSourceAbsentError
          else if fileType ob \<noteq> requiredFileType \<or> \<not> ownerOnly ob \<or> \<not> ownedByCurrentUser ob
          then Inl UnsafeCredentialSourceError
          else if \<not> readable ob then Inl CredentialSourceUnreadableError
          else
            (case tokenState ob of
               valid \<Rightarrow> Inr ()
             | malformed \<Rightarrow> Inl CredentialMalformedError
             | token_expired \<Rightarrow> Inl CredentialExpiredError
             | token_revoked \<Rightarrow> Inl CredentialRevokedError
             | refresh_required \<Rightarrow> Inl CredentialRefreshRequiredError))"

section \<open>Properties\<close>

lemma enum_names:
  "z_enum transport_names x = Some protected_local_file \<longleftrightarrow> x = VStr (js ''protected-local-file'')"
  "z_enum file_type_names x = Some regular_file \<longleftrightarrow> x = VStr (js ''regular-file'')"
  "z_enum token_state_names x = Some valid \<longleftrightarrow> x = VStr (js ''valid'')"
  by (cases x; auto simp: z_enum_def transport_names_def file_type_names_def token_state_names_def split: if_splits)+

lemmas enum_read = enum_names [THEN iffD2, OF refl]

text \<open>
  A credential observation passes exactly when it is an object with no other field, transported by the
  protected local file, that exists, is a regular file, owner-only, owned by the current user and
  readable, and whose token state is valid. The token state has an influence on the outcome only when
  all the checks on the file passed, so no token error is reported for a file that is not protected.
\<close>

lemma credential_accepted_iff:
  "(assertLocalCredentialPolicy v = Inr () \<longleftrightarrow>
     (\<exists>fs. v = VObj fs \<and>
        fst ` set fs \<subseteq> js ` {''transport'', ''exists'', ''fileType'', ''ownerOnly'', ''ownedByCurrentUser'', ''readable'', ''tokenState''} \<and>
        getp fs (js ''transport'') = VStr (js ''protected-local-file'') \<and> getp fs (js ''exists'') = VBool True \<and>
        getp fs (js ''fileType'') = VStr (js ''regular-file'') \<and> getp fs (js ''ownerOnly'') = VBool True \<and>
        getp fs (js ''ownedByCurrentUser'') = VBool True \<and> getp fs (js ''readable'') = VBool True \<and>
        getp fs (js ''tokenState'') = VStr (js ''valid''))) \<and>
   (assertLocalCredentialPolicy v \<in> Inl ` {CredentialMalformedError, CredentialExpiredError, CredentialRevokedError, CredentialRefreshRequiredError} \<longleftrightarrow>
     (\<exists>ob. localCredentialObservationSchema v = Some ob \<and> transport ob = protected_local_file \<and> exists_flag ob \<and>
        fileType ob = regular_file \<and> ownerOnly ob \<and> ownedByCurrentUser ob \<and> readable ob \<and> tokenState ob \<noteq> valid))"
  (is "(?ok \<longleftrightarrow> ?obj) \<and> ?tok")
proof
  have ok: "?ok \<longleftrightarrow> (\<exists>ob. localCredentialObservationSchema v = Some ob \<and> transport ob = protected_local_file \<and> exists_flag ob \<and>
        fileType ob = regular_file \<and> ownerOnly ob \<and> ownedByCurrentUser ob \<and> readable ob \<and> tokenState ob = valid)"
    by (auto simp: assertLocalCredentialPolicy_def allowedTransport_def requiredFileType_def
        split: option.splits token_state.splits)
  show "?ok \<longleftrightarrow> ?obj"
    unfolding ok localCredentialObservationSchema_def bind_eq_Some_conv z_strict_Some z_boolean_Some
    by (auto simp: enum_names enum_read ex_bool_eq)
  show ?tok
    by (auto simp: assertLocalCredentialPolicy_def allowedTransport_def requiredFileType_def
        split: option.splits token_state.splits)
qed

end
