(* ===== verification/Write_Containment.thy ===== *)
theory Write_Containment
  imports Zod
begin

text \<open>
  \<open>packages/contracts/src/issue-2-authorized-write-containment.ts\<close>: a write is allowed only when every
  reader of every writable target may already read all the writer may read.
\<close>

definition identifierLength :: nat where [limits]: "identifierLength = 256"
definition closureMembers :: nat where [limits]: "closureMembers = 100"
definition writableTargetsLimit :: nat where [limits]: "writableTargetsLimit = 100"
definition readersPerTarget :: nat where [limits]: "readersPerTarget = 100"
definition unsafeFlowDiagnostics :: nat where [limits]: "unsafeFlowDiagnostics = 100"
definition missingMembersPerDiagnostic :: nat where [limits]: "missingMembersPerDiagnostic = 25"

record reader_closure =
  principalId :: jsstring
  readClosure :: "jsstring list"

record writable_target =
  targetId :: jsstring
  readers :: "reader_closure list"

record containment_input =
  writer :: reader_closure
  writableTargets :: "writable_target list"

section \<open>Schemas\<close>

definition Issue2IdentifierSchema :: "jsstring schema" where
  "Issue2IdentifierSchema =
     z_refine (\<lambda>s. 1 \<le> length s \<and> length s \<le> identifierLength \<and> trim s = s) z_string"

text \<open>\<open>new Set(xs).size !== xs.length\<close> holds exactly when \<open>xs\<close> repeats a member.\<close>

definition Issue2ReaderClosureSchema :: "reader_closure schema" where
  "Issue2ReaderClosureSchema v = do {
     f \<leftarrow> z_strict [''principalId'', ''readClosure''] v;
     p \<leftarrow> Issue2IdentifierSchema (f ''principalId'');
     c \<leftarrow> z_refine (\<lambda>xs. length xs \<le> closureMembers) (z_array Issue2IdentifierSchema) (f ''readClosure'');
     if card (set c) \<noteq> length c then None else Some \<lparr>principalId = p, readClosure = c\<rparr> }"

definition Issue2WritableTargetSchema :: "writable_target schema" where
  "Issue2WritableTargetSchema v = do {
     f \<leftarrow> z_strict [''targetId'', ''readerAudienceComplete'', ''readers''] v;
     t \<leftarrow> Issue2IdentifierSchema (f ''targetId'');
     _ \<leftarrow> z_refine (\<lambda>b. b) z_boolean (f ''readerAudienceComplete'');
     rs \<leftarrow> z_refine (\<lambda>xs. length xs \<le> readersPerTarget) (z_array Issue2ReaderClosureSchema) (f ''readers'');
     if card (set (map principalId rs)) \<noteq> length (map principalId rs) then None
     else Some \<lparr>targetId = t, readers = rs\<rparr> }"

definition Issue2AuthorizedWriteContainmentInputSchema :: "containment_input schema" where
  "Issue2AuthorizedWriteContainmentInputSchema v = do {
     f \<leftarrow> z_strict [''writer'', ''writableTargets''] v;
     w \<leftarrow> Issue2ReaderClosureSchema (f ''writer'');
     ts \<leftarrow> z_refine (\<lambda>xs. length xs \<le> writableTargetsLimit) (z_array Issue2WritableTargetSchema) (f ''writableTargets'');
     if card (set (map targetId ts)) \<noteq> length (map targetId ts) then None
     else Some \<lparr>writer = w, writableTargets = ts\<rparr> }"

section \<open>The decision\<close>

record unsafe_flow =
  flow_targetId :: jsstring
  readerPrincipalId :: jsstring
  missingFromReaderClosure :: "jsstring list"
  omittedMissingMemberCount :: nat

datatype decision = contained | unsafe_flows "unsafe_flow list" nat | invalid_input

text \<open>The innermost loop: the reported missing members and their count.\<close>

fun missing_loop :: "jsstring list \<Rightarrow> jsstring list \<Rightarrow> jsstring list \<times> nat \<Rightarrow> jsstring list \<times> nat" where
  "missing_loop readerClosure [] acc = acc"
| "missing_loop readerClosure (resource # rest) (missing, n) =
     (if resource \<notin> set readerClosure
      then missing_loop readerClosure rest
             (if length missing < missingMembersPerDiagnostic then missing @ [resource] else missing, n + 1)
      else missing_loop readerClosure rest (missing, n))"

definition reader_step ::
    "jsstring list \<Rightarrow> jsstring \<Rightarrow> reader_closure \<Rightarrow> unsafe_flow list \<times> nat \<Rightarrow> unsafe_flow list \<times> nat" where
  "reader_step writerClosure target reader acc =
     (case acc of (flows, count) \<Rightarrow>
        (case missing_loop (readClosure reader) writerClosure ([], 0) of
           (missing, n) \<Rightarrow>
             if 0 < n
             then (if length flows < unsafeFlowDiagnostics
                   then flows @ [\<lparr>flow_targetId = target, readerPrincipalId = principalId reader,
                                  missingFromReaderClosure = missing,
                                  omittedMissingMemberCount = n - length missing\<rparr>]
                   else flows, count + 1)
             else (flows, count)))"

definition target_step :: "jsstring list \<Rightarrow> writable_target \<Rightarrow> unsafe_flow list \<times> nat \<Rightarrow> unsafe_flow list \<times> nat" where
  "target_step writerClosure target acc = fold (reader_step writerClosure (targetId target)) (readers target) acc"

definition evaluateIssue2AuthorizedWriteContainment :: "jsval \<Rightarrow> decision" where
  "evaluateIssue2AuthorizedWriteContainment input =
     (case Issue2AuthorizedWriteContainmentInputSchema input of
        None \<Rightarrow> invalid_input
      | Some policy \<Rightarrow>
          (case fold (target_step (readClosure (writer policy))) (writableTargets policy) ([], 0) of
             (flows, count) \<Rightarrow> if length flows = 0 then contained else unsafe_flows flows (count - length flows)))"

section \<open>Properties\<close>

text \<open>The reference: every pair of a target and a reader whose closure misses a member, in order.\<close>

definition missing_of :: "jsstring list \<Rightarrow> reader_closure \<Rightarrow> jsstring list" where
  "missing_of w r = filter (\<lambda>x. x \<notin> set (readClosure r)) w"

definition flow_of :: "jsstring list \<Rightarrow> jsstring \<Rightarrow> reader_closure \<Rightarrow> unsafe_flow" where
  "flow_of w t r =
     \<lparr>flow_targetId = t, readerPrincipalId = principalId r, missingFromReaderClosure = take 25 (missing_of w r),
      omittedMissingMemberCount = length (missing_of w r) - 25\<rparr>"

definition reader_pairs :: "writable_target list \<Rightarrow> (jsstring \<times> reader_closure) list" where
  "reader_pairs ts = concat (map (\<lambda>t. map (Pair (targetId t)) (readers t)) ts)"

definition all_flows :: "containment_input \<Rightarrow> unsafe_flow list" where
  "all_flows p =
     map (\<lambda>(t, r). flow_of (readClosure (writer p)) t r)
       (filter (\<lambda>(t, r). missing_of (readClosure (writer p)) r \<noteq> []) (reader_pairs (writableTargets p)))"

lemma missing_loop_filter:
  "length m \<le> 25 \<Longrightarrow> missing_loop c w (m, n) =
   (m @ take (25 - length m) (filter (\<lambda>x. x \<notin> set c) w), n + length (filter (\<lambda>x. x \<notin> set c) w))"
proof (induction w arbitrary: m n)
  case (Cons x w)
  then show ?case
    by (cases "length m < 25") (auto simp: limits take_Cons' Suc_diff_Suc)
qed simp

lemma reader_step_flow:
  "reader_step w t r (fl, n) =
   (if missing_of w r = [] then (fl, n) else (if length fl < 100 then fl @ [flow_of w t r] else fl, n + 1))"
  by (auto simp: reader_step_def missing_loop_filter missing_of_def flow_of_def limits min_def)

lemma fold_pairs:
  "fold (target_step w) ts acc = fold (\<lambda>(t, r). reader_step w t r) (reader_pairs ts) acc"
proof (induction ts arbitrary: acc)
  case (Cons t ts)
  have "fold (\<lambda>(t, r). reader_step w t r) (map (Pair (targetId t)) (readers t)) acc = target_step w t acc" for acc
    by (simp add: target_step_def fold_map comp_def)
  with Cons show ?case by (simp add: reader_pairs_def)
qed (simp add: reader_pairs_def)

lemma fold_flows:
  "length fl \<le> 100 \<Longrightarrow> fold (\<lambda>(t, r). reader_step w t r) ps (fl, n) =
   (fl @ take (100 - length fl) (map (\<lambda>(t, r). flow_of w t r) (filter (\<lambda>(t, r). missing_of w r \<noteq> []) ps)),
    n + length (filter (\<lambda>(t, r). missing_of w r \<noteq> []) ps))"
proof (induction ps arbitrary: fl n)
  case (Cons p ps)
  then show ?case
    by (cases p; cases "length fl < 100") (auto simp: reader_step_flow take_Cons' Suc_diff_Suc)
qed simp

lemma evaluate_flows:
  "evaluateIssue2AuthorizedWriteContainment v =
   (case Issue2AuthorizedWriteContainmentInputSchema v of
      None \<Rightarrow> invalid_input
    | Some p \<Rightarrow> if all_flows p = [] then contained else unsafe_flows (take 100 (all_flows p)) (length (all_flows p) - 100))"
  by (auto simp: evaluateIssue2AuthorizedWriteContainment_def fold_pairs fold_flows all_flows_def min_def split: option.splits)

lemma all_flows_Nil:
  "all_flows p = [] \<longleftrightarrow>
   (\<forall>t \<in> set (writableTargets p). \<forall>r \<in> set (readers t). set (readClosure (writer p)) \<subseteq> set (readClosure r))"
  by (auto simp: all_flows_def reader_pairs_def missing_of_def filter_empty_conv)

definition sample_policy :: "string \<Rightarrow> jsval" where
  "sample_policy member = VObj
     [(js ''writer'', VObj [(js ''principalId'', VStr (js ''w'')), (js ''readClosure'', VArr [VStr (js ''a'')])]),
      (js ''writableTargets'', VArr [VObj
         [(js ''targetId'', VStr (js ''t'')), (js ''readerAudienceComplete'', VBool True),
          (js ''readers'', VArr [VObj [(js ''principalId'', VStr (js ''r'')), (js ''readClosure'', VArr [VStr (js member)])]])]])]"

definition sample_input :: "string \<Rightarrow> containment_input" where
  "sample_input member = \<lparr>writer = \<lparr>principalId = js ''w'', readClosure = [js ''a'']\<rparr>,
     writableTargets = [\<lparr>targetId = js ''t'', readers = [\<lparr>principalId = js ''r'', readClosure = [js member]\<rparr>]\<rparr>]\<rparr>"

lemma sample_parsed:
  "Issue2IdentifierSchema (VStr (js member)) = Some (js member) \<Longrightarrow>
   Issue2AuthorizedWriteContainmentInputSchema (sample_policy member) = Some (sample_input member)"
  by (simp add: Issue2AuthorizedWriteContainmentInputSchema_def Issue2WritableTargetSchema_def Issue2ReaderClosureSchema_def
      sample_policy_def sample_input_def z_refine_def z_array_def z_strict_def getp_def limits)
    (simp add: Issue2IdentifierSchema_def z_refine_def limits trim_def trimEnd_def is_space_def js_def)

lemma sample_member: "Issue2IdentifierSchema (VStr (js ''a'')) = Some (js ''a'')" "Issue2IdentifierSchema (VStr (js ''b'')) = Some (js ''b'')"
  by (simp_all add: Issue2IdentifierSchema_def z_refine_def limits trim_def trimEnd_def is_space_def js_def)

text \<open>
  C33. A write is allowed exactly when the input is valid and every reader of every writable target may
  read all the writer may read; an invalid input is never allowed.
\<close>

theorem write_allowed_iff_contained:
  "evaluateIssue2AuthorizedWriteContainment v = contained \<longleftrightarrow>
   (\<exists>p. Issue2AuthorizedWriteContainmentInputSchema v = Some p \<and>
      (\<forall>t \<in> set (writableTargets p). \<forall>r \<in> set (readers t). set (readClosure (writer p)) \<subseteq> set (readClosure r)))"
  by (auto simp: evaluate_flows all_flows_Nil [symmetric] split: option.splits)

theorem write_allowed_iff_contained_witness:
  "evaluateIssue2AuthorizedWriteContainment (sample_policy ''a'') = contained"
  using write_allowed_iff_contained [of "sample_policy ''a''"] sample_parsed [OF sample_member(1)]
  by (simp add: sample_input_def)

text \<open>
  For a valid input that is not contained the diagnostics are the first 100 violating pairs of target
  and reader in the order of the input, each with the first 25 missing members, and the two omitted
  counts are exactly what was left out.
\<close>

lemma unsafe_flow_diagnostics:
  assumes "Issue2AuthorizedWriteContainmentInputSchema v = Some p" "all_flows p \<noteq> []"
  shows "evaluateIssue2AuthorizedWriteContainment v =
      unsafe_flows (take 100 (all_flows p)) (length (all_flows p) - 100) \<and>
    (\<forall>f \<in> set (all_flows p). \<exists>t \<in> set (writableTargets p). \<exists>r \<in> set (readers t).
       flow_targetId f = targetId t \<and> readerPrincipalId f = principalId r \<and>
       set (missingFromReaderClosure f) \<subseteq> set (readClosure (writer p)) - set (readClosure r) \<and>
       0 < length (missingFromReaderClosure f) \<and> length (missingFromReaderClosure f) \<le> 25 \<and>
       length (missingFromReaderClosure f) + omittedMissingMemberCount f =
         card (set (readClosure (writer p)) - set (readClosure r)))"
proof
  show "evaluateIssue2AuthorizedWriteContainment v = unsafe_flows (take 100 (all_flows p)) (length (all_flows p) - 100)"
    using assms by (simp add: evaluate_flows)
  have "distinct (readClosure (writer p))"
    using assms(1) by (auto simp: Issue2AuthorizedWriteContainmentInputSchema_def Issue2ReaderClosureSchema_def
        bind_eq_Some_conv z_simps card_distinct split: if_splits)
  then have c: "card (set (readClosure (writer p)) - set (readClosure r)) = length (missing_of (readClosure (writer p)) r)" for r
    by (simp add: missing_of_def distinct_length_filter set_diff_eq Int_def conj_commute)
  have m: "set (take 25 (missing_of w r)) \<subseteq> set w - set (readClosure r)" for w r
    using set_take_subset [of 25 "missing_of w r"] by (auto simp: missing_of_def)
  show "\<forall>f \<in> set (all_flows p). \<exists>t \<in> set (writableTargets p). \<exists>r \<in> set (readers t).
       flow_targetId f = targetId t \<and> readerPrincipalId f = principalId r \<and>
       set (missingFromReaderClosure f) \<subseteq> set (readClosure (writer p)) - set (readClosure r) \<and>
       0 < length (missingFromReaderClosure f) \<and> length (missingFromReaderClosure f) \<le> 25 \<and>
       length (missingFromReaderClosure f) + omittedMissingMemberCount f =
         card (set (readClosure (writer p)) - set (readClosure r))"
  proof
    fix f
    assume "f \<in> set (all_flows p)"
    then obtain t r where "t \<in> set (writableTargets p)" "r \<in> set (readers t)"
      "f = flow_of (readClosure (writer p)) (targetId t) r" "missing_of (readClosure (writer p)) r \<noteq> []"
      by (auto simp: all_flows_def reader_pairs_def)
    then show "\<exists>t \<in> set (writableTargets p). \<exists>r \<in> set (readers t).
       flow_targetId f = targetId t \<and> readerPrincipalId f = principalId r \<and>
       set (missingFromReaderClosure f) \<subseteq> set (readClosure (writer p)) - set (readClosure r) \<and>
       0 < length (missingFromReaderClosure f) \<and> length (missingFromReaderClosure f) \<le> 25 \<and>
       length (missingFromReaderClosure f) + omittedMissingMemberCount f =
         card (set (readClosure (writer p)) - set (readClosure r))"
      using m c by (intro bexI [of _ t] bexI [of _ r]) (auto simp: flow_of_def min_def)
  qed
qed

lemma unsafe_flow_diagnostics_witness:
  "evaluateIssue2AuthorizedWriteContainment (sample_policy ''b'') =
   unsafe_flows [\<lparr>flow_targetId = js ''t'', readerPrincipalId = js ''r'', missingFromReaderClosure = [js ''a''],
     omittedMissingMemberCount = 0\<rparr>] 0"
proof -
  have f: "all_flows (sample_input ''b'') = [\<lparr>flow_targetId = js ''t'', readerPrincipalId = js ''r'',
      missingFromReaderClosure = [js ''a''], omittedMissingMemberCount = 0\<rparr>]"
    by (simp add: all_flows_def sample_input_def reader_pairs_def missing_of_def flow_of_def)
  show ?thesis
    using unsafe_flow_diagnostics [OF sample_parsed [OF sample_member(2)]] f by simp
qed

end
