(* ===== verification/Iso_Date.thy ===== *)
theory Iso_Date
  imports Hex
begin

text \<open>
  Dates as the source uses them: the texts \<open>z.iso.datetime({offset: true})\<close> accepts, \<open>Date.parse\<close> on such
  texts and \<open>Date.prototype.toISOString\<close>. A point of time is its number of milliseconds since 1970.
\<close>

definition dig :: "cunit \<Rightarrow> int option" where
  "dig u = (if 48 \<le> unat u \<and> unat u \<le> 57 then Some (int (unat u) - 48) else None)"

definition num_of :: "jsstring \<Rightarrow> int" where
  "num_of s = foldl (\<lambda>n u. 10 * n + (case dig u of None \<Rightarrow> 0 | Some d \<Rightarrow> d)) 0 s"

definition all_digits :: "jsstring \<Rightarrow> bool" where
  "all_digits s \<longleftrightarrow> list_all (\<lambda>u. dig u \<noteq> None) s"

definition is_leap :: "int \<Rightarrow> bool" where
  "is_leap y \<longleftrightarrow> y mod 4 = 0 \<and> (y mod 100 \<noteq> 0 \<or> y mod 400 = 0)"

definition days_in_month :: "int \<Rightarrow> int \<Rightarrow> int" where
  "days_in_month y mo =
     (if mo = 2 then if is_leap y then 29 else 28 else if mo \<in> {4, 6, 9, 11} then 30 else 31)"

text \<open>Days since 1970-01-01 of a date of the Gregorian calendar, and back.\<close>

definition day_number :: "int \<Rightarrow> int \<Rightarrow> int \<Rightarrow> int" where
  "day_number y mo d =
     (let y' = (if mo \<le> 2 then y - 1 else y); yoe = y' mod 400;
          doy = (153 * (if mo \<le> 2 then mo + 9 else mo - 3) + 2) div 5 + d - 1
      in y' div 400 * 146097 + yoe * 365 + yoe div 4 - yoe div 100 + doy - 719468)"

definition date_of_day :: "int \<Rightarrow> int \<times> int \<times> int" where
  "date_of_day n =
     (let z = n + 719468; doe = z mod 146097;
          yoe = (doe - doe div 1460 + doe div 36524 - doe div 146096) div 365;
          doy = doe - (365 * yoe + yoe div 4 - yoe div 100);
          mp = (5 * doy + 2) div 153;
          mo = (if mp < 10 then mp + 3 else mp - 9);
          y = yoe + z div 146097 * 400
      in (if mo \<le> 2 then y + 1 else y, mo, doy - (153 * mp + 2) div 5 + 1))"

record iso_fields =
  yr :: int
  mon :: int
  dy :: int
  hr :: int
  mnt :: int
  sec :: int
  milli :: int
  offset_minutes :: int

text \<open>\<open>Z\<close> or \<open>+hh:mm\<close> or \<open>-hh:mm\<close>\<close>

definition iso_zone :: "jsstring \<Rightarrow> int option" where
  "iso_zone s =
     (if s = js ''Z'' then Some 0
      else if length s = 6 \<and> s ! 0 \<in> {0x2b, 0x2d} \<and> s ! 3 = 0x3a
              \<and> all_digits (take 2 (drop 1 s)) \<and> all_digits (drop 4 s)
              \<and> num_of (take 2 (drop 1 s)) < 24 \<and> num_of (drop 4 s) < 60
      then Some ((if s ! 0 = 0x2d then -1 else 1) * (60 * num_of (take 2 (drop 1 s)) + num_of (drop 4 s)))
      else None)"

text \<open>\<open>:ss\<close>, \<open>:ss.fraction\<close> or nothing: seconds, milliseconds (the fraction is cut after three digits), rest.\<close>

definition iso_seconds :: "jsstring \<Rightarrow> (int \<times> int \<times> jsstring) option" where
  "iso_seconds s =
     (if take 1 s \<noteq> [0x3a] then Some (0, 0, s)
      else if length s < 3 \<or> \<not> all_digits (take 2 (drop 1 s)) \<or> 60 \<le> num_of (take 2 (drop 1 s)) then None
      else
        (let ss = num_of (take 2 (drop 1 s)); r = drop 3 s
         in if take 1 r \<noteq> [0x2e] then Some (ss, 0, r)
            else
              (let f = takeWhile (\<lambda>u. dig u \<noteq> None) (drop 1 r)
               in if f = [] then None
                  else Some (ss, num_of (take 3 (f @ js ''00'')), drop (1 + length f) r))))"

definition iso_fields_of :: "jsstring \<Rightarrow> iso_fields option" where
  "iso_fields_of s =
     (if length s < 16 \<or> s ! 4 \<noteq> 0x2d \<or> s ! 7 \<noteq> 0x2d \<or> s ! 10 \<noteq> 0x54 \<or> s ! 13 \<noteq> 0x3a
         \<or> \<not> all_digits (take 4 s) \<or> \<not> all_digits (take 2 (drop 5 s)) \<or> \<not> all_digits (take 2 (drop 8 s))
         \<or> \<not> all_digits (take 2 (drop 11 s)) \<or> \<not> all_digits (take 2 (drop 14 s))
      then None
      else
        (let y = num_of (take 4 s); mo = num_of (take 2 (drop 5 s)); d = num_of (take 2 (drop 8 s));
             h = num_of (take 2 (drop 11 s)); mi = num_of (take 2 (drop 14 s))
         in if mo < 1 \<or> 12 < mo \<or> d < 1 \<or> days_in_month y mo < d \<or> 24 \<le> h \<or> 60 \<le> mi then None
            else
              (case iso_seconds (drop 16 s) of
                 None \<Rightarrow> None
               | Some (ss, ms, r) \<Rightarrow>
                   (case iso_zone r of
                      None \<Rightarrow> None
                    | Some z \<Rightarrow> Some \<lparr>yr = y, mon = mo, dy = d, hr = h, mnt = mi, sec = ss, milli = ms,
                                       offset_minutes = z\<rparr>))))"

definition iso_datetime :: "jsstring \<Rightarrow> bool" where
  "iso_datetime s \<longleftrightarrow> iso_fields_of s \<noteq> None"

text \<open>\<open>Date.parse\<close>; \<open>None\<close> is \<open>NaN\<close>.\<close>

definition date_parse :: "jsstring \<Rightarrow> int option" where
  "date_parse s =
     (case iso_fields_of s of
        None \<Rightarrow> None
      | Some f \<Rightarrow>
          Some (((day_number (yr f) (mon f) (dy f) * 24 + hr f) * 60 + mnt f - offset_minutes f) * 60000
                + sec f * 1000 + milli f))"

definition padded :: "nat \<Rightarrow> int \<Rightarrow> jsstring" where
  "padded w n = (let s = to_base 10 (nat n) in replicate (w - length s) 0x30 @ s)"

definition iso_year :: "int \<Rightarrow> jsstring" where
  "iso_year y =
     (if 0 \<le> y \<and> y \<le> 9999 then padded 4 y else (if y < 0 then 0x2d else 0x2b) # padded 6 \<bar>y\<bar>)"

definition toISOString :: "int \<Rightarrow> jsstring" where
  "toISOString ms =
     (case date_of_day (ms div 86400000) of
        (y, mo, d) \<Rightarrow>
          (let t = ms mod 86400000
           in iso_year y @ [0x2d] @ padded 2 mo @ [0x2d] @ padded 2 d @ [0x54] @ padded 2 (t div 3600000) @ [0x3a]
              @ padded 2 (t div 60000 mod 60) @ [0x3a] @ padded 2 (t div 1000 mod 60) @ [0x2e] @ padded 3 (t mod 1000)
              @ [0x5a]))"

lemma to_base_step [simp]:
  "n < b \<Longrightarrow> to_base b n = [hex_digit n]"
  "2 \<le> b \<Longrightarrow> b \<le> n \<Longrightarrow> to_base b n = to_base b (n div b) @ [hex_digit (n mod b)]"
  by (subst to_base.simps, simp)+

lemma replicate_2 [simp]: "replicate 2 x = [x, x]"
  by (simp add: numeral_2_eq_2)

lemma clock_day: "date_of_day 20454 = (2026, 1, 1)"
  by code_simp

lemma clock_text: "toISOString 1767225600000 = js ''2026-01-01T00:00:00.000Z''"
  by (simp add: toISOString_def clock_day iso_year_def padded_def hex_digit_def js_def)

lemma clock_parse: "date_parse (js ''2026-01-01T00:00:00.000Z'') = Some 1767225600000"
  by (simp add: date_parse_def iso_fields_of_def iso_seconds_def iso_zone_def all_digits_def num_of_def dig_def
      day_number_def days_in_month_def is_leap_def js_def)

end
