(* ===== verification/Zod_Objects.thy ===== *)
theory Zod_Objects
  imports Inspection_Contract
begin

text \<open>
  Objects written out as a list of named fields, and what the schema combinators make of them.
\<close>

section \<open>Literals and optional strings\<close>

definition z_literal :: "string \<Rightarrow> jsstring schema" where
  "z_literal s v = (if v = VStr (js s) then Some (js s) else None)"

definition opt_str :: "jsstring option \<Rightarrow> jsval" where
  "opt_str v = (case v of None \<Rightarrow> VUndef | Some s \<Rightarrow> VStr s)"

section \<open>What the parsers return\<close>

lemma z_nat_Some [z_simps]:
  "z_nat lo hi v = Some n \<longleftrightarrow> v = VNum (JInt (int n)) \<and> int n \<le> MAX_SAFE_INTEGER \<and> lo \<le> n \<and> n \<le> hi"
proof -
  have "\<bar>k\<bar> \<le> MAX_SAFE_INTEGER \<and> int lo \<le> k \<and> k \<le> int hi \<and> n = nat k \<longleftrightarrow>
      k = int n \<and> int n \<le> MAX_SAFE_INTEGER \<and> lo \<le> n \<and> n \<le> hi" for k
    by auto
  then show ?thesis unfolding z_nat_def by (auto simp: z_int_Some)
qed

lemma getp_obj: "getp (map (\<lambda>(k, v). (js k, v)) fs) (js n) = (case map_of fs n of None \<Rightarrow> VUndef | Some v \<Rightarrow> v)"
  by (induction fs) (auto simp: getp_def)

lemma parse_num: "z_nat lo hi (num n) = (if int n \<le> MAX_SAFE_INTEGER \<and> lo \<le> n \<and> n \<le> hi then Some n else None)"
  using z_nat_Some [of lo hi "num n"] by (cases "z_nat lo hi (num n)") (auto simp: num_def)

lemma parse_strings: "z_array (z_refine P z_string) (VArr (map VStr xs)) = (if list_all P xs then Some xs else None)"
proof (cases "list_all P xs")
  case True
  then have "map (z_refine P z_string) (map VStr xs) = map Some xs" by (auto simp: z_refine_def list_all_iff)
  then have "z_array (z_refine P z_string) (VArr (map VStr xs)) = Some xs" unfolding z_array_Some by blast
  with True show ?thesis by simp
next
  case False
  have "list_all P xs" if "z_array (z_refine P z_string) (VArr (map VStr xs)) = Some ys" for ys
  proof -
    from that have "map (\<lambda>x. z_refine P z_string (VStr x)) xs = map Some ys" by (auto simp: z_array_Some o_def)
    then have "z_refine P z_string (VStr (xs ! i)) = Some (ys ! i)" if "i < length xs" for i
      using that by (metis length_map nth_map)
    then show ?thesis by (auto simp: list_all_length z_refine_Some)
  qed
  with False show ?thesis by (cases "z_array (z_refine P z_string) (VArr (map VStr xs))") auto
qed

lemma parse_opt:
  "z_optional (z_refine P z_string) (opt_str v) =
     (if (case v of None \<Rightarrow> True | Some s \<Rightarrow> P s) then Some v else None)"
  by (cases v) (auto simp: z_optional_def opt_str_def z_refine_def)

lemma z_literal_Some [z_simps]: "z_literal s v = Some t \<longleftrightarrow> v = VStr (js s) \<and> t = js s"
  by (auto simp: z_literal_def)

lemma z_strict_obj:
  "fst ` set fs \<subseteq> set keys \<Longrightarrow> z_strict keys (obj fs) = Some (\<lambda>k. case map_of fs k of None \<Rightarrow> VUndef | Some v \<Rightarrow> v)"
  by (auto simp: z_strict_def obj_def getp_obj)

lemma parse_str: "z_refine P z_string (VStr s) = (if P s then Some s else None)"
  by (simp add: z_refine_def)

end
