(* ===== verification/Inspector.thy ===== *)
theory Inspector
  imports Zod_Objects Text_Lines
begin

text \<open>
  \<open>packages/server/src/artifact-inspector.ts\<close>: the five inspection operations over two injected
  dependencies and a clock.

  An operation returns its output and the list of its effects in order: calls of the dependencies, the
  receipts and the operational events handed to the observers. Observers may throw, which the source
  catches and ignores, so they are no parameter. \<open>Inl ()\<close> is a promise that rejects. The elapsed time of
  an event, read from the wall clock, is left out. A dependency that throws is \<open>Inl ()\<close>.
\<close>

section \<open>Local helpers\<close>

definition ARTIFACT_INSPECTOR_PROFILE_VERSION :: jsstring where
  "ARTIFACT_INSPECTOR_PROFILE_VERSION = js ''artifact-inspector-s2-0.1''"
definition MAX_COVERING_FETCH_BYTES :: nat where [limits]: "MAX_COVERING_FETCH_BYTES = 16384"
definition MAX_LINE_SOURCE_SCAN_BYTES :: nat where [limits]: "MAX_LINE_SOURCE_SCAN_BYTES = 262144"
definition MAX_EXACT_SEARCH_SOURCE_BYTES :: nat where [limits]: "MAX_EXACT_SEARCH_SOURCE_BYTES = 8192"

text \<open>The scan over the code units: every surrogate is half of a pair.\<close>

fun paired_surrogates :: "jsstring \<Rightarrow> bool" where
  "paired_surrogates [] = True"
| "paired_surrogates (u # s) =
     (if high_surrogate u
      then (case s of v # r \<Rightarrow> low_surrogate v \<and> paired_surrogates r | [] \<Rightarrow> False)
      else \<not> low_surrogate u \<and> paired_surrogates s)"

definition encodeUnicodeScalarValueString :: "jsstring \<Rightarrow> byte list option" where
  "encodeUnicodeScalarValueString value =
     (if \<not> paired_surrogates value then None
      else
        (let bytes = text_encode value
         in case text_decode bytes of
              None \<Rightarrow> None
            | Some decoded \<Rightarrow> if decoded = value then Some bytes else None))"

definition SUPPORTED_LINE_MEDIA_TYPES :: "jsstring list" where
  "SUPPORTED_LINE_MEDIA_TYPES = [TEXT_PLAIN, TEXT_MARKDOWN]"

definition isSupportedLineMediaType :: "jsstring \<Rightarrow> bool" where
  "isSupportedLineMediaType mt \<longleftrightarrow> mt \<in> set SUPPORTED_LINE_MEDIA_TYPES"

fun mapArtifactTextIndexError :: "text_error \<Rightarrow> inspection_error" where
  "mapArtifactTextIndexError UNSUPPORTED_MEDIA_TYPE = AI_UNSUPPORTED"
| "mapArtifactTextIndexError TI_SOURCE_TOO_LARGE = AI_RESPONSE_LIMIT_EXCEEDED"
| "mapArtifactTextIndexError TOO_MANY_LINES = AI_RESPONSE_LIMIT_EXCEEDED"
| "mapArtifactTextIndexError TOO_MANY_HEADINGS = AI_RESPONSE_LIMIT_EXCEEDED"
| "mapArtifactTextIndexError RESPONSE_LIMIT_EXCEEDED = AI_RESPONSE_LIMIT_EXCEEDED"
| "mapArtifactTextIndexError SOURCE_MISMATCH = AI_INTEGRITY_FAILURE"
| "mapArtifactTextIndexError INCONSISTENT_INDEX = AI_INTEGRITY_FAILURE"
| "mapArtifactTextIndexError INVALID_UTF8 = AI_INTEGRITY_FAILURE"
| "mapArtifactTextIndexError INVALID_LINE_RANGE = AI_INVALID_REQUEST"
| "mapArtifactTextIndexError TI_INVALID_INPUT_TYPE = AI_INTERNAL_ERROR"
| "mapArtifactTextIndexError INVALID_HEADING_ID = AI_INTERNAL_ERROR"

definition EMPTY_BYTES_SHA256_HEX :: "hashfn \<Rightarrow> jsstring" where
  "EMPTY_BYTES_SHA256_HEX H = hex (H [])"

section \<open>Trusted context, dependencies and effects\<close>

record trusted_context =
  principalRef :: jsstring
  inspectorClientRef :: jsstring
  capabilityRef :: jsstring
  verifierAudience :: jsstring
  policyVersion :: jsstring
  inspectorDeploymentGitCoordinate :: jsstring
  requestCorrelationId :: "jsstring option"

definition ArtifactInspectorTrustedContextSchema :: "trusted_context schema" where
  "ArtifactInspectorTrustedContextSchema v = do {
     f \<leftarrow> z_strict [''principalRef'', ''inspectorClientRef'', ''inspectorCapabilityRef'', ''verifierAudience'',
            ''policyVersion'', ''inspectorDeploymentGitCoordinate'', ''requestCorrelationId''] v;
     p \<leftarrow> AuthorizationIdentifierSchema (f ''principalRef'');
     c \<leftarrow> AuthorizationIdentifierSchema (f ''inspectorClientRef'');
     g \<leftarrow> z_strict [''capability'', ''ref''] (f ''inspectorCapabilityRef'');
     _ \<leftarrow> z_enum [(''artifact:inspect'', ())] (g ''capability'');
     r \<leftarrow> AuthorizationIdentifierSchema (g ''ref'');
     a \<leftarrow> AuthorizationIdentifierSchema (f ''verifierAudience'');
     pv \<leftarrow> z_refine BoundedVersionString z_string (f ''policyVersion'');
     git \<leftarrow> z_refine GitCommitCoordinate z_string (f ''inspectorDeploymentGitCoordinate'');
     rid \<leftarrow> z_optional AuthorizationIdentifierSchema (f ''requestCorrelationId'');
     Some \<lparr>principalRef = p, inspectorClientRef = c, capabilityRef = r, verifierAudience = a, policyVersion = pv,
       inspectorDeploymentGitCoordinate = git, requestCorrelationId = rid\<rparr> }"

record artifact_record =
  a_artifactId :: jsstring
  internalLocator :: jsval
  a_objectVersionRef :: jsstring
  a_sourceSha256 :: jsstring
  a_byteLength :: nat
  a_chunkSize :: nat
  a_chunkCount :: nat
  a_chunkSha256s :: "jsstring list"
  a_merkleLeafSha256s :: "jsstring list"
  a_merkleRoot :: jsstring
  a_mediaType :: jsstring
  a_createdAt :: jsstring
  a_expiresAt :: "jsstring option"
  a_chunkHashesRef :: "jsstring option"

record dependencies =
  resolveAuthorizedArtifact :: "trusted_context \<Rightarrow> jsstring \<Rightarrow> unit + jsval"
  readVersionedRange :: "trusted_context \<Rightarrow> jsval \<Rightarrow> jsstring \<Rightarrow> nat \<Rightarrow> nat \<Rightarrow> unit + jsval"
  clock_now :: "int option"

datatype inspection_operation =
    artifact_stat | artifact_read_range | artifact_read_lines | artifact_read_heading | artifact_search_exact

record byte_counts =
  requested :: "nat option"
  covering :: "nat option"
  returned :: "nat option"

definition no_counts :: byte_counts where
  "no_counts = \<lparr>requested = None, covering = None, returned = None\<rparr>"

record inspector_event =
  e_operation :: inspection_operation
  resultClass :: "inspection_error option"
  e_correlationId :: "jsstring option"
  byteCounts :: byte_counts

datatype effect =
    E_resolve trusted_context jsstring
  | E_read trusted_context jsval jsstring nat nat
  | E_receipt inspection_receipt
  | E_event inspector_event

type_synonym run = "(unit + inspection_output) \<times> effect list"

section \<open>Records and manifests\<close>

definition AUTHORIZED_ARTIFACT_RECORD_KEYS :: "string list" where
  "AUTHORIZED_ARTIFACT_RECORD_KEYS =
     [''artifactId'', ''internalLocator'', ''objectVersionRef'', ''sourceSha256'', ''byteLength'', ''chunkSize'',
      ''chunkCount'', ''chunkSha256s'', ''merkleLeafSha256s'', ''merkleRoot'', ''mediaType'', ''createdAt'',
      ''expiresAt'', ''chunkHashesRef'']"

text \<open>The metadata schema on the fields \<open>f\<close>, with the locator \<open>loc\<close> copied beside them.\<close>

definition AuthorizedArtifactMetadataSchema :: "jsval \<Rightarrow> (string \<Rightarrow> jsval) \<Rightarrow> artifact_record option" where
  "AuthorizedArtifactMetadataSchema loc f = do {
     aid \<leftarrow> ArtifactIdSchema (f ''artifactId'');
     ov \<leftarrow> z_refine OpaqueObjectVersionRef z_string (f ''objectVersionRef'');
     src \<leftarrow> z_refine HEX64_PATTERN z_string (f ''sourceSha256'');
     len \<leftarrow> z_nat 0 (nat MAX_CALIBRATION_SOURCE_BYTES) (f ''byteLength'');
     cs \<leftarrow> z_refine (\<lambda>c. int c \<in> set ALLOWED_CHUNK_SIZES) (z_nat 0 (nat MAX_SAFE_INTEGER)) (f ''chunkSize'');
     n \<leftarrow> z_nat 0 (nat MAX_CHUNK_COUNT) (f ''chunkCount'');
     hs \<leftarrow> z_refine (\<lambda>xs. length xs \<le> nat MAX_CHUNK_COUNT) (z_array (z_refine HEX64_PATTERN z_string)) (f ''chunkSha256s'');
     ls \<leftarrow> z_refine (\<lambda>xs. length xs \<le> nat MAX_CHUNK_COUNT) (z_array (z_refine HEX64_PATTERN z_string)) (f ''merkleLeafSha256s'');
     mr \<leftarrow> z_refine HEX64_PATTERN z_string (f ''merkleRoot'');
     mt \<leftarrow> z_refine (\<lambda>s. 1 \<le> length s \<and> length s \<le> 255) z_string (f ''mediaType'');
     ca \<leftarrow> z_refine iso_datetime z_string (f ''createdAt'');
     ex \<leftarrow> z_optional (z_refine iso_datetime z_string) (f ''expiresAt'');
     ch \<leftarrow> z_optional (z_refine OpaqueChunkHashesRef z_string) (f ''chunkHashesRef'');
     if int n \<noteq> (if len = 0 then 0 else ceil_div (int len) (int cs)) \<or> length hs \<noteq> n \<or> length ls \<noteq> n then None
     else Some \<lparr>a_artifactId = aid, internalLocator = loc, a_objectVersionRef = ov, a_sourceSha256 = src,
       a_byteLength = len, a_chunkSize = cs, a_chunkCount = n, a_chunkSha256s = hs, a_merkleLeafSha256s = ls,
       a_merkleRoot = mr, a_mediaType = mt, a_createdAt = ca, a_expiresAt = ex, a_chunkHashesRef = ch\<rparr> }"

definition validateAuthorizedArtifactRecord :: "jsval \<Rightarrow> jsstring \<Rightarrow> artifact_record option" where
  "validateAuthorizedArtifactRecord rawRecord requestedArtifactId =
     (case rawRecord of
        VObj fs \<Rightarrow>
          if js ''internalLocator'' \<notin> set (map fst fs)
             \<or> \<not> set (map fst fs) \<subseteq> set (map js AUTHORIZED_ARTIFACT_RECORD_KEYS) then None
          else
            (case AuthorizedArtifactMetadataSchema (getp fs (js ''internalLocator'')) (\<lambda>k. getp fs (js k)) of
               None \<Rightarrow> None
             | Some r \<Rightarrow> if a_artifactId r \<noteq> requestedArtifactId then None else Some r)
      | _ \<Rightarrow> None)"

definition record_entry :: "artifact_record \<Rightarrow> nat \<Rightarrow> chunk_entry" where
  "record_entry r i =
     (let start = i * a_chunkSize r;
          len = (if i = a_chunkCount r - 1 then int (a_byteLength r) - int start else int (a_chunkSize r))
      in \<lparr>chunkIndex = JInt (int i), byteStart = JInt (int start), byteLength = JInt len,
          chunkSha256 = a_chunkSha256s r ! i, merkleLeafSha256 = a_merkleLeafSha256s r ! i\<rparr>)"

definition buildManifestFromRecord :: "artifact_record \<Rightarrow> chunk_error + chunk_manifest" where
  "buildManifestFromRecord r =
     (if length (a_chunkSha256s r) \<noteq> a_chunkCount r \<or> length (a_merkleLeafSha256s r) \<noteq> a_chunkCount r
      then Inl INCONSISTENT_MANIFEST
      else Inr \<lparr>profileVersion = ARTIFACT_CHUNK_MERKLE_PROFILE_VERSION, sourceSha256 = a_sourceSha256 r,
             m_byteLength = JInt (int (a_byteLength r)), chunkSize = JInt (int (a_chunkSize r)),
             chunkCount = JInt (int (a_chunkCount r)), chunks = map (record_entry r) [0..<a_chunkCount r],
             merkleRoot = a_merkleRoot r\<rparr>)"

definition validateManifestConsistency :: "hashfn \<Rightarrow> chunk_manifest \<Rightarrow> chunk_error + unit" where
  "validateManifestConsistency H manifest =
     (if num_gt (chunkCount manifest) 0
      then (case buildArtifactChunkProof H manifest (JInt 0) of Inl e \<Rightarrow> Inl e | Inr _ \<Rightarrow> Inr ())
      else if m_byteLength manifest \<noteq> JInt 0 \<or> length (chunks manifest) \<noteq> 0 then Inl INCONSISTENT_MANIFEST
      else if merkleRoot manifest \<noteq> EMPTY_ARTIFACT_MERKLE_ROOT H then Inl INCONSISTENT_MANIFEST
      else if \<not> HEX64_PATTERN (sourceSha256 manifest) then Inl MALFORMED_DIGEST
      else Inr ())"

text \<open>\<open>R_internal (Some record)\<close> is the internal error with an integrity failure of that record.\<close>

datatype resolve_outcome =
    R_unavailable | R_internal "artifact_record option" | R_ok artifact_record chunk_manifest

definition resolveArtifact ::
    "hashfn \<Rightarrow> dependencies \<Rightarrow> trusted_context \<Rightarrow> jsstring \<Rightarrow> jsstring \<Rightarrow> resolve_outcome" where
  "resolveArtifact H deps ctx artifactId nowIso =
     (case resolveAuthorizedArtifact deps ctx artifactId of
        Inl _ \<Rightarrow> R_internal None
      | Inr rawRecord \<Rightarrow>
          if rawRecord = VNull then R_unavailable
          else (case validateAuthorizedArtifactRecord rawRecord artifactId of
             None \<Rightarrow> R_internal None
           | Some r \<Rightarrow>
               if isArtifactExpired (a_expiresAt r) nowIso then R_unavailable
               else
                 (case buildManifestFromRecord r of
                    Inl _ \<Rightarrow> R_internal (Some r)
                  | Inr manifest \<Rightarrow>
                      (case validateManifestConsistency H manifest of
                         Inl _ \<Rightarrow> R_internal (Some r)
                       | Inr _ \<Rightarrow> R_ok r manifest))))"

section \<open>Covering chunks\<close>

text \<open>The bytes of chunk \<open>i\<close> in a buffer that starts at \<open>base\<close>; \<open>None\<close> where the chunk is undefined.\<close>

definition chunk_bytes :: "chunk_manifest \<Rightarrow> nat \<Rightarrow> byte list \<Rightarrow> nat \<Rightarrow> byte list option" where
  "chunk_bytes manifest base buffer i =
     (case elem_at (chunks manifest) i of
        None \<Rightarrow> None
      | Some c \<Rightarrow>
          (let start = nat (num_int (byteStart c)) - base
           in Some (subarray start (start + nat (num_int (byteLength c))) buffer)))"

text \<open>The loop over the chunk indices: \<open>Inl ()\<close> throws, \<open>Inr None\<close> is \<open>null\<close>.\<close>

fun cover_loop ::
    "hashfn \<Rightarrow> chunk_manifest \<Rightarrow> (nat \<Rightarrow> byte list option) \<Rightarrow> nat list \<Rightarrow> unit + verified_chunk list option" where
  "cover_loop H manifest bytesFor [] = Inr (Some [])"
| "cover_loop H manifest bytesFor (i # rest) =
     (case buildArtifactChunkProof H manifest (JInt (int i)) of
        Inl _ \<Rightarrow> Inr None
      | Inr p \<Rightarrow>
          (case bytesFor i of
             None \<Rightarrow> Inl ()
           | Some b \<Rightarrow>
               (case verifyArtifactChunkProof H (VBytes b) p (merkleRoot manifest) of
                  Inl _ \<Rightarrow> Inl ()
                | Inr False \<Rightarrow> Inr None
                | Inr True \<Rightarrow>
                    (case cover_loop H manifest bytesFor rest of
                       Inr (Some vs) \<Rightarrow>
                         Inr (Some (\<lparr>v_chunkIndex = nat (num_int (p_chunkIndex p)),
                                     v_byteStart = nat (num_int (p_byteStart p)),
                                     v_byteLength = nat (num_int (p_byteLength p)),
                                     v_chunkSha256 = p_chunkSha256 p,
                                     merkleProof = proof_nodes p\<rparr> # vs))
                     | other \<Rightarrow> other))))"

definition buildAndVerifyCoveringChunks ::
    "hashfn \<Rightarrow> chunk_manifest \<Rightarrow> nat \<Rightarrow> int \<Rightarrow> (nat \<Rightarrow> byte list option) \<Rightarrow> unit + verified_chunk list option" where
  "buildAndVerifyCoveringChunks H manifest startChunk endChunk bytesFor =
     cover_loop H manifest bytesFor [startChunk..<nat (endChunk + 1)]"

section \<open>Receipts and events\<close>

definition analyzerProfileIdFor :: "jsstring \<Rightarrow> jsstring" where
  "analyzerProfileIdFor mt = (if isSupportedLineMediaType mt then mt else js ''unsupported'')"

record receipt_options =
  o_context :: trusted_context
  o_record :: artifact_record
  o_artifactId :: jsstring
  o_recordedAt :: jsstring

definition buildReceiptBase ::
    "receipt_options \<Rightarrow> inspection_error option \<Rightarrow> operation_detail \<Rightarrow> inspection_receipt" where
  "buildReceiptBase opts errorClass detail =
     (let c = o_context opts; r = o_record opts
      in \<lparr>rc_schemaVersion = ARTIFACT_INSPECTION_RECEIPT_SCHEMA_VERSION, rc_verifierAudience = verifierAudience c,
          rc_principalRef = principalRef c, principalBinding = js ''session_derived'',
          rc_inspectorClientRef = inspectorClientRef c, inspectorClientBinding = js ''approved'',
          rc_capability = js ''artifact:inspect'', rc_capabilityRef = capabilityRef c,
          rc_artifactId = o_artifactId opts, rc_objectVersionRef = a_objectVersionRef r,
          rc_sourceSha256 = a_sourceSha256 r, rc_merkleRoot = a_merkleRoot r,
          analyzerProfileId = analyzerProfileIdFor (a_mediaType r),
          analyzerProfileVersion = ARTIFACT_INSPECTOR_PROFILE_VERSION, rc_policyVersion = policyVersion c,
          rc_gitCoordinate = inspectorDeploymentGitCoordinate c, recordedAt = o_recordedAt opts,
          operationDetail = detail, resultOrErrorClass = errorClass\<rparr>)"

definition emitReceiptSafely :: "inspection_receipt \<Rightarrow> bool \<times> effect list" where
  "emitReceiptSafely receipt =
     (if ArtifactInspectionReceiptSchema receipt then (True, [E_receipt receipt]) else (False, []))"

definition mk_emit ::
    "inspection_operation \<Rightarrow> trusted_context option \<Rightarrow> inspection_error option \<Rightarrow> byte_counts \<Rightarrow> effect" where
  "mk_emit operation ctx result counts =
     E_event \<lparr>e_operation = operation, resultClass = result,
       e_correlationId = (case ctx of None \<Rightarrow> None | Some c \<Rightarrow> requestCorrelationId c), byteCounts = counts\<rparr>"

definition validateRuntimeContext :: "jsval \<Rightarrow> trusted_context option" where
  "validateRuntimeContext ctx = ArtifactInspectorTrustedContextSchema ctx"

text \<open>\<open>None\<close>: the clock throws or returns no valid date.\<close>

definition readClockIso :: "dependencies \<Rightarrow> jsstring option" where
  "readClockIso deps = map_option toISOString (clock_now deps)"

definition parseReadResult :: "jsval \<Rightarrow> (byte list \<times> jsstring) option" where
  "parseReadResult v = do {
     f \<leftarrow> z_strict [''bytes'', ''objectVersionRef''] v;
     b \<leftarrow> (case f ''bytes'' of VBytes b \<Rightarrow> Some b | _ \<Rightarrow> None);
     r \<leftarrow> z_refine OpaqueObjectVersionRef z_string (f ''objectVersionRef'');
     Some (b, r) }"

section \<open>What the operations share\<close>

text \<open>
  Every operation ends by emitting one event. \<open>stop\<close> emits it without a receipt; \<open>fail_closed\<close> hands the
  receipt with the error class to the observer first.
\<close>

definition stop :: "inspection_operation \<Rightarrow> trusted_context option \<Rightarrow> byte_counts \<Rightarrow> effect list \<Rightarrow> inspection_error \<Rightarrow> run" where
  "stop operation ctx counts eff e = (Inr (O_error e), eff @ [mk_emit operation ctx (Some e) counts])"

definition fail_closed ::
    "inspection_operation \<Rightarrow> receipt_options \<Rightarrow> operation_detail \<Rightarrow> byte_counts \<Rightarrow> effect list \<Rightarrow> inspection_error \<Rightarrow> run" where
  "fail_closed operation opts detail counts eff e =
     stop operation (Some (o_context opts)) counts (eff @ snd (emitReceiptSafely (buildReceiptBase opts (Some e) detail))) e"

text \<open>The end of a successful operation: receipt, then event, then the output.\<close>

definition succeed ::
    "inspection_operation \<Rightarrow> receipt_options \<Rightarrow> operation_detail \<Rightarrow> byte_counts \<Rightarrow> byte_counts \<Rightarrow> effect list \<Rightarrow> inspection_output \<Rightarrow> run" where
  "succeed operation opts detail failCounts okCounts eff out =
     (case emitReceiptSafely (buildReceiptBase opts None detail) of
        (False, rc) \<Rightarrow> stop operation (Some (o_context opts)) failCounts (eff @ rc) AI_INTERNAL_ERROR
      | (True, rc) \<Rightarrow>
          (Inr out, eff @ rc @ [mk_emit operation (Some (o_context opts)) None okCounts]))"

text \<open>
  The beginning every operation has after its input is parsed: context, clock and resolution, each with
  its early return; \<open>body\<close> is the rest. \<open>onInternal\<close> handles an internal error of the resolution.
\<close>

definition with_artifact ::
    "hashfn \<Rightarrow> dependencies \<Rightarrow> inspection_operation \<Rightarrow> byte_counts \<Rightarrow> jsval \<Rightarrow> jsstring \<Rightarrow>
     (trusted_context \<Rightarrow> jsstring \<Rightarrow> effect list \<Rightarrow> artifact_record option \<Rightarrow> run) \<Rightarrow>
     (receipt_options \<Rightarrow> chunk_manifest \<Rightarrow> effect list \<Rightarrow> run) \<Rightarrow> run" where
  "with_artifact H deps operation counts rawContext artifactId onInternal body =
     (case validateRuntimeContext rawContext of
        None \<Rightarrow> stop operation None counts [] AI_INTERNAL_ERROR
      | Some ctx \<Rightarrow>
          (case readClockIso deps of
             None \<Rightarrow> stop operation (Some ctx) counts [] AI_INTERNAL_ERROR
           | Some nowIso \<Rightarrow>
               (let eff = [E_resolve ctx artifactId]
                in case resolveArtifact H deps ctx artifactId nowIso of
                     R_unavailable \<Rightarrow> stop operation (Some ctx) counts eff AI_RESOURCE_UNAVAILABLE
                   | R_internal r \<Rightarrow> onInternal ctx nowIso eff r
                   | R_ok r manifest \<Rightarrow>
                       body \<lparr>o_context = ctx, o_record = r, o_artifactId = artifactId, o_recordedAt = nowIso\<rparr>
                         manifest eff)))"

definition internal_stop ::
    "inspection_operation \<Rightarrow> byte_counts \<Rightarrow> trusted_context \<Rightarrow> jsstring \<Rightarrow> effect list \<Rightarrow> artifact_record option \<Rightarrow> run" where
  "internal_stop operation counts ctx nowIso eff r = stop operation (Some ctx) counts eff AI_INTERNAL_ERROR"

text \<open>
  The read every byte operation makes: the call, its failure, \<open>null\<close>, the parse of the result, and the
  check of the version and the length.
\<close>

definition with_bytes ::
    "dependencies \<Rightarrow> inspection_operation \<Rightarrow> receipt_options \<Rightarrow> operation_detail \<Rightarrow> byte_counts \<Rightarrow> effect list \<Rightarrow>
     nat \<Rightarrow> nat \<Rightarrow> (byte list \<Rightarrow> effect list \<Rightarrow> run) \<Rightarrow> run" where
  "with_bytes deps operation opts detail counts eff off len body =
     (let r = o_record opts; ctx = o_context opts;
          eff2 = eff @ [E_read ctx (internalLocator r) (a_objectVersionRef r) off len];
          failClosed = fail_closed operation opts detail counts eff2
      in case readVersionedRange deps ctx (internalLocator r) (a_objectVersionRef r) off len of
           Inl _ \<Rightarrow> failClosed AI_INTERNAL_ERROR
         | Inr rawReadResult \<Rightarrow>
             if rawReadResult = VNull then stop operation (Some ctx) counts eff2 AI_RESOURCE_UNAVAILABLE
             else (case parseReadResult rawReadResult of
                None \<Rightarrow> failClosed AI_INTERNAL_ERROR
              | Some (bytes, ver) \<Rightarrow>
                  if ver \<noteq> a_objectVersionRef r then failClosed AI_INTEGRITY_FAILURE
                  else if length bytes \<noteq> len then failClosed AI_INTEGRITY_FAILURE
                  else body bytes eff2))"

end
