(* ===== verification/Inspector_Operations.thy ===== *)
theory Inspector_Operations
  imports Inspector Text_Properties
begin

text \<open>
  The five operations of \<open>packages/server/src/artifact-inspector.ts\<close>, each from its raw input to its
  output and effects, and the facade that binds the dependencies.
\<close>

section \<open>Delivery of a candidate output\<close>

definition counts :: "nat option \<Rightarrow> nat option \<Rightarrow> nat option \<Rightarrow> byte_counts" where
  "counts q c r = \<lparr>requested = q, covering = c, returned = r\<rparr>"

text \<open>
  The candidate output is validated against its output schema; then the receipt is emitted and the operation
  succeeds. \<open>deliver\<close> first checks the length of the response on the wire.
\<close>

definition deliver_checked ::
    "hashfn \<Rightarrow> inspection_operation \<Rightarrow> receipt_options \<Rightarrow> operation_detail \<Rightarrow> operation_detail \<Rightarrow>
     byte_counts \<Rightarrow> byte_counts \<Rightarrow> byte_counts \<Rightarrow> effect list \<Rightarrow> inspection_output \<Rightarrow> run" where
  "deliver_checked H operation opts failDetail okDetail schemaCounts receiptCounts okCounts eff cand =
     (if \<not> output_schema H cand then fail_closed operation opts failDetail schemaCounts eff AI_INTERNAL_ERROR
      else succeed operation opts okDetail receiptCounts okCounts eff cand)"

definition deliver ::
    "hashfn \<Rightarrow> inspection_operation \<Rightarrow> receipt_options \<Rightarrow> operation_detail \<Rightarrow> operation_detail \<Rightarrow> byte_counts \<Rightarrow>
     byte_counts \<Rightarrow> byte_counts \<Rightarrow> byte_counts \<Rightarrow> effect list \<Rightarrow> inspection_output \<Rightarrow> run" where
  "deliver H operation opts failDetail okDetail limitCounts schemaCounts receiptCounts okCounts eff cand =
     (if MAX_ARTIFACT_RESPONSE_BYTES < artifactInspectionResponseByteLength IdNull (output_val cand)
      then fail_closed operation opts failDetail limitCounts eff AI_RESPONSE_LIMIT_EXCEEDED
      else deliver_checked H operation opts failDetail okDetail schemaCounts receiptCounts okCounts eff cand)"

definition placeholderReturnedRange :: returned_range where
  "placeholderReturnedRange = \<lparr>ret_offset = 0, ret_length = 0\<rparr>"

definition read_integrity ::
    "artifact_record \<Rightarrow> requested_range \<Rightarrow> nat \<Rightarrow> nat \<Rightarrow> returned_range \<Rightarrow> verified_chunk list \<Rightarrow> jsstring \<Rightarrow> partial_integrity" where
  "read_integrity r req startC endC ret vs sha =
     \<lparr>requestedRange = req, startChunkIndex = startC, endChunkIndex = endC, returnedRange = ret,
      pi_chunkSize = a_chunkSize r, pi_chunkCount = a_chunkCount r, verifiedChunks = vs,
      pi_merkleRoot = a_merkleRoot r, returnedByteSha256 = sha, pi_sourceSha256 = a_sourceSha256 r\<rparr>"

section \<open>artifact_stat\<close>

definition stat_body :: "hashfn \<Rightarrow> receipt_options \<Rightarrow> chunk_manifest \<Rightarrow> effect list \<Rightarrow> run" where
  "stat_body H opts manifest eff =
     (let r = o_record opts
      in case (if \<not> num_gt (chunkCount manifest) (int MAX_INLINE_CHUNK_HASHES) then Some (Inline (a_chunkSha256s r))
               else map_option Reference (a_chunkHashesRef r)) of
           None \<Rightarrow> fail_closed artifact_stat opts D_stat no_counts eff AI_INTERNAL_ERROR
         | Some hashes \<Rightarrow>
             deliver H artifact_stat opts D_stat D_stat no_counts no_counts no_counts no_counts eff
               (O_stat \<lparr>si_artifactId = o_artifactId opts, si_objectVersionRef = a_objectVersionRef r,
                  si_sourceSha256 = a_sourceSha256 r, si_byteLength = a_byteLength r, si_chunkSize = a_chunkSize r,
                  si_chunkCount = a_chunkCount r, si_chunkHashes = hashes, si_merkleRoot = a_merkleRoot r,
                  si_mediaType = a_mediaType r, analyzerProfileSupport = analyzerProfileIdFor (a_mediaType r),
                  si_createdAt = a_createdAt r, si_expiresAt = a_expiresAt r\<rparr>))"

definition artifactStat :: "hashfn \<Rightarrow> dependencies \<Rightarrow> jsval \<Rightarrow> jsval \<Rightarrow> run" where
  "artifactStat H deps rawContext rawInput =
     (case ArtifactStatInputSchema rawInput of
        None \<Rightarrow> stop artifact_stat None no_counts [] AI_INVALID_REQUEST
      | Some artifactId \<Rightarrow>
          with_artifact H deps artifact_stat no_counts rawContext artifactId (internal_stop artifact_stat no_counts)
            (stat_body H))"

section \<open>artifact_read_range\<close>

definition range_bytes_body ::
    "hashfn \<Rightarrow> receipt_options \<Rightarrow> chunk_manifest \<Rightarrow> nat \<Rightarrow> nat \<Rightarrow> nat \<Rightarrow> nat \<Rightarrow> nat \<Rightarrow> nat \<Rightarrow> byte list \<Rightarrow> effect list \<Rightarrow> run" where
  "range_bytes_body H opts manifest off len startC endC coveringOffset coveringLength coveringBuffer eff =
     (let r = o_record opts; req = \<lparr>ret_offset = off, ret_length = len\<rparr>;
          failDetail = D_range req placeholderReturnedRange (EMPTY_BYTES_SHA256_HEX H);
          failClosed = fail_closed artifact_read_range opts failDetail (counts (Some len) None None) eff
      in case buildAndVerifyCoveringChunks H manifest startC (int endC) (chunk_bytes manifest coveringOffset coveringBuffer) of
           Inl _ \<Rightarrow> (Inl (), eff)
         | Inr None \<Rightarrow> failClosed AI_INTEGRITY_FAILURE
         | Inr (Some vs) \<Rightarrow>
             if MAX_VERIFIED_CHUNKS_PER_READ < length vs then failClosed AI_RESPONSE_LIMIT_EXCEEDED
             else
               (let requestedStart = off - coveringOffset;
                    requestedBytes = subarray requestedStart (requestedStart + len) coveringBuffer
                in case text_decode requestedBytes of
                     None \<Rightarrow>
                       fail_closed artifact_read_range opts failDetail (counts (Some len) (Some coveringLength) None) eff
                         AI_UNSUPPORTED
                   | Some text \<Rightarrow>
                       (let sha = hex (H requestedBytes)
                        in deliver H artifact_read_range opts failDetail (D_range req req sha)
                             (counts (Some len) (Some coveringLength) None) (counts (Some len) None None)
                             (counts (Some len) (Some coveringLength) None)
                             (counts (Some len) (Some coveringLength) (Some len)) eff
                             (O_range text (read_integrity r (ByteRange off len) startC endC req vs sha)))))"

definition range_body ::
    "hashfn \<Rightarrow> dependencies \<Rightarrow> nat \<Rightarrow> nat \<Rightarrow> receipt_options \<Rightarrow> chunk_manifest \<Rightarrow> effect list \<Rightarrow> run" where
  "range_body H deps off len opts manifest eff =
     (let r = o_record opts;
          detail = D_range \<lparr>ret_offset = off, ret_length = len\<rparr> placeholderReturnedRange (EMPTY_BYTES_SHA256_HEX H);
          failClosed = fail_closed artifact_read_range opts detail (counts (Some len) None None) eff
      in if a_byteLength r \<le> off \<or> a_byteLength r < off + len then failClosed AI_INTEGRITY_FAILURE
         else
           (let startC = off div a_chunkSize r; endC = (off + len - 1) div a_chunkSize r;
                coveringOffset = startC * a_chunkSize r;
                coveringEnd = min ((endC + 1) * a_chunkSize r) (a_byteLength r);
                coveringLength = coveringEnd - coveringOffset
            in if MAX_COVERING_FETCH_BYTES < coveringLength then failClosed AI_RESPONSE_LIMIT_EXCEEDED
               else
                 with_bytes deps artifact_read_range opts detail (counts (Some len) None None) eff coveringOffset coveringLength
                   (range_bytes_body H opts manifest off len startC endC coveringOffset coveringLength)))"

definition artifactReadRange :: "hashfn \<Rightarrow> dependencies \<Rightarrow> jsval \<Rightarrow> jsval \<Rightarrow> run" where
  "artifactReadRange H deps rawContext rawInput =
     (case ArtifactReadRangeInputSchema rawInput of
        None \<Rightarrow> stop artifact_read_range None no_counts [] AI_INVALID_REQUEST
      | Some (artifactId, off, len) \<Rightarrow>
          with_artifact H deps artifact_read_range (counts (Some len) None None) rawContext artifactId
            (internal_stop artifact_read_range (counts (Some len) None None)) (range_body H deps off len))"

section \<open>artifact_read_lines\<close>

text \<open>The start line is past the last one: an empty result anchored at the last chunk.\<close>

definition lines_past_end ::
    "hashfn \<Rightarrow> receipt_options \<Rightarrow> chunk_manifest \<Rightarrow> nat \<Rightarrow> nat \<Rightarrow> byte list \<Rightarrow> effect list \<Rightarrow> run" where
  "lines_past_end H opts manifest startLine count bytes eff =
     (let r = o_record opts; empty = EMPTY_BYTES_SHA256_HEX H;
          failDetail = D_lines startLine count placeholderReturnedRange empty;
          failClosed = fail_closed artifact_read_lines opts failDetail no_counts eff
      in if chunkCount manifest = JInt 0 then failClosed AI_INVALID_REQUEST
         else
           (let lastChunk = nat (num_int (chunkCount manifest) - 1)
            in case buildAndVerifyCoveringChunks H manifest lastChunk (int lastChunk) (chunk_bytes manifest 0 bytes) of
                 Inl _ \<Rightarrow> (Inl (), eff)
               | Inr None \<Rightarrow> failClosed AI_INTEGRITY_FAILURE
               | Inr (Some vs) \<Rightarrow>
                   (let ret = \<lparr>ret_offset = a_byteLength r, ret_length = 0\<rparr>
                    in deliver_checked H artifact_read_lines opts failDetail (D_lines startLine count ret empty)
                         no_counts no_counts (counts None None (Some 0)) eff
                         (O_lines [] 0 (read_integrity r (LineRange startLine count) lastChunk lastChunk ret vs empty)))))"

definition lines_selected ::
    "hashfn \<Rightarrow> strfn \<Rightarrow> strfn \<Rightarrow> receipt_options \<Rightarrow> chunk_manifest \<Rightarrow> nat \<Rightarrow> nat \<Rightarrow> byte list \<Rightarrow> text_index \<Rightarrow> effect list \<Rightarrow> run" where
  "lines_selected H nfc lower opts manifest startLine count bytes idx eff =
     (let r = o_record opts;
          failDetail = D_lines startLine count placeholderReturnedRange (EMPTY_BYTES_SHA256_HEX H);
          failClosed = fail_closed artifact_read_lines opts failDetail no_counts eff;
          startIndex = startLine - 1;
          returnedLineCount = min count (nat (lineCount idx) - startIndex)
      in case readIndexedLines H nfc lower (VBytes bytes) (index_val idx) (JInt (int startLine)) (JInt (int returnedLineCount)) of
           Inl e \<Rightarrow> failClosed (mapArtifactTextIndexError e)
         | Inr rd \<Rightarrow>
             (case (elem_at (lines idx) startIndex, elem_at (lines idx) (startIndex + returnedLineCount - 1)) of
                (Some firstLine, Some lastLine) \<Rightarrow>
                  (let text = r_text rd; byteOffset = l_byteStart firstLine;
                       dataByteLength = l_byteStart lastLine + contentByteLength lastLine + newlineByteLength lastLine
                         - l_byteStart firstLine
                   in if int MAX_RANGE_BYTES < dataByteLength then failClosed AI_RESPONSE_LIMIT_EXCEEDED
                      else
                        (let startC = nat byteOffset div a_chunkSize r;
                             endC = (byteOffset + dataByteLength - 1) div int (a_chunkSize r)
                         in case buildAndVerifyCoveringChunks H manifest startC endC (chunk_bytes manifest 0 bytes) of
                              Inl _ \<Rightarrow> (Inl (), eff)
                            | Inr None \<Rightarrow> failClosed AI_INTEGRITY_FAILURE
                            | Inr (Some vs) \<Rightarrow>
                                if MAX_VERIFIED_CHUNKS_PER_READ < length vs then failClosed AI_RESPONSE_LIMIT_EXCEEDED
                                else
                                  (let sha = hex (H (text_encode text));
                                       ret = \<lparr>ret_offset = nat byteOffset, ret_length = nat dataByteLength\<rparr>;
                                       got = counts None None (Some (nat dataByteLength))
                                   in deliver H artifact_read_lines opts failDetail (D_lines startLine count ret sha)
                                        got no_counts got got eff
                                        (O_lines text returnedLineCount
                                           (read_integrity r (LineRange startLine count) startC (nat endC) ret vs sha)))))
              | _ \<Rightarrow> (Inl (), eff)))"

text \<open>The whole source is verified against the manifest before it is indexed.\<close>

definition with_verified_source ::
    "hashfn \<Rightarrow> chunk_manifest \<Rightarrow> (inspection_error \<Rightarrow> run) \<Rightarrow> byte list \<Rightarrow> effect list \<Rightarrow> run \<Rightarrow> run" where
  "with_verified_source H manifest failClosed bytes eff body =
     (case verifyArtifactSourceManifest H (VBytes bytes) manifest of
        Inl _ \<Rightarrow> (Inl (), eff)
      | Inr False \<Rightarrow> failClosed AI_INTEGRITY_FAILURE
      | Inr True \<Rightarrow> body)"

definition lines_bytes_body ::
    "hashfn \<Rightarrow> strfn \<Rightarrow> strfn \<Rightarrow> receipt_options \<Rightarrow> chunk_manifest \<Rightarrow> nat \<Rightarrow> nat \<Rightarrow> byte list \<Rightarrow> effect list \<Rightarrow> run" where
  "lines_bytes_body H nfc lower opts manifest startLine count bytes eff =
     (let failDetail = D_lines startLine count placeholderReturnedRange (EMPTY_BYTES_SHA256_HEX H);
          failClosed = fail_closed artifact_read_lines opts failDetail no_counts eff
      in with_verified_source H manifest failClosed bytes eff
           (case buildArtifactTextIndex H nfc lower (VBytes bytes) (VStr (a_mediaType (o_record opts))) of
              Inl e \<Rightarrow> failClosed (mapArtifactTextIndexError e)
            | Inr idx \<Rightarrow>
                if lineCount idx \<le> int startLine - 1
                then lines_past_end H opts manifest startLine count bytes eff
                else lines_selected H nfc lower opts manifest startLine count bytes idx eff))"

definition lines_body ::
    "hashfn \<Rightarrow> strfn \<Rightarrow> strfn \<Rightarrow> dependencies \<Rightarrow> nat \<Rightarrow> nat \<Rightarrow> receipt_options \<Rightarrow> chunk_manifest \<Rightarrow> effect list \<Rightarrow> run" where
  "lines_body H nfc lower deps startLine count opts manifest eff =
     (let r = o_record opts;
          detail = D_lines startLine count placeholderReturnedRange (EMPTY_BYTES_SHA256_HEX H);
          failClosed = fail_closed artifact_read_lines opts detail no_counts eff
      in if \<not> isSupportedLineMediaType (a_mediaType r) then failClosed AI_UNSUPPORTED
         else if MAX_LINE_SOURCE_SCAN_BYTES < a_byteLength r then failClosed AI_RESPONSE_LIMIT_EXCEEDED
         else
           with_bytes deps artifact_read_lines opts detail no_counts eff 0 (a_byteLength r)
             (lines_bytes_body H nfc lower opts manifest startLine count))"

definition artifactReadLines :: "hashfn \<Rightarrow> strfn \<Rightarrow> strfn \<Rightarrow> dependencies \<Rightarrow> jsval \<Rightarrow> jsval \<Rightarrow> run" where
  "artifactReadLines H nfc lower deps rawContext rawInput =
     (case ArtifactReadLinesInputSchema rawInput of
        None \<Rightarrow> stop artifact_read_lines None no_counts [] AI_INVALID_REQUEST
      | Some (artifactId, startLine, count) \<Rightarrow>
          with_artifact H deps artifact_read_lines no_counts rawContext artifactId
            (internal_stop artifact_read_lines no_counts) (lines_body H nfc lower deps startLine count))"

section \<open>artifact_read_heading\<close>

definition heading_selected ::
    "hashfn \<Rightarrow> receipt_options \<Rightarrow> chunk_manifest \<Rightarrow> jsstring \<Rightarrow> byte list \<Rightarrow> jsstring \<Rightarrow> text_heading \<Rightarrow> effect list \<Rightarrow> run" where
  "heading_selected H opts manifest hid bytes text h eff =
     (let r = o_record opts;
          failDetail = D_heading hid placeholderReturnedRange (EMPTY_BYTES_SHA256_HEX H);
          failClosed = fail_closed artifact_read_heading opts failDetail no_counts eff;
          ret = \<lparr>ret_offset = nat (h_byteStart h), ret_length = nat (h_byteLength h)\<rparr>
      in if MAX_RANGE_BYTES < ret_length ret then failClosed AI_RESPONSE_LIMIT_EXCEEDED
         else
           (let startC = ret_offset ret div a_chunkSize r;
                endC = (h_byteStart h + h_byteLength h - 1) div int (a_chunkSize r)
            in case buildAndVerifyCoveringChunks H manifest startC endC (chunk_bytes manifest 0 bytes) of
                 Inl _ \<Rightarrow> (Inl (), eff)
               | Inr None \<Rightarrow> failClosed AI_INTEGRITY_FAILURE
               | Inr (Some vs) \<Rightarrow>
                   if MAX_VERIFIED_CHUNKS_PER_READ < length vs then failClosed AI_RESPONSE_LIMIT_EXCEEDED
                   else
                     (let sha = hex (H (subarray (ret_offset ret) (ret_offset ret + ret_length ret) bytes))
                      in deliver H artifact_read_heading opts failDetail (D_heading hid ret sha)
                           no_counts no_counts (counts None None (Some (ret_length ret)))
                           (counts None (Some (a_byteLength r)) (Some (ret_length ret))) eff
                           (O_heading hid text (read_integrity r (HeadingRange hid) startC (nat endC) ret vs sha)))))"

definition heading_bytes_body ::
    "hashfn \<Rightarrow> strfn \<Rightarrow> strfn \<Rightarrow> receipt_options \<Rightarrow> chunk_manifest \<Rightarrow> jsstring \<Rightarrow> byte list \<Rightarrow> effect list \<Rightarrow> run" where
  "heading_bytes_body H nfc lower opts manifest hid bytes eff =
     (let failDetail = D_heading hid placeholderReturnedRange (EMPTY_BYTES_SHA256_HEX H);
          failClosed = fail_closed artifact_read_heading opts failDetail no_counts eff;
          unavailable = stop artifact_read_heading (Some (o_context opts)) no_counts eff AI_RESOURCE_UNAVAILABLE
      in with_verified_source H manifest failClosed bytes eff
           (case buildArtifactTextIndex H nfc lower (VBytes bytes) (VStr TEXT_MARKDOWN) of
              Inl e \<Rightarrow> failClosed (mapArtifactTextIndexError e)
            | Inr idx \<Rightarrow>
                (case readIndexedHeading H nfc lower (VBytes bytes) (index_val idx) (VStr hid) of
                   Inl e \<Rightarrow>
                     if e = INVALID_HEADING_ID then unavailable else failClosed (mapArtifactTextIndexError e)
                 | Inr rd \<Rightarrow>
                     (case find (\<lambda>h. headingId h = hid) (headings idx) of
                        None \<Rightarrow> unavailable
                      | Some h \<Rightarrow> heading_selected H opts manifest hid bytes (r_text rd) h eff))))"

definition heading_body ::
    "hashfn \<Rightarrow> strfn \<Rightarrow> strfn \<Rightarrow> dependencies \<Rightarrow> jsstring \<Rightarrow> receipt_options \<Rightarrow> chunk_manifest \<Rightarrow> effect list \<Rightarrow> run" where
  "heading_body H nfc lower deps hid opts manifest eff =
     (let r = o_record opts;
          detail = D_heading hid placeholderReturnedRange (EMPTY_BYTES_SHA256_HEX H);
          failClosed = fail_closed artifact_read_heading opts detail no_counts eff
      in if a_mediaType r \<noteq> TEXT_MARKDOWN then failClosed AI_UNSUPPORTED
         else if MAX_LINE_SOURCE_SCAN_BYTES < a_byteLength r then failClosed AI_RESPONSE_LIMIT_EXCEEDED
         else
           with_bytes deps artifact_read_heading opts detail no_counts eff 0 (a_byteLength r)
             (heading_bytes_body H nfc lower opts manifest hid))"

definition artifactReadHeading :: "hashfn \<Rightarrow> strfn \<Rightarrow> strfn \<Rightarrow> dependencies \<Rightarrow> jsval \<Rightarrow> jsval \<Rightarrow> run" where
  "artifactReadHeading H nfc lower deps rawContext rawInput =
     (case ArtifactReadHeadingInputSchema rawInput of
        None \<Rightarrow> stop artifact_read_heading None no_counts [] AI_INVALID_REQUEST
      | Some (artifactId, hid) \<Rightarrow>
          with_artifact H deps artifact_read_heading no_counts rawContext artifactId
            (internal_stop artifact_read_heading no_counts) (heading_body H nfc lower deps hid))"

section \<open>artifact_search_exact\<close>

text \<open>\<open>buffer.indexOf(query, from)\<close> for a query that is not empty; \<open>None\<close> is \<open>-1\<close>.\<close>

definition index_of :: "byte list \<Rightarrow> byte list \<Rightarrow> nat \<Rightarrow> nat option" where
  "index_of src q from = find (\<lambda>i. take (length q) (drop i src) = q) [from..<Suc (length src) - length q]"

text \<open>The inner loop: to the last line that starts at or before the match.\<close>

function advance_line :: "text_line list \<Rightarrow> nat \<Rightarrow> nat \<Rightarrow> nat" where
  "advance_line ls matchOffset lineIndex =
     (if lineIndex + 1 < length ls \<and> l_byteStart (ls ! (lineIndex + 1)) \<le> int matchOffset
      then advance_line ls matchOffset (lineIndex + 1) else lineIndex)"
  by pat_completeness auto
termination
  by (relation "measure (\<lambda>(ls, m, i). length ls - i)") auto

declare advance_line.simps [simp del]

text \<open>
  The outer loop, by the number of hits still wanted: the offset and the line number of every hit.
  \<open>Inl ()\<close> is the throw of \<open>definedAt\<close>.
\<close>

fun search_loop ::
    "text_line list \<Rightarrow> byte list \<Rightarrow> byte list \<Rightarrow> nat \<Rightarrow> nat \<Rightarrow> nat \<Rightarrow> unit + (nat \<times> int) list" where
  "search_loop ls src q 0 searchOffset lineIndex = Inr []"
| "search_loop ls src q (Suc wanted) searchOffset lineIndex =
     (if length src < searchOffset + length q then Inr []
      else
        (case index_of src q searchOffset of
           None \<Rightarrow> Inr []
         | Some matchOffset \<Rightarrow>
             (let li = advance_line ls matchOffset lineIndex
              in case elem_at ls li of
                   None \<Rightarrow> Inl ()
                 | Some line \<Rightarrow>
                     (case search_loop ls src q wanted (matchOffset + length q) li of
                        Inl e \<Rightarrow> Inl e
                      | Inr hits \<Rightarrow> Inr ((matchOffset, lineNumber line) # hits)))))"

definition mk_hit :: "hashfn \<Rightarrow> jsstring \<Rightarrow> byte list \<Rightarrow> nat \<times> int \<Rightarrow> search_hit" where
  "mk_hit H query queryBytes hit =
     (let range = \<lparr>ret_offset = fst hit, ret_length = length queryBytes\<rparr>
      in \<lparr>matchRange = range, snippetRange = range, snippetSha256 = hex (H queryBytes),
          hit_lineNumber = nat (snd hit), snippet = query\<rparr>)"

definition search_deliver ::
    "hashfn \<Rightarrow> receipt_options \<Rightarrow> chunk_manifest \<Rightarrow> jsstring \<Rightarrow> byte list \<Rightarrow> nat \<Rightarrow> byte list \<Rightarrow> verified_chunk list \<Rightarrow>
     (nat \<times> int) list \<Rightarrow> effect list \<Rightarrow> run" where
  "search_deliver H opts manifest query queryBytes maxHits bytes vs found eff =
     (let r = o_record opts; hits = map (mk_hit H query queryBytes) found; q = length queryBytes
      in deliver H artifact_search_exact opts (D_search q maxHits [])
           (D_search q maxHits (map (\<lambda>h. (snippetRange h, snippetSha256 h)) hits))
           no_counts no_counts (counts (Some q) (Some (a_byteLength r)) None)
           (counts (Some q) (Some (a_byteLength r)) (Some (sum_list (map (\<lambda>h. ret_length (snippetRange h)) hits)))) eff
           (O_search hits (read_integrity r (SearchRange q) 0 (nat (num_int (chunkCount manifest) - 1))
              \<lparr>ret_offset = 0, ret_length = a_byteLength r\<rparr> vs (hex (H bytes)))))"

definition search_bytes_body ::
    "hashfn \<Rightarrow> strfn \<Rightarrow> strfn \<Rightarrow> receipt_options \<Rightarrow> chunk_manifest \<Rightarrow> jsstring \<Rightarrow> byte list \<Rightarrow> nat \<Rightarrow> byte list \<Rightarrow> effect list \<Rightarrow> run" where
  "search_bytes_body H nfc lower opts manifest query queryBytes maxHits bytes eff =
     (let r = o_record opts;
          failClosed = fail_closed artifact_search_exact opts (D_search (length queryBytes) maxHits []) no_counts eff
      in with_verified_source H manifest failClosed bytes eff
           (case buildArtifactTextIndex H nfc lower (VBytes bytes) (VStr (a_mediaType r)) of
              Inl e \<Rightarrow> failClosed (mapArtifactTextIndexError e)
            | Inr idx \<Rightarrow>
                (case buildAndVerifyCoveringChunks H manifest 0 (num_int (chunkCount manifest) - 1) (chunk_bytes manifest 0 bytes) of
                   Inl _ \<Rightarrow> (Inl (), eff)
                 | Inr None \<Rightarrow> failClosed AI_INTEGRITY_FAILURE
                 | Inr (Some vs) \<Rightarrow>
                     if JInt (int (length vs)) \<noteq> chunkCount manifest then failClosed AI_INTEGRITY_FAILURE
                     else
                       (case search_loop (lines idx) bytes queryBytes maxHits 0 0 of
                          Inl _ \<Rightarrow> (Inl (), eff)
                        | Inr found \<Rightarrow>
                            search_deliver H opts manifest query queryBytes maxHits bytes vs found eff))))"

definition search_body ::
    "hashfn \<Rightarrow> strfn \<Rightarrow> strfn \<Rightarrow> dependencies \<Rightarrow> jsstring \<Rightarrow> byte list \<Rightarrow> nat \<Rightarrow> receipt_options \<Rightarrow> chunk_manifest \<Rightarrow> effect list \<Rightarrow> run" where
  "search_body H nfc lower deps query queryBytes maxHits opts manifest eff =
     (let r = o_record opts; detail = D_search (length queryBytes) maxHits [];
          failClosed = fail_closed artifact_search_exact opts detail no_counts eff
      in if \<not> isSupportedLineMediaType (a_mediaType r) then failClosed AI_UNSUPPORTED
         else if a_byteLength r = 0 then failClosed AI_RESOURCE_UNAVAILABLE
         else if MAX_EXACT_SEARCH_SOURCE_BYTES < a_byteLength r then failClosed AI_RESPONSE_LIMIT_EXCEEDED
         else if MAX_VERIFIED_CHUNKS_PER_READ < a_chunkCount r then failClosed AI_RESPONSE_LIMIT_EXCEEDED
         else
           with_bytes deps artifact_search_exact opts detail no_counts eff 0 (a_byteLength r)
             (search_bytes_body H nfc lower opts manifest query queryBytes maxHits))"

text \<open>A record that fails its integrity check is reported as such, with a receipt.\<close>

definition search_internal ::
    "jsstring \<Rightarrow> nat \<Rightarrow> nat \<Rightarrow> trusted_context \<Rightarrow> jsstring \<Rightarrow> effect list \<Rightarrow> artifact_record option \<Rightarrow> run" where
  "search_internal artifactId queryLength maxHits ctx nowIso eff failed =
     (case failed of
        Some r \<Rightarrow>
          fail_closed artifact_search_exact
            \<lparr>o_context = ctx, o_record = r, o_artifactId = artifactId, o_recordedAt = nowIso\<rparr>
            (D_search queryLength maxHits []) no_counts eff AI_INTEGRITY_FAILURE
      | None \<Rightarrow> stop artifact_search_exact (Some ctx) no_counts eff AI_INTERNAL_ERROR)"

definition artifactSearchExact :: "hashfn \<Rightarrow> strfn \<Rightarrow> strfn \<Rightarrow> dependencies \<Rightarrow> jsval \<Rightarrow> jsval \<Rightarrow> run" where
  "artifactSearchExact H nfc lower deps rawContext rawInput =
     (case ArtifactSearchExactInputSchema rawInput of
        None \<Rightarrow> stop artifact_search_exact None no_counts [] AI_INVALID_REQUEST
      | Some (artifactId, query, maxHits) \<Rightarrow>
          (case encodeUnicodeScalarValueString query of
             None \<Rightarrow> stop artifact_search_exact None no_counts [] AI_INVALID_REQUEST
           | Some queryBytes \<Rightarrow>
               if MAX_SEARCH_QUERY_LENGTH < length queryBytes
               then stop artifact_search_exact None no_counts [] AI_INVALID_REQUEST
               else
                 with_artifact H deps artifact_search_exact no_counts rawContext artifactId
                   (search_internal artifactId (length queryBytes) maxHits)
                   (search_body H nfc lower deps query queryBytes maxHits)))"

section \<open>The facade\<close>

fun inspect :: "hashfn \<Rightarrow> strfn \<Rightarrow> strfn \<Rightarrow> dependencies \<Rightarrow> inspection_operation \<Rightarrow> jsval \<Rightarrow> jsval \<Rightarrow> run" where
  "inspect H nfc lower deps artifact_stat rawContext rawInput = artifactStat H deps rawContext rawInput"
| "inspect H nfc lower deps artifact_read_range rawContext rawInput = artifactReadRange H deps rawContext rawInput"
| "inspect H nfc lower deps artifact_read_lines rawContext rawInput = artifactReadLines H nfc lower deps rawContext rawInput"
| "inspect H nfc lower deps artifact_read_heading rawContext rawInput = artifactReadHeading H nfc lower deps rawContext rawInput"
| "inspect H nfc lower deps artifact_search_exact rawContext rawInput = artifactSearchExact H nfc lower deps rawContext rawInput"

end
