(* ===== verification/Inspector_Runs.thy ===== *)
theory Inspector_Runs
  imports Inspector_Operations Chunk_Properties
begin

text \<open>
  The shape of a run of an inspection operation: which effects it has in which order, and that no
  exception escapes once the registry record has passed its validation.
\<close>

section \<open>Closing a run\<close>

fun class_of :: "inspection_output \<Rightarrow> inspection_error option" where
  "class_of (O_error c) = Some c"
| "class_of _ = None"

text \<open>
  A run that has made the calls \<open>calls\<close> closes: it returns, with at most one receipt and then exactly one
  event, both of the class of the output; a success has its receipt.
\<close>

definition closes :: "inspection_operation \<Rightarrow> effect list \<Rightarrow> run \<Rightarrow> bool" where
  "closes operation calls run \<longleftrightarrow>
     (\<exists>out rs e. run = (Inr out, calls @ map E_receipt rs @ [E_event e]) \<and> length rs \<le> 1 \<and>
        e_operation e = operation \<and> resultClass e = class_of out \<and>
        (\<forall>r \<in> set rs. ArtifactInspectionReceiptSchema r \<and> resultOrErrorClass r = class_of out) \<and>
        (class_of out = None \<longrightarrow> rs \<noteq> []))"

lemma closes_stop_receipts:
  assumes "length rs \<le> 1" "\<forall>r \<in> set rs. ArtifactInspectionReceiptSchema r \<and> resultOrErrorClass r = Some e"
  shows "closes operation calls (stop operation ctx cs (calls @ map E_receipt rs) e)"
  unfolding closes_def stop_def mk_emit_def
  by (rule exI [of _ "O_error e"], rule exI [of _ rs]) (use assms in auto)

lemma closes_stop [simp]: "closes operation calls (stop operation ctx cs calls e)"
  using closes_stop_receipts [of "[]"] by simp

lemma receipt_class [simp]: "resultOrErrorClass (buildReceiptBase opts c d) = c"
  by (simp add: buildReceiptBase_def Let_def)

lemma closes_fail [simp]: "closes operation calls (fail_closed operation opts d cs calls e)"
proof -
  let ?r = "buildReceiptBase opts (Some e) d"
  have "snd (emitReceiptSafely ?r) = map E_receipt (if ArtifactInspectionReceiptSchema ?r then [?r] else [])"
    by (simp add: emitReceiptSafely_def)
  then show ?thesis unfolding fail_closed_def by (simp only:) (rule closes_stop_receipts, auto)
qed

lemma closes_succeed:
  assumes "class_of out = None"
  shows "closes operation calls (succeed operation opts d fc oc calls out)"
proof (cases "ArtifactInspectionReceiptSchema (buildReceiptBase opts None d)")
  case True
  let ?r = "buildReceiptBase opts None d"
  have eq: "succeed operation opts d fc oc calls out =
      (Inr out, calls @ map E_receipt [?r] @ [mk_emit operation (Some (o_context opts)) None oc])"
    using True by (simp add: succeed_def emitReceiptSafely_def)
  show ?thesis
    unfolding closes_def eq
    by (rule exI [of _ out], rule exI [of _ "[?r]"]) (use True assms in \<open>auto simp: mk_emit_def\<close>)
next
  case False
  then show ?thesis by (auto simp: succeed_def emitReceiptSafely_def)
qed

lemma closes_deliver_checked [simp]:
  "class_of out = None \<Longrightarrow> closes operation calls (deliver_checked H operation opts fd okd sc rc oc calls out)"
  by (auto simp: deliver_checked_def intro: closes_succeed)

lemma closes_deliver [simp]:
  "class_of out = None \<Longrightarrow> closes operation calls (deliver H operation opts fd okd lc sc rc oc calls out)"
  by (auto simp: deliver_def)

section \<open>Resolved records\<close>

text \<open>What the metadata schema guarantees of a record.\<close>

definition record_ok :: "artifact_record \<Rightarrow> bool" where
  "record_ok r \<longleftrightarrow>
     ArtifactId (a_artifactId r) \<and> OpaqueObjectVersionRef (a_objectVersionRef r) \<and> HEX64_PATTERN (a_sourceSha256 r) \<and>
     a_byteLength r \<le> 1048576 \<and> int (a_chunkSize r) \<in> set ALLOWED_CHUNK_SIZES \<and>
     int (a_chunkCount r) = ceil_div (int (a_byteLength r)) (int (a_chunkSize r)) \<and>
     length (a_chunkSha256s r) = a_chunkCount r \<and> length (a_merkleLeafSha256s r) = a_chunkCount r \<and>
     list_all HEX64_PATTERN (a_chunkSha256s r) \<and> list_all HEX64_PATTERN (a_merkleLeafSha256s r) \<and>
     HEX64_PATTERN (a_merkleRoot r) \<and> 1 \<le> length (a_mediaType r) \<and> length (a_mediaType r) \<le> 255 \<and>
     iso_datetime (a_createdAt r) \<and> (case a_expiresAt r of None \<Rightarrow> True | Some e \<Rightarrow> iso_datetime e) \<and>
     (case a_chunkHashesRef r of None \<Rightarrow> True | Some h \<Rightarrow> OpaqueChunkHashesRef h)"

lemma parsed_all: "map (z_refine P f) xs = map Some ys \<Longrightarrow> list_all P ys"
  by (induction xs arbitrary: ys) (auto simp: Cons_eq_map_conv z_refine_Some)

lemma bind_SomeE:
  assumes "Option.bind x g = Some y"
  obtains z where "x = Some z" "g z = Some y"
  using assms by (cases x) auto

lemma opt_refined:
  "z_optional (z_refine P z_string) w = Some ex \<Longrightarrow> case ex of None \<Rightarrow> True | Some e \<Rightarrow> P e"
  by (auto simp: z_optional_Some z_refine_Some split: option.splits)

lemma metadata_ok:
  assumes "AuthorizedArtifactMetadataSchema loc f = Some r"
  shows "record_ok r"
  using assms unfolding AuthorizedArtifactMetadataSchema_def
proof (elim bind_SomeE, goal_cases)
  case (1 aid ov src len cs n hs ls mr mt ca ex ch)
  have e: "case ex of None \<Rightarrow> True | Some e \<Rightarrow> iso_datetime e" "case ch of None \<Rightarrow> True | Some e \<Rightarrow> OpaqueChunkHashesRef e"
    by (rule opt_refined, fact 1(12)) (rule opt_refined, fact 1(13))
  have h: "list_all HEX64_PATTERN hs" "list_all HEX64_PATTERN ls"
    using 1(7,8) by (auto simp: z_refine_Some z_array_Some parsed_all)
  have p: "ArtifactId aid" "OpaqueObjectVersionRef ov" "HEX64_PATTERN src" "len \<le> 1048576" "int cs \<in> set ALLOWED_CHUNK_SIZES"
    "HEX64_PATTERN mr" "1 \<le> length mt \<and> length mt \<le> 255" "iso_datetime ca"
    using 1(1-5,9-11) by (simp_all add: ArtifactIdSchema_def z_refine_Some z_nat_Some limits)
  have "int n = (if len = 0 then 0 else ceil_div (int len) (int cs)) \<and> length hs = n \<and> length ls = n"
    using 1(14) by (metis option.distinct(1))
  moreover from this 1(14) have "r = \<lparr>a_artifactId = aid, internalLocator = loc, a_objectVersionRef = ov, a_sourceSha256 = src,
       a_byteLength = len, a_chunkSize = cs, a_chunkCount = n, a_chunkSha256s = hs, a_merkleLeafSha256s = ls,
       a_merkleRoot = mr, a_mediaType = mt, a_createdAt = ca, a_expiresAt = ex, a_chunkHashesRef = ch\<rparr>" by simp
  ultimately show ?case using p h e by (simp add: record_ok_def split: if_splits)
qed

lemma validated_ok:
  assumes "validateAuthorizedArtifactRecord raw aid = Some r"
  shows "record_ok r" "a_artifactId r = aid"
  using assms metadata_ok by (auto simp: validateAuthorizedArtifactRecord_def split: jsval.splits option.splits if_splits)


text \<open>The manifest of a record, and when it is consistent.\<close>

definition record_manifest :: "artifact_record \<Rightarrow> chunk_manifest" where
  "record_manifest r =
     \<lparr>profileVersion = ARTIFACT_CHUNK_MERKLE_PROFILE_VERSION, sourceSha256 = a_sourceSha256 r,
      m_byteLength = JInt (int (a_byteLength r)), chunkSize = JInt (int (a_chunkSize r)),
      chunkCount = JInt (int (a_chunkCount r)), chunks = map (record_entry r) [0..<a_chunkCount r],
      merkleRoot = a_merkleRoot r\<rparr>"

lemma record_manifest_simps [simp]:
  "sourceSha256 (record_manifest r) = a_sourceSha256 r" "chunkSize (record_manifest r) = JInt (int (a_chunkSize r))"
  "chunkCount (record_manifest r) = JInt (int (a_chunkCount r))" "length (chunks (record_manifest r)) = a_chunkCount r"
  "merkleRoot (record_manifest r) = a_merkleRoot r" "m_byteLength (record_manifest r) = JInt (int (a_byteLength r))"
  by (simp_all add: record_manifest_def)

lemma build_record_manifest: "record_ok r \<Longrightarrow> buildManifestFromRecord r = Inr (record_manifest r)"
  by (simp add: record_ok_def buildManifestFromRecord_def record_manifest_def)

context digest
begin

lemma validate_consistent:
  assumes "record_ok r" "validateManifestConsistency H (record_manifest r) = Inr ()"
  shows "manifest_ok H (a_chunkSize r) (a_byteLength r) (record_manifest r)"
proof (cases "a_chunkCount r = 0")
  case True
  then have len: "a_byteLength r = 0"
    using assms(1) ceil_div_eq_0 [of "int (a_chunkSize r)" "int (a_byteLength r)"] by (auto simp: record_ok_def allowed_sizes)
  have "a_merkleRoot r = EMPTY_ARTIFACT_MERKLE_ROOT H"
    using assms(2) True by (auto simp: validateManifestConsistency_def split: if_splits)
  then show ?thesis
    using assms(1) True len
    by (auto simp: manifest_ok_def record_ok_def record_manifest_def EMPTY_ARTIFACT_MERKLE_ROOT_def limits)
next
  case False
  then have "is_ok (buildArtifactChunkProof H (record_manifest r) (JInt 0))"
    using assms(2) by (auto simp: validateManifestConsistency_def split: sum.splits)
  then have "assertManifestConsistent H (record_manifest r) = Inr ()"
    by (auto simp: buildArtifactChunkProof_def split: sum.splits)
  then obtain c l where "manifest_ok H c l (record_manifest r)" using assertManifestConsistent_iff by blast
  moreover from this have "c = a_chunkSize r" "l = a_byteLength r" by (auto simp: manifest_ok_def)
  ultimately show ?thesis by simp
qed

lemma consistent_validate:
  assumes "manifest_ok H (a_chunkSize r) (a_byteLength r) (record_manifest r)"
  shows "validateManifestConsistency H (record_manifest r) = Inr ()"
proof (cases "a_chunkCount r = 0")
  case True
  then show ?thesis
    using assms ceil_div_eq_0 [of "int (a_chunkSize r)" "int (a_byteLength r)"]
    by (auto simp: validateManifestConsistency_def manifest_ok_def record_manifest_def EMPTY_ARTIFACT_MERKLE_ROOT_def allowed_sizes)
next
  case False
  with build_proof_ok [OF assms, of 0] show ?thesis by (auto simp: validateManifestConsistency_def)
qed

lemma resolved_ok:
  assumes "resolveArtifact H deps ctx aid nowIso = R_ok r m"
  shows "record_ok r" "a_artifactId r = aid" "m = record_manifest r" "\<not> isArtifactExpired (a_expiresAt r) nowIso"
    "manifest_ok H (a_chunkSize r) (a_byteLength r) m"
proof -
  from assms obtain raw where v: "validateAuthorizedArtifactRecord raw aid = Some r"
    "\<not> isArtifactExpired (a_expiresAt r) nowIso" "buildManifestFromRecord r = Inr m"
    "validateManifestConsistency H m = Inr ()"
    by (auto simp: resolveArtifact_def split: sum.splits option.splits if_splits)
  note ok = validated_ok [OF v(1)]
  have m: "m = record_manifest r" using v(3) build_record_manifest [OF ok(1)] by simp
  show "record_ok r" "a_artifactId r = aid" "m = record_manifest r" "\<not> isArtifactExpired (a_expiresAt r) nowIso"
    "manifest_ok H (a_chunkSize r) (a_byteLength r) m"
    using ok m v validate_consistent [OF ok(1)] by auto
qed

end

section \<open>Covering chunks\<close>

definition verified_of :: "hashfn \<Rightarrow> chunk_manifest \<Rightarrow> nat \<Rightarrow> verified_chunk" where
  "verified_of H m i =
     \<lparr>v_chunkIndex = i, v_byteStart = nat (num_int (byteStart (chunks m ! i))),
      v_byteLength = nat (num_int (byteLength (chunks m ! i))), v_chunkSha256 = chunkSha256 (chunks m ! i),
      merkleProof = (case buildArtifactChunkProof H m (JInt (int i)) of Inl _ \<Rightarrow> [] | Inr p \<Rightarrow> proof_nodes p)\<rparr>"

definition bytes_match :: "hashfn \<Rightarrow> chunk_entry \<Rightarrow> byte list \<Rightarrow> bool" where
  "bytes_match H e b \<longleftrightarrow>
     byteLength e = JInt (int (length b)) \<and> chunkSha256 e = hex (H b) \<and> merkleLeafSha256 e = hex (merkleLeafDigest H b)"

context digest
begin

lemma cover_step:
  assumes ok: "manifest_ok H csize len m" and i: "i < length (chunks m)"
  shows "\<exists>p. buildArtifactChunkProof H m (JInt (int i)) = Inr p \<and>
    verifyArtifactChunkProof H (VBytes b) p (merkleRoot m) = Inr (bytes_match H (chunks m ! i) b) \<and>
    verified_of H m i = \<lparr>v_chunkIndex = nat (num_int (p_chunkIndex p)), v_byteStart = nat (num_int (p_byteStart p)),
      v_byteLength = nat (num_int (p_byteLength p)), v_chunkSha256 = p_chunkSha256 p, merkleProof = proof_nodes p\<rparr>"
proof -
  from build_proof_ok [OF ok i] obtain nodes where nodes:
    "buildArtifactChunkProof H m (JInt (int i)) = Inr (proof_of m i nodes)"
    "length nodes = ceillog2 (length (chunks m))" "eachE check_proof_node nodes = Inr ()"
    "walk_proof H (leaf_digests m ! i) i (length (chunks m)) nodes = Some (unhex (merkleRoot m), 1)" by blast
  let ?p = "proof_of m i nodes" and ?e = "chunks m ! i"
  have e: "chunkIndex ?e = JInt (int i)" "HEX64_PATTERN (merkleRoot m)" "chunkCount m = JInt (int (length (chunks m)))"
    using ok i by (auto simp: manifest_ok_def entry_ok_def Let_def)
  note shape = shape_ok_imp [OF proof_of_shape [OF ok i nodes(2,3)]]
  have leaf: "merkleLeafSha256 ?e = hex (merkleLeafDigest H b) \<Longrightarrow> leaf_digests m ! i = merkleLeafDigest H b"
    using i by (simp add: leaf_digests_def)
  have "verifyArtifactChunkProof H (VBytes b) ?p (merkleRoot m) = Inr (bytes_match H ?e b)"
    using shape e leaf nodes(4)
    by (auto simp: verifyArtifactChunkProof_def proof_of_def Let_def bytes_match_def rawDigest_def)
  then show ?thesis
    using nodes(1) e by (intro exI [of _ ?p]) (simp add: verified_of_def proof_of_def Let_def)
qed

lemma cover_loop_eq:
  assumes "manifest_ok H csize len m" "\<forall>i \<in> set is. i < length (chunks m) \<and> bytesFor i = Some (bf i)"
  shows "cover_loop H m bytesFor is =
    Inr (if \<forall>i \<in> set is. bytes_match H (chunks m ! i) (bf i) then Some (map (verified_of H m) is) else None)"
  using assms(2)
proof (induction "is")
  case (Cons i "is")
  then have "i < length (chunks m)" "bytesFor i = Some (bf i)" by auto
  with cover_step [OF assms(1), of i "bf i"] obtain p where
    "buildArtifactChunkProof H m (JInt (int i)) = Inr p"
    "verifyArtifactChunkProof H (VBytes (bf i)) p (merkleRoot m) = Inr (bytes_match H (chunks m ! i) (bf i))"
    "verified_of H m i = \<lparr>v_chunkIndex = nat (num_int (p_chunkIndex p)), v_byteStart = nat (num_int (p_byteStart p)),
      v_byteLength = nat (num_int (p_byteLength p)), v_chunkSha256 = p_chunkSha256 p, merkleProof = proof_nodes p\<rparr>" by blast
  with Cons \<open>bytesFor i = _\<close> show ?case
    by (cases "bytes_match H (chunks m ! i) (bf i)") auto
qed simp

end

context digest
begin

lemma cover_eq:
  assumes "manifest_ok H csize len m" "hi < int (length (chunks m))"
  shows "buildAndVerifyCoveringChunks H m lo hi (chunk_bytes m base buf) =
    Inr (if \<forall>i \<in> {lo..<nat (hi + 1)}. bytes_match H (chunks m ! i) (the (chunk_bytes m base buf i))
         then Some (map (verified_of H m) [lo..<nat (hi + 1)]) else None)"
proof -
  have "\<forall>i \<in> set [lo..<nat (hi + 1)]. i < length (chunks m) \<and>
      chunk_bytes m base buf i = Some (the (chunk_bytes m base buf i))"
    using assms(2) by (auto simp: chunk_bytes_def elem_at_def Let_def)
  from cover_loop_eq [OF assms(1) this] show ?thesis by (simp add: buildAndVerifyCoveringChunks_def)
qed

lemma chunk_index_bound:
  assumes "manifest_ok H csize len m" "x \<le> int len"
  shows "(x - 1) div int csize < int (length (chunks m))"
proof -
  have c: "0 < int csize" "ceil_div (int len) (int csize) = int (length (chunks m))"
    using assms(1) by (auto simp: manifest_ok_def allowed_sizes)
  then have "x - 1 < int (length (chunks m)) * int csize"
    using ceil_div_bounds(1) [of "int csize" "int len"] assms(2) by (simp add: mult.commute)
  moreover have "(x - 1) div int csize * int csize \<le> x - 1"
    using c(1) pos_mod_sign [of "int csize" "x - 1"] div_mult_mod_eq [of "x - 1" "int csize"] by linarith
  ultimately have "(x - 1) div int csize * int csize < int (length (chunks m)) * int csize" by linarith
  then show ?thesis using c(1) by simp
qed

lemma verify_source_total:
  assumes "manifest_ok H csize len m"
  shows "\<exists>b. verifyArtifactSourceManifest H (VBytes bytes) m = Inr b"
proof -
  have "assertManifestConsistent H m = Inr ()" using assms assertManifestConsistent_iff by blast
  then show ?thesis by (auto simp: verifyArtifactSourceManifest_def split: option.splits)
qed

lemma closes_verified:
  assumes "manifest_ok H csize len m" "\<And>e. closes operation calls (failClosed e)"
    "verifyArtifactSourceManifest H (VBytes bytes) m = Inr True \<Longrightarrow> closes operation calls body"
  shows "closes operation calls (with_verified_source H m failClosed bytes calls body)"
  using verify_source_total [OF assms(1), of bytes] assms(2,3)
  by (auto simp: with_verified_source_def split: bool.splits)

end

lemma closes_read:
  assumes "\<And>bytes calls. length bytes = len \<Longrightarrow> closes operation calls (body bytes calls)"
  shows "\<exists>l v. closes operation (eff @ [E_read (o_context opts) l v off len]) (with_bytes deps operation opts d cs eff off len body)"
  using assms
  by (intro exI [of _ "internalLocator (o_record opts)"] exI [of _ "a_objectVersionRef (o_record opts)"])
    (auto simp: with_bytes_def Let_def split: sum.split option.split)

section \<open>The search loop\<close>

lemma advance_line_less: "i < length ls \<Longrightarrow> advance_line ls m i < length ls"
proof (induction ls m i rule: advance_line.induct)
  case (1 ls m i)
  then show ?case by (subst advance_line.simps) auto
qed

lemma search_total: "ls \<noteq> [] \<or> src = [] \<Longrightarrow> 0 < length q \<Longrightarrow> i < length ls \<or> ls = [] \<Longrightarrow> \<exists>hits. search_loop ls src q n off i = Inr hits"
proof (induction n arbitrary: off i)
  case (Suc n)
  show ?case
  proof (cases "index_of src q off")
    case (Some k)
    then have "src \<noteq> []" using Suc.prems by (auto simp: index_of_def find_Some_iff)
    then have "advance_line ls k i < length ls" using Suc.prems by (auto intro: advance_line_less)
    with Suc.IH [of "advance_line ls k i" "k + length q"] Suc.prems Some show ?thesis
      by (auto simp: Let_def elem_at_def)
  qed auto
qed simp

lemma lines_nonempty: "lines_ok b ls (length b) \<Longrightarrow> ls \<noteq> [] \<or> b = []"
  by (auto simp: lines_ok_def)

section \<open>The bodies\<close>

lemma closes_stat: "closes artifact_stat calls (stat_body H opts m calls)"
  by (auto simp: stat_body_def Let_def split: option.splits)

context digest
begin

lemma closes_range_bytes:
  assumes "manifest_ok H csize len m" "int endC < int (length (chunks m))"
  shows "closes artifact_read_range calls (range_bytes_body H opts m off l startC endC co cl buf calls)"
  using cover_eq [OF assms, of startC co buf]
  by (auto simp: range_bytes_body_def Let_def split: option.splits)

lemma closes_past_end:
  assumes "manifest_ok H csize len m"
  shows "closes artifact_read_lines calls (lines_past_end H opts m sl c bytes calls)"
proof -
  have "chunkCount m = JInt (int (length (chunks m)))" using assms by (simp add: manifest_ok_def)
  moreover have "0 < length (chunks m) \<Longrightarrow> int (length (chunks m)) - 1 < int (length (chunks m))" by simp
  ultimately show ?thesis
    using cover_eq [OF assms, of "int (nat (int (length (chunks m)) - 1))" "nat (int (length (chunks m)) - 1)" 0 bytes]
    by (auto simp: lines_past_end_def Let_def split: option.splits)
qed

lemma closes_lines_selected:
  assumes ok: "manifest_ok H (a_chunkSize (o_record opts)) (length bytes) m"
    and idx: "buildArtifactTextIndex H nfc lower (VBytes bytes) (VStr mt) = Inr idx"
    and sl: "1 \<le> sl" "int sl - 1 < lineCount idx" "1 \<le> c"
  shows "closes artifact_read_lines calls (lines_selected H nfc lower opts m sl c bytes idx calls)"
proof -
  note f = build_ok [OF idx] and st = build_structure [OF idx]
  let ?i = "sl - 1" and ?n = "min c (nat (lineCount idx) - (sl - 1))"
  have i: "?i < length (lines idx)" "?i + ?n - 1 < length (lines idx)" "1 \<le> ?n" using sl f(10) by auto
  let ?l = "lines idx ! (?i + ?n - 1)" and ?f = "lines idx ! ?i"
  have el: "elem_at (lines idx) ?i = Some ?f" "elem_at (lines idx) (?i + ?n - 1) = Some ?l"
    using i by (simp_all add: elem_at_def)
  have "line_ok bytes ?l" using st(1) i(2) by (simp add: lines_ok_def)
  then have b: "l_byteStart ?f + (l_byteStart ?l + contentByteLength ?l + newlineByteLength ?l - l_byteStart ?f) \<le> int (length bytes)"
    using line_within [of bytes ?l] by linarith
  note cov = cover_eq [OF ok chunk_index_bound [OF ok b]]
  show ?thesis
  proof (cases "readIndexedLines H nfc lower (VBytes bytes) (index_val idx) (JInt (int sl)) (JInt (int ?n))")
    case (Inl e)
    then show ?thesis by (simp only: lines_selected_def Let_def sum.case closes_fail)
  next
    case (Inr rd)
    show ?thesis
      unfolding lines_selected_def Let_def Inr sum.case el prod.case option.case cov
      by (simp only: if_split option.split sum.case closes_fail closes_deliver class_of.simps option.case simp_thms)
  qed
qed

lemma closes_heading_selected:
  assumes ok: "manifest_ok H (a_chunkSize (o_record opts)) (length bytes) m"
    and idx: "buildArtifactTextIndex H nfc lower (VBytes bytes) (VStr mt) = Inr idx" "h \<in> set (headings idx)"
  shows "closes artifact_read_heading calls (heading_selected H opts m hid bytes text h calls)"
proof -
  note st = build_structure [OF idx(1)]
  from st(2) idx(2) obtain l where l: "l \<in> set (lines idx)" "h_byteStart h = l_byteStart l" "h_byteLength h = contentByteLength l"
    by (auto simp: headings_ok_def heading_ok_def)
  then have "line_ok bytes l" using st(1) by (simp add: lines_ok_def)
  then have b: "h_byteStart h + h_byteLength h \<le> int (length bytes)" using l line_within(7) by simp
  note cov = cover_eq [OF ok chunk_index_bound [OF ok b]]
  show ?thesis unfolding heading_selected_def Let_def cov by simp
qed

lemma closes_search_bytes:
  assumes ok: "manifest_ok H csize (length bytes) m" and q: "0 < length qb"
  shows "closes artifact_search_exact calls (search_bytes_body H nfc lower opts m query qb mh bytes calls)"
proof -
  have n: "num_int (chunkCount m) - 1 < int (length (chunks m))" using ok by (simp add: manifest_ok_def)
  note cov = cover_eq [OF ok n]
  have loop: "\<exists>hits. search_loop (lines idx) bytes qb mh 0 0 = Inr hits"
    if "buildArtifactTextIndex H nfc lower (VBytes bytes) (VStr mt) = Inr idx" for idx mt
    using lines_nonempty [OF build_structure(1) [OF that]] q by (intro search_total) auto
  show ?thesis
    unfolding search_bytes_body_def Let_def cov
    by (rule closes_verified [OF ok]) (auto simp: search_deliver_def Let_def split: sum.split dest: loop)
qed

end

end
