(* ===== verification/Inspector_Total.thy ===== *)
theory Inspector_Total
  imports Inspector_Runs
begin

text \<open>
  Every inspection operation returns and closes its run, whatever the dependencies answer.
\<close>

section \<open>Runs of the five operations\<close>

text \<open>The calls an operation may have made before it closes.\<close>

definition calls_ok :: "effect list \<Rightarrow> bool" where
  "calls_ok calls \<longleftrightarrow>
     calls = [] \<or> (\<exists>c a. calls = [E_resolve c a]) \<or>
     (\<exists>c a l v off len. calls = [E_resolve c a, E_read c l v off len])"

definition well_run :: "inspection_operation \<Rightarrow> run \<Rightarrow> bool" where
  "well_run operation run \<longleftrightarrow> (\<exists>calls. calls_ok calls \<and> closes operation calls run)"

lemma well_runI: "closes operation calls run \<Longrightarrow> calls_ok calls \<Longrightarrow> well_run operation run"
  by (auto simp: well_run_def)

lemma calls_ok_simps [simp]: "calls_ok []" "calls_ok [E_resolve c a]" "calls_ok [E_resolve c a, E_read c l v off len]"
  by (auto simp: calls_ok_def)

lemma well_stop [simp]: "calls_ok calls \<Longrightarrow> well_run operation (stop operation ctx cs calls e)"
  by (rule well_runI [OF closes_stop])

lemma well_fail [simp]: "calls_ok calls \<Longrightarrow> well_run operation (fail_closed operation opts d cs calls e)"
  by (rule well_runI [OF closes_fail])

lemma well_read:
  assumes "\<And>bytes calls. length bytes = len \<Longrightarrow> closes operation calls (body bytes calls)"
  shows "well_run operation (with_bytes deps operation opts d cs [E_resolve (o_context opts) a] off len body)"
proof -
  obtain l v where "closes operation ([E_resolve (o_context opts) a] @ [E_read (o_context opts) l v off len])
      (with_bytes deps operation opts d cs [E_resolve (o_context opts) a] off len body)"
    using closes_read [where body = body and operation = operation and len = len, OF assms] by blast
  then show ?thesis by (rule well_runI) simp
qed

context digest
begin

lemma well_with_artifact:
  assumes "\<And>ctx nowIso r. well_run operation (onInternal ctx nowIso [E_resolve ctx aid] r)"
    "\<And>opts m. record_ok (o_record opts) \<Longrightarrow> m = record_manifest (o_record opts) \<Longrightarrow>
       manifest_ok H (a_chunkSize (o_record opts)) (a_byteLength (o_record opts)) m \<Longrightarrow>
       well_run operation (body opts m [E_resolve (o_context opts) aid])"
  shows "well_run operation (with_artifact H deps operation cs rawContext aid onInternal body)"
proof -
  have "well_run operation (body \<lparr>o_context = c, o_record = r, o_artifactId = aid, o_recordedAt = t\<rparr> m [E_resolve c aid])"
    if "resolveArtifact H deps c aid t = R_ok r m" for c r m t
    using assms(2) [of "\<lparr>o_context = c, o_record = r, o_artifactId = aid, o_recordedAt = t\<rparr>" m] resolved_ok [OF that] by simp
  with assms(1) show ?thesis
    by (auto simp: with_artifact_def Let_def split: option.split resolve_outcome.split)
qed

lemma well_range: "well_run artifact_read_range (artifactReadRange H deps rawContext rawInput)"
proof -
  have "well_run artifact_read_range (range_body H deps off len opts m [E_resolve (o_context opts) a])"
    if ok: "manifest_ok H (a_chunkSize (o_record opts)) (a_byteLength (o_record opts)) m" and l: "1 \<le> len" for off len opts m a
  proof (cases "a_byteLength (o_record opts) \<le> off \<or> a_byteLength (o_record opts) < off + len")
    case False
    then have "int (off + len) \<le> int (a_byteLength (o_record opts))" by simp
    from chunk_index_bound [OF ok this] have b: "int ((off + len - 1) div a_chunkSize (o_record opts)) < int (length (chunks m))"
      using l by (cases "off + len") (auto simp: zdiv_int)
    show ?thesis
      unfolding range_body_def Let_def
      using False by (auto intro!: well_read closes_range_bytes [OF ok b [unfolded One_nat_def]])
  qed (auto simp: range_body_def Let_def)
  then show ?thesis
    by (auto simp: artifactReadRange_def internal_stop_def ArtifactReadRangeInputSchema_def bind_eq_Some_conv z_nat_Some
        split: option.split intro!: well_with_artifact)
qed

lemma well_stat: "well_run artifact_stat (artifactStat H deps rawContext rawInput)"
  by (auto simp: artifactStat_def internal_stop_def split: option.split intro!: well_with_artifact well_runI [OF closes_stat])

lemma well_lines: "well_run artifact_read_lines (artifactReadLines H nfc lower deps rawContext rawInput)"
proof -
  have bytes: "closes artifact_read_lines calls (lines_bytes_body H nfc lower opts m sl c bytes calls)"
    if ok: "manifest_ok H (a_chunkSize (o_record opts)) (length bytes) m" and s: "1 \<le> sl" "1 \<le> c" for opts m sl c bytes calls
    unfolding lines_bytes_body_def Let_def
    by (rule closes_verified [OF ok])
      (auto simp: closes_past_end [OF ok] split: sum.split intro!: closes_lines_selected [OF ok] s)
  have "well_run artifact_read_lines (lines_body H nfc lower deps sl c opts m [E_resolve (o_context opts) a])"
    if ok: "manifest_ok H (a_chunkSize (o_record opts)) (a_byteLength (o_record opts)) m" and s: "1 \<le> sl" "1 \<le> c" for sl c opts m a
    unfolding lines_body_def Let_def using ok s by (auto intro!: well_read bytes)
  then show ?thesis
    by (auto simp: artifactReadLines_def internal_stop_def ArtifactReadLinesInputSchema_def bind_eq_Some_conv z_nat_Some
        split: option.split intro!: well_with_artifact)
qed

lemma well_heading: "well_run artifact_read_heading (artifactReadHeading H nfc lower deps rawContext rawInput)"
proof -
  have bytes: "closes artifact_read_heading calls (heading_bytes_body H nfc lower opts m hid bytes calls)"
    if ok: "manifest_ok H (a_chunkSize (o_record opts)) (length bytes) m" for opts m hid bytes calls
    unfolding heading_bytes_body_def Let_def
    by (rule closes_verified [OF ok])
      (auto split: sum.split option.split intro!: closes_heading_selected [OF ok] simp: find_Some_iff)
  have "well_run artifact_read_heading (heading_body H nfc lower deps hid opts m [E_resolve (o_context opts) a])"
    if ok: "manifest_ok H (a_chunkSize (o_record opts)) (a_byteLength (o_record opts)) m" for hid opts m a
    unfolding heading_body_def Let_def using ok by (auto intro!: well_read bytes)
  then show ?thesis
    by (auto simp: artifactReadHeading_def internal_stop_def split: option.split intro!: well_with_artifact)
qed

lemma encode_not_Nil:
  assumes "encodeUnicodeScalarValueString s = Some b" "s \<noteq> []"
  shows "b \<noteq> []"
  using assms by (auto simp: encodeUnicodeScalarValueString_def Let_def text_decode_def split: if_splits option.splits)

lemma well_search: "well_run artifact_search_exact (artifactSearchExact H nfc lower deps rawContext rawInput)"
proof -
  have "well_run artifact_search_exact (search_body H nfc lower deps q qb mh opts m [E_resolve (o_context opts) a])"
    if ok: "manifest_ok H (a_chunkSize (o_record opts)) (a_byteLength (o_record opts)) m" and q: "0 < length qb" for q qb mh opts m a
    unfolding search_body_def Let_def using ok q by (auto intro!: well_read closes_search_bytes)
  then show ?thesis
    by (auto simp: artifactSearchExact_def search_internal_def ArtifactSearchExactInputSchema_def bind_eq_Some_conv
        split: option.split if_splits intro!: well_with_artifact dest!: encode_not_Nil)
qed

lemma well_inspect: "well_run operation (inspect H nfc lower deps operation rawContext rawInput)"
  by (cases operation) (simp_all add: well_stat well_range well_lines well_heading well_search)

end

end
