(* ===== verification/Inspector_Evidence.thy ===== *)
theory Inspector_Evidence
  imports Inspector_Total
begin

text \<open>
  The evidence an inspection hands out: verified covering chunks, integrity metadata and receipts that
  pass their schemas; and what covering chunks prove about the bytes they cover.
\<close>

section \<open>Covering chunks of a source\<close>

definition cover_inputs :: "chunk_manifest \<Rightarrow> nat \<Rightarrow> byte list \<Rightarrow> byte list \<Rightarrow> nat list \<Rightarrow> byte list list" where
  "cover_inputs m base buf source is =
     concat (map (\<lambda>i. [the (chunk_bytes m base buf i), entry_bytes source (chunks m ! i)]) is)"

lemma manifest_entry:
  assumes "manifest_ok H csize len m" "i < length (chunks m)"
  shows "byteStart (chunks m ! i) = JInt (int (i * csize))"
    "byteLength (chunks m ! i) = JInt (int (min (i * csize + csize) len - i * csize))" "i * csize < len"
    "HEX64_PATTERN (chunkSha256 (chunks m ! i))"
proof -
  let ?s = "replicate len (0 :: byte)"
  have ok: "manifest_ok H csize (length ?s) m" using assms(1) by simp
  note c = manifest_ok_count [OF ok]
  have e: "entry_ok (int csize) (int len) (length (chunks m)) i (chunks m ! i)" using assms by (simp add: manifest_ok_def)
  then show "byteStart (chunks m ! i) = JInt (int (i * csize))" "HEX64_PATTERN (chunkSha256 (chunks m ! i))"
    by (auto simp: entry_ok_def)
  from e obtain l where "byteLength (chunks m ! i) = JInt l" by (auto simp: entry_ok_def Let_def)
  with manifest_ok_entry(2) [OF ok assms(2)]
  show "byteLength (chunks m ! i) = JInt (int (min (i * csize + csize) len - i * csize))" by simp
  show "i * csize < len" using chunk_start_less [OF c(1), of i ?s] assms(2) c(2) by simp
qed

lemma chunk_bytes_at:
  assumes "manifest_ok H csize len m" "i < length (chunks m)"
  shows "chunk_bytes m base buf i =
    Some (subarray (i * csize - base) (i * csize - base + (min (i * csize + csize) len - i * csize)) buf)"
  using manifest_entry [OF assms] assms(2)
  by (simp add: chunk_bytes_def elem_at_def Let_def del: of_nat_mult of_nat_diff)

text \<open>
  A buffer whose chunks match the entries of a verified manifest is the piece of the source it claims to
  be, or two of the hashed inputs collide.
\<close>

lemma covered_bytes:
  assumes ok: "manifest_ok H csize (length source) m"
    and src: "\<forall>c \<in> set (chunks m). entry_matches H source c"
    and rng: "lo \<le> hi" "hi < length (chunks m)"
    and len: "length buf = min ((hi + 1) * csize) (length source) - lo * csize"
    and mt: "\<forall>i \<in> {lo..<Suc hi}. bytes_match H (chunks m ! i) (the (chunk_bytes m (lo * csize) buf i))"
    and inj: "\<not> collision H (cover_inputs m (lo * csize) buf source [lo..<Suc hi])"
  shows "buf = subarray (lo * csize) (min ((hi + 1) * csize) (length source)) source"
proof (rule nth_equalityI)
  note c = manifest_ok_count [OF ok]
  let ?fin = "min ((hi + 1) * csize) (length source)"
  show "length buf = length (subarray (lo * csize) ?fin source)" using len by (auto simp: length_subarray)
  fix k
  assume k: "k < length buf"
  let ?q = "lo * csize + k"
  define i where "i = ?q div csize"
  define p where "p = ?q mod csize"
  have q: "?q < (hi + 1) * csize" "?q < length source" using k len by auto
  have i: "lo \<le> i" "i < Suc hi" "i < length (chunks m)"
    using q(1) c(1) rng(2) less_mult_imp_div_less [of ?q "hi + 1" csize] by (auto simp: i_def div_mult_self3)
  have qd: "i * csize + p = ?q" unfolding i_def p_def by (rule div_mult_mod_eq)
  have eq: "the (chunk_bytes m (lo * csize) buf i) = entry_bytes source (chunks m ! i)"
  proof -
    have "H (the (chunk_bytes m (lo * csize) buf i)) = H (entry_bytes source (chunks m ! i))"
    proof -
      have "bytes_match H (chunks m ! i) (the (chunk_bytes m (lo * csize) buf i))" using mt i by simp
      moreover have "entry_matches H source (chunks m ! i)" using src i(3) by simp
      ultimately show ?thesis by (simp add: bytes_match_def entry_matches_def)
    qed
    moreover have "the (chunk_bytes m (lo * csize) buf i) \<in> set (cover_inputs m (lo * csize) buf source [lo..<Suc hi])"
      "entry_bytes source (chunks m ! i) \<in> set (cover_inputs m (lo * csize) buf source [lo..<Suc hi])"
      using i by (auto simp: cover_inputs_def simp del: upt_Suc)
    ultimately show ?thesis using inj by (auto simp: no_collision dest: inj_onD)
  qed
  have o: "p < min (i * csize + csize) (length source) - i * csize" using q(2) qd c(1) mod_less_divisor [of csize ?q, folded p_def] by linarith
  have start: "lo * csize \<le> i * csize" using i(1) by simp
  have "entry_bytes source (chunks m ! i) ! p = source ! ?q"
    using manifest_ok_entry(1) [OF ok i(3)] o qd by (simp add: chunk_of_def subarray_nth)
  moreover have "the (chunk_bytes m (lo * csize) buf i) ! p = buf ! k"
  proof -
    have "i * csize - lo * csize + p = k" using qd start by linarith
    then show ?thesis using o k by (simp add: chunk_bytes_at [OF ok i(3)] subarray_nth)
  qed
  ultimately show "buf ! k = subarray (lo * csize) ?fin source ! k" using eq q k by (simp add: subarray_nth)
qed

lemma piece_end: "(a :: nat) \<le> b \<Longrightarrow> b + c \<le> e \<Longrightarrow> b < n \<Longrightarrow> b - a + (min (b + c) n - b) \<le> min e n - a"
  by linarith

text \<open>Conversely the true piece of the source has matching chunks.\<close>

lemma source_bytes_match:
  assumes ok: "manifest_ok H csize (length source) m" and src: "\<forall>c \<in> set (chunks m). entry_matches H source c"
    and i: "lo \<le> i" "i \<le> hi" "hi < length (chunks m)"
  shows "bytes_match H (chunks m ! i)
    (the (chunk_bytes m (lo * csize) (subarray (lo * csize) (min ((hi + 1) * csize) (length source)) source) i))"
proof -
  have i': "i < length (chunks m)" using i by simp
  note c = manifest_ok_count [OF ok] and e = manifest_entry [OF ok i']
  let ?fin = "min ((hi + 1) * csize) (length source)"
  let ?l = "min (i * csize + csize) (length source) - i * csize"
  have a: "lo * csize \<le> i * csize" "i * csize + csize \<le> (hi + 1) * csize"
    using i by (simp_all add: mult_le_mono1)
  have "subarray (i * csize - lo * csize) (i * csize - lo * csize + ?l) (subarray (lo * csize) ?fin source) =
      subarray (lo * csize + (i * csize - lo * csize)) (lo * csize + (i * csize - lo * csize + ?l)) source"
    by (rule subarray_of_subarray [OF le_add1 piece_end [OF a e(3)]])
  also have "\<dots> = chunk_of source csize i"
  proof -
    have "lo * csize + (i * csize - lo * csize) = i * csize"
      "lo * csize + (i * csize - lo * csize + ?l) = min (i * csize + csize) (length source)" using a(1) e(3) by linarith+
    then show ?thesis by (simp only: chunk_of_def)
  qed
  finally have b: "the (chunk_bytes m (lo * csize) (subarray (lo * csize) ?fin source) i) = entry_bytes source (chunks m ! i)"
    using manifest_ok_entry(1) [OF ok i'] by (simp add: chunk_bytes_at [OF ok i'])
  have "length (entry_bytes source (chunks m ! i)) = ?l"
    using manifest_ok_entry(1) [OF ok i'] e(3) by (simp add: chunk_of_def length_subarray)
  then show ?thesis
    using b e(2) src i' by (auto simp: bytes_match_def entry_matches_def)
qed

section \<open>Integrity metadata\<close>

context digest
begin

lemma safe_small: "n \<le> 1048576 \<Longrightarrow> safe_nat n"
  by (simp add: safe_nat_def MAX_SAFE_INTEGER_def)

lemma verified_of_fields:
  assumes ok: "manifest_ok H csize len m" and i: "i < length (chunks m)"
  shows "v_chunkIndex (verified_of H m i) = i" "v_byteStart (verified_of H m i) = i * csize"
    "v_byteLength (verified_of H m i) = min (i * csize + csize) len - i * csize"
    "VerifiedChunkSchema (verified_of H m i)" "1 < length (chunks m) \<Longrightarrow> merkleProof (verified_of H m i) \<noteq> []"
proof -
  note e = manifest_entry [OF ok i]
  have c: "int csize \<in> set ALLOWED_CHUNK_SIZES" "int len \<le> MAX_CALIBRATION_SOURCE_BYTES"
    "ceil_div (int len) (int csize) = int (length (chunks m))" using ok by (auto simp: manifest_ok_def)
  then have cs: "0 < csize" by (auto simp: allowed_sizes)
  have n: "length (chunks m) \<le> 1024" using ceil_div_count [OF c(1,2)] c(3) by linarith
  from build_proof_ok [OF ok i] obtain nodes where nodes:
    "buildArtifactChunkProof H m (JInt (int i)) = Inr (proof_of m i nodes)"
    "length nodes = ceillog2 (length (chunks m))" "eachE check_proof_node nodes = Inr ()" by blast
  show f: "v_chunkIndex (verified_of H m i) = i" "v_byteStart (verified_of H m i) = i * csize"
    "v_byteLength (verified_of H m i) = min (i * csize + csize) len - i * csize"
    using e by (simp_all add: verified_of_def del: of_nat_mult of_nat_diff)
  have mp: "merkleProof (verified_of H m i) = nodes" using nodes(1) by (simp add: verified_of_def proof_of_def Let_def)
  have "list_all MerkleProofNodeSchema nodes"
    using nodes(3) by (auto simp: eachE_ok_iff list_all_iff check_proof_node_def MerkleProofNodeSchema_def split: if_splits)
  moreover have "length nodes \<le> 10" using nodes(2) ceillog2_count [OF n] by simp
  moreover have "v_chunkSha256 (verified_of H m i) = chunkSha256 (chunks m ! i)" by (simp add: verified_of_def)
  ultimately show "VerifiedChunkSchema (verified_of H m i)"
    using e c(2) f mp i n cs by (auto simp: VerifiedChunkSchema_def limits intro!: safe_small)
  show "1 < length (chunks m) \<Longrightarrow> merkleProof (verified_of H m i) \<noteq> []"
    using nodes(2) mp ceillog2_half [of "length (chunks m)"] by auto
qed

lemma adjacent_verified:
  assumes "manifest_ok H csize len m" "hi < length (chunks m)"
  shows "adjacent_chunks (map (verified_of H m) [lo..<Suc hi])"
proof (cases "lo \<le> hi")
  case True
  then show ?thesis
  proof (induction "hi - lo" arbitrary: lo)
    case (Suc d)
    then have lo: "lo < hi" by simp
    have u: "[lo..<Suc hi] = lo # Suc lo # [Suc (Suc lo)..<Suc hi]" "[Suc lo..<Suc hi] = Suc lo # [Suc (Suc lo)..<Suc hi]"
      using lo by (simp_all add: upt_conv_Cons del: upt_Suc)
    have "Suc lo * csize < len" using manifest_entry(3) [OF assms(1), of "Suc lo"] lo assms(2) by simp
    then show ?case
      using Suc(1) [of "Suc lo"] Suc(2) lo verified_of_fields(1-3) [OF assms(1), of lo]
        verified_of_fields(1-3) [OF assms(1), of "Suc lo"] assms(2)
      unfolding u by simp
  qed simp
qed simp

lemma integrity_ok:
  assumes r: "record_ok r" and ok: "manifest_ok H (a_chunkSize r) (a_byteLength r) m" and n: "length (chunks m) = a_chunkCount r"
    and rng: "lo \<le> hi" "hi < a_chunkCount r" "hi - lo < 16"
    and ret: "lo * a_chunkSize r \<le> ret_offset ret" "ret_length ret \<le> 8192"
      "ret_offset ret + ret_length ret \<le> min ((hi + 1) * a_chunkSize r) (a_byteLength r)"
    and req: "RequestedRangeSchema req" "case req of ByteRange off l \<Rightarrow> ret = \<lparr>ret_offset = off, ret_length = l\<rparr> | _ \<Rightarrow> True"
    and sha: "HEX64_PATTERN sha"
  shows "PartialReadIntegritySchema (read_integrity r req lo hi ret (map (verified_of H m) [lo..<Suc hi]) sha)"
proof -
  let ?vs = "map (verified_of H m) [lo..<Suc hi]"
  note v = verified_of_fields [OF ok, unfolded n]
  have ne: "[lo..<Suc hi] \<noteq> []" "hd [lo..<Suc hi] = lo" using rng(1) by (simp_all add: upt_conv_Cons del: upt_Suc)
  have ls: "last [lo..<Suc hi] = hi" using rng(1) by simp
  have ends: "hd ?vs = verified_of H m lo" "last ?vs = verified_of H m hi"
    using ne ls by (simp_all add: hd_map last_map del: upt_Suc)
  have cov: "covered_start ?vs = lo * a_chunkSize r" "covered_end ?vs = min ((hi + 1) * a_chunkSize r) (a_byteLength r)"
    using v(2,3) rng manifest_entry(3) [OF ok, unfolded n, OF rng(2)] ends
    by (simp_all add: covered_start_def covered_end_def add.commute)
  have all: "\<forall>i \<in> set [lo..<Suc hi]. i < a_chunkCount r" using rng by auto
  have sizes: "a_chunkSize r \<in> {1024, 4096, 8192}" "a_byteLength r \<le> 1048576" "a_chunkCount r \<le> 1024"
    using r ceil_div_count [of "int (a_chunkSize r)" "int (a_byteLength r)"]
    by (auto simp: record_ok_def allowed_sizes limits)
  have len: "v_byteLength (verified_of H m i) = a_chunkSize r" if "i < a_chunkCount r - 1" for i
  proof -
    have "Suc i * a_chunkSize r < a_byteLength r" using manifest_entry(3) [OF ok, of "Suc i"] n that by simp
    then show ?thesis using v(3) [of i] that by simp
  qed
  have lens: "list_all (\<lambda>c. if v_chunkIndex c = a_chunkCount r - 1 then v_byteLength c \<le> a_chunkSize r
      else v_byteLength c = a_chunkSize r) ?vs"
    using v(1,3) len all by (auto simp: list_all_iff simp del: upt_Suc)
  have idx: "map v_chunkIndex ?vs = [lo..<Suc hi]" unfolding map_map by (rule map_idI) (use v(1) rng(2) in auto)
  have w: "within_coverage ?vs (ret_offset ret) (ret_length ret)" using ret cov by (simp add: within_coverage_def)
  have rr: "ReturnedRangeSchema ret" using ret sizes(2) by (auto simp: ReturnedRangeSchema_def limits intro!: safe_small)
  have fields: "list_all VerifiedChunkSchema ?vs" "list_all (\<lambda>c. v_chunkIndex c < a_chunkCount r) ?vs"
    "1 < a_chunkCount r \<Longrightarrow> list_all (\<lambda>c. merkleProof c \<noteq> []) ?vs"
    using v all by (auto simp: list_all_iff simp del: upt_Suc)
  have safe: "safe_nat lo" "safe_nat hi" "safe_nat (a_chunkSize r)" "safe_nat (a_chunkCount r)" "0 < a_chunkSize r" "0 < a_chunkCount r"
    using sizes rng by (auto intro: safe_small)
  have hexs: "HEX64_PATTERN (a_merkleRoot r)" "HEX64_PATTERN (a_sourceSha256 r)" using r by (simp_all add: record_ok_def)
  have count: "1 \<le> length ?vs" "length ?vs \<le> MAX_VERIFIED_CHUNKS_PER_READ" using rng by (simp_all add: limits del: upt_Suc)
  have bounds: "v_chunkIndex (hd ?vs) = lo" "v_chunkIndex (last ?vs) = hi" "distinct [lo..<Suc hi]"
    using ends v(1) rng by (simp_all del: upt_Suc)
  have reqw: "case req of ByteRange off l \<Rightarrow> within_coverage ?vs off l | _ \<Rightarrow> True" using req(2) w by (cases req) simp_all
  show ?thesis
    unfolding PartialReadIntegritySchema_def Let_def read_integrity_def partial_integrity.simps idx
    by (intro conjI impI req(1) safe rng(1) rr fields count hexs sha bounds lens w reqw
        adjacent_verified [OF ok, unfolded n, OF rng(2)])
qed

end

section \<open>Receipts\<close>

definition context_ok :: "trusted_context \<Rightarrow> bool" where
  "context_ok c \<longleftrightarrow>
     AuthorizationIdentifier (principalRef c) \<and> AuthorizationIdentifier (inspectorClientRef c) \<and>
     AuthorizationIdentifier (capabilityRef c) \<and> AuthorizationIdentifier (verifierAudience c) \<and>
     BoundedVersionString (policyVersion c) \<and> GitCommitCoordinate (inspectorDeploymentGitCoordinate c)"

lemma context_parsed:
  assumes "validateRuntimeContext v = Some c"
  shows "context_ok c"
  using assms unfolding validateRuntimeContext_def ArtifactInspectorTrustedContextSchema_def
  by (elim bind_SomeE) (auto simp: context_ok_def AuthorizationIdentifierSchema_def z_refine_Some)

lemma receipt_ok:
  assumes "context_ok (o_context opts)" "record_ok (o_record opts)" "ArtifactId (o_artifactId opts)"
    "iso_datetime (o_recordedAt opts)" "ReceiptOperationDetailSchema d"
  shows "ArtifactInspectionReceiptSchema (buildReceiptBase opts c d)"
proof -
  have "AnalyzerProfileSupportSchema (analyzerProfileIdFor mt)" for mt
    by (auto simp: AnalyzerProfileSupportSchema_def analyzerProfileIdFor_def isSupportedLineMediaType_def
        SUPPORTED_LINE_MEDIA_TYPES_def ANALYZER_PROFILE_IDS_def TEXT_PLAIN_def TEXT_MARKDOWN_def)
  moreover have "BoundedVersionString ARTIFACT_INSPECTOR_PROFILE_VERSION" by code_simp
  ultimately show ?thesis
    using assms by (simp add: ArtifactInspectionReceiptSchema_def buildReceiptBase_def Let_def context_ok_def record_ok_def)
qed

end
