(* ===== verification/Inspector_Spec.thy ===== *)
theory Inspector_Spec
  imports Inspector_Evidence
begin

text \<open>
  What an inspection returns for a registered artifact whose bytes are stored as registered: abstract
  answers computed from the record and the source alone.
\<close>

section \<open>A store that serves a source\<close>

definition served_range :: "artifact_record \<Rightarrow> byte list \<Rightarrow> jsval" where
  "served_range r bytes = VObj [(js ''bytes'', VBytes bytes), (js ''objectVersionRef'', VStr (a_objectVersionRef r))]"

text \<open>
  The context and the clock are valid, the registry answers with an unexpired record that verifies the
  source, and the store answers every range of it with its bytes.
\<close>

definition serves :: "hashfn \<Rightarrow> dependencies \<Rightarrow> jsval \<Rightarrow> jsstring \<Rightarrow> artifact_record \<Rightarrow> byte list \<Rightarrow> bool" where
  "serves H deps rawContext aid r source \<longleftrightarrow>
     (\<exists>ctx t raw. validateRuntimeContext rawContext = Some ctx \<and> clock_now deps = Some t \<and>
        iso_datetime (toISOString t) \<and> resolveAuthorizedArtifact deps ctx aid = Inr raw \<and>
        validateAuthorizedArtifactRecord raw aid = Some r \<and> \<not> isArtifactExpired (a_expiresAt r) (toISOString t) \<and>
        verifyArtifactSourceManifest H (VBytes source) (record_manifest r) = Inr True \<and>
        (\<forall>off len. off + len \<le> length source \<longrightarrow>
           readVersionedRange deps ctx (internalLocator r) (a_objectVersionRef r) off len =
             Inr (served_range r (subarray off (off + len) source))))"

definition opts_ok :: "receipt_options \<Rightarrow> bool" where
  "opts_ok opts \<longleftrightarrow>
     context_ok (o_context opts) \<and> record_ok (o_record opts) \<and> ArtifactId (o_artifactId opts) \<and>
     iso_datetime (o_recordedAt opts)"

lemma parse_served: "record_ok r \<Longrightarrow> parseReadResult (served_range r b) = Some (b, a_objectVersionRef r)"
  by (simp add: parseReadResult_def served_range_def z_strict_def z_refine_def record_ok_def getp_def js_def)

text \<open>The state every operation reaches before its own body.\<close>

definition ready ::
    "hashfn \<Rightarrow> dependencies \<Rightarrow> jsval \<Rightarrow> jsstring \<Rightarrow> artifact_record \<Rightarrow> byte list \<Rightarrow> receipt_options \<Rightarrow> bool" where
  "ready H deps rawContext aid r source opts \<longleftrightarrow>
     opts_ok opts \<and> o_record opts = r \<and> o_artifactId opts = aid \<and> a_artifactId r = aid \<and> a_byteLength r = length source \<and>
     manifest_ok H (a_chunkSize r) (length source) (record_manifest r) \<and>
     (\<forall>c \<in> set (chunks (record_manifest r)). entry_matches H source c) \<and>
     verifyArtifactSourceManifest H (VBytes source) (record_manifest r) = Inr True \<and>
     (\<forall>operation cs onInternal body. with_artifact H deps operation cs rawContext aid onInternal body =
        body opts (record_manifest r) [E_resolve (o_context opts) aid]) \<and>
     (\<forall>operation d cs eff off len body. off + len \<le> length source \<longrightarrow>
        with_bytes deps operation opts d cs eff off len body = body (subarray off (off + len) source)
          (eff @ [E_read (o_context opts) (internalLocator r) (a_objectVersionRef r) off len]))"

context digest
begin

lemma served_manifest:
  assumes "verifyArtifactSourceManifest H (VBytes source) (record_manifest r) = Inr True"
  shows "a_byteLength r = length source" "manifest_ok H (a_chunkSize r) (length source) (record_manifest r)"
    "\<forall>c \<in> set (chunks (record_manifest r)). entry_matches H source c" "a_sourceSha256 r = hex (H source)"
proof -
  from assms obtain csize where c: "manifest_ok H csize (length source) (record_manifest r)"
    "sourceSha256 (record_manifest r) = hex (H source)" "\<forall>c \<in> set (chunks (record_manifest r)). entry_matches H source c"
    by (rule verified_manifest)
  then show "a_byteLength r = length source" "manifest_ok H (a_chunkSize r) (length source) (record_manifest r)"
    "\<forall>c \<in> set (chunks (record_manifest r)). entry_matches H source c" "a_sourceSha256 r = hex (H source)"
    by (auto simp: manifest_ok_def)
qed

lemma served:
  assumes "serves H deps rawContext aid r source"
  obtains opts where "ready H deps rawContext aid r source opts"
proof -
  from assms obtain ctx t raw where s: "validateRuntimeContext rawContext = Some ctx" "clock_now deps = Some t"
    "iso_datetime (toISOString t)" "resolveAuthorizedArtifact deps ctx aid = Inr raw"
    "validateAuthorizedArtifactRecord raw aid = Some r" "\<not> isArtifactExpired (a_expiresAt r) (toISOString t)"
    "verifyArtifactSourceManifest H (VBytes source) (record_manifest r) = Inr True"
    "\<forall>off len. off + len \<le> length source \<longrightarrow> readVersionedRange deps ctx (internalLocator r) (a_objectVersionRef r) off len =
       Inr (served_range r (subarray off (off + len) source))" unfolding serves_def by blast
  note ok = validated_ok [OF s(5)] and m = served_manifest [OF s(7)]
  let ?opts = "\<lparr>o_context = ctx, o_record = r, o_artifactId = aid, o_recordedAt = toISOString t\<rparr>"
  have null: "raw \<noteq> VNull" using s(5) by (auto simp: validateAuthorizedArtifactRecord_def)
  have "validateManifestConsistency H (record_manifest r) = Inr ()" using m(1,2) by (intro consistent_validate) simp
  then have res: "resolveArtifact H deps ctx aid (toISOString t) = R_ok r (record_manifest r)"
    using s null by (simp add: resolveArtifact_def build_record_manifest [OF ok(1)])
  have o: "opts_ok ?opts" using context_parsed [OF s(1)] ok s(3) by (auto simp: opts_ok_def record_ok_def)
  have "with_artifact H deps operation cs rawContext aid onInternal body = body ?opts (record_manifest r) [E_resolve ctx aid]"
    for operation cs onInternal body
    using s(1,2) res by (simp add: with_artifact_def readClockIso_def Let_def)
  moreover have "with_bytes deps operation ?opts d cs eff off len body = body (subarray off (off + len) source)
       (eff @ [E_read ctx (internalLocator r) (a_objectVersionRef r) off len])" if "off + len \<le> length source"
    for operation d cs eff off len body
    using s(8) that by (simp add: with_bytes_def Let_def parse_served [OF ok(1)] length_subarray) (simp add: served_range_def)
  ultimately have "ready H deps rawContext aid r source ?opts" using o ok m s(7) by (simp add: ready_def)
  then show thesis by (rule that)
qed

lemma readyD:
  assumes "ready H deps rawContext aid r source opts"
  shows "opts_ok opts" "o_record opts = r" "a_artifactId r = aid" "a_byteLength r = length source" "record_ok r"
    "manifest_ok H (a_chunkSize r) (length source) (record_manifest r)"
    "\<forall>c \<in> set (chunks (record_manifest r)). entry_matches H source c"
    "verifyArtifactSourceManifest H (VBytes source) (record_manifest r) = Inr True"
    "with_artifact H deps operation cs rawContext aid onInternal body =
       body opts (record_manifest r) [E_resolve (o_context opts) aid]"
    "off + len \<le> length source \<Longrightarrow>
       with_bytes deps operation opts d cs eff off len k = k (subarray off (off + len) source)
         (eff @ [E_read (o_context opts) (internalLocator r) (a_objectVersionRef r) off len])"
  using assms by (auto simp: ready_def opts_ok_def)

lemma ready_id: "ready H deps rawContext aid r source opts \<Longrightarrow> o_artifactId opts = a_artifactId r"
  by (simp add: ready_def)

lemma ready_source:
  assumes "ready H deps rawContext aid r source opts"
  shows "with_bytes deps operation opts d cs eff 0 (length source) k = k source
     (eff @ [E_read (o_context opts) (internalLocator r) (a_objectVersionRef r) 0 (length source)])"
    "with_verified_source H (record_manifest r) failClosed source eff body' = body'"
  using readyD(10) [OF assms, of 0 "length source"] readyD(8) [OF assms] by (simp_all add: with_verified_source_def subarray_def)

end

section \<open>Delivered answers\<close>

text \<open>An answer that is too long on the wire is replaced by the error.\<close>

definition limited :: "inspection_output \<Rightarrow> inspection_output" where
  "limited out =
     (if MAX_ARTIFACT_RESPONSE_BYTES < artifactInspectionResponseByteLength IdNull (output_val out)
      then O_error AI_RESPONSE_LIMIT_EXCEEDED else out)"

lemma fst_fail [simp]: "fst (fail_closed operation opts d cs eff e) = Inr (O_error e)"
  by (simp add: fail_closed_def stop_def)

lemma fst_stop [simp]: "fst (stop operation c cs eff e) = Inr (O_error e)"
  by (simp add: stop_def)

definition evidence :: "hashfn \<Rightarrow> artifact_record \<Rightarrow> requested_range \<Rightarrow> nat \<Rightarrow> nat \<Rightarrow> byte list \<Rightarrow> partial_integrity" where
  "evidence H r req off len bytes =
     (let lo = off div a_chunkSize r; hi = (off + len - 1) div a_chunkSize r
      in read_integrity r req lo hi \<lparr>ret_offset = off, ret_length = len\<rparr>
           (map (verified_of H (record_manifest r)) [lo..<Suc hi]) (hex (H bytes)))"

context digest
begin

lemma delivered:
  assumes "opts_ok opts" "success_schema H out" "ReceiptOperationDetailSchema okd"
  shows "fst (deliver H operation opts fd okd lc sc rc oc eff out) = Inr (limited out)"
proof -
  have "emitReceiptSafely (buildReceiptBase opts None okd) = (True, [E_receipt (buildReceiptBase opts None okd)])"
    using assms receipt_ok by (auto simp: opts_ok_def emitReceiptSafely_def)
  then show ?thesis
    using assms(2)
    by (auto simp: deliver_def deliver_checked_def limited_def output_schema_def withinArtifactInspectionResponseByteLimit_def
        succeed_def)
qed

lemma range_cover:
  assumes r: "record_ok r" and ok: "manifest_ok H (a_chunkSize r) (a_byteLength r) (record_manifest r)"
    and len: "1 \<le> len" "len \<le> 8192" "off + len \<le> a_byteLength r"
  shows "off div a_chunkSize r \<le> (off + len - 1) div a_chunkSize r"
    "(off + len - 1) div a_chunkSize r < a_chunkCount r"
    "(off + len - 1) div a_chunkSize r - off div a_chunkSize r < 16"
    "off div a_chunkSize r * a_chunkSize r \<le> off"
    "off + len \<le> min (((off + len - 1) div a_chunkSize r + 1) * a_chunkSize r) (a_byteLength r)"
    "min (((off + len - 1) div a_chunkSize r + 1) * a_chunkSize r) (a_byteLength r) - off div a_chunkSize r * a_chunkSize r \<le> 16384"
proof -
  let ?c = "a_chunkSize r"
  define lo where "lo = off div ?c"
  define hi where "hi = (off + len - 1) div ?c"
  have c: "?c \<in> {1024, 4096, 8192}" using r by (auto simp: record_ok_def allowed_sizes)
  have lo: "lo * ?c \<le> off" "off < lo * ?c + ?c" using c by (auto simp: lo_def div_times_less_eq_dividend intro: dividend_less_div_times)
  have hi: "hi * ?c \<le> off + len - 1" "off + len - 1 < hi * ?c + ?c"
    using c by (auto simp: hi_def div_times_less_eq_dividend intro: dividend_less_div_times)
  show "lo \<le> hi" using len(1) by (simp add: lo_def hi_def div_le_mono)
  have "int (off + len) \<le> int (a_byteLength r)" using len(3) by simp
  from chunk_index_bound [OF ok this] show "hi < a_chunkCount r"
    using len(1) by (cases "off + len") (auto simp: hi_def simp flip: zdiv_int)
  have span: "(hi + 1) * ?c \<le> lo * ?c + 16384"
  proof -
    define k where "k = 8192 div ?c"
    have k: "k * ?c = 8192" "?c \<le> 8192" using c by (auto simp: k_def)
    have "hi * ?c < (lo + 1 + k) * ?c" using lo hi len k by (simp add: add_mult_distrib)
    then have "hi + 1 \<le> lo + 1 + k" using mult_less_cancel2 [of hi ?c "lo + 1 + k"] by simp
    then have "(hi + 1) * ?c \<le> (lo + 1 + k) * ?c" by (rule mult_le_mono1)
    then show ?thesis using k by (simp add: add_mult_distrib)
  qed
  then show "hi - lo < 16" "lo * ?c \<le> off" "off + len \<le> min ((hi + 1) * ?c) (a_byteLength r)"
    "min ((hi + 1) * ?c) (a_byteLength r) - lo * ?c \<le> 16384"
    using c lo hi len by auto
qed

lemma range_evidence_ok:
  assumes "record_ok r" "manifest_ok H (a_chunkSize r) (a_byteLength r) (record_manifest r)"
    "1 \<le> len" "len \<le> 8192" "off + len \<le> a_byteLength r" "RequestedRangeSchema req"
    "case req of ByteRange o' l \<Rightarrow> o' = off \<and> l = len | _ \<Rightarrow> True"
  shows "PartialReadIntegritySchema (evidence H r req off len bytes)"
  unfolding evidence_def Let_def
proof (rule integrity_ok [OF assms(1,2)])
  show "length (chunks (record_manifest r)) = a_chunkCount r" by (simp add: record_manifest_def)
qed (use range_cover [OF assms(1-5)] assms(4,6,7) in \<open>simp_all split: requested_range.splits\<close>)

lemma evidence_binds: "text_encode str = bytes \<Longrightarrow> bindReturnedDataToIntegrity H str (evidence H r req off (length bytes) bytes)"
  by (simp add: bindReturnedDataToIntegrity_def sha256HexOfUtf8_def evidence_def read_integrity_def Let_def del: upt_Suc)

lemma read_delivered:
  fixes opts bytes off
  defines "ret \<equiv> \<lparr>ret_offset = off, ret_length = length bytes\<rparr>"
  assumes o: "opts_ok opts"
    and ok: "manifest_ok H (a_chunkSize (o_record opts)) (a_byteLength (o_record opts)) (record_manifest (o_record opts))"
    and rng: "1 \<le> length bytes" "length bytes \<le> 8192" "off + length bytes \<le> a_byteLength (o_record opts)"
    and enc: "text_encode str = bytes"
  shows "len = length bytes \<Longrightarrow> fst (deliver H operation opts fd (D_range ret ret (hex (H bytes))) lc sc rc oc calls
       (O_range str (evidence H (o_record opts) (ByteRange off len) off len bytes))) =
      Inr (limited (O_range str (evidence H (o_record opts) (ByteRange off len) off len bytes)))"
    "1 \<le> sl \<Longrightarrow> sl \<le> 1000000 \<Longrightarrow> 1 \<le> c \<Longrightarrow> c \<le> 200 \<Longrightarrow> n \<le> 200 \<Longrightarrow>
      fst (deliver H operation opts fd (D_lines sl c ret (hex (H bytes))) lc sc rc oc calls
       (O_lines str n (evidence H (o_record opts) (LineRange sl c) off (length bytes) bytes))) =
      Inr (limited (O_lines str n (evidence H (o_record opts) (LineRange sl c) off (length bytes) bytes)))"
    "HeadingIdSchema hid \<Longrightarrow>
      fst (deliver H operation opts fd (D_heading hid ret (hex (H bytes))) lc sc rc oc calls
       (O_heading hid str (evidence H (o_record opts) (HeadingRange hid) off (length bytes) bytes))) =
      Inr (limited (O_heading hid str (evidence H (o_record opts) (HeadingRange hid) off (length bytes) bytes)))"
proof -
  have r: "record_ok (o_record opts)" using o by (simp add: opts_ok_def)
  then have b: "a_byteLength (o_record opts) \<le> 1048576" by (simp add: record_ok_def)
  have ret: "ReturnedRangeSchema ret" using rng b by (auto simp: ret_def ReturnedRangeSchema_def limits intro!: safe_small)
  note ev = range_evidence_ok [OF r ok rng] and bind = evidence_binds [OF enc]
  show "len = length bytes \<Longrightarrow> fst (deliver H operation opts fd (D_range ret ret (hex (H bytes))) lc sc rc oc calls
       (O_range str (evidence H (o_record opts) (ByteRange off len) off len bytes))) =
      Inr (limited (O_range str (evidence H (o_record opts) (ByteRange off len) off len bytes)))"
    using ev bind ret rng b by (intro delivered [OF o]) (auto simp: limits ret_def)
  show "1 \<le> sl \<Longrightarrow> sl \<le> 1000000 \<Longrightarrow> 1 \<le> c \<Longrightarrow> c \<le> 200 \<Longrightarrow> n \<le> 200 \<Longrightarrow>
      fst (deliver H operation opts fd (D_lines sl c ret (hex (H bytes))) lc sc rc oc calls
       (O_lines str n (evidence H (o_record opts) (LineRange sl c) off (length bytes) bytes))) =
      Inr (limited (O_lines str n (evidence H (o_record opts) (LineRange sl c) off (length bytes) bytes)))"
    using ev bind ret by (intro delivered [OF o]) (auto simp: limits)
  show "HeadingIdSchema hid \<Longrightarrow>
      fst (deliver H operation opts fd (D_heading hid ret (hex (H bytes))) lc sc rc oc calls
       (O_heading hid str (evidence H (o_record opts) (HeadingRange hid) off (length bytes) bytes))) =
      Inr (limited (O_heading hid str (evidence H (o_record opts) (HeadingRange hid) off (length bytes) bytes)))"
    using ev bind ret by (intro delivered [OF o]) (auto simp: limits)
qed

lemma covered_exactly:
  assumes "manifest_ok H csize (length source) m" "\<forall>c \<in> set (chunks m). entry_matches H source c"
    "lo \<le> hi" "hi < length (chunks m)"
  shows "buildAndVerifyCoveringChunks H m lo (int hi)
      (chunk_bytes m (lo * csize) (subarray (lo * csize) (min ((hi + 1) * csize) (length source)) source)) =
    Inr (Some (map (verified_of H m) [lo..<Suc hi]))"
proof -
  have "int hi < int (length (chunks m))" "nat (int hi + 1) = Suc hi" using assms(4) by simp_all
  then show ?thesis
    using cover_eq [OF assms(1)] source_bytes_match [OF assms(1,2)] assms(4) by (auto simp del: upt_Suc)
qed

end

section \<open>Byte ranges\<close>

definition range_spec :: "hashfn \<Rightarrow> artifact_record \<Rightarrow> byte list \<Rightarrow> nat \<Rightarrow> nat \<Rightarrow> inspection_output" where
  "range_spec H r source off len =
     (if length source < off + len then O_error AI_INTEGRITY_FAILURE
      else
        (let bytes = subarray off (off + len) source
         in case text_decode bytes of
              None \<Rightarrow> O_error AI_UNSUPPORTED
            | Some text \<Rightarrow> limited (O_range text (evidence H r (ByteRange off len) off len bytes))))"

context digest
begin

lemma range_read_refines:
  fixes opts off len source
  defines "r \<equiv> o_record opts"
  defines "c \<equiv> a_chunkSize r"
  defines "lo \<equiv> off div c" and "hi \<equiv> (off + len - 1) div c"
  assumes o: "opts_ok opts" and ok: "manifest_ok H c (length source) (record_manifest r)" and b: "a_byteLength r = length source"
    and src: "\<forall>c \<in> set (chunks (record_manifest r)). entry_matches H source c"
    and len: "1 \<le> len" "len \<le> 8192" "off + len \<le> length source"
    and cb: "cb = subarray (lo * c) (min ((hi + 1) * c) (length source)) source"
  shows "fst (range_bytes_body H opts (record_manifest r) off len lo hi (lo * c) cl cb eff) = Inr (range_spec H r source off len)"
proof -
  let ?m = "record_manifest r"
  have r: "record_ok r" using o by (simp add: opts_ok_def r_def)
  note ok' = ok [folded b, unfolded c_def]
  note cov = range_cover [OF r ok' len(1,2) len(3) [folded b], folded c_def, folded lo_def hi_def, unfolded b]
  have piece: "subarray (off - lo * c) (off - lo * c + len) cb = subarray off (off + len) source"
    unfolding cb using cov(4,5) by (subst subarray_of_subarray) auto
  have vs: "buildAndVerifyCoveringChunks H ?m lo (int hi) (chunk_bytes ?m (lo * c) cb) = Inr (Some (map (verified_of H ?m) [lo..<Suc hi]))"
    unfolding cb using ok src cov(1,2) by (intro covered_exactly) auto
  have n: "\<not> 16 < length (map (verified_of H ?m) [lo..<Suc hi])" using cov(1,3) by simp
  show ?thesis
  proof (cases "text_decode (subarray off (off + len) source)")
    case None
    then show ?thesis
      using len n by (simp add: range_bytes_body_def vs piece range_spec_def Let_def limits del: upt_Suc)
  next
    case (Some str)
    let ?b = "subarray off (off + len) source"
    have lb: "length ?b = len" using len by (simp add: length_subarray)
    have ev: "evidence H r (ByteRange off len) off len ?b = read_integrity r (ByteRange off len) lo hi
        \<lparr>ret_offset = off, ret_length = len\<rparr> (map (verified_of H ?m) [lo..<Suc hi]) (hex (H ?b))"
      by (simp only: evidence_def Let_def lo_def hi_def c_def)
    note d = read_delivered(1) [OF o ok' [unfolded r_def] _ _ _ text_encode_decode [OF Some], of off len, folded r_def]
    show ?thesis
      using len n d [unfolded lb ev] b
      by (simp add: range_bytes_body_def vs piece range_spec_def Some Let_def limits ev r_def [symmetric] del: upt_Suc)
  qed
qed

lemma range_refines:
  assumes s: "serves H deps rawContext aid r source" and inp: "ArtifactReadRangeInputSchema rawInput = Some (aid, off, len)"
  shows "fst (artifactReadRange H deps rawContext rawInput) = Inr (range_spec H r source off len)"
proof -
  obtain opts where rdy: "ready H deps rawContext aid r source opts" by (rule served [OF s])
  note o = readyD(1-8) [OF rdy] and art = readyD(9) [OF rdy] and rd = readyD(10) [OF rdy]
  from inp have l: "1 \<le> len" "len \<le> 8192"
    by (auto simp: ArtifactReadRangeInputSchema_def bind_eq_Some_conv z_nat_Some limits)
  let ?eff = "[E_resolve (o_context opts) aid]"
  have run: "artifactReadRange H deps rawContext rawInput = range_body H deps off len opts (record_manifest r) ?eff"
    by (simp add: artifactReadRange_def inp art)
  show ?thesis
  proof (cases "length source < off + len")
    case True
    then show ?thesis using o l by (auto simp: run range_body_def range_spec_def Let_def)
  next
    case False
    define c where "c = a_chunkSize r"
    define lo where "lo = off div c"
    define hi where "hi = (off + len - 1) div c"
    define cl where "cl = min ((hi + 1) * c) (length source) - lo * c"
    have in_range: "off + len \<le> a_byteLength r" using False o by simp
    note cov = range_cover [OF o(5) o(6) [folded o(4)] l in_range, folded c_def, folded lo_def hi_def, unfolded o(4), folded cl_def]
    have e: "lo * c + cl = min ((hi + 1) * c) (length source)" unfolding cl_def using cov(4,5) l(1) by linarith
    have "range_body H deps off len opts (record_manifest r) ?eff =
       range_bytes_body H opts (record_manifest r) off len lo hi (lo * c) cl
         (subarray (lo * c) (min ((hi + 1) * c) (length source)) source)
         (?eff @ [E_read (o_context opts) (internalLocator r) (a_objectVersionRef r) (lo * c) cl])"
      unfolding range_body_def Let_def o(2,4) c_def [symmetric] lo_def [symmetric] hi_def [symmetric] cl_def [symmetric]
      using False l(1) cov(6) e by (simp add: rd limits)
    then show ?thesis
      using range_read_refines [OF o(1), unfolded o(2), OF o(6,4,7) l, of off] False
      by (simp only: run lo_def hi_def c_def not_less)
  qed
qed

end

end
