(* ===== verification/Inspector_Lines.thy ===== *)
theory Inspector_Lines
  imports Inspector_Spec
begin

text \<open>
  Line and heading reads of a served source: what they return in terms of the lines of the source, split
  at line feeds.
\<close>

section \<open>Splitting at line feeds\<close>

fun split_lf :: "byte list \<Rightarrow> byte list list" where
  "split_lf [] = []"
| "split_lf (b # bs) =
     (if b = LF then [b] # split_lf bs
      else (case split_lf bs of [] \<Rightarrow> [[b]] | l # ls \<Rightarrow> (b # l) # ls))"

lemma split_lf_line: "LF \<notin> set xs \<Longrightarrow> split_lf (xs @ LF # rest) = (xs @ [LF]) # split_lf rest"
  by (induction xs) auto

lemma split_lf_last: "LF \<notin> set xs \<Longrightarrow> xs \<noteq> [] \<Longrightarrow> split_lf xs = [xs]"
proof (induction xs)
  case (Cons x xs)
  then show ?case by (cases "xs = []") auto
qed simp

lemma concat_split_lf [simp]: "concat (split_lf bs) = bs"
  by (induction bs) (auto split: list.split)

text \<open>Pieces that end in a line feed, the last one perhaps without, are the lines of their concatenation.\<close>

lemma split_lf_unique:
  assumes "\<forall>x \<in> set (butlast xss). \<exists>ys. x = ys @ [LF] \<and> LF \<notin> set ys"
    "xss \<noteq> [] \<longrightarrow> (\<exists>ys. last xss = ys @ [LF] \<and> LF \<notin> set ys) \<or> last xss \<noteq> [] \<and> LF \<notin> set (last xss)"
  shows "split_lf (concat xss) = xss"
  using assms
proof (induction xss)
  case (Cons x xss)
  show ?case
  proof (cases "xss = []")
    case True
    then show ?thesis using Cons.prems(2) split_lf_line [of _ "[]"] split_lf_last [of x] by auto
  next
    case False
    then obtain ys where "x = ys @ [LF]" "LF \<notin> set ys" using Cons.prems(1) by auto
    with Cons False show ?thesis by (simp add: split_lf_line)
  qed
qed simp

lemma split_lines:
  assumes "lines_ok b ls (length b)"
  shows "map (line_bytes b) ls = split_lf b"
proof -
  have piece: "(\<exists>ys. line_bytes b l = ys @ [LF] \<and> LF \<notin> set ys) \<or>
      line_bytes b l \<noteq> [] \<and> LF \<notin> set (line_bytes b l) \<and> line_end l = length b" if "l \<in> set ls" for l
  proof -
    have "line_ok b l" using assms that by (simp add: lines_ok_def)
    then consider "line_break b l = [LF]" | "line_break b l = [CR, LF]"
      | "newlineByteLength l = 0" "line_content b l \<noteq> []" "line_end l = length b"
      by (auto simp: line_ok_def)
    moreover have "LF \<notin> set (line_content b l)" using \<open>line_ok b l\<close> by (simp add: line_ok_def)
    ultimately show ?thesis
      by cases (auto simp: line_bytes_def line_break_def Let_def intro: exI [of _ "line_content b l @ [CR]"])
  qed
  have inner: "line_end (ls ! i) < length b" if "Suc i < length ls" for i
  proof -
    have "line_ok b (ls ! Suc i)" "l_byteStart (ls ! Suc i) = int (line_end (ls ! i))"
      using assms that by (auto simp: lines_ok_def)
    then show ?thesis using line_within(2,3) [of b "ls ! Suc i"] by linarith
  qed
  have "\<forall>x \<in> set (butlast (map (line_bytes b) ls)). \<exists>ys. x = ys @ [LF] \<and> LF \<notin> set ys"
  proof
    fix x
    assume "x \<in> set (butlast (map (line_bytes b) ls))"
    then obtain i where i: "Suc i < length ls" "x = line_bytes b (ls ! i)"
      by (auto simp: in_set_conv_nth nth_butlast less_diff_conv)
    then show "\<exists>ys. x = ys @ [LF] \<and> LF \<notin> set ys" using piece [of "ls ! i"] inner [of i] by auto
  qed
  moreover have "map (line_bytes b) ls \<noteq> [] \<longrightarrow> (\<exists>ys. last (map (line_bytes b) ls) = ys @ [LF] \<and> LF \<notin> set ys) \<or>
      last (map (line_bytes b) ls) \<noteq> [] \<and> LF \<notin> set (last (map (line_bytes b) ls))"
    using piece [of "last ls"] by (auto simp: last_map)
  ultimately have "split_lf (concat (map (line_bytes b) ls)) = map (line_bytes b) ls" by (rule split_lf_unique)
  then show ?thesis using lines_cover [OF assms] by simp
qed

lemma line_selection:
  assumes ok: "lines_ok b ls (length b)" and i: "i < length ls" "1 \<le> n" "i + n \<le> length ls"
  shows "take n (drop i (split_lf b)) = map (\<lambda>k. line_bytes b (ls ! k)) [i..<i + n]"
    "length (concat (take i (split_lf b))) = nat (l_byteStart (ls ! i))"
    "concat (take n (drop i (split_lf b))) = subarray (nat (l_byteStart (ls ! i))) (line_end (ls ! (i + n - 1))) b"
    "int (length (concat (take n (drop i (split_lf b))))) =
       l_byteStart (ls ! (i + n - 1)) + contentByteLength (ls ! (i + n - 1)) + newlineByteLength (ls ! (i + n - 1)) - l_byteStart (ls ! i)"
    "nat (l_byteStart (ls ! i)) + length (concat (take n (drop i (split_lf b)))) \<le> length b"
    "1 \<le> length (concat (take n (drop i (split_lf b))))" "0 \<le> l_byteStart (ls ! i)"
proof -
  let ?j = "i + n - 1"
  have j: "i \<le> ?j" "?j < length ls" "Suc ?j = i + n" using i by auto
  have lo: "line_ok b (ls ! i)" "line_ok b (ls ! ?j)" using ok i(1) j(2) by (simp_all add: lines_ok_def)
  note wi = line_within [OF lo(1)] and wj = line_within [OF lo(2)]
  have mono: "nat (l_byteStart (ls ! i)) \<le> nat (l_byteStart (ls ! ?j))" by (rule lines_starts_mono [OF ok j(1,2)])
  show sel: "take n (drop i (split_lf b)) = map (\<lambda>k. line_bytes b (ls ! k)) [i..<i + n]"
    using i by (intro nth_equalityI) (auto simp flip: split_lines [OF ok])
  show run: "concat (take n (drop i (split_lf b))) = subarray (nat (l_byteStart (ls ! i))) (line_end (ls ! ?j)) b"
    using lines_run [OF ok j(1,2)] unfolding sel j(3) by simp
  have "length (concat (take n (drop i (split_lf b)))) = line_end (ls ! ?j) - nat (l_byteStart (ls ! i))"
    using wj(2) by (simp only: run length_subarray)  linarith
  with wi wj mono show "int (length (concat (take n (drop i (split_lf b))))) =
       l_byteStart (ls ! ?j) + contentByteLength (ls ! ?j) + newlineByteLength (ls ! ?j) - l_byteStart (ls ! i)"
    "nat (l_byteStart (ls ! i)) + length (concat (take n (drop i (split_lf b)))) \<le> length b"
    "1 \<le> length (concat (take n (drop i (split_lf b))))" "0 \<le> l_byteStart (ls ! i)" by linarith+
  show "length (concat (take i (split_lf b))) = nat (l_byteStart (ls ! i))"
  proof (cases i)
    case (Suc k)
    then have k: "0 \<le> k" "k < length ls" using i(1) by auto
    have "0 < length ls" using k by linarith
    then have z: "l_byteStart (ls ! 0) = 0" using ok by (simp add: lines_ok_def)
    have "take i (split_lf b) = map (\<lambda>k. line_bytes b (ls ! k)) [0..<Suc k]"
      using i(1) Suc by (intro nth_equalityI) (auto simp flip: split_lines [OF ok] simp del: upt_Suc)
    then have "concat (take i (split_lf b)) = subarray 0 (line_end (ls ! k)) b"
      using lines_run [OF ok k] z by simp
    moreover have "l_byteStart (ls ! i) = int (line_end (ls ! k))" using ok i(1) Suc by (auto simp: lines_ok_def)
    moreover have "line_ok b (ls ! k)" using ok k by (simp add: lines_ok_def)
    ultimately show ?thesis using line_within(2) [of b "ls ! k"] by (simp add: length_subarray)
  qed (use ok i in \<open>auto simp: lines_ok_def\<close>)
qed

section \<open>Covering chunks of a whole source\<close>

context digest
begin

lemma whole_cover:
  assumes "manifest_ok H csize (length source) m" "\<forall>c \<in> set (chunks m). entry_matches H source c"
    "hi < length (chunks m)"
  shows "buildAndVerifyCoveringChunks H m lo (int hi) (chunk_bytes m 0 source) =
    Inr (Some (map (verified_of H m) [lo..<Suc hi]))"
proof -
  let ?n = "length (chunks m) - 1"
  note c = manifest_ok_count [OF assms(1)]
  have "0 < csize" "ceil_div (int (length source)) (int csize) = int (length (chunks m))"
    using assms(1) c(1) by (auto simp: manifest_ok_def)
  then have "int (length source) \<le> int (length (chunks m)) * int csize"
    using ceil_div_bounds(1) [of "int csize" "int (length source)"] by (simp add: mult.commute)
  then have "length source \<le> length (chunks m) * csize" by (simp flip: of_nat_mult)
  then have "length source \<le> (?n + 1) * csize" using assms(3) by (cases "length (chunks m)") simp_all
  then have "subarray (0 * csize) (min ((?n + 1) * csize) (length source)) source = source" by (simp add: subarray_def)
  then have "\<forall>i \<in> {lo..<nat (int hi + 1)}. bytes_match H (chunks m ! i) (the (chunk_bytes m 0 source i))"
    using source_bytes_match [OF assms(1,2), of 0 _ ?n] assms(3) by auto
  moreover have "int hi < int (length (chunks m))" "nat (int hi + 1) = Suc hi" using assms(3) by simp_all
  ultimately show ?thesis using cover_eq [OF assms(1)] by (simp del: upt_Suc)
qed

end

section \<open>Lines\<close>

definition past_end :: "hashfn \<Rightarrow> artifact_record \<Rightarrow> byte list \<Rightarrow> nat \<Rightarrow> nat \<Rightarrow> inspection_output" where
  "past_end H r source startLine count =
     (let n = a_chunkCount r - 1;
          out = O_lines [] 0 (read_integrity r (LineRange startLine count) n n
            \<lparr>ret_offset = length source, ret_length = 0\<rparr> [verified_of H (record_manifest r) n] (hex (H [])))
      in if withinArtifactInspectionResponseByteLimit (output_val out) then out else O_error AI_INTERNAL_ERROR)"

definition lines_answer :: "hashfn \<Rightarrow> artifact_record \<Rightarrow> byte list \<Rightarrow> nat \<Rightarrow> nat \<Rightarrow> inspection_output" where
  "lines_answer H r source startLine count =
     (let ls = split_lf source; selected = take count (drop (startLine - 1) ls); bytes = concat selected
      in if ls = [] then O_error AI_INVALID_REQUEST
         else if selected = [] then past_end H r source startLine count
         else if MAX_RANGE_BYTES < length bytes then O_error AI_RESPONSE_LIMIT_EXCEEDED
         else limited (O_lines (the (text_decode bytes)) (length selected)
                (evidence H r (LineRange startLine count) (length (concat (take (startLine - 1) ls))) (length bytes) bytes)))"

definition lines_spec ::
    "hashfn \<Rightarrow> strfn \<Rightarrow> strfn \<Rightarrow> artifact_record \<Rightarrow> byte list \<Rightarrow> nat \<Rightarrow> nat \<Rightarrow> inspection_output" where
  "lines_spec H nfc lower r source startLine count =
     (if \<not> isSupportedLineMediaType (a_mediaType r) then O_error AI_UNSUPPORTED
      else if MAX_LINE_SOURCE_SCAN_BYTES < length source then O_error AI_RESPONSE_LIMIT_EXCEEDED
      else case buildArtifactTextIndex H nfc lower (VBytes source) (VStr (a_mediaType r)) of
             Inl e \<Rightarrow> O_error (mapArtifactTextIndexError e)
           | Inr _ \<Rightarrow> lines_answer H r source startLine count)"

context digest
begin

lemma past_end_refines:
  assumes o: "opts_ok opts" and ok: "manifest_ok H (a_chunkSize (o_record opts)) (length source) m"
    and m: "m = record_manifest (o_record opts)" "a_byteLength (o_record opts) = length source"
      "\<forall>c \<in> set (chunks m). entry_matches H source c"
    and s: "source \<noteq> []" "1 \<le> sl" "sl \<le> 1000000" "1 \<le> c" "c \<le> 200"
  shows "fst (lines_past_end H opts m sl c source eff) = Inr (past_end H (o_record opts) source sl c)"
proof -
  let ?r = "o_record opts"
  have r: "record_ok ?r" using o by (simp add: opts_ok_def)
  have sz: "a_chunkSize ?r \<in> {1024, 4096, 8192}" "int (a_chunkCount ?r) = ceil_div (int (length source)) (int (a_chunkSize ?r))"
    using r m by (auto simp: record_ok_def allowed_sizes)
  obtain n where n: "a_chunkCount ?r = Suc n"
    using sz ceil_div_eq_0 [of "int (a_chunkSize ?r)" "int (length source)"] s(1) by (cases "a_chunkCount ?r") auto
  have cov: "buildAndVerifyCoveringChunks H m n (int n) (chunk_bytes m 0 source) = Inr (Some [verified_of H m n])"
    using whole_cover [OF ok m(3), of n n] n m(1) by simp
  have b: "length source \<le> (n + 1) * a_chunkSize ?r" "n * a_chunkSize ?r < length source"
    using ceil_div_bounds(1) [of "int (a_chunkSize ?r)" "int (length source)"] sz n
      manifest_entry(3) [OF ok, of n] m(1) by (auto simp: mult.commute simp flip: of_nat_mult)
  let ?out = "O_lines [] 0 (read_integrity ?r (LineRange sl c) n n \<lparr>ret_offset = length source, ret_length = 0\<rparr>
      [verified_of H m n] (hex (H [])))"
  have "PartialReadIntegritySchema (read_integrity ?r (LineRange sl c) n n \<lparr>ret_offset = length source, ret_length = 0\<rparr>
      (map (verified_of H m) [n..<Suc n]) (hex (H [])))"
    using r ok m n b s by (intro integrity_ok) (auto simp: limits)
  then have "success_schema H ?out"
    by (simp add: bindReturnedDataToIntegrity_def sha256HexOfUtf8_def read_integrity_def limits)
  moreover have "ArtifactInspectionReceiptSchema (buildReceiptBase opts None
      (D_lines sl c \<lparr>ret_offset = length source, ret_length = 0\<rparr> (hex (H []))))"
    using o s r m by (intro receipt_ok) (auto simp: opts_ok_def ReturnedRangeSchema_def record_ok_def limits intro!: safe_small)
  ultimately show ?thesis
    using n cov m
    by (simp add: lines_past_end_def past_end_def Let_def deliver_checked_def output_schema_def succeed_def emitReceiptSafely_def
        EMPTY_BYTES_SHA256_HEX_def)
qed

lemma lines_selected_refines:
  assumes o: "opts_ok opts" and ok: "manifest_ok H (a_chunkSize (o_record opts)) (length source) m"
    and m: "m = record_manifest (o_record opts)" "a_byteLength (o_record opts) = length source"
      "\<forall>c \<in> set (chunks m). entry_matches H source c"
    and idx: "buildArtifactTextIndex H nfc lower (VBytes source) (VStr mt) = Inr idx"
    and s: "sl \<le> length (lines idx)" "1 \<le> sl" "sl \<le> 1000000" "1 \<le> c" "c \<le> 200"
  shows "fst (lines_selected H nfc lower opts m sl c source idx eff) = Inr (lines_answer H (o_record opts) source sl c)"
proof -
  let ?r = "o_record opts"
  define i where "i = sl - 1"
  define n where "n = min c (length (lines idx) - i)"
  note f = build_ok [OF idx] and st = build_structure [OF idx]
  have i: "i < length (lines idx)" "1 \<le> n" "n \<le> 200" "i + n \<le> length (lines idx)" "int sl = int i + 1" "sl = Suc i"
    using s by (auto simp: i_def n_def)
  have sel: "take c (drop i (split_lf source)) = take n (drop i (split_lf source))"
    by (simp add: n_def min_def flip: split_lines [OF st(1)])
  note L = line_selection [OF st(1) i(1,2,4)]
  define bytes where "bytes = concat (take n (drop i (split_lf source)))"
  define off where "off = nat (l_byteStart (lines idx ! i))"
  have count: "min c (nat (lineCount idx) - i) = n" using f(10) by (simp add: n_def i_def)
  note rd = read_lines_built [OF idx i(1-4), folded i(5) L(1), folded bytes_def]
  obtain fl ll where el: "elem_at (lines idx) i = Some fl" "elem_at (lines idx) (i + n - 1) = Some ll"
    and start: "l_byteStart fl = int off" and sum: "l_byteStart ll + contentByteLength ll + newlineByteLength ll = int off + int (length bytes)"
  proof
    show "elem_at (lines idx) i = Some (lines idx ! i)" "elem_at (lines idx) (i + n - 1) = Some (lines idx ! (i + n - 1))"
      using i(1,2,4) by (simp_all add: elem_at_def)
    show "l_byteStart (lines idx ! i) = int off" using L(7) by (simp add: off_def)
    with L(4) show "l_byteStart (lines idx ! (i + n - 1)) + contentByteLength (lines idx ! (i + n - 1)) +
        newlineByteLength (lines idx ! (i + n - 1)) = int off + int (length bytes)" unfolding bytes_def by linarith
  qed
  have ls: "split_lf source \<noteq> []" "take n (drop i (split_lf source)) \<noteq> []" "length (take n (drop i (split_lf source))) = n"
    using i L(1) by auto
  show ?thesis
  proof (cases "8192 < length bytes")
    case True
    then show ?thesis
      using rd ls
      by (simp add: lines_selected_def count [unfolded i_def One_nat_def] Let_def lines_answer_def sel [unfolded i_def One_nat_def]
          bytes_def [symmetric, unfolded i_def One_nat_def] i_def limits)
  next
    case False
    have r: "record_ok ?r" using o by (simp add: opts_ok_def)
    note ok' = ok [folded m(2), unfolded m(1)]
    have rng: "1 \<le> length bytes" "length bytes \<le> 8192" "off + length bytes \<le> a_byteLength ?r"
      using L(5,6) False m(2) by (simp_all add: off_def bytes_def)
    define lo where "lo = off div a_chunkSize ?r"
    define hi where "hi = (off + length bytes - 1) div a_chunkSize ?r"
    note cov = range_cover [OF r ok' rng, folded lo_def hi_def]
    let ?req = "LineRange sl c" and ?ret = "\<lparr>ret_offset = off, ret_length = length bytes\<rparr>"
    let ?out = "O_lines (the (text_decode bytes)) n (evidence H ?r ?req off (length bytes) bytes)"
    have ends: "off div a_chunkSize ?r = lo" "(int off + int (length bytes) - 1) div int (a_chunkSize ?r) = int hi"
      using rng(1) by (simp_all add: lo_def hi_def zdiv_int of_nat_diff)
    have vs: "buildAndVerifyCoveringChunks H m lo (int hi) (chunk_bytes m 0 source) = Inr (Some (map (verified_of H m) [lo..<Suc hi]))"
      using cov(2) m(1) by (intro whole_cover [OF ok m(3)]) simp
    have dec: "text_decode bytes \<noteq> None"
      using lines_decode [OF f(4) st(1), of i "i + n - 1"] i L(3) by (simp add: bytes_def)
    have ev: "evidence H ?r ?req off (length bytes) bytes =
        read_integrity ?r ?req lo hi ?ret (map (verified_of H m) [lo..<Suc hi]) (hex (H bytes))"
      by (simp only: evidence_def Let_def lo_def hi_def m(1))
    note d = read_delivered(2) [OF o ok' rng encode_the_decode [OF dec] s(2-5) i(3)]
    have n16: "\<not> 16 < length (map (verified_of H m) [lo..<Suc hi])" using cov(1,3) by simp
    have ans: "lines_answer H ?r source sl c = limited ?out"
      using False ls L(2)
      by (simp add: lines_answer_def Let_def i_def [symmetric, unfolded One_nat_def] sel bytes_def [symmetric] off_def limits)
    show ?thesis
      unfolding lines_selected_def Let_def i_def [symmetric] count rd el
      using False n16 d [unfolded ev] ends vs encode_the_decode [OF dec]
      by (simp add: ans ev limits start sum del: upt_Suc)
  qed
qed

lemma lines_refines:
  assumes s: "serves H deps rawContext aid r source" and inp: "ArtifactReadLinesInputSchema rawInput = Some (aid, sl, c)"
  shows "fst (artifactReadLines H nfc lower deps rawContext rawInput) = Inr (lines_spec H nfc lower r source sl c)"
proof -
  obtain opts where rdy: "ready H deps rawContext aid r source opts" by (rule served [OF s])
  note o = readyD(1-8) [OF rdy] and art = readyD(9) [OF rdy] and src = ready_source [OF rdy]
  from inp have l: "1 \<le> sl" "sl \<le> 1000000" "1 \<le> c" "c \<le> 200"
    by (auto simp: ArtifactReadLinesInputSchema_def bind_eq_Some_conv z_nat_Some limits)
  have run: "artifactReadLines H nfc lower deps rawContext rawInput =
      lines_body H nfc lower deps sl c opts (record_manifest r) [E_resolve (o_context opts) aid]"
    by (simp add: artifactReadLines_def inp art)
  have bytes: "fst (lines_bytes_body H nfc lower opts (record_manifest r) sl c source eff) =
      Inr (case buildArtifactTextIndex H nfc lower (VBytes source) (VStr (a_mediaType r)) of
             Inl e \<Rightarrow> O_error (mapArtifactTextIndexError e) | Inr _ \<Rightarrow> lines_answer H r source sl c)" for eff
  proof (cases "buildArtifactTextIndex H nfc lower (VBytes source) (VStr (a_mediaType r))")
    case (Inl e)
    then show ?thesis by (simp add: lines_bytes_body_def src Let_def o(2))
  next
    case (Inr idx)
    note f = build_ok [OF Inr] and st = build_structure [OF Inr]
    have sp: "length (split_lf source) = length (lines idx)" using split_lines [OF st(1)] by (metis length_map)
    note m = o(6) [folded o(2)] refl o(4) [folded o(2)] o(7) [folded o(2)]
    show ?thesis
    proof (cases "length (lines idx) < sl")
      case True
      then have past: "lineCount idx \<le> int sl - 1" "take c (drop (sl - 1) (split_lf source)) = []" using f(10) sp by auto
      show ?thesis
      proof (cases "source = []")
        case True
        then have "a_chunkCount r = 0" "split_lf source = []" using o(4,5) by (auto simp: record_ok_def ceil_div_def)
        then show ?thesis
          using past by (simp add: lines_bytes_body_def src Let_def o(2) Inr lines_past_end_def lines_answer_def)
      next
        case False
        then have "split_lf source \<noteq> []" by (metis concat_split_lf concat.simps(1))
        then show ?thesis
          using past past_end_refines [OF o(1) m False l, unfolded o(2)] False
          by (simp add: lines_bytes_body_def src Let_def o(2) Inr lines_answer_def)
      qed
    next
      case False
      then show ?thesis
        using lines_selected_refines [OF o(1) m Inr _ l, unfolded o(2)] f(10)
        by (simp add: lines_bytes_body_def src Let_def o(2) Inr not_less)
    qed
  qed
  show ?thesis
    using bytes by (simp add: run lines_body_def lines_spec_def Let_def o(2,4) src limits split: sum.split)
qed

end

section \<open>Headings\<close>

lemma heading_step_positive:
  assumes "heading_step nfc lower source l st = Inr st'" "\<forall>h \<in> set (s_headings st). 0 < h_byteLength h"
  shows "\<forall>h \<in> set (s_headings st'). 0 < h_byteLength h"
proof (cases "0 < contentByteLength l")
  case False
  then have "subarray (nat (l_byteStart l)) (nat (l_byteStart l) + nat (contentByteLength l)) source = []" by (simp add: subarray_def)
  moreover have "decode [] = Inr []" by (simp add: decode_def text_decode_def)
  moreover have "parseAtxHeading [] = Inr None" by (simp add: parseAtxHeading_def Let_def)
  ultimately show ?thesis using assms by (auto simp: heading_step_def Let_def split: option.splits if_splits)
qed (use assms in \<open>auto simp: heading_step_def Let_def split: sum.splits option.splits if_splits prod.splits\<close>)

lemma heading_loop_positive:
  "heading_loop nfc lower source ls st = Inr st' \<Longrightarrow> \<forall>h \<in> set (s_headings st). 0 < h_byteLength h \<Longrightarrow>
   \<forall>h \<in> set (s_headings st'). 0 < h_byteLength h"
proof (induction ls arbitrary: st)
  case (Cons l ls)
  then obtain st1 where "heading_step nfc lower source l st = Inr st1" "heading_loop nfc lower source ls st1 = Inr st'"
    by (auto split: sum.splits)
  with Cons heading_step_positive show ?case by blast
qed simp

lemma headings_positive:
  assumes "scanHeadings nfc lower source ls mt = Inr hs" "h \<in> set hs"
  shows "0 < h_byteLength h"
  using assms heading_loop_positive [of nfc lower source ls "\<lparr>s_headings = [], s_ids = [], s_fence = None\<rparr>"]
  by (auto simp: scanHeadings_def split: if_splits sum.splits)

text \<open>The specification of headings, on the pieces of the source between line feeds: a line without its break.\<close>

definition without_break :: "byte list \<Rightarrow> byte list" where
  "without_break x =
     (if x = [] \<or> last x \<noteq> LF then x
      else (let y = butlast x in if y \<noteq> [] \<and> last y = CR then butlast y else y))"

text \<open>
  The identifiers of the headings with the number of the line each stands on: a line inside a fence is no heading, a line
  that opens a fence neither, any other is one by its own text alone.
\<close>

fun heading_lines ::
    "strfn \<Rightarrow> strfn \<Rightarrow> jsstring list \<Rightarrow> fence option \<Rightarrow> nat \<Rightarrow> byte list list \<Rightarrow> (jsstring \<times> nat) list" where
  "heading_lines nfc lower used f n [] = []"
| "heading_lines nfc lower used f n (x # xs) =
     (let txt = the (text_decode (without_break x))
      in case f of
           Some opening \<Rightarrow> heading_lines nfc lower used (if isClosingFence txt opening then None else f) (Suc n) xs
         | None \<Rightarrow>
             (case parseFence txt of
                Some opening \<Rightarrow> heading_lines nfc lower used (Some opening) (Suc n) xs
              | None \<Rightarrow>
                  (case parseAtxHeading txt of
                     Inr (Some (lev, raw)) \<Rightarrow>
                       (case nextHeadingId (headingSlug (normalizedHeadingText nfc lower raw)) used of
                          (hid, used') \<Rightarrow> (hid, n) # heading_lines nfc lower used' None (Suc n) xs)
                   | _ \<Rightarrow> heading_lines nfc lower used None (Suc n) xs)))"

text \<open>What the text of such a line looks like.\<close>

definition atx_line :: "jsstring \<Rightarrow> bool" where
  "atx_line t \<longleftrightarrow>
     (\<exists>i \<le> 3. \<exists>lev \<in> {1..6}. \<exists>rest. t = replicate i SPACE @ replicate lev HASH @ SPACE # rest)"

lemma takeWhile_replicate: "takeWhile (\<lambda>u. u = c) s = replicate (length (takeWhile (\<lambda>u. u = c) s)) c"
  by (induction s) auto

lemma parsed_atx_line:
  assumes "parseAtxHeading t = Inr (Some (lev, raw))"
  shows "atx_line t"
proof -
  let ?i = "countLeadingSpaces t"
  let ?r = "drop ?i t"
  from assms have p: "?i \<le> 3" "lev = length (takeWhile (\<lambda>u. u = HASH) (take 7 ?r))" "1 \<le> lev" "lev \<le> 6" "elem_at t (?i + lev) = Some SPACE"
    by (auto simp: parseAtxHeading_def Let_def limits not_less Suc_le_eq split: if_splits)
  have "take ?i t = replicate ?i SPACE"
    unfolding countLeadingSpaces_def using takeWhile_replicate [of SPACE t] by (metis takeWhile_eq_take)
  moreover have "take lev (take 7 ?r) = replicate lev HASH"
    unfolding p(2) using takeWhile_replicate [of HASH "take 7 ?r"] by (metis takeWhile_eq_take)
  then have "take lev ?r = replicate lev HASH" using p(4) by (simp add: min_def)
  moreover have "drop lev ?r = SPACE # drop (Suc lev) ?r"
    using p(5) Cons_nth_drop_Suc [of lev ?r] by (auto simp: elem_at_eq_Some_iff add.commute)
  ultimately have "t = replicate ?i SPACE @ replicate lev HASH @ SPACE # drop (Suc lev) ?r"
    by (metis append_take_drop_id)
  with p show ?thesis unfolding atx_line_def by (metis atLeastAtMost_iff)
qed

lemma heading_lines_atx:
  "(hid, k) \<in> set (heading_lines nfc lower used f n xs) \<Longrightarrow>
   n \<le> k \<and> k - n < length xs \<and> atx_line (the (text_decode (without_break (xs ! (k - n)))))"
proof (induction xs arbitrary: used f n)
  case (Cons x xs)
  have "(\<exists>used' f'. (hid, k) \<in> set (heading_lines nfc lower used' f' (Suc n) xs)) \<or>
      k = n \<and> atx_line (the (text_decode (without_break x)))"
    using Cons.prems by (auto simp: Let_def dest: parsed_atx_line split: option.splits sum.splits prod.splits)
  then show ?case
  proof
    assume "\<exists>used' f'. (hid, k) \<in> set (heading_lines nfc lower used' f' (Suc n) xs)"
    then have ih: "Suc n \<le> k" "k - Suc n < length xs" "atx_line (the (text_decode (without_break (xs ! (k - Suc n)))))"
      using Cons.IH by blast+
    then have "k - n = Suc (k - Suc n)" by linarith
    with ih show ?thesis by simp
  qed simp
qed simp

lemma heading_place:
  "map_of (heading_lines nfc lower used f 0 xs) hid = Some n \<Longrightarrow>
   n < length xs \<and> atx_line (the (text_decode (without_break (xs ! n))))"
  by (drule map_of_SomeD, drule heading_lines_atx) simp

lemma content_without_break:
  assumes "line_ok b l"
  shows "without_break (line_bytes b l) = line_content b l"
proof -
  from assms have c: "LF \<notin> set (line_content b l)" by (simp add: line_ok_def)
  from assms consider "line_break b l = [LF]" "line_content b l = [] \<or> last (line_content b l) \<noteq> CR"
    | "line_break b l = [CR, LF]" | "newlineByteLength l = 0" "line_content b l \<noteq> []"
    by (auto simp: line_ok_def)
  then show ?thesis
  proof cases
    case 3
    then have "last (line_content b l) \<noteq> LF" using c last_in_set by metis
    then show ?thesis using 3 by (simp add: without_break_def line_bytes_def line_break_def Let_def)
  qed (auto simp: without_break_def line_bytes_def Let_def butlast_append)
qed

lemma heading_loop_lines:
  "heading_loop nfc lower source ls st = Inr st' \<Longrightarrow> \<forall>l \<in> set ls. line_ok source l \<Longrightarrow>
   \<forall>j < length ls. lineNumber (ls ! j) = int (n + j) + 1 \<Longrightarrow>
   map (\<lambda>h. (headingId h, nat (h_lineNumber h) - 1)) (s_headings st') =
   map (\<lambda>h. (headingId h, nat (h_lineNumber h) - 1)) (s_headings st) @
     heading_lines nfc lower (s_ids st) (s_fence st) n (map (line_bytes source) ls)"
proof (induction ls arbitrary: st n)
  case (Cons l ls)
  from Cons.prems(1) obtain st1 where st1: "heading_step nfc lower source l st = Inr st1"
    "heading_loop nfc lower source ls st1 = Inr st'" by (auto split: sum.splits)
  have "\<forall>j < length ls. lineNumber (ls ! j) = int (Suc n + j) + 1"
    using Cons.prems(3) by (metis Suc_less_eq add_Suc add_Suc_right length_Cons nth_Cons_Suc)
  note ih = Cons.IH [OF st1(2) _ this]
  have num: "lineNumber l = int n + 1" using Cons.prems(3) by force
  obtain t where t: "text_decode (line_content source l) = Some t"
    using st1(1) by (auto simp: heading_step_def decode_def line_content_def Let_def split: option.splits)
  then have dec: "decode (subarray (nat (l_byteStart l)) (nat (l_byteStart l) + nat (contentByteLength l)) source) = Inr t"
    by (simp add: decode_def line_content_def)
  have piece: "the (text_decode (without_break (line_bytes source l))) = t"
    using content_without_break [of source l] Cons.prems(2) t by simp
  show ?case
    using st1(1) ih Cons.prems(2) num unfolding heading_step_def dec Let_def
    by (auto simp: piece Let_def split: option.splits sum.splits prod.splits if_splits)
qed simp

lemma built_heading_lines:
  assumes "buildArtifactTextIndex H nfc lower (VBytes source) (VStr TEXT_MARKDOWN) = Inr idx"
  shows "map (\<lambda>h. (headingId h, nat (h_lineNumber h) - 1)) (headings idx) = heading_lines nfc lower [] None 0 (split_lf source)"
proof -
  note f = build_ok [OF assms] and st = build_structure [OF assms]
  from f(6) obtain st' where l: "heading_loop nfc lower source (lines idx) \<lparr>s_headings = [], s_ids = [], s_fence = None\<rparr> = Inr st'"
    "headings idx = s_headings st'"
    by (auto simp: scanHeadings_def TEXT_MARKDOWN_def TEXT_PLAIN_def js_def split: sum.splits)
  show ?thesis
    using heading_loop_lines [OF l(1), of 0] st(1) unfolding l(2) split_lines [OF st(1), symmetric] by (simp add: lines_ok_def)
qed

lemma map_of_find: "map_of (map (\<lambda>x. (key x, f x)) xs) k = map_option f (find (\<lambda>x. key x = k) xs)"
  by (induction xs) auto

text \<open>The heading the index holds for an identifier is the line the specification names, with its place in the source.\<close>

lemma found_heading:
  assumes b: "buildArtifactTextIndex H nfc lower (VBytes source) (VStr TEXT_MARKDOWN) = Inr idx"
    and h: "find (\<lambda>h. headingId h = hid) (headings idx) = Some h"
  shows "\<exists>n < length (split_lf source). map_of (heading_lines nfc lower [] None 0 (split_lf source)) hid = Some n
    \<and> nat (h_byteStart h) = length (concat (take n (split_lf source)))
    \<and> subarray (nat (h_byteStart h)) (nat (h_byteStart h) + nat (h_byteLength h)) source = without_break (split_lf source ! n)"
proof -
  note st = build_structure [OF b]
  have "h \<in> set (headings idx)" using h by (auto simp: find_Some_iff)
  then obtain l where l: "l \<in> set (lines idx)" "h_lineNumber h = lineNumber l" "h_byteStart h = l_byteStart l"
    "h_byteLength h = contentByteLength l" using st(2) by (auto simp: headings_ok_def heading_ok_def)
  then obtain n where n: "n < length (lines idx)" "l = lines idx ! n" by (auto simp: in_set_conv_nth)
  have num: "lineNumber l = int n + 1" using st(1) n by (simp add: lines_ok_def)
  have ok: "line_ok source l" using st(1) l(1) by (simp add: lines_ok_def)
  have sp: "length (split_lf source) = length (lines idx)" "split_lf source ! n = line_bytes source l"
    using n by (simp_all flip: split_lines [OF st(1)])
  have "map_of (heading_lines nfc lower [] None 0 (split_lf source)) hid =
      map_option (\<lambda>h. nat (h_lineNumber h) - 1) (find (\<lambda>h. headingId h = hid) (headings idx))"
    unfolding built_heading_lines [OF b, symmetric] by (rule map_of_find)
  then have "map_of (heading_lines nfc lower [] None 0 (split_lf source)) hid = Some n" using h l(2) num by simp
  moreover have "nat (h_byteStart h) = length (concat (take n (split_lf source)))"
    using line_selection(2) [OF st(1) n(1), of 1] n l(3) by simp
  moreover have "subarray (nat (h_byteStart h)) (nat (h_byteStart h) + nat (h_byteLength h)) source = line_content source l"
    by (simp add: l(3,4) line_content_def)
  ultimately show ?thesis using n(1) sp content_without_break [OF ok] by auto
qed

text \<open>The answer for the line a heading stands on.\<close>

definition heading_answer :: "hashfn \<Rightarrow> artifact_record \<Rightarrow> byte list \<Rightarrow> jsstring \<Rightarrow> nat option \<Rightarrow> inspection_output" where
  "heading_answer H r source hid place =
     (case place of
        None \<Rightarrow> O_error AI_RESOURCE_UNAVAILABLE
      | Some n \<Rightarrow>
          (let ls = split_lf source; off = length (concat (take n ls)); bytes = without_break (ls ! n)
           in if MAX_RANGE_BYTES < length bytes then O_error AI_RESPONSE_LIMIT_EXCEEDED
              else limited (O_heading hid (the (text_decode bytes)) (evidence H r (HeadingRange hid) off (length bytes) bytes))))"

definition heading_spec :: "hashfn \<Rightarrow> strfn \<Rightarrow> strfn \<Rightarrow> artifact_record \<Rightarrow> byte list \<Rightarrow> jsstring \<Rightarrow> inspection_output" where
  "heading_spec H nfc lower r source hid =
     (if a_mediaType r \<noteq> TEXT_MARKDOWN then O_error AI_UNSUPPORTED
      else if MAX_LINE_SOURCE_SCAN_BYTES < length source then O_error AI_RESPONSE_LIMIT_EXCEEDED
      else case buildArtifactTextIndex H nfc lower (VBytes source) (VStr TEXT_MARKDOWN) of
             Inl e \<Rightarrow> O_error (mapArtifactTextIndexError e)
           | Inr _ \<Rightarrow> heading_answer H r source hid (map_of (heading_lines nfc lower [] None 0 (split_lf source)) hid))"

text \<open>The same answer, read off the index.\<close>

definition indexed_answer :: "hashfn \<Rightarrow> artifact_record \<Rightarrow> byte list \<Rightarrow> jsstring \<Rightarrow> text_heading list \<Rightarrow> inspection_output" where
  "indexed_answer H r source hid hs =
     (case find (\<lambda>h. headingId h = hid) hs of
        None \<Rightarrow> O_error AI_RESOURCE_UNAVAILABLE
      | Some h \<Rightarrow>
          (let off = nat (h_byteStart h); bytes = subarray off (off + nat (h_byteLength h)) source
           in if MAX_RANGE_BYTES < length bytes then O_error AI_RESPONSE_LIMIT_EXCEEDED
              else limited (O_heading hid (the (text_decode bytes)) (evidence H r (HeadingRange hid) off (length bytes) bytes))))"

lemma indexed_answer_eq:
  assumes "buildArtifactTextIndex H nfc lower (VBytes source) (VStr TEXT_MARKDOWN) = Inr idx"
  shows "indexed_answer H r source hid (headings idx) =
    heading_answer H r source hid (map_of (heading_lines nfc lower [] None 0 (split_lf source)) hid)"
proof (cases "find (\<lambda>h. headingId h = hid) (headings idx)")
  case None
  then show ?thesis
    unfolding built_heading_lines [OF assms, symmetric] map_of_find by (simp add: indexed_answer_def heading_answer_def)
next
  case (Some h)
  from found_heading [OF assms Some] show ?thesis by (auto simp: indexed_answer_def heading_answer_def Some Let_def)
qed

context digest
begin

lemma heading_selected_refines:
  assumes o: "opts_ok opts" and ok: "manifest_ok H (a_chunkSize (o_record opts)) (length source) m"
    and m: "m = record_manifest (o_record opts)" "a_byteLength (o_record opts) = length source"
      "\<forall>c \<in> set (chunks m). entry_matches H source c"
    and hid: "HeadingIdSchema hid"
    and rng: "0 \<le> h_byteStart h" "0 < h_byteLength h" "h_byteStart h + h_byteLength h \<le> int (length source)"
    and bytes: "bytes = subarray (nat (h_byteStart h)) (nat (h_byteStart h) + nat (h_byteLength h)) source"
      "text_decode bytes \<noteq> None" "length bytes \<le> 8192"
  shows "fst (heading_selected H opts m hid source (the (text_decode bytes)) h eff) =
    Inr (limited (O_heading hid (the (text_decode bytes))
      (evidence H (o_record opts) (HeadingRange hid) (nat (h_byteStart h)) (length bytes) bytes)))"
proof -
  let ?r = "o_record opts" and ?req = "HeadingRange hid"
  have r: "record_ok ?r" using o by (simp add: opts_ok_def)
  note ok' = ok [folded m(2), unfolded m(1)]
  define off where "off = nat (h_byteStart h)"
  have lb: "length bytes = nat (h_byteLength h)" using bytes(1) rng by (simp add: length_subarray)
  have ints: "h_byteStart h = int off" "h_byteLength h = int (length bytes)" using rng lb by (simp_all add: off_def)
  have l: "1 \<le> length bytes" "off + length bytes \<le> a_byteLength ?r" using rng ints m(2) by linarith+
  define lo where "lo = off div a_chunkSize ?r"
  define hi where "hi = (off + length bytes - 1) div a_chunkSize ?r"
  note cov = range_cover [OF r ok' l(1) bytes(3) l(2), folded lo_def hi_def]
  have ends: "(int off + int (length bytes) - 1) div int (a_chunkSize ?r) = int hi"
    using l(1) by (simp_all add: hi_def zdiv_int of_nat_diff)
  have vs: "buildAndVerifyCoveringChunks H m lo (int hi) (chunk_bytes m 0 source) = Inr (Some (map (verified_of H m) [lo..<Suc hi]))"
    using cov(2) m(1) by (intro whole_cover [OF ok m(3)]) simp
  have ev: "evidence H ?r ?req off (length bytes) bytes =
      read_integrity ?r ?req lo hi \<lparr>ret_offset = off, ret_length = length bytes\<rparr> (map (verified_of H m) [lo..<Suc hi]) (hex (H bytes))"
    by (simp only: evidence_def Let_def lo_def hi_def m(1))
  have n: "\<not> 16 < length (map (verified_of H m) [lo..<Suc hi])" using cov(1,3) by simp
  have sub: "subarray off (off + length bytes) source = bytes" unfolding lb off_def by (rule bytes(1) [symmetric])
  note d = read_delivered(3) [OF o ok' l(1) bytes(3) l(2) encode_the_decode [OF bytes(2)] hid]
  show ?thesis
    unfolding heading_selected_def Let_def ints nat_int
    using d [unfolded ev] n bytes(3) by (simp add: ends vs lo_def [symmetric] sub ev limits del: upt_Suc)
qed

lemma heading_refines:
  assumes s: "serves H deps rawContext aid r source" and inp: "ArtifactReadHeadingInputSchema rawInput = Some (aid, hid)"
  shows "fst (artifactReadHeading H nfc lower deps rawContext rawInput) = Inr (heading_spec H nfc lower r source hid)"
proof -
  obtain opts where rdy: "ready H deps rawContext aid r source opts" by (rule served [OF s])
  note o = readyD(1-8) [OF rdy] and art = readyD(9) [OF rdy] and src = ready_source [OF rdy]
  from inp have hid: "HeadingIdSchema hid"
    by (auto simp: ArtifactReadHeadingInputSchema_def bind_eq_Some_conv z_refine_Some)
  then have len: "hid \<noteq> []" "length hid \<le> 128" by (auto simp: HeadingIdSchema_def limits)
  have run: "artifactReadHeading H nfc lower deps rawContext rawInput =
      heading_body H nfc lower deps hid opts (record_manifest r) [E_resolve (o_context opts) aid]"
    by (simp add: artifactReadHeading_def inp art)
  have bytes: "fst (heading_bytes_body H nfc lower opts (record_manifest r) hid source eff) =
      Inr (case buildArtifactTextIndex H nfc lower (VBytes source) (VStr TEXT_MARKDOWN) of
             Inl e \<Rightarrow> O_error (mapArtifactTextIndexError e) | Inr idx \<Rightarrow> indexed_answer H r source hid (headings idx))" for eff
  proof (cases "buildArtifactTextIndex H nfc lower (VBytes source) (VStr TEXT_MARKDOWN)")
    case (Inr idx)
    note f = build_ok [OF Inr] and st = build_structure [OF Inr]
    have rd: "readIndexedHeading H nfc lower (VBytes source) (index_val idx) (VStr hid) =
        (case find (\<lambda>h. headingId h = hid) (headings idx) of None \<Rightarrow> Inl INVALID_HEADING_ID
         | Some h \<Rightarrow> untrustedRead (hex (H source)) (subarray (nat (h_byteStart h)) (nat (h_byteStart h + h_byteLength h)) source))"
      using len by (simp add: readIndexedHeading_def assertReadBytes_ok [OF f(3,4)] built_accepted [OF Inr] f(8) not_less split: option.split)
    show ?thesis
    proof (cases "find (\<lambda>h. headingId h = hid) (headings idx)")
      case None
      then show ?thesis by (simp add: heading_bytes_body_def src Let_def Inr rd indexed_answer_def)
    next
      case (Some h)
      then have h: "h \<in> set (headings idx)" by (auto simp: find_Some_iff)
      then obtain l where l: "l \<in> set (lines idx)" "h_byteStart h = l_byteStart l" "h_byteLength h = contentByteLength l"
        using st(2) by (auto simp: headings_ok_def heading_ok_def)
      have ok: "line_ok source l" using st(1) l(1) by (simp add: lines_ok_def)
      define b where "b = subarray (nat (h_byteStart h)) (nat (h_byteStart h) + nat (h_byteLength h)) source"
      have rng: "0 \<le> h_byteStart h" "0 < h_byteLength h" "h_byteStart h + h_byteLength h \<le> int (length source)"
        using line_within [OF ok] l headings_positive [OF f(6) h] by simp_all
      have dec: "text_decode b \<noteq> None" using content_decode [OF f(4) st(1) l(1)] l by (simp add: b_def line_content_def)
      have b: "subarray (nat (h_byteStart h)) (nat (h_byteStart h + h_byteLength h)) source = b"
        using rng by (simp add: b_def nat_add_distrib)
      note m = o(6) [folded o(2)] refl o(4) [folded o(2)] o(7) [folded o(2)]
      show ?thesis
        using heading_selected_refines [OF o(1) m hid rng b_def dec, unfolded o(2)]
        by (simp add: heading_bytes_body_def src Let_def Inr rd Some indexed_answer_def b untrustedRead_decodes [OF dec] b_def [symmetric] limits)
    qed
  qed (simp add: heading_bytes_body_def src Let_def)
  show ?thesis
    using bytes
    by (simp add: run heading_body_def heading_spec_def Let_def o(2,4) src limits indexed_answer_eq [of H nfc lower] split: sum.split)
qed

end

end
