(* ===== verification/Inspector_Search.thy ===== *)
theory Inspector_Search
  imports Inspector_Lines
begin

text \<open>
  Exact search of a served source: the hits are the leftmost non-overlapping occurrences of the query,
  each with the number of the line it starts on.
\<close>

section \<open>Occurrences\<close>

text \<open>The occurrences of a query, from left to right, each search going on behind the last one.\<close>

function occurrences :: "byte list \<Rightarrow> nat \<Rightarrow> byte list \<Rightarrow> nat list" where
  "occurrences q p src =
     (if q = [] \<or> length src < length q then []
      else if take (length q) src = q then p # occurrences q (p + length q) (drop (length q) src)
      else occurrences q (p + 1) (drop 1 src))"
  by pat_completeness auto
termination
  by (relation "measure (\<lambda>(q, p, src). length src)") (auto simp: not_less simp flip: length_greater_0_conv)

declare occurrences.simps [simp del]

lemma occurrences_step:
  assumes "q \<noteq> []"
  shows "occurrences q off (drop off src) =
    (case index_of src q off of None \<Rightarrow> [] | Some k \<Rightarrow> k # occurrences q (k + length q) (drop (k + length q) src))"
proof (induction "length src - off" arbitrary: off)
  case 0
  then have "[off..<Suc (length src) - length q] = []" using assms by (cases q) auto
  then have "index_of src q off = None" unfolding index_of_def by (simp only: find.simps)
  then show ?case using 0 assms by (simp add: occurrences.simps [of q off])
next
  case (Suc d)
  show ?case
  proof (cases "length (drop off src) < length q")
    case True
    then have "[off..<Suc (length src) - length q] = []" by auto
    then have "index_of src q off = None" unfolding index_of_def by (simp only: find.simps)
    then show ?thesis using True by (simp add: occurrences.simps [of q off])
  next
    case False
    then have u: "[off..<Suc (length src) - length q] = off # [Suc off..<Suc (length src) - length q]"
      using Suc(2) by (intro upt_conv_Cons) auto
    show ?thesis
    proof (cases "take (length q) (drop off src) = q")
      case True
      then show ?thesis
        using False assms u by (simp add: occurrences.simps [of q off "drop off src"] index_of_def add.commute)
    next
      case no: False
      have "index_of src q off = index_of src q (Suc off)" using no u by (simp add: index_of_def)
      then show ?thesis
        using False assms no Suc(1) [of "Suc off"] Suc(2)
        by (simp add: occurrences.simps [of q off "drop off src"])
    qed
  qed
qed

lemma index_of_Some:
  assumes "index_of src q off = Some k" "q \<noteq> []"
  shows "off \<le> k" "k + length q \<le> length src" "k < length src" "take (length q) (drop k src) = q"
proof -
  from assms(1) have k: "k \<in> set [off..<Suc (length src) - length q]" and t: "take (length q) (drop k src) = q"
    by (auto simp: index_of_def find_Some_iff)
  then show "off \<le> k" "take (length q) (drop k src) = q" by auto
  from t have "length q \<le> length src - k" by (metis length_take length_drop min.cobounded1 min.commute)
  then show "k + length q \<le> length src" "k < length src" using assms(2) by (cases q; simp)+
qed

lemma occurrences_bounds: "k \<in> set (occurrences q p src) \<Longrightarrow> p \<le> k \<and> k + length q \<le> p + length src"
proof (induction q p src rule: occurrences.induct)
  case (1 q p src)
  then have g: "\<not> (q = [] \<or> length src < length q)" by (auto simp: occurrences.simps [of q p src] split: if_splits)
  show ?case
  proof (cases "take (length q) src = q")
    case True
    then have "k = p \<or> k \<in> set (occurrences q (p + length q) (drop (length q) src))"
      using "1.prems" g by (simp add: occurrences.simps [of q p src])
    then show ?thesis using "1.IH"(1) [OF g True] g by auto
  next
    case False
    then have "k \<in> set (occurrences q (p + 1) (drop 1 src))" using "1.prems" g by (simp add: occurrences.simps [of q p src])
    from "1.IH"(2) [OF g False this] show ?thesis using g by (cases src) auto
  qed
qed

lemma occurrences_apart: "sorted_wrt (\<lambda>a b. a + length q \<le> b) (occurrences q p src)"
proof (induction q p src rule: occurrences.induct)
  case (1 q p src)
  show ?case
  proof (cases "q = [] \<or> length src < length q")
    case False
    with 1 show ?thesis by (auto simp: occurrences.simps [of q p src] dest: occurrences_bounds)
  qed (simp add: occurrences.simps [of q p src])
qed

section \<open>Line numbers\<close>

definition line_of :: "byte list \<Rightarrow> nat \<Rightarrow> nat" where
  "line_of source k = 1 + count_list (take k source) LF"

lemma split_lf_pieces:
  "\<forall>x \<in> set (split_lf b). x \<noteq> [] \<and> LF \<notin> set (butlast x)" "\<forall>x \<in> set (butlast (split_lf b)). last x = LF"
  by (induction b) (auto split: list.split if_splits)

lemma lf_count_pieces:
  assumes "\<forall>x \<in> set xss. x \<noteq> [] \<and> LF \<notin> set (butlast x)" "\<forall>x \<in> set (butlast xss). last x = LF" "j < length xss"
    "length (concat (take j xss)) \<le> k" "k < length (concat (take (Suc j) xss))"
  shows "count_list (take k (concat xss)) LF = j"
  using assms
proof (induction xss arbitrary: j k)
  case (Cons x xss)
  show ?case
  proof (cases j)
    case 0
    then have "k < length x" using Cons.prems(5) by simp
    then have "take k (concat (x # xss)) = take k (butlast x)" by (simp add: butlast_conv_take)
    then have "LF \<notin> set (take k (concat (x # xss)))" using Cons.prems(1) by (auto dest: in_set_takeD)
    then show ?thesis using 0 by (simp add: count_list_0_iff)
  next
    case (Suc i)
    then have ne: "xss \<noteq> []" "length x \<le> k" using Cons.prems(3,4) by auto
    then have "last x = LF" "x \<noteq> []" using Cons.prems(1,2) by auto
    then have x: "x = butlast x @ [LF]" "LF \<notin> set (butlast x)" using Cons.prems(1) append_butlast_last_id [of x] by auto
    have "count_list x LF = 1" by (subst x(1)) (use x(2) in \<open>simp add: count_list_0_iff\<close>)
    moreover have "count_list (take (k - length x) (concat xss)) LF = i"
      using Cons.prems ne Suc by (intro Cons.IH) auto
    ultimately show ?thesis using ne Suc by simp
  qed
qed simp

lemma lf_count_line:
  assumes ok: "lines_ok b ls (length b)" and j: "j < length ls" "nat (l_byteStart (ls ! j)) \<le> k" "k < line_end (ls ! j)"
  shows "line_of b k = j + 1"
proof -
  have L: "length (concat (take j (split_lf b))) = nat (l_byteStart (ls ! j))"
    "length (concat (take 1 (drop j (split_lf b)))) = line_end (ls ! j) - nat (l_byteStart (ls ! j))"
  proof -
    have i: "(1 :: nat) \<le> 1" "j + 1 \<le> length ls" using j(1) by simp_all
    have "line_ok b (ls ! j)" using ok j(1) by (simp add: lines_ok_def)
    note S = line_selection(2,3) [OF ok j(1) i] and w = line_within(2) [OF this]
    show "length (concat (take j (split_lf b))) = nat (l_byteStart (ls ! j))" by (rule S(1))
    show "length (concat (take 1 (drop j (split_lf b)))) = line_end (ls ! j) - nat (l_byteStart (ls ! j))"
      unfolding S(2) using w by (simp add: length_subarray)
  qed
  have "take (Suc j) (split_lf b) = take j (split_lf b) @ take 1 (drop j (split_lf b))" by (metis Suc_eq_plus1 take_add)
  then have "length (concat (take (Suc j) (split_lf b))) = line_end (ls ! j)" using L j(2,3) by simp
  moreover have "length (split_lf b) = length ls" using split_lines [OF ok] by (metis length_map)
  ultimately have "count_list (take k (concat (split_lf b))) LF = j"
    using L(1) j by (intro lf_count_pieces split_lf_pieces) auto
  then show ?thesis by (simp add: line_of_def)
qed

section \<open>The search loop\<close>

lemma advance_line_spec:
  assumes "i < length ls" "l_byteStart (ls ! i) \<le> int k"
  shows "i \<le> advance_line ls k i \<and> l_byteStart (ls ! advance_line ls k i) \<le> int k \<and>
    (advance_line ls k i + 1 < length ls \<longrightarrow> int k < l_byteStart (ls ! (advance_line ls k i + 1)))"
  using assms
proof (induction ls k i rule: advance_line.induct)
  case (1 ls k i)
  then show ?case by (subst (1 2 3 4) advance_line.simps) auto
qed

lemma advance_line_of:
  assumes ok: "lines_ok b ls (length b)" and i: "i < length ls" "l_byteStart (ls ! i) \<le> int k" "k < length b"
  shows "lineNumber (ls ! advance_line ls k i) = int (line_of b k)"
proof -
  let ?j = "advance_line ls k i"
  note a = advance_line_spec [OF i(1,2)] and j = advance_line_less [OF i(1)]
  have "k < line_end (ls ! ?j)"
  proof (cases "?j + 1 < length ls")
    case True
    then have "l_byteStart (ls ! (?j + 1)) = int (line_end (ls ! ?j))" using ok by (simp add: lines_ok_def)
    then show ?thesis using a True by simp
  next
    case False
    then have "?j = length ls - 1" "ls \<noteq> []" using j [of k] by auto
    then have "line_end (ls ! ?j) = length b" using ok by (simp add: lines_ok_def last_conv_nth)
    then show ?thesis using i(3) by simp
  qed
  then have "line_of b k = ?j + 1" using a j by (intro lf_count_line [OF ok]) auto
  moreover have "lineNumber (ls ! ?j) = int ?j + 1" using ok j by (simp add: lines_ok_def)
  ultimately show ?thesis by simp
qed

lemma search_loop_eq:
  assumes ok: "lines_ok src ls (length src)" and q: "q \<noteq> []"
  shows "ls = [] \<or> li < length ls \<and> l_byteStart (ls ! li) \<le> int off \<Longrightarrow>
    search_loop ls src q n off li = Inr (map (\<lambda>k. (k, int (line_of src k))) (take n (occurrences q off (drop off src))))"
proof (induction n arbitrary: off li)
  case (Suc n)
  show ?case
  proof (cases "index_of src q off")
    case None
    then show ?thesis using occurrences_step [OF q, of off src] by simp
  next
    case (Some k)
    note k = index_of_Some [OF Some q]
    have ne: "ls \<noteq> []" using lines_nonempty [OF ok] k(3) by auto
    with Suc.prems have li: "li < length ls" "l_byteStart (ls ! li) \<le> int k" using k(1) by auto
    let ?j = "advance_line ls k li"
    note a = advance_line_spec [OF li] and j = advance_line_less [OF li(1)]
    have "search_loop ls src q n (k + length q) ?j = Inr (map (\<lambda>k. (k, int (line_of src k)))
        (take n (occurrences q (k + length q) (drop (k + length q) src))))"
      using a j by (intro Suc.IH) auto
    then show ?thesis
      using Some k(1,2) j advance_line_of [OF ok li k(3)] occurrences_step [OF q, of off src]
      by (simp add: Let_def elem_at_def)
  qed
qed simp

section \<open>Exact search\<close>

definition hit_of :: "hashfn \<Rightarrow> jsstring \<Rightarrow> byte list \<Rightarrow> byte list \<Rightarrow> nat \<Rightarrow> search_hit" where
  "hit_of H query queryBytes source k =
     (let range = \<lparr>ret_offset = k, ret_length = length queryBytes\<rparr>
      in \<lparr>matchRange = range, snippetRange = range, snippetSha256 = hex (H queryBytes),
          hit_lineNumber = line_of source k, snippet = query\<rparr>)"

definition search_answer :: "hashfn \<Rightarrow> artifact_record \<Rightarrow> byte list \<Rightarrow> jsstring \<Rightarrow> byte list \<Rightarrow> nat \<Rightarrow> inspection_output" where
  "search_answer H r source query queryBytes maxHits =
     O_search (map (hit_of H query queryBytes source) (take maxHits (occurrences queryBytes 0 source)))
       (evidence H r (SearchRange (length queryBytes)) 0 (length source) source)"

definition search_spec ::
    "hashfn \<Rightarrow> strfn \<Rightarrow> strfn \<Rightarrow> artifact_record \<Rightarrow> byte list \<Rightarrow> jsstring \<Rightarrow> nat \<Rightarrow> inspection_output" where
  "search_spec H nfc lower r source query maxHits =
     (case encodeUnicodeScalarValueString query of
        None \<Rightarrow> O_error AI_INVALID_REQUEST
      | Some queryBytes \<Rightarrow>
          if MAX_SEARCH_QUERY_LENGTH < length queryBytes then O_error AI_INVALID_REQUEST
          else if \<not> isSupportedLineMediaType (a_mediaType r) then O_error AI_UNSUPPORTED
          else if source = [] then O_error AI_RESOURCE_UNAVAILABLE
          else if MAX_EXACT_SEARCH_SOURCE_BYTES < length source then O_error AI_RESPONSE_LIMIT_EXCEEDED
          else case buildArtifactTextIndex H nfc lower (VBytes source) (VStr (a_mediaType r)) of
                 Inl e \<Rightarrow> O_error (mapArtifactTextIndexError e)
               | Inr _ \<Rightarrow> limited (search_answer H r source query queryBytes maxHits))"

lemma encoded:
  assumes "encodeUnicodeScalarValueString s = Some b"
  shows "text_encode s = b"
  using assms by (auto simp: encodeUnicodeScalarValueString_def Let_def split: if_splits option.splits)

lemma line_of_bound: "k \<le> length b \<Longrightarrow> line_of b k \<le> 1 + k"
  using count_le_length [of "take k b" LF] by (simp add: line_of_def)

lemma ordered_hits_map:
  "sorted_wrt (\<lambda>a b. a + length qb \<le> b) ks \<Longrightarrow> ordered_hits (map (hit_of H q qb src) ks)"
  by (induction ks rule: induct_list012) (auto simp: hit_of_def Let_def)

lemma apart_distinct: "qb \<noteq> [] \<Longrightarrow> sorted_wrt (\<lambda>a b. a + length qb \<le> b) ks \<Longrightarrow> distinct ks"
  by (induction ks) auto

lemma ordered_take: "sorted_wrt P xs \<Longrightarrow> sorted_wrt P (take n xs)"
  by (metis append_take_drop_id sorted_wrt_append)

context digest
begin

lemma hits_ok:
  assumes enc: "text_encode query = qb" and q: "qb \<noteq> []" "length qb \<le> 256" "length query \<le> 256"
    and src: "length source \<le> 8192" and k: "k + length qb \<le> length source"
  shows "ArtifactSearchHitSchema H (hit_of H query qb source k)"
proof -
  have "1 \<le> length qb" using q(1) by (cases qb) auto
  moreover have "line_of source k \<le> 1000000" "1 \<le> line_of source k"
    using line_of_bound [of k source] k src by (auto simp: line_of_def)
  moreover have "safe_nat k" using k src by (intro safe_small) simp
  ultimately show ?thesis
    using enc q(2,3) by (simp add: ArtifactSearchHitSchema_def hit_of_def Let_def ReturnedRangeSchema_def limits sha256HexOfUtf8_def)
qed

lemma search_delivered:
  assumes o: "opts_ok opts" and r: "o_record opts = r" "a_byteLength r = length source"
    and ok: "manifest_ok H (a_chunkSize r) (length source) (record_manifest r)"
    and enc: "text_encode query = qb" and q: "qb \<noteq> []" "length qb \<le> 256" "length query \<le> 256" "1 \<le> mh" "mh \<le> 50"
    and src: "source \<noteq> []" "length source \<le> 8192"
  shows "fst (deliver H artifact_search_exact opts fd
      (D_search (length qb) mh (map (\<lambda>k. (\<lparr>ret_offset = k, ret_length = length qb\<rparr>, hex (H qb))) (take mh (occurrences qb 0 source))))
      lc sc rc oc eff (search_answer H r source query qb mh)) = Inr (limited (search_answer H r source query qb mh))"
proof (rule delivered [OF o])
  let ?ks = "take mh (occurrences qb 0 source)"
  have rec: "record_ok r" using o r by (auto simp: opts_ok_def)
  have ks: "k + length qb \<le> length source" if "k \<in> set ?ks" for k using occurrences_bounds [OF in_set_takeD [OF that]] by simp
  have qs: "1 \<le> length qb" "1 \<le> length source" using q(1) src(1) by (simp_all add: Suc_le_eq)
  have rng: "0 + length source \<le> a_byteLength r" using r by simp
  have apart: "sorted_wrt (\<lambda>a b. a + length qb \<le> b) ?ks" by (rule ordered_take [OF occurrences_apart])
  note cov = range_cover [OF rec ok [folded r(2)] qs(2) src(2) rng]
  have "PartialReadIntegritySchema (evidence H r (SearchRange (length qb)) 0 (length source) source)"
    using range_evidence_ok [OF rec ok [folded r(2)] qs(2) src(2) rng, of "SearchRange (length qb)" source] qs q by (simp add: limits)
  moreover have "list_all (\<lambda>h. within_coverage (verifiedChunks (evidence H r (SearchRange (length qb)) 0 (length source) source))
      (ret_offset (snippetRange h)) (ret_length (snippetRange h))) (map (hit_of H query qb source) ?ks)"
  proof -
    have "within_coverage (verifiedChunks (evidence H r (SearchRange (length qb)) 0 (length source) source)) 0 (length source)"
      using calculation by (simp add: PartialReadIntegritySchema_def Let_def evidence_def read_integrity_def del: upt_Suc)
    then show ?thesis using ks by (force simp: within_coverage_def list_all_iff hit_of_def Let_def)
  qed
  moreover have "distinct (map snippetRange (map (hit_of H query qb source) ?ks))"
    using apart_distinct [OF q(1) apart] by (simp add: distinct_map inj_on_def hit_of_def Let_def)
  ultimately show "success_schema H (search_answer H r source query qb mh)"
    using hits_ok [OF enc q(1-3) src(2)] ks ordered_hits_map [OF apart] q(5)
    by (simp add: search_answer_def list_all_iff limits)
  show "ReceiptOperationDetailSchema (D_search (length qb) mh
      (map (\<lambda>k. (\<lparr>ret_offset = k, ret_length = length qb\<rparr>, hex (H qb))) ?ks))"
    using qs(1) q ks src apart_distinct [OF q(1) apart]
    by (auto simp: limits list_all_iff ReturnedRangeSchema_def distinct_map inj_on_def o_def intro!: safe_small) fastforce
qed

lemma search_read_refines:
  assumes rdy: "ready H deps rawContext aid r source opts"
    and enc: "text_encode query = qb" and q: "qb \<noteq> []" "length qb \<le> 256" "length query \<le> 256" "1 \<le> mh" "mh \<le> 50"
    and src: "source \<noteq> []" "length source \<le> 8192"
  shows "fst (search_bytes_body H nfc lower opts (record_manifest r) query qb mh source eff) =
    Inr (case buildArtifactTextIndex H nfc lower (VBytes source) (VStr (a_mediaType r)) of
           Inl e \<Rightarrow> O_error (mapArtifactTextIndexError e) | Inr _ \<Rightarrow> limited (search_answer H r source query qb mh))"
proof (cases "buildArtifactTextIndex H nfc lower (VBytes source) (VStr (a_mediaType r))")
  case (Inl e)
  then show ?thesis by (simp add: search_bytes_body_def ready_source [OF rdy] Let_def readyD(2) [OF rdy])
next
  case (Inr idx)
  note o = readyD(1-8) [OF rdy]
  have sz: "a_chunkSize r \<in> {1024, 4096, 8192}" "int (a_chunkCount r) = ceil_div (int (length source)) (int (a_chunkSize r))"
    using o(4,5) by (auto simp: record_ok_def allowed_sizes)
  obtain n where n: "a_chunkCount r = Suc n"
    using sz ceil_div_eq_0 [of "int (a_chunkSize r)" "int (length source)"] src(1) by (cases "a_chunkCount r") auto
  have hi: "n = (0 + length source - 1) div a_chunkSize r"
  proof -
    have "n * a_chunkSize r < length source" "length source \<le> Suc n * a_chunkSize r"
      using ceil_div_bounds(1) [of "int (a_chunkSize r)" "int (length source)"] sz n manifest_entry(3) [OF o(6), of n]
      by (auto simp: mult.commute simp flip: of_nat_mult of_nat_Suc)
    then show ?thesis using sz(1) by (intro div_nat_eqI [symmetric]) (auto simp: mult.commute)
  qed
  have cov: "buildAndVerifyCoveringChunks H (record_manifest r) 0 (int n) (chunk_bytes (record_manifest r) 0 source) =
      Inr (Some (map (verified_of H (record_manifest r)) [0..<Suc n]))"
    using n by (intro whole_cover [OF o(6,7)]) simp
  have loop: "search_loop (lines idx) source qb mh 0 0 =
      Inr (map (\<lambda>k. (k, int (line_of source k))) (take mh (occurrences qb 0 source)))"
  proof -
    have "lines idx = [] \<or> 0 < length (lines idx) \<and> l_byteStart (lines idx ! 0) \<le> int 0"
      using build_structure(1) [OF Inr] by (cases "lines idx = []") (simp_all add: lines_ok_def)
    from search_loop_eq [OF build_structure(1) [OF Inr] q(1) this] show ?thesis by simp
  qed
  have hits: "map (mk_hit H query qb) (map (\<lambda>k. (k, int (line_of source k))) ks) = map (hit_of H query qb source) ks" for ks
    by (simp add: mk_hit_def hit_of_def Let_def)
  have ev: "evidence H r (SearchRange (length qb)) 0 (length source) source = read_integrity r (SearchRange (length qb)) 0 n
      \<lparr>ret_offset = 0, ret_length = length source\<rparr> (map (verified_of H (record_manifest r)) [0..<Suc n]) (hex (H source))"
    by (simp only: evidence_def Let_def hi [symmetric] div_0)
  have det: "map (\<lambda>h. (snippetRange h, snippetSha256 h)) (map (hit_of H query qb source) ks) =
      map (\<lambda>k. (\<lparr>ret_offset = k, ret_length = length qb\<rparr>, hex (H qb))) ks" for ks
    by (simp add: hit_of_def Let_def)
  show ?thesis
    unfolding search_bytes_body_def Let_def ready_source(2) [OF rdy] o(2) Inr sum.case
    using search_delivered [OF o(1,2,4,6) enc q src, unfolded search_answer_def ev] n
    by (simp add: cov loop search_deliver_def Let_def hits det o(2,4) search_answer_def ev del: upt_Suc map_map)
qed

lemma search_refines:
  assumes s: "serves H deps rawContext aid r source"
    and inp: "ArtifactSearchExactInputSchema rawInput = Some (aid, query, mh)"
  shows "fst (artifactSearchExact H nfc lower deps rawContext rawInput) = Inr (search_spec H nfc lower r source query mh)"
proof -
  obtain opts where rdy: "ready H deps rawContext aid r source opts" by (rule served [OF s])
  note o = readyD(1-8) [OF rdy] and art = readyD(9) [OF rdy] and src = ready_source [OF rdy]
  from inp have q: "query \<noteq> []" "length query \<le> 256" "1 \<le> mh" "mh \<le> 50"
    by (auto simp: ArtifactSearchExactInputSchema_def bind_eq_Some_conv z_nat_Some limits split: if_splits jsval.splits)
  show ?thesis
  proof (cases "encodeUnicodeScalarValueString query")
    case None
    then show ?thesis by (simp add: artifactSearchExact_def inp search_spec_def)
  next
    case (Some qb)
    have qb: "text_encode query = qb" "qb \<noteq> []" using encoded [OF Some] encode_not_Nil [OF Some q(1)] by auto
    have chunks: "a_chunkCount r \<le> 16" if "length source \<le> 8192"
    proof -
      have "a_chunkSize r \<in> {1024, 4096, 8192}" "int (a_chunkCount r) = ceil_div (int (length source)) (int (a_chunkSize r))"
        using o(4,5) by (auto simp: record_ok_def allowed_sizes)
      then show ?thesis using that by (auto simp: ceil_div_def)
    qed
    show ?thesis
      using search_read_refines [OF rdy qb _ q(2-4)] chunks Some
      by (auto simp: artifactSearchExact_def inp search_spec_def art search_body_def Let_def o(2,4) src limits not_less split: sum.split)
  qed
qed

end

end
