(* ===== verification/Inspector_Store.thy ===== *)
theory Inspector_Store
  imports Inspector_Search
begin

text \<open>
  Registering a source: the record a registry holds for it and a store that serves it. Every source of at
  most one mebibyte can be registered, so the hypotheses of the inspection properties can be met.
\<close>

section \<open>The object of a record\<close>

definition core_fields :: "artifact_record \<Rightarrow> (string \<times> jsval) list" where
  "core_fields r =
     [(''artifactId'', VStr (a_artifactId r)), (''internalLocator'', internalLocator r),
      (''objectVersionRef'', VStr (a_objectVersionRef r)), (''sourceSha256'', VStr (a_sourceSha256 r)),
      (''byteLength'', num (a_byteLength r)), (''chunkSize'', num (a_chunkSize r)), (''chunkCount'', num (a_chunkCount r)),
      (''chunkSha256s'', VArr (map VStr (a_chunkSha256s r))), (''merkleLeafSha256s'', VArr (map VStr (a_merkleLeafSha256s r))),
      (''merkleRoot'', VStr (a_merkleRoot r)), (''mediaType'', VStr (a_mediaType r)), (''createdAt'', VStr (a_createdAt r))]"

definition opt_fields :: "artifact_record \<Rightarrow> (string \<times> jsval) list" where
  "opt_fields r =
     (case a_expiresAt r of None \<Rightarrow> [] | Some e \<Rightarrow> [(''expiresAt'', VStr e)])
     @ (case a_chunkHashesRef r of None \<Rightarrow> [] | Some h \<Rightarrow> [(''chunkHashesRef'', VStr h)])"

definition record_val :: "artifact_record \<Rightarrow> jsval" where
  "record_val r = obj (core_fields r @ opt_fields r)"

lemma core_lookup:
  "map_of (core_fields r) ''artifactId'' = Some (VStr (a_artifactId r))"
  "map_of (core_fields r) ''internalLocator'' = Some (internalLocator r)"
  "map_of (core_fields r) ''objectVersionRef'' = Some (VStr (a_objectVersionRef r))"
  "map_of (core_fields r) ''sourceSha256'' = Some (VStr (a_sourceSha256 r))"
  "map_of (core_fields r) ''byteLength'' = Some (num (a_byteLength r))"
  "map_of (core_fields r) ''chunkSize'' = Some (num (a_chunkSize r))"
  "map_of (core_fields r) ''chunkCount'' = Some (num (a_chunkCount r))"
  "map_of (core_fields r) ''chunkSha256s'' = Some (VArr (map VStr (a_chunkSha256s r)))"
  "map_of (core_fields r) ''merkleLeafSha256s'' = Some (VArr (map VStr (a_merkleLeafSha256s r)))"
  "map_of (core_fields r) ''merkleRoot'' = Some (VStr (a_merkleRoot r))"
  "map_of (core_fields r) ''mediaType'' = Some (VStr (a_mediaType r))"
  "map_of (core_fields r) ''createdAt'' = Some (VStr (a_createdAt r))"
  "map_of (core_fields r) ''expiresAt'' = None" "map_of (core_fields r) ''chunkHashesRef'' = None"
  by (simp_all add: core_fields_def)

lemma opt_lookup:
  "map_of (opt_fields r) ''expiresAt'' = map_option VStr (a_expiresAt r)"
  "map_of (opt_fields r) ''chunkHashesRef'' = map_option VStr (a_chunkHashesRef r)"
  "fst ` set (opt_fields r) \<subseteq> {''expiresAt'', ''chunkHashesRef''}"
  by (auto simp: opt_fields_def split: option.splits)

lemma opt_only:
  assumes "n \<noteq> ''expiresAt''" "n \<noteq> ''chunkHashesRef''"
  shows "map_of (opt_fields r) n = None"
  using opt_lookup(3) [of r] assms by (auto simp: map_of_eq_None_iff)

lemma record_keys:
  "js ''internalLocator'' \<in> set (map fst (map (\<lambda>(k, v). (js k, v)) (core_fields r @ opt_fields r)))"
  "set (map fst (map (\<lambda>(k, v). (js k, v)) (core_fields r @ opt_fields r))) \<subseteq> set (map js AUTHORIZED_ARTIFACT_RECORD_KEYS)"
proof -
  have "fst ` set (core_fields r @ opt_fields r) \<subseteq> set AUTHORIZED_ARTIFACT_RECORD_KEYS"
    using opt_lookup(3) [of r] by (auto simp: core_fields_def AUTHORIZED_ARTIFACT_RECORD_KEYS_def)
  then show "set (map fst (map (\<lambda>(k, v). (js k, v)) (core_fields r @ opt_fields r))) \<subseteq> set (map js AUTHORIZED_ARTIFACT_RECORD_KEYS)"
    by auto
  show "js ''internalLocator'' \<in> set (map fst (map (\<lambda>(k, v). (js k, v)) (core_fields r @ opt_fields r)))"
    by (auto simp: core_fields_def image_iff)
qed

text \<open>A record is what the validation returns for its object exactly when it is well formed.\<close>

lemma record_round_trip:
  "validateAuthorizedArtifactRecord (record_val r) (a_artifactId r) = Some r \<longleftrightarrow> record_ok r"
proof
  assume r: "record_ok r"
  let ?f = "\<lambda>k. getp (map (\<lambda>(k, v). (js k, v)) (core_fields r @ opt_fields r)) (js k)"
  have opts: "?f ''expiresAt'' = opt_str (a_expiresAt r)" "?f ''chunkHashesRef'' = opt_str (a_chunkHashesRef r)"
    unfolding getp_obj by (simp_all add: core_lookup opt_lookup opt_str_def map_add_def split: option.split)
  have core: "?f k = v" if "map_of (core_fields r) k = Some v" "k \<noteq> ''expiresAt''" "k \<noteq> ''chunkHashesRef''" for k v
    unfolding getp_obj using that by (simp add: opt_only map_add_def)
  note f = opts core [OF core_lookup(1)] core [OF core_lookup(2)] core [OF core_lookup(3)] core [OF core_lookup(4)]
    core [OF core_lookup(5)] core [OF core_lookup(6)] core [OF core_lookup(7)] core [OF core_lookup(8)]
    core [OF core_lookup(9)] core [OF core_lookup(10)] core [OF core_lookup(11)] core [OF core_lookup(12)]
  have c: "int (a_chunkSize r) \<in> set ALLOWED_CHUNK_SIZES" "a_byteLength r \<le> 1048576" "a_chunkCount r \<le> 1024"
    "int (a_chunkCount r) = ceil_div (int (a_byteLength r)) (int (a_chunkSize r))" "a_chunkSize r \<le> 8192"
    using r ceil_div_count [of "int (a_chunkSize r)" "int (a_byteLength r)"]
    by (auto simp: record_ok_def limits allowed_sizes)
  have "ceil_div 0 (int (a_chunkSize r)) = 0" by (simp add: ceil_div_def)
  then have "AuthorizedArtifactMetadataSchema (?f ''internalLocator'') ?f = Some r"
    using r c
    by (simp add: AuthorizedArtifactMetadataSchema_def f parse_num parse_strings parse_opt ArtifactIdSchema_def z_refine_def
        record_ok_def limits MAX_SAFE_INTEGER_def del: map_append)
  then show "validateAuthorizedArtifactRecord (record_val r) (a_artifactId r) = Some r"
    using record_keys [of r] by (simp add: validateAuthorizedArtifactRecord_def record_val_def obj_def del: map_append map_map)
qed (rule validated_ok(1))

section \<open>Registration\<close>

definition registration :: "jsstring \<Rightarrow> byte list \<Rightarrow> nat \<Rightarrow> artifact_record" where
  "registration mt source csize =
     (let m = source_manifest sha256 source csize
      in \<lparr>a_artifactId = js ''art_0123456789abcdef'', internalLocator = VNull, a_objectVersionRef = js ''ov_0123456789abcdefg'',
          a_sourceSha256 = sourceSha256 m, a_byteLength = length source, a_chunkSize = csize,
          a_chunkCount = chunk_count source csize, a_chunkSha256s = map chunkSha256 (chunks m),
          a_merkleLeafSha256s = map merkleLeafSha256 (chunks m), a_merkleRoot = merkleRoot m, a_mediaType = mt,
          a_createdAt = js ''2026-01-01T00:00:00.000Z'', a_expiresAt = None, a_chunkHashesRef = None\<rparr>)"

lemma registration_fields:
  "a_artifactId (registration mt source c) = js ''art_0123456789abcdef''" "a_byteLength (registration mt source c) = length source"
  "a_chunkSize (registration mt source c) = c" "a_mediaType (registration mt source c) = mt"
  "a_chunkCount (registration mt source c) = chunk_count source c" "a_expiresAt (registration mt source c) = None"
  by (simp_all add: registration_def Let_def)

lemma registration_manifest:
  assumes c: "int c \<in> set ALLOWED_CHUNK_SIZES"
  shows "record_manifest (registration mt source c) = source_manifest sha256 source c"
proof -
  have pos: "0 < c" using c by (auto simp: allowed_sizes)
  have "record_entry (registration mt source c) i = chunk_entry_at sha256 source c i" if i: "i < chunk_count source c" for i
  proof -
    have "i * c < length source" by (rule chunk_start_less [OF pos i])
    moreover have "i \<noteq> chunk_count source c - 1 \<Longrightarrow> Suc i * c < length source" using i by (intro chunk_start_less [OF pos]) simp
    moreover have "i = chunk_count source c - 1 \<Longrightarrow> length source \<le> i * c + c"
      using chunk_count_bounds(1) [OF pos, of source] i by (cases "chunk_count source c") auto
    ultimately show ?thesis
      using i by (auto simp: record_entry_def registration_def source_manifest_def chunk_entry_at_eq Let_def of_nat_diff)
  qed
  then show ?thesis
    by (simp add: record_manifest_def registration_fields source_manifest_def cong: map_cong) (simp add: registration_def source_manifest_def)
qed

lemma registration_verified:
  assumes c: "int c \<in> set ALLOWED_CHUNK_SIZES" and len: "length source \<le> 1048576"
  shows "verifyArtifactSourceManifest sha256 (VBytes source) (record_manifest (registration mt source c)) = Inr True"
  unfolding registration_manifest [OF c] sha.verify_source_eq_build
  using build_eq [OF c, of source sha256] len by (simp add: limits source_manifest_def)

lemma registration_ok:
  assumes c: "int c \<in> set ALLOWED_CHUNK_SIZES" and len: "length source \<le> 1048576" and mt: "1 \<le> length mt" "length mt \<le> 255"
  shows "record_ok (registration mt source c)"
proof -
  let ?r = "registration mt source c"
  note m = sha.served_manifest [OF registration_verified [OF c len, of mt]]
  have hs: "list_all HEX64_PATTERN (a_chunkSha256s ?r)" "list_all HEX64_PATTERN (a_merkleLeafSha256s ?r)"
    by (auto simp: registration_def Let_def source_manifest_def chunk_entry_at_eq list_all_iff merkleLeafDigest_def)
  have root: "HEX64_PATTERN (a_merkleRoot ?r)" "HEX64_PATTERN (a_sourceSha256 ?r)"
    "int (chunk_count source c) = ceil_div (int (length source)) (int c)"
    using m(2) registration_fields by (auto simp: manifest_ok_def)
  have ls: "length (a_chunkSha256s ?r) = chunk_count source c" "length (a_merkleLeafSha256s ?r) = chunk_count source c"
    by (simp_all add: registration_def Let_def source_manifest_def)
  have ids: "ArtifactId (js ''art_0123456789abcdef'')" "OpaqueObjectVersionRef (js ''ov_0123456789abcdefg'')"
    "iso_datetime (js ''2026-01-01T00:00:00.000Z'')" by code_simp+
  have rest: "a_objectVersionRef ?r = js ''ov_0123456789abcdefg''" "a_createdAt ?r = js ''2026-01-01T00:00:00.000Z''"
    "a_chunkHashesRef ?r = None" by (simp_all add: registration_def Let_def)
  show ?thesis
    using c len mt hs root ls ids by (simp add: record_ok_def registration_fields rest)
qed

section \<open>A store\<close>

definition store_of :: "artifact_record \<Rightarrow> byte list \<Rightarrow> dependencies" where
  "store_of r source =
     \<lparr>resolveAuthorizedArtifact = \<lambda>ctx aid. Inr (if aid = a_artifactId r then record_val r else VNull),
      readVersionedRange = \<lambda>ctx loc ver off len. Inr (served_range r (subarray off (off + len) source)),
      clock_now = Some 1767225600000\<rparr>"

definition sample_id :: jsstring where
  "sample_id = js ''art_0123456789abcdef''"

definition sample_context :: jsval where
  "sample_context =
     obj [(''principalRef'', VStr (js ''principal-1'')), (''inspectorClientRef'', VStr (js ''client-1'')),
       (''inspectorCapabilityRef'', obj [(''capability'', VStr (js ''artifact:inspect'')), (''ref'', VStr (js ''cap-1''))]),
       (''verifierAudience'', VStr (js ''audience-1'')), (''policyVersion'', VStr (js ''v1'')),
       (''inspectorDeploymentGitCoordinate'', VStr (replicate 40 0x61))]"

lemma sample_context_valid: "\<exists>ctx. validateRuntimeContext sample_context = Some ctx"
  by (rule exI) code_simp

lemma sample_clock: "iso_datetime (toISOString 1767225600000)"
  unfolding clock_text by code_simp

lemma store_serves:
  assumes "int c \<in> set ALLOWED_CHUNK_SIZES" "length source \<le> 1048576" "1 \<le> length mt" "length mt \<le> 255"
  shows "serves sha256 (store_of (registration mt source c) source) sample_context sample_id (registration mt source c) source"
proof -
  let ?r = "registration mt source c"
  obtain ctx where ctx: "validateRuntimeContext sample_context = Some ctx" using sample_context_valid by blast
  have "validateAuthorizedArtifactRecord (record_val ?r) (a_artifactId ?r) = Some ?r"
    using registration_ok [OF assms] record_round_trip by blast
  then have "serves sha256 (store_of ?r source) sample_context (a_artifactId ?r) ?r source"
    unfolding serves_def
    using ctx sample_clock registration_verified [OF assms(1,2), of mt]
    by (intro exI [of _ ctx] exI [of _ 1767225600000] exI [of _ "record_val ?r"])
      (simp add: store_of_def registration_fields isArtifactExpired_def)
  then show ?thesis by (simp add: registration_fields sample_id_def)
qed

text \<open>\<open>"# a\\nb"\<close> registered as Markdown with the smallest chunk size.\<close>

definition sample_record :: artifact_record where
  "sample_record = registration TEXT_MARKDOWN sample_text 1024"

lemma sample_served: "serves sha256 (store_of sample_record sample_text) sample_context sample_id sample_record sample_text"
  unfolding sample_record_def
  by (rule store_serves) (simp_all add: allowed_sizes sample_text_def TEXT_MARKDOWN_def js_def)

end
