(* ===== verification/Wire_Length.thy ===== *)
theory Wire_Length
  imports Inspection_Contract
begin

text \<open>
  A bound on the wire length of values whose texts are printable ASCII, used to show that concrete answers
  are within the response limit.
\<close>

section \<open>Printable text\<close>

definition printable :: "cunit \<Rightarrow> bool" where
  "printable u \<longleftrightarrow> u = 0x0a \<or> 32 \<le> unat u \<and> unat u < 127"

abbreviation printables :: "jsstring \<Rightarrow> bool" where
  "printables s \<equiv> list_all printable s"

lemma printable_not_surrogate: "printable u \<Longrightarrow> \<not> high_surrogate u" "printable u \<Longrightarrow> unat u < 127"
  by (auto simp: printable_def high_surrogate_def word_le_nat_alt)

lemma code_points_printable: "printables s \<Longrightarrow> code_points s = map unat s"
  by (induction s rule: code_points.induct) (auto simp: printable_not_surrogate)

lemma json_char_printable:
  assumes "printable u"
  shows "length (json_char (unat u)) \<le> 2" "printables (json_char (unat u))"
proof -
  have "unat u = 10 \<or> 32 \<le> unat u \<and> unat u < 127" using assms by (auto simp: printable_def)
  moreover have "\<not> surrogate (unat u)" using printable_not_surrogate(2) [OF assms] by (simp add: surrogate_def)
  moreover have "utf16_enc (unat u) = [u]" using printable_not_surrogate(2) [OF assms] by (simp add: utf16_enc.simps)
  ultimately show "length (json_char (unat u)) \<le> 2" "printables (json_char (unat u))"
    using assms by (auto simp: json_char_def) (auto simp: printable_def)
qed

lemma json_string_printable:
  assumes "printables s"
  shows "length (json_string s) \<le> 2 * length s + 2" "printables (json_string s)"
proof -
  have "length (concat (map json_char (map unat s))) \<le> 2 * length s" "printables (concat (map json_char (map unat s)))"
    using assms by (induction s) (auto dest: json_char_printable(1), auto dest: json_char_printable(2))
  moreover have "printable 0x22" by (simp add: printable_def)
  ultimately show "length (json_string s) \<le> 2 * length s + 2" "printables (json_string s)"
    by (simp_all add: json_string_def code_points_printable [OF assms])
qed

lemma text_encode_printable: "printables s \<Longrightarrow> length (text_encode s) = length s"
proof -
  assume p: "printables s"
  have "length (utf8_enc (if surrogate (unat u) then 65533 else unat u)) = 1" if "printable u" for u
    using printable_not_surrogate(2) [OF that] by (simp add: utf8_enc.simps surrogate_def)
  then have "length (concat (map (\<lambda>u. utf8_enc (if surrogate (unat u) then 65533 else unat u)) s)) = length s"
    using p by (induction s) auto
  then show ?thesis by (simp add: text_encode_def code_points_printable [OF p] o_def)
qed

lemma digit_printable: "d < 16 \<Longrightarrow> printable (hex_digit d)"
  by (simp add: printable_def unat_hex_digit)

lemma to_base_printable: "printables (to_base 10 n)"
proof (induction n rule: less_induct)
  case (less n)
  then show ?case by (cases "n < 10") (auto simp: to_base.simps [of 10 n] digit_printable)
qed

lemma punctuation [simp]: "printable 0x5b" "printable 0x5d" "printable 0x7b" "printable 0x7d" "printable 0x2c" "printable 0x3a" "printable 0x2d"
  by (simp_all add: printable_def)

section \<open>Values\<close>

fun ascii_val :: "jsval \<Rightarrow> bool" where
  "ascii_val (VStr s) = printables s"
| "ascii_val (VArr xs) = list_all ascii_val xs"
| "ascii_val (VObj fs) = list_all (\<lambda>(k, v). printables k \<and> ascii_val v) fs"
| "ascii_val (VNum x) = (case x of JInt k \<Rightarrow> True | _ \<Rightarrow> False)"
| "ascii_val (VBool b) = True"
| "ascii_val VNull = True"
| "ascii_val _ = False"

fun weight :: "jsval \<Rightarrow> nat" where
  "weight (VStr s) = 2 * length s + 2"
| "weight (VArr xs) = 2 + sum_list (map (\<lambda>v. 1 + weight v) xs)"
| "weight (VObj fs) = 2 + sum_list (map (\<lambda>(k, v). 4 + 2 * length k + weight v) fs)"
| "weight (VNum x) = length (json_number x)"
| "weight _ = 5"

lemma join_comma_printable:
  "list_all printables xs \<Longrightarrow> printables (join_comma xs) \<and> length (join_comma xs) \<le> sum_list (map (\<lambda>x. 1 + length x) xs)"
proof (cases xs)
  case (Cons y ys)
  assume "list_all printables xs"
  moreover have "printables (concat (map ((#) 0x2c) zs)) \<and> length (concat (map ((#) 0x2c) zs)) = sum_list (map (\<lambda>x. 1 + length x) zs)"
    if "list_all printables zs" for zs
    using that by (induction zs) (auto simp: printable_def)
  ultimately show ?thesis by (simp add: join_comma_def Cons)
qed (simp add: join_comma_def)

lemma json_printable:
  "ascii_val v \<Longrightarrow> \<exists>t. json v = Some t \<and> printables t \<and> length t \<le> weight v"
proof (induction v rule: json.induct)
  case (6 xs)
  let ?f = "\<lambda>v. case json v of None \<Rightarrow> js ''null'' | Some t \<Rightarrow> t"
  have f: "printables (?f v) \<and> length (?f v) \<le> weight v" if "v \<in> set xs" for v using 6 that by (fastforce simp: list_all_iff)
  have "sum_list (map (\<lambda>x. 1 + length x) (map ?f xs)) \<le> sum_list (map (\<lambda>v. 1 + weight v) xs)"
    unfolding map_map by (rule sum_list_mono) (use f in simp)
  moreover have "list_all printables (map ?f xs)" using f by (auto simp: list_all_iff)
  ultimately show ?case using join_comma_printable [of "map ?f xs"] by (auto simp del: map_map)
next
  case (7 fs)
  let ?f = "\<lambda>(k, v). case json v of None \<Rightarrow> [] | Some t \<Rightarrow> [json_string k @ [0x3a] @ t]"
  have f: "\<exists>s. ?f kv = [s] \<and> printables s \<and> length s \<le> 3 + 2 * length (fst kv) + weight (snd kv)" if kv: "kv \<in> set fs" for kv
  proof -
    obtain k v where kv': "kv = (k, v)" by (cases kv)
    have "printables k" "ascii_val v" using 7(2) kv kv' by (auto simp: list_all_iff)
    with 7(1) kv kv' obtain t where "json v = Some t" "printables t" "length t \<le> weight v" by fastforce
    then show ?thesis using json_string_printable [OF \<open>printables k\<close>] kv' by auto
  qed
  have "list_all printables (concat (map ?f fs)) \<and>
      sum_list (map (\<lambda>x. 1 + length x) (concat (map ?f fs))) \<le> sum_list (map (\<lambda>(k, v). 4 + 2 * length k + weight v) fs)"
    using f
  proof (induction fs)
    case (Cons kv fs)
    then obtain s where "?f kv = [s]" "printables s" "length s \<le> 3 + 2 * length (fst kv) + weight (snd kv)" by (metis list.set_intros(1))
    with Cons show ?case by (cases kv) auto
  qed simp
  then show ?case using join_comma_printable [of "concat (map ?f fs)"] by auto
qed (use json_string_printable in \<open>auto simp: to_base_printable printable_def js_def split: jsnum.splits\<close>)

section \<open>The envelope\<close>

lemma replaceAll_printable:
  assumes "printables r" "length r \<le> 2 * length pat"
  shows "printables s \<Longrightarrow> printables (replaceAll pat r s) \<and> length (replaceAll pat r s) \<le> 2 * length s"
  using assms
proof (induction pat r s rule: replaceAll.induct)
  case (1 pat r s)
  show ?case
  proof (cases "pat = [] \<or> s = []")
    case False
    show ?thesis
    proof (cases "take (length pat) s = pat")
      case True
      then have l: "length pat \<le> length s" by (metis length_take min.cobounded1)
      have "printables (drop (length pat) s)" using 1(3) by (auto simp: list_all_iff dest: in_set_dropD)
      from 1(1) [OF False True this] 1(4,5) l show ?thesis using False True by (subst (1 2) replaceAll.simps) auto
    next
      case no: False
      from False obtain u t where s: "s = u # t" by (cases s) auto
      have "printables (tl s)" "printable u" using 1(3) s by auto
      from 1(2) [OF False no this(1)] 1(4,5) this(2) show ?thesis using False no s by (subst (1 2) replaceAll.simps) auto
    qed
  qed (use 1(3) in \<open>auto simp: replaceAll.simps\<close>)
qed

lemma escape_printable: "printables s \<Longrightarrow> escape_confusing s = s"
proof (induction s)
  case (Cons u s)
  then have "\<not> MODEL_CONFUSING_CHARACTERS u" by (auto simp: printable_def MODEL_CONFUSING_CHARACTERS_def word_le_nat_alt)
  with Cons show ?case by (simp add: escape_confusing_def)
qed (simp add: escape_confusing_def)

lemma visible_text_length:
  assumes v: "ascii_val v" and p: "printables p" "length p \<le> 140"
  shows "printables (p @ escape_confusing (replaceAll BOUNDARY BOUNDARY_ESCAPED (stringify v)))"
    "length (p @ escape_confusing (replaceAll BOUNDARY BOUNDARY_ESCAPED (stringify v))) \<le> 140 + 2 * weight v"
proof -
  obtain t where t: "json v = Some t" "printables t" "length t \<le> weight v" using json_printable [OF v] by blast
  define body where "body = replaceAll BOUNDARY BOUNDARY_ESCAPED t"
  have b: "printables body" "length body \<le> 2 * weight v"
    using replaceAll_printable [OF _ _ t(2), of BOUNDARY_ESCAPED BOUNDARY] t(3)
    by (simp_all add: body_def BOUNDARY_ESCAPED_def BOUNDARY_def js_def printable_def)
  then show "printables (p @ escape_confusing (replaceAll BOUNDARY BOUNDARY_ESCAPED (stringify v)))"
    "length (p @ escape_confusing (replaceAll BOUNDARY BOUNDARY_ESCAPED (stringify v))) \<le> 140 + 2 * weight v"
    using p by (simp_all add: stringify_def t(1) body_def [symmetric] escape_printable)
qed

lemma encoded_length:
  assumes "ascii_val w" "weight w \<le> n"
  shows "length (text_encode (stringify w @ [0x0a])) \<le> n + 1"
proof -
  obtain u where "json w = Some u" "printables u" "length u \<le> weight w" using json_printable [OF assms(1)] by blast
  then show ?thesis
    using assms(2) text_encode_printable [of "u @ [0x0a]"] by (simp add: stringify_def printable_def)
qed

lemma wire_length:
  assumes v: "ascii_val v"
  shows "artifactInspectionResponseByteLength IdNull v \<le> 5 * weight v + 800"
proof -
  define tx where "tx = modelVisibleArtifactInspectionText v"
  have p: "printables ARTIFACT_INSPECTION_UNTRUSTED_CONTENT_PREFIX" "length ARTIFACT_INSPECTION_UNTRUSTED_CONTENT_PREFIX \<le> 140"
    by (simp_all add: ARTIFACT_INSPECTION_UNTRUSTED_CONTENT_PREFIX_def BOUNDARY_def js_def printable_def)
  have tx: "printables tx" "length tx \<le> 140 + 2 * weight v"
    using visible_text_length [OF v p] by (simp_all add: tx_def modelVisibleArtifactInspectionText_def)
  let ?w = "artifactInspectionWireResponse IdNull v"
  have "ascii_val ?w" "weight ?w \<le> 5 * weight v + 799"
    using v tx by (simp_all add: artifactInspectionWireResponse_def createArtifactInspectionMcpResult_def tx_def [symmetric] js_def printable_def)
  from encoded_length [OF this] show ?thesis by (simp add: artifactInspectionResponseByteLength_def)
qed

lemma read_wire_length:
  assumes v: "ascii_val v"
  shows "readToolWireResponseByteLength IdNull v \<le> 5 * weight v + 800"
proof -
  define tx where "tx = modelVisibleReadToolText v"
  have p: "printables READ_TOOL_UNTRUSTED_CONTENT_PREFIX" "length READ_TOOL_UNTRUSTED_CONTENT_PREFIX \<le> 140"
    by (simp_all add: READ_TOOL_UNTRUSTED_CONTENT_PREFIX_def BOUNDARY_def js_def printable_def)
  have tx: "printables tx" "length tx \<le> 140 + 2 * weight v"
    using visible_text_length [OF v p] by (simp_all add: tx_def modelVisibleReadToolText_def)
  let ?w = "readToolWireResponse IdNull v"
  have "ascii_val ?w" "weight ?w \<le> 5 * weight v + 799"
    using v tx by (simp_all add: readToolWireResponse_def createReadToolMcpResult_def tx_def [symmetric] js_def printable_def)
  from encoded_length [OF this] show ?thesis by (simp add: readToolWireResponseByteLength_def)
qed

end
