(* ===== verification/Inspector_Properties.thy ===== *)
theory Inspector_Properties
  imports Inspector_Store Wire_Length
begin

text \<open>
  The properties of the artifact inspector: what its runs look like, what it reveals of artifacts that are
  not available, what it guarantees about returned bytes whatever the store answers, and that it computes
  the abstract answers for a store that serves the registered source.
\<close>

section \<open>Metadata\<close>

definition stat_spec :: "artifact_record \<Rightarrow> inspection_output" where
  "stat_spec r =
     (case (if a_chunkCount r \<le> MAX_INLINE_CHUNK_HASHES then Some (Inline (a_chunkSha256s r))
            else map_option Reference (a_chunkHashesRef r)) of
        None \<Rightarrow> O_error AI_INTERNAL_ERROR
      | Some hashes \<Rightarrow>
          limited (O_stat \<lparr>si_artifactId = a_artifactId r, si_objectVersionRef = a_objectVersionRef r,
            si_sourceSha256 = a_sourceSha256 r, si_byteLength = a_byteLength r, si_chunkSize = a_chunkSize r,
            si_chunkCount = a_chunkCount r, si_chunkHashes = hashes, si_merkleRoot = a_merkleRoot r,
            si_mediaType = a_mediaType r, analyzerProfileSupport = analyzerProfileIdFor (a_mediaType r),
            si_createdAt = a_createdAt r, si_expiresAt = a_expiresAt r\<rparr>))"

lemma profile_supported: "AnalyzerProfileSupportSchema (analyzerProfileIdFor mt)"
  by (auto simp: AnalyzerProfileSupportSchema_def analyzerProfileIdFor_def isSupportedLineMediaType_def
      SUPPORTED_LINE_MEDIA_TYPES_def ANALYZER_PROFILE_IDS_def TEXT_PLAIN_def TEXT_MARKDOWN_def)

context digest
begin

lemma stat_schema:
  assumes r: "record_ok r"
    and h: "(if a_chunkCount r \<le> MAX_INLINE_CHUNK_HASHES then Some (Inline (a_chunkSha256s r))
            else map_option Reference (a_chunkHashesRef r)) = Some hashes"
  shows "SourceIntegrityMetadataSchema \<lparr>si_artifactId = a_artifactId r, si_objectVersionRef = a_objectVersionRef r,
      si_sourceSha256 = a_sourceSha256 r, si_byteLength = a_byteLength r, si_chunkSize = a_chunkSize r,
      si_chunkCount = a_chunkCount r, si_chunkHashes = hashes, si_merkleRoot = a_merkleRoot r,
      si_mediaType = a_mediaType r, analyzerProfileSupport = analyzerProfileIdFor (a_mediaType r),
      si_createdAt = a_createdAt r, si_expiresAt = a_expiresAt r\<rparr>"
proof -
  have c: "a_chunkSize r \<in> {1024, 4096, 8192}" "a_byteLength r \<le> 1048576" "a_chunkCount r \<le> 1024"
    "int (a_chunkCount r) = ceil_div (int (a_byteLength r)) (int (a_chunkSize r))"
    using r ceil_div_count [of "int (a_chunkSize r)" "int (a_byteLength r)"] by (auto simp: record_ok_def limits allowed_sizes)
  then have safe: "safe_nat (a_byteLength r)" "safe_nat (a_chunkSize r)" "safe_nat (a_chunkCount r)" "0 < a_chunkSize r"
    by (auto intro: safe_small)
  have hs: "ChunkHashesSchema hashes" "case hashes of Inline xs \<Rightarrow> length xs = a_chunkCount r | Reference _ \<Rightarrow> 64 < a_chunkCount r"
    using h r by (auto simp: record_ok_def limits split: if_splits option.splits)
  have bounds: "if a_byteLength r = 0 then a_chunkCount r = 0 \<and> hashes = Inline []
      else 0 < a_chunkCount r \<and> (case hashes of Inline hs \<Rightarrow> length hs = a_chunkCount r | Reference _ \<Rightarrow> True) \<and>
        a_chunkSize r * (a_chunkCount r - 1) + 1 \<le> a_byteLength r \<and> a_byteLength r \<le> a_chunkSize r * a_chunkCount r"
  proof -
    have p: "0 < int (a_chunkSize r)" using safe(4) by simp
    note b = ceil_div_bounds [OF p, of "int (a_byteLength r)"]
    have "a_chunkCount r = 0 \<longleftrightarrow> a_byteLength r = 0" using ceil_div_eq_0 [OF p, of "int (a_byteLength r)"] c(4) by auto
    moreover have "a_byteLength r \<le> a_chunkSize r * a_chunkCount r" "a_chunkSize r * a_chunkCount r < a_byteLength r + a_chunkSize r"
      using b [folded c(4)] by (simp_all add: mult.commute flip: of_nat_mult of_nat_add)
    ultimately show ?thesis using hs(2) by (cases "a_chunkCount r") (auto split: chunk_hashes.splits)
  qed
  show ?thesis
    unfolding SourceIntegrityMetadataSchema_def source_integrity.simps
    using r safe hs(1) bounds profile_supported unfolding record_ok_def by blast
qed

lemma stat_refines:
  assumes s: "serves H deps rawContext aid r source" and inp: "ArtifactStatInputSchema rawInput = Some aid"
  shows "fst (artifactStat H deps rawContext rawInput) = Inr (stat_spec r)"
proof -
  obtain opts where rdy: "ready H deps rawContext aid r source opts" by (rule served [OF s])
  note o = readyD(1-8) [OF rdy] and art = readyD(9) [OF rdy]
  have id: "o_artifactId opts = a_artifactId r" by (rule ready_id [OF rdy])
  show ?thesis
    using delivered [OF o(1)] stat_schema [OF o(5)]
    by (simp add: artifactStat_def inp art stat_body_def stat_spec_def Let_def o(2) id split: option.split)
qed

end

section \<open>Runs whatever the dependencies answer\<close>

text \<open>What an operation relies on: the parsed context and the record the registry authorizes.\<close>

definition authorized :: "hashfn \<Rightarrow> dependencies \<Rightarrow> jsval \<Rightarrow> jsstring \<Rightarrow> (trusted_context \<times> artifact_record) option" where
  "authorized H deps rawContext aid =
     (case validateRuntimeContext rawContext of
        None \<Rightarrow> None
      | Some ctx \<Rightarrow>
          (case readClockIso deps of
             None \<Rightarrow> None
           | Some now \<Rightarrow> (case resolveArtifact H deps ctx aid now of R_ok r m \<Rightarrow> Some (ctx, r) | _ \<Rightarrow> None)))"

text \<open>The bytes the store delivers for a range.\<close>

definition delivered_bytes :: "dependencies \<Rightarrow> trusted_context \<Rightarrow> artifact_record \<Rightarrow> nat \<Rightarrow> nat \<Rightarrow> byte list" where
  "delivered_bytes deps ctx r off len =
     (case readVersionedRange deps ctx (internalLocator r) (a_objectVersionRef r) off len of
        Inl _ \<Rightarrow> []
      | Inr v \<Rightarrow> (case parseReadResult v of None \<Rightarrow> [] | Some (b, _) \<Rightarrow> b))"

text \<open>The byte strings hashed when the chunks that cover a range are checked, and those of a source.\<close>

definition range_inputs :: "dependencies \<Rightarrow> trusted_context \<Rightarrow> artifact_record \<Rightarrow> byte list \<Rightarrow> nat \<Rightarrow> nat \<Rightarrow> byte list list" where
  "range_inputs deps ctx r source off len =
     (let c = a_chunkSize r; lo = off div c; hi = (off + len - 1) div c
      in cover_inputs (record_manifest r) (lo * c)
           (delivered_bytes deps ctx r (lo * c) (min ((hi + 1) * c) (a_byteLength r) - lo * c)) source [lo..<Suc hi])"

lemma with_artifact_success:
  assumes "fst (with_artifact H deps operation cs rawContext aid (internal_stop operation cs) body) = Inr out" "class_of out = None"
  obtains ctx r opts m eff where "authorized H deps rawContext aid = Some (ctx, r)" "o_context opts = ctx" "o_record opts = r"
    "fst (body opts m eff) = Inr out" "\<exists>now. resolveArtifact H deps ctx aid now = R_ok r m"
proof -
  from assms obtain ctx now r m where "validateRuntimeContext rawContext = Some ctx" "readClockIso deps = Some now"
    "resolveArtifact H deps ctx aid now = R_ok r m"
    "fst (body \<lparr>o_context = ctx, o_record = r, o_artifactId = aid, o_recordedAt = now\<rparr> m [E_resolve ctx aid]) = Inr out"
    by (auto simp: with_artifact_def internal_stop_def Let_def split: option.splits resolve_outcome.splits)
  then show thesis
    using that [of ctx r "\<lparr>o_context = ctx, o_record = r, o_artifactId = aid, o_recordedAt = now\<rparr>" m "[E_resolve ctx aid]"]
    by (auto simp: authorized_def)
qed

lemma with_bytes_success:
  assumes "fst (with_bytes deps operation opts d cs eff off len body) = Inr out" "class_of out = None"
  shows "length (delivered_bytes deps (o_context opts) (o_record opts) off len) = len"
    "\<exists>eff'. fst (body (delivered_bytes deps (o_context opts) (o_record opts) off len) eff') = Inr out"
  using assms
  by (auto simp: with_bytes_def delivered_bytes_def Let_def split: sum.splits option.splits if_splits)

lemma deliver_success:
  assumes "fst (deliver H operation opts fd okd lc sc rc oc eff cand) = Inr out" "class_of out = None"
  shows "out = cand"
  using assms
  by (auto simp: deliver_def deliver_checked_def succeed_def split: if_splits bool.splits prod.splits)

lemma range_bytes_success:
  assumes "fst (range_bytes_body H opts m off len lo hi co cl buf eff) = Inr (O_range str p)"
  shows "\<exists>vs. buildAndVerifyCoveringChunks H m lo (int hi) (chunk_bytes m co buf) = Inr (Some vs)"
    "text_decode (subarray (off - co) (off - co + len) buf) = Some str"
  using assms
  by (auto simp: range_bytes_body_def Let_def split: sum.splits option.splits if_splits dest!: deliver_success)

context digest
begin

lemma range_sound:
  assumes "fst (artifactReadRange H deps rawContext rawInput) = Inr (O_range str p)"
  shows "\<exists>aid off len ctx r. ArtifactReadRangeInputSchema rawInput = Some (aid, off, len) \<and>
    authorized H deps rawContext aid = Some (ctx, r) \<and> off + len \<le> a_byteLength r \<and>
    (\<forall>source. verifyArtifactSourceManifest H (VBytes source) (record_manifest r) = Inr True \<longrightarrow>
       text_encode str = subarray off (off + len) source \<or> collision H (range_inputs deps ctx r source off len))"
proof -
  from assms obtain aid off len where inp: "ArtifactReadRangeInputSchema rawInput = Some (aid, off, len)"
    by (cases "ArtifactReadRangeInputSchema rawInput") (auto simp: artifactReadRange_def)
  then have len: "1 \<le> len" "len \<le> 8192"
    by (auto simp: ArtifactReadRangeInputSchema_def bind_eq_Some_conv z_nat_Some limits)
  let ?cs = "counts (Some len) None None"
  have "fst (with_artifact H deps artifact_read_range ?cs rawContext aid (internal_stop artifact_read_range ?cs)
      (range_body H deps off len)) = Inr (O_range str p)" using assms inp by (simp add: artifactReadRange_def)
  then obtain ctx r opts m eff where a: "authorized H deps rawContext aid = Some (ctx, r)" "o_context opts = ctx" "o_record opts = r"
    "fst (range_body H deps off len opts m eff) = Inr (O_range str p)" and res: "\<exists>now. resolveArtifact H deps ctx aid now = R_ok r m"
    by (rule with_artifact_success) auto
  from res obtain now where "resolveArtifact H deps ctx aid now = R_ok r m" by blast
  note r = resolved_ok(1,3,5) [OF this]
  define c where "c = a_chunkSize r"
  define lo where "lo = off div c"
  define hi where "hi = (off + len - 1) div c"
  define cl where "cl = min ((hi + 1) * c) (a_byteLength r) - lo * c"
  define buf where "buf = delivered_bytes deps ctx r (lo * c) cl"
  have in_range: "off + len \<le> a_byteLength r" using a(3,4) by (auto simp: range_body_def Let_def split: if_splits)
  note cov = range_cover [OF r(1) r(3) [unfolded r(2)] len in_range, folded c_def, folded lo_def hi_def]
  from a(3,4) obtain d cs where
    "fst (with_bytes deps artifact_read_range opts d cs eff (lo * c) cl (range_bytes_body H opts m off len lo hi (lo * c) cl)) = Inr (O_range str p)"
    by (auto simp: range_body_def Let_def lo_def hi_def cl_def c_def split: if_splits)
  note w = with_bytes_success [OF this, unfolded a(2,3), folded buf_def]
  then obtain eff' where "fst (range_bytes_body H opts m off len lo hi (lo * c) cl buf eff') = Inr (O_range str p)" by auto
  note s = range_bytes_success [OF this]
  have bl: "length buf = cl" using w(1) by simp
  have "int hi < int (length (chunks m))" using cov(2) r(2) by simp
  from cover_eq [OF r(3) this] s(1)
  have match: "\<forall>i \<in> {lo..<Suc hi}. bytes_match H (chunks m ! i) (the (chunk_bytes m (lo * c) buf i))"
    by (auto split: if_splits)
  have "text_encode str = subarray off (off + len) source \<or> collision H (range_inputs deps ctx r source off len)"
    if v: "verifyArtifactSourceManifest H (VBytes source) (record_manifest r) = Inr True" for source
  proof (rule disjCI)
    note sm = served_manifest [OF v]
    assume "\<not> collision H (range_inputs deps ctx r source off len)"
    then have inj: "\<not> collision H (cover_inputs m (lo * c) buf source [lo..<Suc hi])"
      by (simp only: range_inputs_def Let_def buf_def cl_def lo_def hi_def c_def r(2) simp_thms)
    have "buf = subarray (lo * c) (min ((hi + 1) * c) (length source)) source"
      using sm(2,3) match inj cov(1,2) bl r(2)
      by (intro covered_bytes [where m = m]) (auto simp: cl_def sm(1) c_def)
    then have "subarray (off - lo * c) (off - lo * c + len) buf = subarray off (off + len) source"
      using cov(4,5) [unfolded sm(1)] by (simp only:) (subst subarray_of_subarray, auto)
    then show "text_encode str = subarray off (off + len) source" using text_encode_decode [OF s(2)] by simp
  qed
  then show ?thesis using inp a(1) in_range by blast
qed

end

section \<open>Unavailable artifacts\<close>

text \<open>The registry answers \<open>null\<close>, or with a record that has expired.\<close>

definition hidden :: "dependencies \<Rightarrow> trusted_context \<Rightarrow> jsstring \<Rightarrow> bool" where
  "hidden deps ctx aid \<longleftrightarrow>
     (case resolveAuthorizedArtifact deps ctx aid of
        Inl _ \<Rightarrow> False
      | Inr v \<Rightarrow>
          v = VNull \<or>
          (case (validateAuthorizedArtifactRecord v aid, readClockIso deps) of
             (Some r, Some now) \<Rightarrow> isArtifactExpired (a_expiresAt r) now
           | _ \<Rightarrow> False))"

fun requested_id :: "inspection_operation \<Rightarrow> jsval \<Rightarrow> jsstring option" where
  "requested_id artifact_stat v = ArtifactStatInputSchema v"
| "requested_id artifact_read_range v = map_option fst (ArtifactReadRangeInputSchema v)"
| "requested_id artifact_read_lines v = map_option fst (ArtifactReadLinesInputSchema v)"
| "requested_id artifact_read_heading v = map_option fst (ArtifactReadHeadingInputSchema v)"
| "requested_id artifact_search_exact v = map_option fst (ArtifactSearchExactInputSchema v)"

lemma hidden_with_artifact:
  assumes "hidden deps ctx aid" "validateRuntimeContext rawContext = Some ctx" "clock_now deps = Some t"
  shows "with_artifact H deps operation cs rawContext aid onInternal body =
    stop operation (Some ctx) cs [E_resolve ctx aid] AI_RESOURCE_UNAVAILABLE"
  using assms
  by (auto simp: hidden_def with_artifact_def resolveArtifact_def readClockIso_def Let_def split: sum.splits option.splits)

text \<open>The whole run of a request for an artifact that is hidden.\<close>

definition hidden_run :: "inspection_operation \<Rightarrow> trusted_context \<Rightarrow> jsstring \<Rightarrow> jsval \<Rightarrow> run" where
  "hidden_run operation ctx aid rawInput =
     (case operation of
        artifact_read_range \<Rightarrow>
          stop operation (Some ctx) (counts (map_option (snd \<circ> snd) (ArtifactReadRangeInputSchema rawInput)) None None)
            [E_resolve ctx aid] AI_RESOURCE_UNAVAILABLE
      | artifact_search_exact \<Rightarrow>
          (case encodeUnicodeScalarValueString (fst (snd (the (ArtifactSearchExactInputSchema rawInput)))) of
             None \<Rightarrow> stop operation None no_counts [] AI_INVALID_REQUEST
           | Some queryBytes \<Rightarrow>
               if MAX_SEARCH_QUERY_LENGTH < length queryBytes then stop operation None no_counts [] AI_INVALID_REQUEST
               else stop operation (Some ctx) no_counts [E_resolve ctx aid] AI_RESOURCE_UNAVAILABLE)
      | _ \<Rightarrow> stop operation (Some ctx) no_counts [E_resolve ctx aid] AI_RESOURCE_UNAVAILABLE)"

lemma hidden_inspect:
  assumes "hidden deps ctx aid" "validateRuntimeContext rawContext = Some ctx" "clock_now deps = Some t"
    "requested_id operation rawInput = Some aid"
  shows "inspect H nfc lower deps operation rawContext rawInput = hidden_run operation ctx aid rawInput"
  using assms(4) hidden_with_artifact [OF assms(1-3)]
  by (cases operation)
    (auto simp: artifactStat_def artifactReadRange_def artifactReadLines_def artifactReadHeading_def artifactSearchExact_def
      hidden_run_def split: option.splits)

section \<open>Samples for the witnesses\<close>

definition missing_store :: dependencies where
  "missing_store = (store_of sample_record sample_text)\<lparr>resolveAuthorizedArtifact := \<lambda>ctx aid. Inr VNull\<rparr>"

definition expired_record :: artifact_record where
  "expired_record = sample_record\<lparr>a_expiresAt := Some (js ''2026-01-01T00:00:00.000Z'')\<rparr>"

definition expired_store :: dependencies where
  "expired_store = store_of expired_record sample_text"

definition range_request :: jsval where
  "range_request = obj [(''artifactId'', VStr sample_id), (''offset'', num 2), (''length'', num 3)]"

definition lines_request :: jsval where
  "lines_request = obj [(''artifactId'', VStr sample_id), (''startLine'', num 2), (''count'', num 1)]"

definition heading_request :: jsval where
  "heading_request = obj [(''artifactId'', VStr sample_id), (''headingId'', VStr (js ''a''))]"

definition search_request :: jsval where
  "search_request = obj [(''artifactId'', VStr sample_id), (''query'', VStr (js ''b''))]"

definition stat_request :: jsval where
  "stat_request = obj [(''artifactId'', VStr sample_id)]"

lemma sample_ids: "ArtifactId sample_id" "HeadingIdSchema (js ''a'')" "trim (js ''b'') = js ''b''"
  "length (js ''b'') = 1" "js ''b'' \<noteq> []"
  by code_simp+

lemmas parse_request = ArtifactReadRangeInputSchema_def ArtifactReadLinesInputSchema_def ArtifactReadHeadingInputSchema_def
  ArtifactSearchExactInputSchema_def ArtifactStatInputSchema_def range_request_def lines_request_def heading_request_def
  search_request_def stat_request_def z_strict_def obj_def getp_def ArtifactIdSchema_def z_refine_def sample_ids parse_num
  limits MAX_SAFE_INTEGER_def

lemma requests:
  "ArtifactReadRangeInputSchema range_request = Some (sample_id, 2, 3)"
  "ArtifactReadLinesInputSchema lines_request = Some (sample_id, 2, 1)"
  "ArtifactReadHeadingInputSchema heading_request = Some (sample_id, js ''a'')"
  "ArtifactSearchExactInputSchema search_request = Some (sample_id, js ''b'', 50)"
  "ArtifactStatInputSchema stat_request = Some sample_id"
  by (simp_all add: parse_request)

lemma missing_hidden: "hidden missing_store ctx sample_id"
  by (simp add: hidden_def missing_store_def)

lemma sample_record_ok: "record_ok sample_record"
  unfolding sample_record_def
  by (rule registration_ok) (simp_all add: allowed_sizes sample_text_def TEXT_MARKDOWN_def js_def)

lemma expired_hidden: "hidden expired_store ctx sample_id"
proof -
  have "iso_datetime (js ''2026-01-01T00:00:00.000Z'')" by code_simp
  then have "record_ok expired_record" using sample_record_ok by (simp add: record_ok_def expired_record_def)
  moreover have "a_artifactId expired_record = sample_id"
    by (simp add: expired_record_def sample_record_def registration_fields sample_id_def)
  ultimately have "validateAuthorizedArtifactRecord (record_val expired_record) sample_id = Some expired_record"
    using record_round_trip [of expired_record] by simp
  then show ?thesis
    using \<open>a_artifactId expired_record = sample_id\<close>
    by (simp add: hidden_def expired_store_def store_of_def readClockIso_def isArtifactExpired_def expired_record_def clock_text clock_parse)
qed

text \<open>The sample range read succeeds: the answer is short enough for the wire.\<close>

lemma hex_printable [simp]: "printables (hex b)"
  using hex_lower [of b] by (auto simp: list_all_iff lower_hex_def printable_def)

lemma sample_text_length: "length sample_text = 5"
  by (simp add: sample_text_def)

lemma sample_ok: "manifest_ok sha256 1024 5 (record_manifest sample_record)" "length (chunks (record_manifest sample_record)) = 1"
  using sha.served_manifest(2) [OF registration_verified [of 1024 sample_text TEXT_MARKDOWN]]
  by (simp_all add: sample_record_def registration_fields allowed_sizes sample_text_length chunk_count_def ceil_div_def)

lemma sample_chunk:
  "v_chunkIndex (verified_of sha256 (record_manifest sample_record) 0) = 0"
  "v_byteStart (verified_of sha256 (record_manifest sample_record) 0) = 0"
  "v_byteLength (verified_of sha256 (record_manifest sample_record) 0) = 5"
  "printables (v_chunkSha256 (verified_of sha256 (record_manifest sample_record) 0))"
  "length (v_chunkSha256 (verified_of sha256 (record_manifest sample_record) 0)) = 64"
  "merkleProof (verified_of sha256 (record_manifest sample_record) 0) = []"
proof -
  have i: "0 < length (chunks (record_manifest sample_record))" using sample_ok(2) by simp
  note f = sha.verified_of_fields [OF sample_ok(1) i]
  show "v_chunkIndex (verified_of sha256 (record_manifest sample_record) 0) = 0"
    "v_byteStart (verified_of sha256 (record_manifest sample_record) 0) = 0"
    "v_byteLength (verified_of sha256 (record_manifest sample_record) 0) = 5" using f(1-3) by simp_all
  have "HEX64_PATTERN (v_chunkSha256 (verified_of sha256 (record_manifest sample_record) 0))"
    using f(4) by (simp add: VerifiedChunkSchema_def)
  then show "length (v_chunkSha256 (verified_of sha256 (record_manifest sample_record) 0)) = 64"
    "printables (v_chunkSha256 (verified_of sha256 (record_manifest sample_record) 0))"
    by (auto simp: HEX64_PATTERN_def list_all_iff lower_hex_def printable_def)
  from sha.build_proof_ok [OF sample_ok(1) i] obtain nodes where
    "buildArtifactChunkProof sha256 (record_manifest sample_record) (JInt (int 0)) = Inr (proof_of (record_manifest sample_record) 0 nodes)"
    "length nodes = ceillog2 1" unfolding sample_ok(2) by blast
  then show "merkleProof (verified_of sha256 (record_manifest sample_record) 0) = []"
    by (simp add: verified_of_def proof_of_def Let_def)
qed

definition sample_answer :: inspection_output where
  "sample_answer = O_range (js [CHR ''a'', CHR 0x0A, CHR ''b''])
     (evidence sha256 sample_record (ByteRange 2 3) 2 3 (subarray 2 5 sample_text))"

lemma sample_weight: "ascii_val (output_val sample_answer)" "weight (output_val sample_answer) \<le> 2000"
proof -
  have f: "a_chunkSize sample_record = 1024" "a_chunkCount sample_record = 1" "a_sourceSha256 sample_record = hex (sha256 sample_text)"
    by (simp_all add: sample_record_def registration_def Let_def sample_text_def chunk_count_def ceil_div_def source_manifest_def)
  have "HEX64_PATTERN (a_merkleRoot sample_record)" using sample_record_ok by (simp add: record_ok_def)
  then have m: "printables (a_merkleRoot sample_record)" "length (a_merkleRoot sample_record) = 64"
    by (auto simp: HEX64_PATTERN_def list_all_iff lower_hex_def printable_def)
  note d = sample_answer_def evidence_def read_integrity_def integrity_val_def chunk_val_def range_val_def obj_def num_def Let_def f
    sample_chunk m js_def printable_def [of "_ :: cunit"]
  show "ascii_val (output_val sample_answer)" by (simp add: d)
  show "weight (output_val sample_answer) \<le> 2000" by (simp add: d)
qed

lemma sample_limited: "limited sample_answer = sample_answer"
  using wire_length [OF sample_weight(1)] sample_weight(2) by (simp add: limited_def limits)

lemma sample_range: "range_spec sha256 sample_record sample_text 2 3 = sample_answer"
proof -
  have "text_decode (subarray 2 5 sample_text) = Some (js [CHR ''a'', CHR 0x0A, CHR ''b''])"
    by (simp add: sample_text_def subarray_def text_decode_def utf8_dec_1 utf16_enc.simps js_def)
  then show ?thesis
    using sample_limited by (simp add: range_spec_def sample_text_length sample_answer_def Let_def)
qed

section \<open>Properties\<close>

lemma inspect_shape:
  "\<exists>calls out rs e. inspect sha256 nfc lower deps operation rawContext rawInput =
      (Inr out, calls @ map E_receipt rs @ [E_event e]) \<and> calls_ok calls \<and> length rs \<le> 1 \<and>
      list_all (\<lambda>r. ArtifactInspectionReceiptSchema r \<and> resultOrErrorClass r = class_of out) rs \<and>
      e_operation e = operation \<and> resultClass e = class_of out \<and> (length rs = 1 \<or> (\<exists>c. class_of out = Some c))"
proof -
  obtain calls where c: "calls_ok calls" "closes operation calls (inspect sha256 nfc lower deps operation rawContext rawInput)"
    using sha.well_inspect [of operation nfc lower deps rawContext rawInput] unfolding well_run_def by (elim exE conjE)
  from c(2) obtain out rs e where f:
    "inspect sha256 nfc lower deps operation rawContext rawInput = (Inr out, calls @ map E_receipt rs @ [E_event e])"
    "length rs \<le> 1" "e_operation e = operation" "resultClass e = class_of out"
    "\<forall>r \<in> set rs. ArtifactInspectionReceiptSchema r \<and> resultOrErrorClass r = class_of out"
    "class_of out = None \<longrightarrow> rs \<noteq> []" unfolding closes_def by (elim exE conjE)
  have "length rs = 1 \<or> (\<exists>c. class_of out = Some c)" using f(2,6) by (cases "class_of out"; cases rs) auto
  then show ?thesis using c(1) f
    by (intro exI [of _ calls] exI [of _ out] exI [of _ rs] exI [of _ e]) (simp only: list_all_iff simp_thms)
qed

text \<open>
  C5. Every inspection, whatever the dependencies answer or throw, returns an output and never rejects. Its
  effects are, in order: at most one registry call and then at most one read, at most one receipt, which is
  valid and carries the class of the output, and exactly one event, of the operation and of the class of the
  output; a success has its receipt.
\<close>

theorem inspection_effects:
  "\<exists>calls out rs e. inspect sha256 nfc lower deps operation rawContext rawInput =
      (Inr out, calls @ map E_receipt rs @ [E_event e]) \<and> calls_ok calls \<and> length rs \<le> 1 \<and>
      list_all (\<lambda>r. ArtifactInspectionReceiptSchema r \<and> resultOrErrorClass r = class_of out) rs \<and>
      e_operation e = operation \<and> resultClass e = class_of out \<and> (length rs = 1 \<or> (\<exists>c. class_of out = Some c))"
  by (rule inspect_shape)

text \<open>
  C20. A missing artifact and one whose record has expired are indistinguishable: with either answer of the
  registry the run of a request is the same, output and effects, and it reads no bytes and emits no receipt.
\<close>

theorem unavailable_indistinguishable:
  assumes "hidden d1 ctx aid" "hidden d2 ctx aid" "validateRuntimeContext rawContext = Some ctx"
    "clock_now d1 = Some t1" "clock_now d2 = Some t2" "requested_id operation rawInput = Some aid"
  shows "inspect sha256 nfc lower d1 operation rawContext rawInput = inspect sha256 nfc lower d2 operation rawContext rawInput \<and>
    list_all (\<lambda>e. case e of E_resolve _ _ \<Rightarrow> True | E_event _ \<Rightarrow> True | _ \<Rightarrow> False)
      (snd (inspect sha256 nfc lower d1 operation rawContext rawInput))"
proof -
  have "list_all (\<lambda>e. case e of E_resolve _ _ \<Rightarrow> True | E_event _ \<Rightarrow> True | _ \<Rightarrow> False) (snd (hidden_run operation ctx aid rawInput))"
    by (auto simp: hidden_run_def stop_def mk_emit_def split: inspection_operation.split option.split)
  then show ?thesis
    using hidden_inspect [OF assms(1,3,4,6)] hidden_inspect [OF assms(2,3,5,6)] by simp
qed

theorem unavailable_indistinguishable_witness:
  "\<exists>ctx. validateRuntimeContext sample_context = Some ctx \<and> hidden missing_store ctx sample_id \<and> hidden expired_store ctx sample_id \<and>
    inspect sha256 id id missing_store artifact_read_lines sample_context lines_request =
    inspect sha256 id id expired_store artifact_read_lines sample_context lines_request"
proof -
  obtain ctx where ctx: "validateRuntimeContext sample_context = Some ctx" using sample_context_valid by blast
  have t: "clock_now missing_store = Some 1767225600000" "clock_now expired_store = Some 1767225600000"
    by (simp_all add: missing_store_def expired_store_def store_of_def)
  have "requested_id artifact_read_lines lines_request = Some sample_id" using requests(2) by simp
  from unavailable_indistinguishable [OF missing_hidden expired_hidden ctx t this]
  show ?thesis using ctx missing_hidden expired_hidden by blast
qed

text \<open>
  C2. Soundness of range reads against an arbitrary store: when a range read succeeds, the requested range
  lies within the registered length, and for every source that verifies against the registered manifest the
  returned text is exactly the requested bytes of that source, or two of the byte strings that were hashed
  to check the covering chunks collide under SHA-256.
\<close>

theorem read_range_sound:
  assumes "fst (artifactReadRange sha256 deps rawContext rawInput) = Inr (O_range str p)"
  shows "\<exists>aid off len ctx r. ArtifactReadRangeInputSchema rawInput = Some (aid, off, len) \<and>
    authorized sha256 deps rawContext aid = Some (ctx, r) \<and> off + len \<le> a_byteLength r \<and>
    (\<forall>source. verifyArtifactSourceManifest sha256 (VBytes source) (record_manifest r) = Inr True \<longrightarrow>
       text_encode str = subarray off (off + len) source \<or> collision sha256 (range_inputs deps ctx r source off len))"
  using assms by (rule sha.range_sound)

theorem read_range_sound_witness:
  "\<exists>p. fst (artifactReadRange sha256 (store_of sample_record sample_text) sample_context range_request) =
      Inr (O_range (js [CHR ''a'', CHR 0x0A, CHR ''b'']) p) \<and>
    (\<exists>ctx r. authorized sha256 (store_of sample_record sample_text) sample_context sample_id = Some (ctx, r))"
proof -
  obtain p where "fst (artifactReadRange sha256 (store_of sample_record sample_text) sample_context range_request) =
      Inr (O_range (js [CHR ''a'', CHR 0x0A, CHR ''b'']) p)"
    using sha.range_refines [OF sample_served requests(1)] by (simp add: sample_range sample_answer_def)
  with read_range_sound [OF this] show ?thesis using requests(1) by auto
qed

text \<open>
  C9. Range reads of a served source: the answer is \<open>INTEGRITY_FAILURE\<close> when the range does not lie within
  the source, \<open>UNSUPPORTED\<close> when its bytes are not UTF-8, and otherwise the text of exactly these bytes with
  its evidence, unless that answer is too long for the wire. The fetch limit of 16384 bytes and the limit of
  16 covering chunks are never hit.
\<close>

theorem read_range_refines:
  assumes "serves sha256 deps rawContext aid r source" "ArtifactReadRangeInputSchema rawInput = Some (aid, off, len)"
  shows "fst (artifactReadRange sha256 deps rawContext rawInput) = Inr (range_spec sha256 r source off len)"
  using assms by (rule sha.range_refines)

theorem read_range_refines_witness:
  "\<exists>p. fst (artifactReadRange sha256 (store_of sample_record sample_text) sample_context range_request) =
      Inr (O_range (js [CHR ''a'', CHR 0x0A, CHR ''b'']) p)"
  using read_range_refines [OF sample_served requests(1)] by (simp add: sample_range sample_answer_def)

text \<open>
  C10. Line reads of a served source: after the checks of the media type, the size and the index, the answer
  holds the requested lines of the source, split at line feeds, as many as there are, with the byte range
  they have in the source; an empty page past the last line is anchored at the last chunk, an empty source
  has no page, and more than 8192 bytes are refused.
\<close>

theorem read_lines_refines:
  assumes "serves sha256 deps rawContext aid r source" "ArtifactReadLinesInputSchema rawInput = Some (aid, startLine, count)"
  shows "fst (artifactReadLines sha256 nfc lower deps rawContext rawInput) =
    Inr (lines_spec sha256 nfc lower r source startLine count)"
  using assms by (rule sha.lines_refines)

theorem read_lines_refines_witness:
  "fst (artifactReadLines sha256 id id (store_of sample_record sample_text) sample_context lines_request) =
    Inr (lines_spec sha256 id id sample_record sample_text 2 1) \<and> split_lf sample_text = [[0x23, 0x20, 0x61, 0x0a], [0x62]]"
  using read_lines_refines [OF sample_served requests(2), of id id] by (simp add: sample_text_def LF_def)

text \<open>
  C36. Heading reads of a served Markdown source, split at line feeds: an identifier that no heading line of the source
  has is answered like a missing artifact; any other with the whole of its line up to, and without, the line break, and
  with the byte range that text has in the source, unless it has more than 8192 bytes or the answer is too
  long for the wire. Such a line is an ATX heading: at most three spaces, one to six number signs and a space.
\<close>

theorem read_heading_refines:
  assumes "serves sha256 deps rawContext aid r source" "ArtifactReadHeadingInputSchema rawInput = Some (aid, hid)"
  shows "fst (artifactReadHeading sha256 nfc lower deps rawContext rawInput) = Inr (heading_spec sha256 nfc lower r source hid)
    \<and> (case map_of (heading_lines nfc lower [] None 0 (split_lf source)) hid of
         None \<Rightarrow> True
       | Some n \<Rightarrow> n < length (split_lf source) \<and> atx_line (the (text_decode (without_break (split_lf source ! n)))))"
  using sha.heading_refines [OF assms] by (auto dest: heading_place split: option.split)

theorem read_heading_refines_witness:
  "fst (artifactReadHeading sha256 id id (store_of sample_record sample_text) sample_context heading_request) =
    Inr (limited (O_heading (js ''a'') (js ''# a'')
      (evidence sha256 sample_record (HeadingRange (js ''a'')) 0 3 [0x23, 0x20, 0x61])))"
proof -
  have media: "a_mediaType sample_record = TEXT_MARKDOWN" by (simp add: sample_record_def registration_fields)
  have "heading_lines id id [] None 0 (split_lf sample_text) = [(js ''a'', 0)]"
    using built_heading_lines [OF sample_built] by (simp add: sample_index_def sample_headings_def)
  moreover have "without_break (split_lf sample_text ! 0) = [0x23, 0x20, 0x61]"
    by (simp add: sample_text_def without_break_def LF_def CR_def)
  moreover have "text_decode [0x23, 0x20, 0x61] = Some (js ''# a'')"
    by (simp add: text_decode_def utf8_dec_1 utf16_enc.simps js_def)
  ultimately have "heading_spec sha256 id id sample_record sample_text (js ''a'') = limited (O_heading (js ''a'') (js ''# a'')
      (evidence sha256 sample_record (HeadingRange (js ''a'')) 0 3 [0x23, 0x20, 0x61]))"
    by (simp add: heading_spec_def heading_answer_def media sample_built sample_text_length limits numeral_3_eq_3)
  with read_heading_refines [OF sample_served requests(3), of id id] show ?thesis by simp
qed

text \<open>
  C11. Exact search of a served source: the hits are the first \<open>maxHits\<close> leftmost non-overlapping occurrences
  of the encoded query, in order, each with the number of the line it starts on, counted by line feeds.
  The limit of 16 chunks is never hit.
\<close>

theorem search_exact_refines:
  assumes "serves sha256 deps rawContext aid r source"
    "ArtifactSearchExactInputSchema rawInput = Some (aid, query, maxHits)"
  shows "fst (artifactSearchExact sha256 nfc lower deps rawContext rawInput) =
    Inr (search_spec sha256 nfc lower r source query maxHits)"
  using assms by (rule sha.search_refines)

theorem search_exact_refines_witness:
  "fst (artifactSearchExact sha256 id id (store_of sample_record sample_text) sample_context search_request) =
    Inr (search_spec sha256 id id sample_record sample_text (js ''b'') 50) \<and>
    occurrences [0x62] 0 sample_text = [4] \<and> line_of sample_text 4 = 2"
proof -
  have "occurrences [0x62] 0 sample_text = [4]" by (simp add: sample_text_def occurrences.simps)
  moreover have "line_of sample_text 4 = 2" by (simp add: sample_text_def line_of_def LF_def)
  ultimately show ?thesis using search_exact_refines [OF sample_served requests(4), of id id] by simp
qed

text \<open>
  Metadata of a served artifact: exactly the registered fields, with the chunk digests inline for at most
  64 chunks and by reference above, and an internal error when a reference is needed and missing.
\<close>

lemma stat_refines_spec:
  assumes "serves sha256 deps rawContext aid r source" "ArtifactStatInputSchema rawInput = Some aid"
  shows "fst (artifactStat sha256 deps rawContext rawInput) = Inr (stat_spec r)"
  using assms by (rule sha.stat_refines)

lemma stat_refines_spec_witness:
  "fst (artifactStat sha256 (store_of sample_record sample_text) sample_context stat_request) = Inr (stat_spec sample_record)"
  using stat_refines_spec [OF sample_served requests(5)] .

text \<open>
  The object of a registry record is validated to that very record exactly when the record is well
  formed: identifiers and digests of their format, at most one mebibyte, a supported chunk size, the chunk
  count and the digest lists that follow from them, and valid dates.
\<close>

lemma registry_record_round_trip:
  "validateAuthorizedArtifactRecord (record_val r) (a_artifactId r) = Some r \<longleftrightarrow> record_ok r"
  by (rule record_round_trip)

end
