(* ===== verification/Json_Text.thy ===== *)
theory Json_Text
  imports Wire Zod
begin

text \<open>
  \<open>JSON.stringify\<close> is unambiguous: on values built from null, booleans, integers, strings, arrays and objects
  the text determines the value.
\<close>

section \<open>Unambiguous texts\<close>

text \<open>What may follow a value inside a text.\<close>

definition delimited :: "jsstring \<Rightarrow> bool" where
  "delimited r \<longleftrightarrow> r = [] \<or> hd r \<in> {0x2c, 0x5d, 0x7d}"

definition delimiter :: "cunit \<Rightarrow> bool" where
  "delimiter u \<longleftrightarrow> u \<in> {0x2c, 0x5d, 0x7d}"

text \<open>How a value inside a text may begin.\<close>

definition value_start :: "jsstring \<Rightarrow> bool" where
  "value_start t \<longleftrightarrow> t \<noteq> [] \<and> \<not> delimiter (hd t)"

text \<open>
  The text \<open>f x\<close> of a value \<open>x\<close> is told apart from the text of every other value with \<open>p\<close>, and where it ends
  is determined too.
\<close>

definition unambiguous :: "('a \<Rightarrow> bool) \<Rightarrow> ('a \<Rightarrow> jsstring) \<Rightarrow> 'a \<Rightarrow> bool" where
  "unambiguous p f x \<longleftrightarrow>
     (\<forall>y r s. p y \<longrightarrow> delimited r \<longrightarrow> delimited s \<longrightarrow> f x @ r = f y @ s \<longrightarrow> x = y \<and> r = s)"

lemma unambiguousD:
  "unambiguous p f x \<Longrightarrow> f x @ r = f y @ s \<Longrightarrow> p y \<Longrightarrow> delimited r \<Longrightarrow> delimited s \<Longrightarrow> x = y \<and> r = s"
  by (auto simp: unambiguous_def)

lemma value_start_not: "value_start t \<Longrightarrow> delimiter c \<Longrightarrow> t @ r \<noteq> c # s"
  by (cases t) (auto simp: value_start_def)

lemma delimited_Cons [simp]: "delimited (u # r) \<longleftrightarrow> delimiter u"
  by (simp add: delimited_def delimiter_def)

lemma delimited_Nil [simp]: "delimited []"
  by (simp add: delimited_def)

lemma delimiters [simp]: "delimiter 0x2c" "delimiter 0x5d" "delimiter 0x7d"
  by (simp_all add: delimiter_def)

section \<open>Sequences\<close>

definition tail_text :: "('a \<Rightarrow> jsstring) \<Rightarrow> 'a list \<Rightarrow> jsstring" where
  "tail_text f xs = concat (map (\<lambda>x. 0x2c # f x) xs)"

lemma join_tail: "join_comma (map f (x # xs)) = f x @ tail_text f xs"
  by (simp add: join_comma_def tail_text_def o_def)

lemma tail_delimited: "delimiter c \<Longrightarrow> delimited (tail_text f xs @ c # r)"
  by (cases xs) (simp_all add: tail_text_def)

lemma tail_unambiguous:
  "\<forall>x \<in> set xs. unambiguous p f x \<Longrightarrow> \<forall>y \<in> set ys. p y \<Longrightarrow> delimiter c \<Longrightarrow> c \<noteq> 0x2c \<Longrightarrow>
   tail_text f xs @ c # r = tail_text f ys @ c # s \<Longrightarrow> xs = ys \<and> r = s"
proof (induction xs arbitrary: ys)
  case Nil
  then show ?case by (cases ys) (auto simp: tail_text_def)
next
  case (Cons x xs)
  then obtain y ys' where ys: "ys = y # ys'" by (cases ys) (auto simp: tail_text_def)
  from Cons.prems(5) have e: "f x @ tail_text f xs @ c # r = f y @ tail_text f ys' @ c # s"
    by (simp add: tail_text_def ys)
  from Cons.prems(1) have "unambiguous p f x" by simp
  from unambiguousD [OF this e] Cons.prems(2,3) have "x = y" "tail_text f xs @ c # r = tail_text f ys' @ c # s"
    by (simp_all add: ys tail_delimited)
  with Cons.IH [of ys'] Cons.prems ys show ?case by simp
qed

lemma join_unambiguous:
  assumes x: "\<forall>x \<in> set xs. unambiguous p f x \<and> value_start (f x)" and y: "\<forall>y \<in> set ys. p y \<and> value_start (f y)"
    and c: "delimiter c" "c \<noteq> 0x2c" and e: "join_comma (map f xs) @ c # r = join_comma (map f ys) @ c # s"
  shows "xs = ys \<and> r = s"
proof (cases xs)
  case Nil
  show ?thesis
  proof (cases ys)
    case (Cons y' ys')
    from e Nil Cons have "f y' @ tail_text f ys' @ c # s = c # r" 
      unfolding Cons join_tail by (simp add: join_comma_def)
    with value_start_not [OF _ c(1)] y Cons show ?thesis by auto
  qed (use e Nil in \<open>simp add: join_comma_def\<close>)
next
  case (Cons x' xs')
  then have e': "f x' @ tail_text f xs' @ c # r = join_comma (map f ys) @ c # s" using e unfolding Cons join_tail by simp
  show ?thesis
  proof (cases ys)
    case Nil
    with e' have "f x' @ tail_text f xs' @ c # r = c # s" by (simp add: join_comma_def)
    with value_start_not [OF _ c(1)] x Cons show ?thesis by auto
  next
    case ys: (Cons y' ys')
    have e2: "f x' @ tail_text f xs' @ c # r = f y' @ tail_text f ys' @ c # s" using e' unfolding ys join_tail by simp
    from x Cons have "unambiguous p f x'" by simp
    from unambiguousD [OF this e2] y ys c(1) have "x' = y'" "tail_text f xs' @ c # r = tail_text f ys' @ c # s"
      by (simp_all add: tail_delimited)
    with tail_unambiguous [of xs' p f ys' c r s] x y c Cons ys show ?thesis by simp
  qed
qed

section \<open>Numbers\<close>

lemma digit_units: "u \<in> set (to_base 10 n) \<Longrightarrow> 48 \<le> unat u \<and> unat u \<le> 57"
  using to_base_digit [of 10 u n] by (auto simp: unat_hex_digit)

lemma delimiter_unat: "delimiter u \<Longrightarrow> unat u \<in> {44, 93, 125}"
  by (auto simp: delimiter_def)

lemma digits_unambiguous:
  assumes "to_base 10 n @ r = to_base 10 m @ s" "delimited r" "delimited s"
  shows "n = m \<and> r = s"
proof -
  let ?d = "\<lambda>u :: cunit. 48 \<le> unat u \<and> unat u \<le> 57"
  have t: "takeWhile ?d (to_base 10 k @ t) = to_base 10 k" if "delimited t" for k t
  proof -
    have "takeWhile ?d t = []" using that by (cases t) (auto dest: delimiter_unat)
    then show ?thesis by (subst takeWhile_append2) (auto dest: digit_units)
  qed
  have "to_base 10 n = to_base 10 m" using t [OF assms(2), of n] t [OF assms(3), of m] assms(1) by simp
  with assms(1) show ?thesis by (metis to_base_value same_append_eq)
qed

lemma number_unambiguous:
  assumes "json_number (JInt k) @ r = json_number (JInt l) @ s" "delimited r" "delimited s"
  shows "k = l \<and> r = s"
proof -
  have nd: "to_base 10 n @ t \<noteq> 0x2d # t'" for n t t'
  proof
    assume "to_base 10 n @ t = 0x2d # t'"
    then have "(0x2d :: cunit) \<in> set (to_base 10 n)" using to_base_not_Nil [of 10 n] by (cases "to_base 10 n") auto
    from digit_units [OF this] show False by simp
  qed
  consider "k < 0" "l < 0" | "0 \<le> k" "0 \<le> l" | "k < 0 \<longleftrightarrow> 0 \<le> l" by linarith
  then show ?thesis
  proof cases
    case 3
    with assms(1) nd nd [symmetric] show ?thesis by (cases "k < 0") (auto simp: append_Cons)
  qed (use assms digits_unambiguous [of "nat \<bar>k\<bar>" r "nat \<bar>l\<bar>" s] in auto)
qed

section \<open>Strings\<close>

definition hex_number :: "jsstring \<Rightarrow> nat" where
  "hex_number s = foldl (\<lambda>n u. 16 * n + the (hex_value u)) 0 s"

lemma hex_number_to_base: "hex_number (to_base 16 n) = n"
proof (induction n rule: less_induct)
  case (less n)
  then show ?case by (cases "n < 16") (simp_all add: to_base.simps [of 16 n] hex_number_def)
qed

lemma hex_number_pad4: "hex_number (pad4 s) = hex_number s"
proof -
  have "foldl (\<lambda>n u. 16 * n + the (hex_value u)) 0 (replicate k (hex_digit 0)) = 0" for k by (induction k) simp_all
  then show ?thesis by (simp add: pad4_def hex_number_def)
qed

lemma length_pad4: "c < 65536 \<Longrightarrow> length (pad4 (to_base 16 c)) = 4"
proof -
  assume c: "c < 65536"
  have "length (to_base 16 n) \<le> Suc d" if "n < 16 ^ Suc d" for n d
    using that
  proof (induction d arbitrary: n)
    case (Suc d)
    then have "n div 16 < 16 ^ Suc d" by (simp add: less_mult_imp_div_less)
    from Suc.IH [OF this] show ?case by (subst to_base.simps) simp
  qed (subst to_base.simps, simp)
  from this [of c 3] c have "length (to_base 16 c) \<le> 4" by simp
  then show ?thesis by (simp add: pad4_def)
qed

lemma unicode_escape_unambiguous:
  assumes "unicode_escape c @ r = unicode_escape d @ s" "c < 65536" "d < 65536"
  shows "c = d \<and> r = s"
proof -
  from assms(1) have "pad4 (to_base 16 c) @ r = pad4 (to_base 16 d) @ s" by (simp add: unicode_escape_def)
  with length_pad4 [OF assms(2)] length_pad4 [OF assms(3)]
  have "pad4 (to_base 16 c) = pad4 (to_base 16 d)" "r = s" by simp_all
  then show ?thesis by (metis hex_number_to_base hex_number_pad4)
qed

definition escaped :: "nat \<Rightarrow> bool" where
  "escaped c \<longleftrightarrow> c = 0x22 \<or> c = 0x5c \<or> c < 32 \<or> surrogate c"

lemma json_char_plain:
  assumes "\<not> escaped c" "c < 1114112"
  shows "json_char c = utf16_enc c" "utf16_enc c \<noteq> []" "hd (utf16_enc c) \<noteq> 0x5c" "hd (utf16_enc c) \<noteq> 0x22"
    "unat (hd (utf16_enc c)) = (if c < 65536 then c else 55296 + (c - 65536) div 1024)"
proof -
  show "json_char c = utf16_enc c" using assms by (auto simp: json_char_def escaped_def)
  show "utf16_enc c \<noteq> []" by (simp add: utf16_enc.simps)
  show u: "unat (hd (utf16_enc c)) = (if c < 65536 then c else 55296 + (c - 65536) div 1024)"
  proof (cases "c < 65536")
    case True
    then show ?thesis by (simp add: utf16_enc.simps unat_cunit)
  next
    case False
    have "(c - 65536) div 1024 < 1024" using assms(2) by (simp add: less_mult_imp_div_less)
    then have "unat (of_nat (55296 + (c - 65536) div 1024) :: cunit) = 55296 + (c - 65536) div 1024"
      by (intro unat_cunit) linarith
    with False show ?thesis by (simp add: utf16_enc.simps del: of_nat_add)
  qed
  have "c \<noteq> 0x5c" "c \<noteq> 0x22" using assms(1) by (auto simp: escaped_def)
  with u show "hd (utf16_enc c) \<noteq> 0x5c" "hd (utf16_enc c) \<noteq> 0x22" by (auto split: if_splits)
qed

lemma utf16_enc_unambiguous:
  assumes c: "\<not> escaped c" "c < 1114112" and d: "\<not> escaped d" "d < 1114112"
    and e: "utf16_enc c @ r = utf16_enc d @ s"
  shows "c = d \<and> r = s"
proof -
  note c5 = json_char_plain(2,5) [OF c] and d5 = json_char_plain(2,5) [OF d]
  have "hd (utf16_enc c) = hd (utf16_enc d)" using e c5(1) d5(1) by (metis hd_append2)
  then have h: "(if c < 65536 then c else 55296 + (c - 65536) div 1024) = (if d < 65536 then d else 55296 + (d - 65536) div 1024)"
    using c5(2) d5(2) by (metis)
  have ns: "\<not> surrogate c" "\<not> surrogate d" using c d by (auto simp: escaped_def)
  have q: "(c - 65536) div 1024 < 1024" "(d - 65536) div 1024 < 1024"
    using c(2) d(2) by (simp_all add: less_mult_imp_div_less)
  consider "c < 65536" "d < 65536" | "65536 \<le> c" "65536 \<le> d" | "c < 65536 \<longleftrightarrow> 65536 \<le> d" by linarith
  then show ?thesis
  proof cases
    case 1
    then have "c = d" using h 1 by simp
    moreover from this have "r = s" using e by (metis same_append_eq)
    ultimately show ?thesis ..
  next
    case 2
    let ?l = "\<lambda>c. (of_nat (56320 + (c - 65536) mod 1024) :: cunit)"
    have "utf16_enc x = [of_nat (55296 + (x - 65536) div 1024), ?l x]" if "x \<in> {c, d}" for x
      using that 2 by (auto simp: utf16_enc.simps)
    then have l: "?l c = ?l d" "r = s" using e by simp_all
    have m: "unat (?l x) = 56320 + (x - 65536) mod 1024" for x
      by (rule unat_cunit) (use mod_less_divisor [of 1024 "x - 65536"] in linarith)
    have "56320 + (c - 65536) mod 1024 = 56320 + (d - 65536) mod 1024" using m [of c] m [of d] unfolding l(1) by (rule trans [OF sym])
    then have "(c - 65536) mod 1024 = (d - 65536) mod 1024" by (rule add_left_imp_eq)
    moreover have "(c - 65536) div 1024 = (d - 65536) div 1024" using h 2 by simp
    ultimately have "c - 65536 = d - 65536" by (metis div_mult_mod_eq)
    with 2 l(2) show ?thesis by simp
  next
    case 3
    then show ?thesis using h ns q by (cases "c < 65536") (simp_all add: surrogate_def)
  qed
qed

lemma json_char_escaped:
  assumes "escaped c"
  shows "\<exists>e t. json_char c = 0x5c # e # t \<and>
    (if e = 0x75 then 0x5c # e # t = unicode_escape c
     else t = [] \<and> (e, c) \<in> {(0x22, 0x22), (0x5c, 0x5c), (0x62, 8), (0x66, 12), (0x6e, 10), (0x72, 13), (0x74, 9)})"
  using assms by (auto simp: json_char_def escaped_def unicode_escape_def)

lemma json_char_unambiguous:
  assumes c: "c < 1114112" and d: "d < 1114112" and e: "json_char c @ r = json_char d @ s"
  shows "c = d \<and> r = s"
proof (cases "escaped c"; cases "escaped d")
  assume ec: "escaped c" and ed: "escaped d"
  obtain x t where x: "json_char c = 0x5c # x # t" and xt: "if x = 0x75 then 0x5c # x # t = unicode_escape c
     else t = [] \<and> (x, c) \<in> {(0x22, 0x22), (0x5c, 0x5c), (0x62, 8), (0x66, 12), (0x6e, 10), (0x72, 13), (0x74, 9)}"
    using json_char_escaped [OF ec] by blast
  obtain y u where y: "json_char d = 0x5c # y # u" and yu: "if y = 0x75 then 0x5c # y # u = unicode_escape d
     else u = [] \<and> (y, d) \<in> {(0x22, 0x22), (0x5c, 0x5c), (0x62, 8), (0x66, 12), (0x6e, 10), (0x72, 13), (0x74, 9)}"
    using json_char_escaped [OF ed] by blast
  have xy: "x = y" "t @ r = u @ s" using e x y by simp_all
  show ?thesis
  proof (cases "x = 0x75")
    case True
    with xt yu xy have "unicode_escape c @ r = unicode_escape d @ s" by (metis append_Cons)
    moreover have "c < 65536" "d < 65536" using ec ed by (auto simp: escaped_def surrogate_def)
    ultimately show ?thesis by (rule unicode_escape_unambiguous)
  next
    case False
    with xt yu xy show ?thesis by auto
  qed
next
  assume "escaped c" "\<not> escaped d"
  with json_char_escaped [of c] json_char_plain [of d] e d show ?thesis
    by (cases "utf16_enc d") auto
next
  assume "\<not> escaped c" "escaped d"
  with json_char_escaped [of d] json_char_plain [of c] e c show ?thesis
    by (cases "utf16_enc c") auto
next
  assume "\<not> escaped c" "\<not> escaped d"
  with utf16_enc_unambiguous [of c d r s] json_char_plain(1) e c d show ?thesis by simp
qed

lemma json_char_start: "c < 1114112 \<Longrightarrow> json_char c \<noteq> [] \<and> hd (json_char c) \<noteq> 0x22"
  using json_char_escaped [of c] json_char_plain [of c] by (cases "escaped c") auto

lemma json_chars_unambiguous:
  assumes "\<forall>c \<in> set cs. c < 1114112" "\<forall>d \<in> set ds. d < 1114112"
    "concat (map json_char cs) @ 0x22 # r = concat (map json_char ds) @ 0x22 # s"
  shows "cs = ds \<and> r = s"
  using assms
proof (induction cs arbitrary: ds)
  case Nil
  then show ?case using json_char_start [of "hd ds"] by (cases ds; cases "json_char (hd ds)") auto
next
  case (Cons c cs)
  then obtain d ds' where ds: "ds = d # ds'"
    using json_char_start [of c] by (cases ds) (auto simp: append_eq_Cons_conv)
  from Cons.prems ds have "json_char c @ concat (map json_char cs) @ 0x22 # r = json_char d @ concat (map json_char ds') @ 0x22 # s"
    by simp
  from json_char_unambiguous [OF _ _ this] Cons.prems(1,2) ds
  have "c = d" "concat (map json_char cs) @ 0x22 # r = concat (map json_char ds') @ 0x22 # s" by simp_all
  with Cons.IH [of ds'] Cons.prems(1,2) ds show ?case by simp
qed

lemma json_string_unambiguous:
  assumes "json_string s @ r = json_string t @ r'"
  shows "s = t \<and> r = r'"
proof -
  from assms have "concat (map json_char (code_points s)) @ 0x22 # r = concat (map json_char (code_points t)) @ 0x22 # r'"
    by (simp add: json_string_def)
  then have "code_points s = code_points t \<and> r = r'"
    by (rule json_chars_unambiguous [rotated 2]) (auto dest: code_points_less)
  then show ?thesis by (metis utf16_code_points)
qed

section \<open>Values\<close>

text \<open>Values printed without loss: no \<open>undefined\<close>, only integral numbers.\<close>

fun int_data :: "jsval \<Rightarrow> bool" where
  "int_data VNull = True"
| "int_data (VBool b) = True"
| "int_data (VNum x) = isInteger x"
| "int_data (VStr s) = True"
| "int_data (VArr xs) = list_all int_data xs"
| "int_data (VObj fs) = list_all (int_data \<circ> snd) fs"
| "int_data _ = False"

definition json_text :: "jsval \<Rightarrow> jsstring" where
  "json_text v = the (json v)"

definition member_text :: "jsstring \<times> jsval \<Rightarrow> jsstring" where
  "member_text m = json_string (fst m) @ 0x3a # json_text (snd m)"

lemma json_int_data: "int_data v \<Longrightarrow> json v = Some (json_text v)"
  by (cases v) (simp_all add: json_text_def)

lemma json_text_array: "list_all int_data xs \<Longrightarrow> json_text (VArr xs) = 0x5b # join_comma (map json_text xs) @ [0x5d]"
proof -
  assume "list_all int_data xs"
  then have "map (\<lambda>v. case json v of None \<Rightarrow> js ''null'' | Some t \<Rightarrow> t) xs = map json_text xs"
    by (intro map_cong) (auto simp: list_all_iff json_int_data)
  then have "json (VArr xs) = Some (0x5b # join_comma (map json_text xs) @ [0x5d])" by (simp only: json.simps) simp
  then show ?thesis unfolding json_text_def [of "VArr xs"] by simp
qed

lemma json_text_object:
  "list_all (int_data \<circ> snd) fs \<Longrightarrow> json_text (VObj fs) = 0x7b # join_comma (map member_text fs) @ [0x7d]"
proof -
  assume "list_all (int_data \<circ> snd) fs"
  then have "map (\<lambda>(k, v). case json v of None \<Rightarrow> [] | Some t \<Rightarrow> [json_string k @ [0x3a] @ t]) fs = map (\<lambda>m. [member_text m]) fs"
    by (intro map_cong) (auto simp: list_all_iff json_int_data member_text_def)
  then have "concat (map (\<lambda>(k, v). case json v of None \<Rightarrow> [] | Some t \<Rightarrow> [json_string k @ [0x3a] @ t]) fs) = map member_text fs"
    by (simp only:) (induction fs, simp_all)
  then have "json (VObj fs) = Some (0x7b # join_comma (map member_text fs) @ [0x7d])" by (simp only: json.simps) simp
  then show ?thesis unfolding json_text_def [of "VObj fs"] by simp
qed

text \<open>The first code unit of a text tells the kind of the value.\<close>

fun json_kind :: "jsval \<Rightarrow> nat" where
  "json_kind VNull = 110"
| "json_kind (VBool b) = (if b then 116 else 102)"
| "json_kind (VNum x) = 48"
| "json_kind (VStr s) = 34"
| "json_kind (VArr xs) = 91"
| "json_kind (VObj fs) = 123"
| "json_kind _ = 0"

definition kind_of_start :: "nat \<Rightarrow> nat" where
  "kind_of_start n = (if n = 45 \<or> 48 \<le> n \<and> n \<le> 57 then 48 else n)"

lemma json_start: "int_data v \<Longrightarrow> json_text v \<noteq> [] \<and> kind_of_start (unat (hd (json_text v))) = json_kind v"
proof (induction v)
  case (VNum x)
  then obtain k where x: "x = JInt k" by (auto simp: isInteger_cases)
  have "hd (to_base 10 n) \<in> set (to_base 10 n)" for n by simp
  from digit_units [OF this] show ?case by (simp add: x json_text_def kind_of_start_def)
qed (simp_all add: json_text_def js_def json_string_def kind_of_start_def split: if_splits)

lemma json_value_start: "int_data v \<Longrightarrow> value_start (json_text v)"
proof -
  assume v: "int_data v"
  have "json_kind v \<noteq> 44" "json_kind v \<noteq> 93" "json_kind v \<noteq> 125" "json_kind v \<noteq> 0" using v by (cases v; simp)+
  moreover have "unat (hd (json_text v)) \<in> {44, 93, 125} \<Longrightarrow> kind_of_start (unat (hd (json_text v))) = unat (hd (json_text v))"
    by (auto simp: kind_of_start_def)
  ultimately show ?thesis using json_start [OF v] by (auto simp: value_start_def dest!: delimiter_unat)
qed

lemma json_kind_eq:
  assumes "int_data v" "int_data w" "json_text v @ r = json_text w @ s"
  shows "json_kind v = json_kind w"
proof -
  have "json_text v \<noteq> []" "json_text w \<noteq> []" using json_start assms by blast+
  then have "hd (json_text v) = hd (json_text w)" using assms(3) by (metis hd_append2)
  then show ?thesis using json_start assms(1,2) by metis
qed

lemma json_unambiguous: "int_data v \<Longrightarrow> unambiguous int_data json_text v"
proof (induction v)
  case (VArr xs)
  then have xs: "\<forall>x \<in> set xs. unambiguous int_data json_text x \<and> value_start (json_text x)" "list_all int_data xs"
    by (auto simp: list_all_iff json_value_start)
  show ?case unfolding unambiguous_def
  proof (intro allI impI)
    fix w r s assume w: "int_data w" "json_text (VArr xs) @ r = json_text w @ s"
    with json_kind_eq [OF VArr.prems w] obtain ys where ys: "w = VArr ys" by (cases w) (auto split: if_splits)
    with w(1) have "list_all int_data ys" by simp
    then have "\<forall>y \<in> set ys. int_data y \<and> value_start (json_text y)" by (auto simp: list_all_iff json_value_start)
    moreover have "join_comma (map json_text xs) @ 0x5d # r = join_comma (map json_text ys) @ 0x5d # s"
      using w(2) unfolding ys json_text_array [OF xs(2)] json_text_array [OF \<open>list_all int_data ys\<close>] by simp
    ultimately show "VArr xs = w \<and> r = s" using join_unambiguous [OF xs(1), where ys = ys and c = "0x5d" and r = r and s = s] ys by simp
  qed
next
  case (VObj fs)
  let ?p = "int_data \<circ> snd"
  have vs: "value_start (member_text m)" for m by (simp add: member_text_def json_string_def value_start_def delimiter_def)
  have u: "unambiguous ?p member_text m" if m: "m \<in> set fs" for m
    unfolding unambiguous_def
  proof (intro allI impI)
    fix n r s assume n: "?p n" "delimited r" "delimited s" "member_text m @ r = member_text n @ s"
    then have k: "fst m = fst n" "json_text (snd m) @ r = json_text (snd n) @ s"
      using json_string_unambiguous [of "fst m" "0x3a # json_text (snd m) @ r" "fst n" "0x3a # json_text (snd n) @ s"]
      by (simp_all add: member_text_def)
    have "unambiguous int_data json_text (snd m)"
      using VObj.IH [of m "snd m"] VObj.prems m by (cases m) (auto simp: list_all_iff)
    from unambiguousD [OF this k(2)] n have "snd m = snd n \<and> r = s" by simp
    with k(1) show "m = n \<and> r = s" by (simp add: prod_eq_iff)
  qed
  then have xs: "\<forall>m \<in> set fs. unambiguous ?p member_text m \<and> value_start (member_text m)" using vs by blast
  have fs: "list_all ?p fs" using VObj.prems by simp
  show ?case unfolding unambiguous_def
  proof (intro allI impI)
    fix w r s assume w: "int_data w" "json_text (VObj fs) @ r = json_text w @ s"
    with json_kind_eq [OF VObj.prems w] obtain gs where gs: "w = VObj gs" by (cases w) (auto split: if_splits)
    with w(1) have "list_all ?p gs" by simp
    then have "\<forall>m \<in> set gs. ?p m \<and> value_start (member_text m)" using vs by (auto simp: list_all_iff)
    moreover have "join_comma (map member_text fs) @ 0x7d # r = join_comma (map member_text gs) @ 0x7d # s"
      using w(2) unfolding gs json_text_object [OF fs] json_text_object [OF \<open>list_all ?p gs\<close>] by simp
    ultimately show "VObj fs = w \<and> r = s" using join_unambiguous [OF xs, where ys = gs and c = "0x7d" and r = r and s = s] gs by simp
  qed
next
  case (VNum x)
  then obtain k where x: "x = JInt k" by (auto simp: isInteger_cases)
  show ?case unfolding unambiguous_def
  proof (intro allI impI)
    fix w r s assume w: "int_data w" "delimited r" "delimited s" "json_text (VNum x) @ r = json_text w @ s"
    with json_kind_eq [OF VNum w(1) w(4)] obtain l where l: "w = VNum (JInt l)"
      by (cases w) (auto simp: isInteger_cases split: if_splits)
    with number_unambiguous [of k r l s] w x show "VNum x = w \<and> r = s" by (simp add: json_text_def)
  qed
next
  case (VStr t)
  show ?case unfolding unambiguous_def
  proof (intro allI impI)
    fix w r s assume w: "int_data w" "json_text (VStr t) @ r = json_text w @ s"
    with json_kind_eq [OF VStr w] obtain u where u: "w = VStr u" by (cases w) (auto split: if_splits)
    with json_string_unambiguous [of t r u s] w show "VStr t = w \<and> r = s" by (simp add: json_text_def)
  qed
next
  case (VBool b)
  show ?case unfolding unambiguous_def
  proof (intro allI impI)
    fix w r s assume w: "int_data w" "json_text (VBool b) @ r = json_text w @ s"
    with json_kind_eq [OF VBool w] have "w = VBool b" by (cases w) (auto split: if_splits)
    with w show "VBool b = w \<and> r = s" by simp
  qed
next
  case VNull
  show ?case unfolding unambiguous_def
  proof (intro allI impI)
    fix w r s assume w: "int_data w" "json_text VNull @ r = json_text w @ s"
    with json_kind_eq [OF VNull w] have "w = VNull" by (cases w) (auto split: if_splits)
    with w show "VNull = w \<and> r = s" by simp
  qed
qed simp_all

lemma json_injective: "int_data v \<Longrightarrow> int_data w \<Longrightarrow> json v = json w \<Longrightarrow> v = w"
  using unambiguousD [OF json_unambiguous, of v "[]" w "[]"] by (simp add: json_int_data)

section \<open>Encoding\<close>

text \<open>No text contains an unpaired surrogate, so its encoding determines it.\<close>

lemma code_points_append:
  "well_formed s \<Longrightarrow> code_points (s @ t) = code_points s @ code_points t"
proof (induction s rule: code_points.induct)
  case (2 u)
  then have "\<not> high_surrogate u" by (auto simp: well_formed_def surrogate_def high_surrogate_def)
  then show ?case by (cases t) auto
next
  case (3 u v s)
  then show ?case by (cases "high_surrogate u \<and> low_surrogate v") (auto simp: well_formed_def)
qed simp

lemma well_formed_append: "well_formed s \<Longrightarrow> well_formed t \<Longrightarrow> well_formed (s @ t)"
  using code_points_append [of s t] by (simp add: well_formed_def)

lemma well_formed_concat: "list_all well_formed ss \<Longrightarrow> well_formed (concat ss)"
  by (induction ss) (simp_all add: well_formed_append, simp add: well_formed_def)

lemma well_formed_unit: "\<not> surrogate (unat u) \<Longrightarrow> well_formed [u]"
  by (simp add: well_formed_def)

lemma well_formed_units: "list_all (\<lambda>u. \<not> surrogate (unat u)) s \<Longrightarrow> well_formed s"
  using well_formed_concat [of "map (\<lambda>u. [u]) s"] by (simp add: list_all_iff well_formed_unit)

lemma well_formed_small: "list_all (\<lambda>u. unat u < 128) s \<Longrightarrow> well_formed s"
  by (rule well_formed_units) (auto simp: list_all_iff surrogate_def)

lemma well_formed_to_base: "2 \<le> b \<Longrightarrow> b \<le> 16 \<Longrightarrow> well_formed (to_base b n)"
proof (rule well_formed_small, unfold list_all_iff, rule ballI)
  fix u assume b: "2 \<le> b" "b \<le> 16" and u: "u \<in> set (to_base b n)"
  then obtain d where "d < b" "u = hex_digit d" using to_base_digit by blast
  with b show "unat u < 128" by (simp add: unat_hex_digit)
qed

lemma code_points_utf16:
  assumes "scalar c"
  shows "code_points (utf16_enc c) = [c]"
proof (cases "c < 65536")
  case True
  then show ?thesis by (simp add: utf16_enc.simps unat_cunit)
next
  case False
  have c: "c < 1114112" using assms by (simp add: scalar_def)
  have q: "(c - 65536) div 1024 < 1024" "(c - 65536) mod 1024 < 1024" using c by (simp_all add: less_mult_imp_div_less)
  have h: "unat (of_nat (55296 + (c - 65536) div 1024) :: cunit) = 55296 + (c - 65536) div 1024"
    and l: "unat (of_nat (56320 + (c - 65536) mod 1024) :: cunit) = 56320 + (c - 65536) mod 1024"
    using q by (intro unat_cunit; linarith)+
  have "(c - 65536) div 1024 * 1024 + (c - 65536) mod 1024 = c - 65536" by simp
  with False q show ?thesis
    by (simp add: utf16_enc.simps h l high_surrogate_def low_surrogate_def del: of_nat_add)
qed

lemma well_formed_json_string: "well_formed (json_string s)"
proof -
  have pad: "well_formed (unicode_escape c)" for c
    unfolding unicode_escape_def pad4_def
    by (intro well_formed_append well_formed_to_base well_formed_small) (simp_all add: list_all_iff unat_hex_digit)
  have "well_formed (json_char c)" if "c < 1114112" for c
  proof (cases "escaped c")
    case True
    with pad show ?thesis by (auto simp: json_char_def escaped_def intro!: well_formed_small)
  next
    case False
    then have "scalar c" using that by (auto simp: scalar_def escaped_def)
    with code_points_utf16 json_char_plain(1) [OF False that] show ?thesis by (simp add: well_formed_def scalar_def)
  qed
  then have "well_formed (concat (map json_char (code_points s)))"
    by (intro well_formed_concat) (auto simp: list_all_iff dest: code_points_less)
  moreover have "well_formed [0x22]" by (rule well_formed_small) simp
  ultimately show ?thesis unfolding json_string_def by (intro well_formed_append)
qed

lemma well_formed_join: "list_all well_formed ts \<Longrightarrow> well_formed (join_comma ts)"
proof (cases ts)
  case (Cons t ts')
  assume "list_all well_formed ts"
  moreover have "well_formed ([0x2c] @ u)" if "well_formed u" for u
    by (rule well_formed_append [OF _ that]) (rule well_formed_small, simp)
  ultimately show ?thesis
    by (auto simp: Cons join_comma_def list_all_iff intro!: well_formed_append well_formed_concat)
qed (simp add: join_comma_def well_formed_def)

lemma well_formed_json: "int_data v \<Longrightarrow> well_formed (json_text v)"
proof (induction v)
  case (VNum x)
  then obtain k where x: "x = JInt k" by (auto simp: isInteger_cases)
  have "well_formed (to_base 10 n)" for n by (rule well_formed_to_base) simp_all
  moreover have "well_formed [0x2d]" by (rule well_formed_small) simp
  ultimately show ?case
    using well_formed_append [of "[0x2d]" "to_base 10 (nat (- k))"] by (simp add: x json_text_def)
next
  case (VArr xs)
  then have xs: "list_all int_data xs" "list_all well_formed (map json_text xs)" by (auto simp: list_all_iff)
  have "well_formed ([0x5b] @ join_comma (map json_text xs) @ [0x5d])"
    by (intro well_formed_append well_formed_join xs(2) well_formed_small) simp_all
  with json_text_array [OF xs(1)] show ?case by simp
next
  case (VObj fs)
  have "well_formed (member_text m)" if m: "m \<in> set fs" for m
  proof -
    have "well_formed (json_text (snd m))" using VObj.IH [of m "snd m"] VObj.prems m by (cases m) (auto simp: list_all_iff)
    then have "well_formed (json_string (fst m) @ [0x3a] @ json_text (snd m))"
      by (intro well_formed_append well_formed_json_string) (rule well_formed_small, simp)
    then show ?thesis by (simp add: member_text_def)
  qed
  then have fs: "list_all (int_data \<circ> snd) fs" "list_all well_formed (map member_text fs)" using VObj.prems by (auto simp: list_all_iff)
  have "well_formed ([0x7b] @ join_comma (map member_text fs) @ [0x7d])"
    by (intro well_formed_append well_formed_join fs(2) well_formed_small) simp_all
  with json_text_object [OF fs(1)] show ?case by simp
next
  case (VStr s)
  then show ?case by (simp add: json_text_def well_formed_json_string)
qed (auto simp: json_text_def js_def intro: well_formed_small)

lemma encoded_json_injective:
  assumes v: "int_data v" and w: "int_data w" and e: "text_encode (json_text v) = text_encode (json_text w)"
  shows "v = w"
proof -
  have "Some (json_text v) = text_decode (text_encode (json_text v))" by (rule text_decode_encode [symmetric, OF well_formed_json [OF v]])
  also have "\<dots> = Some (json_text w)" unfolding e by (rule text_decode_encode [OF well_formed_json [OF w]])
  finally have "json v = json w" unfolding json_int_data [OF v] json_int_data [OF w] .
  with json_injective [OF v w] show ?thesis .
qed

end
