(* ===== verification/Object_Graph.thy ===== *)
theory Object_Graph
  imports Zod
begin

text \<open>
  Objects as the JavaScript runtime holds them: a heap of cells that may share and refer to one another in
  cycles, with prototypes, property descriptors and symbol keys. \<open>assertCanonicalJsonGraph\<close> of
  \<open>packages/server/src/artifact-receipt-journal.ts\<close> walks such a graph; it is shown to end on every heap and
  to accept exactly the graphs that are trees of plain data. Objects whose reflection runs code of the caller
  (proxies) are not modelled.
\<close>

section \<open>The heap\<close>

text \<open>\<open>S_other\<close> is a value whose \<open>typeof\<close> is \<open>function\<close>, \<open>symbol\<close> or \<open>bigint\<close>.\<close>

datatype slot = S_undef | S_null | S_bool bool | S_num jsnum | S_str jsstring | S_other | S_ref nat

datatype property_key = K_str jsstring | K_sym nat

text \<open>A data property with its \<open>enumerable\<close> attribute, or an accessor.\<close>

datatype property_descriptor = Data bool slot | Accessor bool

datatype prototype = P_object | P_array | P_null | P_other

text \<open>The own properties are in the order of \<open>Reflect.ownKeys\<close>; an array has its length and a \<open>length\<close> property.\<close>

datatype cell =
    ArrayCell prototype nat "(property_key \<times> property_descriptor) list"
  | ObjectCell prototype "(property_key \<times> property_descriptor) list"

type_synonym heap = "cell list"

definition array_length_key :: property_key where
  "array_length_key = K_str (js ''length'')"

definition is_string_key :: "property_key \<Rightarrow> bool" where
  "is_string_key k = (case k of K_str _ \<Rightarrow> True | K_sym _ \<Rightarrow> False)"

text \<open>The checks on \<open>Reflect.ownKeys\<close> of an array of length \<open>n\<close>.\<close>

definition array_keys_ok :: "nat \<Rightarrow> property_key list \<Rightarrow> bool" where
  "array_keys_ok n keys \<longleftrightarrow>
     list_all is_string_key keys \<and> length keys = n + 1 \<and> elem_at keys (length keys - 1) = Some array_length_key"

text \<open>The value of an own enumerable data property; \<open>None\<close> where the code rejects.\<close>

definition data_slot :: "(property_key \<times> property_descriptor) list \<Rightarrow> property_key \<Rightarrow> slot option" where
  "data_slot props k = (case map_of props k of Some (Data True v) \<Rightarrow> Some v | _ \<Rightarrow> None)"

definition array_slots :: "nat \<Rightarrow> (property_key \<times> property_descriptor) list \<Rightarrow> slot option list" where
  "array_slots n props = map (\<lambda>i. data_slot props (K_str (to_base 10 i))) [0..<n]"

definition object_slot :: "(property_key \<times> property_descriptor) list \<Rightarrow> property_key \<Rightarrow> slot option" where
  "object_slot props k =
     (if \<not> is_string_key k then None
      else case data_slot props k of
        None \<Rightarrow> None
      | Some v \<Rightarrow> if k = K_str (js ''toJSON'') then None else Some v)"

definition object_slots :: "(property_key \<times> property_descriptor) list \<Rightarrow> slot option list" where
  "object_slots props = map (object_slot props) (map fst props)"

definition key_text :: "property_key \<Rightarrow> jsstring" where
  "key_text k = (case k of K_str s \<Rightarrow> s | K_sym _ \<Rightarrow> [])"

text \<open>
  The checks on one object before its properties are visited: the slots to visit, in order, and the value it
  has once they are known.
\<close>

definition open_cell :: "cell \<Rightarrow> (slot option list \<times> (jsval list \<Rightarrow> jsval)) option" where
  "open_cell c =
     (case c of
        ArrayCell proto n props \<Rightarrow>
          if proto \<noteq> P_array \<or> \<not> array_keys_ok n (map fst props) then None
          else Some (array_slots n props, VArr)
      | ObjectCell proto props \<Rightarrow>
          if proto \<noteq> P_object \<and> proto \<noteq> P_null then None
          else Some (object_slots props, \<lambda>ts. VObj (zip (map (key_text \<circ> fst) props) ts)))"

section \<open>The walk\<close>

text \<open>
  \<open>seen\<close> is the weak set. The walk returns the objects seen afterwards together with the plain value it has
  walked, which is what every later read of the same graph sees; \<open>None\<close> is the thrown error.
\<close>

function assert_graph :: "heap \<Rightarrow> slot \<Rightarrow> nat set \<Rightarrow> (jsval \<times> nat set) option"
  and assert_children :: "heap \<Rightarrow> slot option list \<Rightarrow> nat set \<Rightarrow> (jsval list \<times> nat set) option" where
  "assert_graph h S_null seen = Some (VNull, seen)"
| "assert_graph h (S_bool b) seen = Some (VBool b, seen)"
| "assert_graph h (S_str s) seen = Some (VStr s, seen)"
| "assert_graph h (S_num x) seen = (if isFinite x then Some (VNum x, seen) else None)"
| "assert_graph h S_undef seen = None"
| "assert_graph h S_other seen = None"
| "assert_graph h (S_ref a) seen =
     (if a \<in> seen then None
      else
        (case Option.bind (elem_at h a) open_cell of
           None \<Rightarrow> None
         | Some (slots, build) \<Rightarrow>
             (case assert_children h slots (insert a seen) of
                None \<Rightarrow> None
              | Some (ts, s) \<Rightarrow> Some (build ts, s))))"
| "assert_children h [] seen = Some ([], seen)"
| "assert_children h (None # vs) seen = None"
| "assert_children h (Some v # vs) seen =
     (case assert_graph h v seen of
        None \<Rightarrow> None
      | Some (t, s) \<Rightarrow>
          (case assert_children h vs s of None \<Rightarrow> None | Some (ts, s') \<Rightarrow> Some (t # ts, s')))"
  by pat_completeness auto

text \<open>The set of seen objects only grows; so each step of the walk leaves fewer unseen objects or fewer slots.\<close>

lemma seen_grows:
  "assert_graph_assert_children_dom (Inl (h, v, seen)) \<Longrightarrow> assert_graph h v seen = Some (t, s) \<Longrightarrow> seen \<subseteq> s"
  "assert_graph_assert_children_dom (Inr (h, vs, seen)) \<Longrightarrow> assert_children h vs seen = Some (ts, s) \<Longrightarrow> seen \<subseteq> s"
proof (induction h v seen and h vs seen arbitrary: t s and ts s rule: assert_graph_assert_children.pinduct)
  case (7 h a seen)
  then show ?case by (auto simp: assert_graph.psimps split: if_splits option.splits) blast
next
  case (10 h v vs seen)
  then show ?case by (auto simp: assert_children.psimps split: option.splits) blast
qed (auto simp: assert_graph.psimps assert_children.psimps split: if_splits)

definition unseen :: "heap \<Rightarrow> nat set \<Rightarrow> nat" where
  "unseen h seen = card ({..<length h} - seen)"

lemma unseen_mono: "seen \<subseteq> s \<Longrightarrow> unseen h s \<le> unseen h seen"
  unfolding unseen_def by (rule card_mono) auto

lemma unseen_insert: "a < length h \<Longrightarrow> a \<notin> seen \<Longrightarrow> unseen h (insert a seen) < unseen h seen"
  unfolding unseen_def by (rule psubset_card_mono) auto

termination assert_graph
proof (relation "inv_image (less_than <*lex*> less_than)
    (case_sum (\<lambda>(h, v, seen). (unseen h seen, 0)) (\<lambda>(h, vs, seen). (unseen h seen, Suc (length vs))))", goal_cases)
  case (2 h a seen)
  then show ?case by (auto simp: elem_at_eq_Some_iff Option.bind_eq_Some_conv intro: unseen_insert)
next
  case (4 h v vs seen x t s)
  then have "unseen h s \<le> unseen h seen" using seen_grows(1) [of h v seen t s] by (intro unseen_mono) simp
  then show ?case by auto
qed auto

section \<open>Which graphs are accepted\<close>

text \<open>
  The plain value a slot stands for, with the objects on the way in the order of their visit. An object that
  refers to itself stands for no value; one that is shared appears twice in the list.
\<close>

inductive stands_for :: "heap \<Rightarrow> slot \<Rightarrow> jsval \<Rightarrow> nat list \<Rightarrow> bool"
  and stand_for :: "heap \<Rightarrow> slot option list \<Rightarrow> jsval list \<Rightarrow> nat list \<Rightarrow> bool" where
  null: "stands_for h S_null VNull []"
| bool: "stands_for h (S_bool b) (VBool b) []"
| str: "stands_for h (S_str s) (VStr s) []"
| num: "isFinite x \<Longrightarrow> stands_for h (S_num x) (VNum x) []"
| ref: "elem_at h a = Some c \<Longrightarrow> open_cell c = Some (slots, build) \<Longrightarrow> stand_for h slots ts as \<Longrightarrow>
    stands_for h (S_ref a) (build ts) (a # as)"
| none: "stand_for h [] [] []"
| more: "stands_for h v t as \<Longrightarrow> stand_for h vs ts bs \<Longrightarrow> stand_for h (Some v # vs) (t # ts) (as @ bs)"

inductive_simps stands_for_simps: "stands_for h S_null t as" "stands_for h (S_bool b) t as" "stands_for h (S_str s) t as"
  "stands_for h (S_num x) t as" "stands_for h (S_ref a) t as" "stand_for h [] ts as" "stand_for h (v # vs) ts as"

lemma assert_graph_sound:
  "assert_graph h v seen = Some (t, s) \<Longrightarrow>
   \<exists>as. stands_for h v t as \<and> distinct as \<and> set as \<inter> seen = {} \<and> s = seen \<union> set as"
  "assert_children h vs seen = Some (ts, s) \<Longrightarrow>
   \<exists>as. stand_for h vs ts as \<and> distinct as \<and> set as \<inter> seen = {} \<and> s = seen \<union> set as"
proof (induction h v seen and h vs seen arbitrary: t s and ts s rule: assert_graph_assert_children.induct)
  case (7 h a seen)
  from 7(2) obtain c slots build ts where a: "a \<notin> seen" "elem_at h a = Some c" "open_cell c = Some (slots, build)"
      "assert_children h slots (insert a seen) = Some (ts, s)" "t = build ts"
    by (auto simp: bind_eq_Some_conv split: if_splits option.splits)
  have o: "Option.bind (elem_at h a) open_cell = Some (slots, build)" using a by simp
  from 7(1) [OF a(1) o refl a(4)] obtain as where "stand_for h slots ts as" "distinct as"
      "set as \<inter> insert a seen = {}" "s = insert a seen \<union> set as" by blast
  with a show ?case by (intro exI [of _ "a # as"]) (auto intro: stands_for_stand_for.ref)
next
  case (10 h v vs seen)
  from 10(3) obtain t s1 ts' where a: "assert_graph h v seen = Some (t, s1)" "assert_children h vs s1 = Some (ts', s)" "ts = t # ts'"
    by (auto split: option.splits)
  from 10(1) [OF a(1)] obtain as where as: "stands_for h v t as" "distinct as" "set as \<inter> seen = {}" "s1 = seen \<union> set as" by blast
  from 10(2) [OF a(1) refl a(2)] obtain bs where bs: "stand_for h vs ts' bs" "distinct bs" "set bs \<inter> s1 = {}" "s = s1 \<union> set bs" by blast
  show ?case unfolding a(3) using as bs by (intro exI [of _ "as @ bs"]) (auto intro: stands_for_stand_for.more)
qed (auto intro: stands_for_stand_for.intros split: if_splits)

lemma assert_graph_complete:
  "stands_for h v t as \<Longrightarrow> distinct as \<Longrightarrow> set as \<inter> seen = {} \<Longrightarrow> assert_graph h v seen = Some (t, seen \<union> set as)"
  "stand_for h vs ts as \<Longrightarrow> distinct as \<Longrightarrow> set as \<inter> seen = {} \<Longrightarrow> assert_children h vs seen = Some (ts, seen \<union> set as)"
proof (induction arbitrary: seen and seen rule: stands_for_stand_for.inducts)
  case (ref h a c slots build ts as)
  have "assert_children h slots (insert a seen) = Some (ts, insert a seen \<union> set as)" using ref by (intro ref.IH) auto
  with ref show ?case by simp
next
  case (more h v t as vs ts bs)
  have "assert_graph h v seen = Some (t, seen \<union> set as)" "assert_children h vs (seen \<union> set as) = Some (ts, seen \<union> set as \<union> set bs)"
    using more.prems by (auto intro!: more.IH)
  then show ?case by (simp add: Un_assoc)
qed simp_all

lemma assert_graph_iff:
  "assert_graph h v {} = Some (t, s) \<longleftrightarrow> (\<exists>as. stands_for h v t as \<and> distinct as \<and> s = set as)"
  using assert_graph_sound(1) [of h v "{}" t s] assert_graph_complete(1) [of h v t _ "{}"] by auto

text \<open>Every object on the way is an object of the heap, so each is visited at most once.\<close>

lemma stands_for_objects:
  "stands_for h v t as \<Longrightarrow> set as \<subseteq> {..<length h}" "stand_for h vs ts as \<Longrightarrow> set as \<subseteq> {..<length h}"
  by (induction rule: stands_for_stand_for.inducts) (auto simp: elem_at_eq_Some_iff)

section \<open>References\<close>

definition refers :: "heap \<Rightarrow> nat \<Rightarrow> nat \<Rightarrow> bool" where
  "refers h a b \<longleftrightarrow>
     (\<exists>c slots build. elem_at h a = Some c \<and> open_cell c = Some (slots, build) \<and> Some (S_ref b) \<in> set slots)"

lemma stand_for_member:
  "stand_for h vs ts as \<Longrightarrow> Some v \<in> set vs \<Longrightarrow> \<exists>t bs. stands_for h v t bs \<and> set bs \<subseteq> set as \<and> length bs \<le> length as"
proof (induction vs arbitrary: ts as)
  case (Cons w vs)
  from Cons.prems(1) obtain u t ts' cs ds where w: "w = Some u" "stands_for h u t cs" "stand_for h vs ts' ds" "as = cs @ ds"
    by (auto simp: stands_for_simps)
  show ?case
  proof (cases "v = u")
    case True
    with w show ?thesis by (intro exI [of _ t] exI [of _ cs]) simp
  next
    case False
    with Cons.prems(2) w(1) have "Some v \<in> set vs" by simp
    from Cons.IH [OF w(3) this] w(4) show ?thesis by fastforce
  qed
qed simp

lemma reachable_stands_for:
  assumes "(refers h)\<^sup>*\<^sup>* a b" "stands_for h (S_ref a) t as"
  shows "\<exists>u bs. stands_for h (S_ref b) u bs \<and> length bs \<le> length as \<and> (a \<noteq> b \<longrightarrow> length bs < length as)"
  using assms
proof (induction rule: rtranclp_induct)
  case base
  then show ?case by blast
next
  case (step b c)
  then obtain u bs where b: "stands_for h (S_ref b) u bs" "length bs \<le> length as" by blast
  from b(1) obtain cell slots build ts cs where cs: "elem_at h b = Some cell" "open_cell cell = Some (slots, build)"
      "stand_for h slots ts cs" "bs = b # cs" by (auto simp: stands_for_simps)
  from step(2) cs(1,2) have "Some (S_ref c) \<in> set slots" by (auto simp: refers_def)
  from stand_for_member [OF cs(3) this] b cs(4) show ?case by fastforce
qed

lemma stands_for_unique:
  "stands_for h v t as \<Longrightarrow> stands_for h v u bs \<Longrightarrow> u = t \<and> bs = as"
  "stand_for h vs ts as \<Longrightarrow> stand_for h vs us bs \<Longrightarrow> us = ts \<and> bs = as"
proof (induction arbitrary: u bs and us bs rule: stands_for_stand_for.inducts)
  case (ref h a c slots build ts as)
  from ref.prems ref.hyps obtain us cs where u: "stand_for h slots us cs" "u = build us" "bs = a # cs"
    by (auto simp: stands_for_simps)
  from ref.IH [OF u(1)] u(2,3) show ?case by simp
next
  case (more h v t as vs ts cs)
  from more.prems obtain u us' ds es where u: "stands_for h v u ds" "stand_for h vs us' es" "us = u # us'" "bs = ds @ es"
    by (auto simp: stands_for_simps)
  from more.IH(1) [OF u(1)] more.IH(2) [OF u(2)] u(3,4) show ?case by simp
qed (simp_all add: stands_for_simps)

lemma cycle_rejected:
  assumes "(refers h)\<^sup>*\<^sup>* a b" "(refers h)\<^sup>+\<^sup>+ b b"
  shows "assert_graph h (S_ref a) {} = None"
proof (rule ccontr)
  assume "assert_graph h (S_ref a) {} \<noteq> None"
  then obtain t s where "assert_graph h (S_ref a) {} = Some (t, s)" by (cases "assert_graph h (S_ref a) {}") auto
  then obtain as where "stands_for h (S_ref a) t as" unfolding assert_graph_iff by blast
  with assms(1) obtain u bs where b: "stands_for h (S_ref b) u bs" using reachable_stands_for by blast
  from assms(2) obtain c where c: "refers h b c" "(refers h)\<^sup>*\<^sup>* c b" by (metis tranclpD)
  from b obtain cell slots build ts cs where cs: "elem_at h b = Some cell" "open_cell cell = Some (slots, build)"
      "stand_for h slots ts cs" "bs = b # cs" by (auto simp: stands_for_simps)
  from c(1) cs have "Some (S_ref c) \<in> set slots" by (auto simp: refers_def)
  with cs(3,4) obtain u' ds where "stands_for h (S_ref c) u' ds" "length ds < length bs"
    using stand_for_member by fastforce
  with reachable_stands_for [OF c(2)] obtain u'' es where "stands_for h (S_ref b) u'' es" "length es < length bs"
    using le_less_trans by blast
  with stands_for_unique(1) [OF b] show False by auto
qed

section \<open>Materialised values\<close>

text \<open>
  The fresh objects of a parsed value, as a parser returns them: ordinary arrays and objects, none shared.
\<close>

fun place :: "heap \<Rightarrow> jsval \<Rightarrow> heap \<times> slot" and place_all :: "heap \<Rightarrow> jsval list \<Rightarrow> heap \<times> slot list" where
  "place h VUndef = (h, S_undef)"
| "place h VNull = (h, S_null)"
| "place h (VBool b) = (h, S_bool b)"
| "place h (VNum x) = (h, S_num x)"
| "place h (VStr s) = (h, S_str s)"
| "place h (VBytes b) = (h, S_other)"
| "place h VOther = (h, S_other)"
| "place h (VArr xs) =
     (let (h', vs) = place_all h xs
      in (h' @ [ArrayCell P_array (length vs)
            (map (\<lambda>(i, v). (K_str (to_base 10 i), Data True v)) (enumerate 0 vs)
             @ [(array_length_key, Data False (S_num (JInt (int (length vs)))))])], S_ref (length h')))"
| "place h (VObj fs) =
     (let (h', vs) = place_all h (map snd fs)
      in (h' @ [ObjectCell P_object (zip (map (K_str \<circ> fst) fs) (map (Data True) vs))], S_ref (length h')))"
| "place_all h [] = (h, [])"
| "place_all h (x # xs) = (let (h', v) = place h x; (h'', vs) = place_all h' xs in (h'', v # vs))"

text \<open>Values JSON can hold whose objects have no repeated key and none named \<open>toJSON\<close>.\<close>

fun plain_data :: "jsval \<Rightarrow> bool" where
  "plain_data VNull = True"
| "plain_data (VBool b) = True"
| "plain_data (VNum x) = isFinite x"
| "plain_data (VStr s) = True"
| "plain_data (VArr xs) = list_all plain_data xs"
| "plain_data (VObj fs) =
     (distinct (map fst fs) \<and> js ''toJSON'' \<notin> set (map fst fs) \<and> list_all (plain_data \<circ> snd) fs)"
| "plain_data _ = False"

lemma elem_at_append: "elem_at xs i = Some x \<Longrightarrow> elem_at (xs @ ys) i = Some x"
  by (auto simp: elem_at_def nth_append split: if_splits)

lemma stands_for_extend:
  "stands_for h v t as \<Longrightarrow> stands_for (h @ g) v t as" "stand_for h vs ts as \<Longrightarrow> stand_for (h @ g) vs ts as"
  by (induction rule: stands_for_stand_for.inducts) (auto intro: stands_for_stand_for.intros elem_at_append)

lemma to_base_inj: "to_base 10 n = to_base 10 m \<longleftrightarrow> n = m"
  by (metis to_base_value)

lemma index_not_length: "to_base 10 n \<noteq> js ''length''"
proof
  assume e: "to_base 10 n = js ''length''"
  have "hd (to_base 10 n) \<in> set (to_base 10 n)" by simp
  then obtain d where "d < 10" "hd (to_base 10 n) = hex_digit d" using to_base_digit [of 10] by fastforce
  moreover have "hd (to_base 10 n) = 108" unfolding e by (simp add: js_def)
  ultimately show False using unat_hex_digit [of d] by simp
qed

lemma open_placed_array:
  "open_cell (ArrayCell P_array (length vs)
      (map (\<lambda>(i, v). (K_str (to_base 10 i), Data True v)) (enumerate 0 vs) @ [(array_length_key, Data False l)])) =
   Some (map Some vs, VArr)"
proof -
  let ?e = "map (\<lambda>(i, v). (K_str (to_base 10 i), Data True v)) (enumerate 0 vs)"
  have keys: "map fst ?e = map (\<lambda>i. K_str (to_base 10 i)) [0..<length vs]"
    by (simp add: enumerate_eq_zip o_def case_prod_beta map_fst_zip_take) (rule nth_equalityI; simp)
  have d: "distinct (map fst ?e)" unfolding keys by (simp add: distinct_map inj_on_def to_base_inj)
  have "data_slot (?e @ [(array_length_key, Data False l)]) (K_str (to_base 10 i)) = Some (vs ! i)" if i: "i < length vs" for i
  proof -
    have "(K_str (to_base 10 i), Data True (vs ! i)) = ?e ! i" using i by (simp add: nth_enumerate_eq)
    moreover have "?e ! i \<in> set ?e" using i by (intro nth_mem) simp
    ultimately have "map_of ?e (K_str (to_base 10 i)) = Some (Data True (vs ! i))"
      using map_of_eq_Some_iff [OF d] by metis
    moreover have "K_str (to_base 10 i) \<noteq> array_length_key" by (simp add: array_length_key_def index_not_length)
    ultimately show ?thesis by (simp add: data_slot_def map_add_def)
  qed
  then have "array_slots (length vs) (?e @ [(array_length_key, Data False l)]) = map Some vs"
    unfolding array_slots_def by (intro nth_equalityI) simp_all
  moreover have "array_keys_ok (length vs) (map fst (?e @ [(array_length_key, Data False l)]))"
    using keys by (auto simp: array_keys_ok_def is_string_key_def array_length_key_def list_all_iff elem_at_def nth_append)
  ultimately show ?thesis unfolding open_cell_def by simp
qed

lemma open_placed_object:
  assumes "distinct ks" "js ''toJSON'' \<notin> set ks" "length vs = length ks"
  shows "\<exists>build. open_cell (ObjectCell P_object (zip (map K_str ks) (map (Data True) vs))) = Some (map Some vs, build) \<and>
           (\<forall>ts. build ts = VObj (zip ks ts))"
proof -
  let ?p = "zip (map K_str ks) (map (Data True) vs)"
  have keys: "map fst ?p = map K_str ks" using assms(3) by simp
  have "object_slot ?p (map K_str ks ! i) = Some (vs ! i)" if i: "i < length ks" for i
  proof -
    have "map_of ?p (map K_str ks ! i) = Some (map (Data True) vs ! i)"
      by (rule map_of_zip_nth) (use assms i in \<open>auto simp: distinct_map inj_on_def\<close>)
    moreover have "ks ! i \<noteq> js ''toJSON''" using assms(2) i nth_mem by metis
    ultimately show ?thesis using i assms(3) by (simp add: object_slot_def is_string_key_def data_slot_def)
  qed
  then have "object_slots ?p = map Some vs"
    unfolding object_slots_def keys by (intro nth_equalityI) (use assms(3) in simp_all)
  moreover have "map (key_text \<circ> fst) ?p = ks"
    unfolding map_map [symmetric] keys by (simp add: o_def key_text_def)
  ultimately show ?thesis by (simp add: open_cell_def)
qed

text \<open>A materialised value stands for the value, by objects that are all new.\<close>

definition placed :: "heap \<Rightarrow> heap \<Rightarrow> nat list \<Rightarrow> bool" where
  "placed h h' as \<longleftrightarrow> (\<exists>g. h' = h @ g) \<and> distinct as \<and> set as \<subseteq> {length h..<length h'}"

lemma placed_more: "placed h h' as \<Longrightarrow> placed h' h'' bs \<Longrightarrow> placed h h'' (as @ bs)"
  by (fastforce simp: placed_def)

lemma placed_cell: "placed h h' as \<Longrightarrow> placed h (h' @ [c]) (length h' # as)"
  by (fastforce simp: placed_def)

lemma place_stands_for:
  "plain_data t \<Longrightarrow> place h t = (h', v) \<Longrightarrow> \<exists>as. stands_for h' v t as \<and> placed h h' as"
  "list_all plain_data ts \<Longrightarrow> place_all h ts = (h', vs) \<Longrightarrow> \<exists>as. stand_for h' (map Some vs) ts as \<and> placed h h' as"
proof (induction h t and h ts arbitrary: h' v and h' vs rule: place_place_all.induct)
  case (8 h xs)
  obtain h1 vs where h1: "place_all h xs = (h1, vs)" by fastforce
  from 8(1) [OF _ h1] 8(2) obtain as where as: "stand_for h1 (map Some vs) xs as" "placed h h1 as" by auto
  from 8(3) h1 as show ?case
    by (intro exI [of _ "length h1 # as"])
      (auto intro!: stands_for_stand_for.ref [OF _ open_placed_array] placed_cell dest: stands_for_extend(2) simp: elem_at_def)
next
  case (9 h fs)
  obtain h1 vs where h1: "place_all h (map snd fs) = (h1, vs)" by fastforce
  from 9(1) [OF _ h1] 9(2) obtain as where as: "stand_for h1 (map Some vs) (map snd fs) as" "placed h h1 as"
    by (auto simp: list.pred_map)
  have len: "length vs = length fs"
  proof -
    have "stand_for h us ts bs \<Longrightarrow> length us = length ts" for h us ts bs
      by (induction us arbitrary: ts bs) (auto simp: stands_for_simps)
    from this [OF as(1)] show ?thesis by simp
  qed
  from 9(2) len have "distinct (map fst fs)" "js ''toJSON'' \<notin> set (map fst fs)" "length vs = length (map fst fs)" by auto
  from open_placed_object [OF this] obtain build where
      b: "open_cell (ObjectCell P_object (zip (map (K_str \<circ> fst) fs) (map (Data True) vs))) = Some (map Some vs, build)"
         "build (map snd fs) = VObj fs"
    by (auto simp: zip_map_fst_snd)
  from stands_for_stand_for.ref [OF _ b(1) stands_for_extend(2) [OF as(1)]] b(2) 9(3) h1 as show ?case
    by (intro exI [of _ "length h1 # as"]) (auto intro!: placed_cell simp: elem_at_def)
next
  case (11 h x xs)
  obtain h1 u where h1: "place h x = (h1, u)" by fastforce
  obtain h2 us where h2: "place_all h1 xs = (h2, us)" by fastforce
  from 11(1) [OF _ h1] 11(3) obtain as where as: "stands_for h1 u x as" "placed h h1 as" by auto
  from 11(2) [OF h1 [symmetric] refl _ h2] 11(3) obtain bs where bs: "stand_for h2 (map Some us) xs bs" "placed h1 h2 bs" by auto
  from bs(2) obtain g where "h2 = h1 @ g" by (auto simp: placed_def)
  with stands_for_extend(1) [OF as(1)] have "stands_for h2 u x as" by simp
  with bs(1) 11(4) h1 h2 placed_more [OF as(2) bs(2)] show ?case
    by (auto intro!: exI [of _ "as @ bs"] stands_for_stand_for.more)
qed (auto intro: stands_for_stand_for.intros simp: placed_def)

lemma assert_placed:
  assumes "plain_data t" "place h t = (h', v)"
  shows "\<exists>s. assert_graph h' v {} = Some (t, s)"
  using place_stands_for(1) [OF assms] by (auto simp: assert_graph_iff placed_def)

end
