(* ===== verification/Canonical_Json.thy ===== *)
theory Canonical_Json
  imports Json_Text Object_Graph "HOL-Library.List_Lexorder"
begin

text \<open>
  The canonical text of \<open>packages/server/src/artifact-receipt-journal.ts\<close>: the keys of every object are printed
  in the order of their code units. It is \<open>JSON.stringify\<close> of the value with sorted keys.
\<close>

section \<open>The printer\<close>

text \<open>
  \<open>Object.keys(v).toSorted()\<close> orders keys by code units. \<open>None\<close> is the exception of \<open>Object.keys(undefined)\<close>; a
  \<open>Uint8Array\<close> has its indices as keys; the keys of a \<^const>\<open>VOther\<close> are not known.
\<close>

definition members_text :: "(jsstring \<times> jsstring) list \<Rightarrow> jsstring" where
  "members_text ms = [0x7b] @ join_comma (map (\<lambda>(k, t). json_string k @ [0x3a] @ t) (sort_key fst ms)) @ [0x7d]"

fun canonicalJson :: "jsval \<Rightarrow> jsstring option" where
  "canonicalJson VNull = Some (js ''null'')"
| "canonicalJson (VBool b) = Some (if b then js ''true'' else js ''false'')"
| "canonicalJson (VStr s) = Some (json_string s)"
| "canonicalJson (VNum x) = Some (json_number x)"
| "canonicalJson (VArr xs) = map_option (\<lambda>ts. [0x5b] @ join_comma ts @ [0x5d]) (those (map canonicalJson xs))"
| "canonicalJson (VObj fs) =
     map_option members_text (those (map (\<lambda>(k, v). map_option (Pair k) (canonicalJson v)) fs))"
| "canonicalJson (VBytes b) =
     Some (members_text (map (\<lambda>(i, x). (to_base 10 i, to_base 10 (unat x))) (enumerate 0 b)))"
| "canonicalJson VUndef = None"
| "canonicalJson VOther = None"

section \<open>Sorted keys\<close>

fun sort_keys :: "jsval \<Rightarrow> jsval" where
  "sort_keys (VArr xs) = VArr (map sort_keys xs)"
| "sort_keys (VObj fs) = VObj (sort_key fst (map (\<lambda>(k, v). (k, sort_keys v)) fs))"
| "sort_keys v = v"

lemma int_data_sort_keys: "int_data v \<Longrightarrow> int_data (sort_keys v)"
  by (induction v rule: sort_keys.induct) (auto simp: list_all_iff)

lemma those_map_Some: "(\<And>x. x \<in> set xs \<Longrightarrow> f x = Some (g x)) \<Longrightarrow> those (map f xs) = Some (map g xs)"
  by (induction xs) auto

lemma insort_key_map_fst:
  "insort_key fst (k, f v) (map (\<lambda>(k, v). (k, f v)) gs) = map (\<lambda>(k, v). (k, f v)) (insort_key fst (k, v) gs)"
  by (induction gs) auto

lemma sort_key_map_fst: "sort_key fst (map (\<lambda>(k, v). (k, f v)) fs) = map (\<lambda>(k, v). (k, f v)) (sort_key fst fs)"
proof (induction fs)
  case (Cons p fs)
  then show ?case using insort_key_map_fst [of "fst p" f "snd p" "sort_key fst fs"] by (cases p) simp
qed simp

lemma canonicalJson_sorted: "int_data v \<Longrightarrow> canonicalJson v = Some (json_text (sort_keys v))"
proof (induction v rule: sort_keys.induct)
  case (1 xs)
  then have "those (map canonicalJson xs) = Some (map (json_text \<circ> sort_keys) xs)"
    by (intro those_map_Some) (auto simp: list_all_iff)
  moreover have "list_all int_data (map sort_keys xs)" using 1(2) by (auto simp: list_all_iff int_data_sort_keys)
  ultimately show ?case by (simp add: json_text_array)
next
  case (2 fs)
  let ?g = "\<lambda>(k, v). (k, json_text (sort_keys v))"
  have "those (map (\<lambda>(k, v). map_option (Pair k) (canonicalJson v)) fs) = Some (map ?g fs)"
    by (rule those_map_Some) (use 2 in \<open>auto simp: list_all_iff\<close>)
  moreover have "list_all (int_data \<circ> snd) (sort_key fst (map (\<lambda>(k, v). (k, sort_keys v)) fs))"
    using 2(2) by (auto simp: list_all_iff int_data_sort_keys)
  moreover have "sort_key fst (map ?g fs) = map ?g (sort_key fst fs)" by (rule sort_key_map_fst)
  ultimately show ?case
    by (simp add: json_text_object members_text_def sort_key_map_fst member_text_def o_def case_prod_beta)
qed (auto simp: json_text_def)

text \<open>The canonical text determines a value up to the order of its keys.\<close>

lemma canonical_injective:
  assumes "int_data v" "int_data w"
  shows "map_option text_encode (canonicalJson v) = map_option text_encode (canonicalJson w) \<longleftrightarrow> sort_keys v = sort_keys w"
  using encoded_json_injective [OF int_data_sort_keys [OF assms(1)] int_data_sort_keys [OF assms(2)]]
  by (auto simp: canonicalJson_sorted assms)

text \<open>Objects equal up to the order of keys have the same fields.\<close>

lemma map_of_sort_key: "distinct (map fst fs) \<Longrightarrow> map_of (sort_key fst fs) = map_of fs"
  by (subst map_of_inject_set) (auto simp: distinct_map)

lemma sort_keys_fields:
  assumes "sort_keys (VObj fs) = sort_keys (VObj gs)" "distinct (map fst fs)" "distinct (map fst gs)"
  shows "map_option sort_keys (map_of fs k) = map_option sort_keys (map_of gs k)"
proof -
  have m: "map_of (map (\<lambda>(k, v). (k, sort_keys v)) hs) k = map_option sort_keys (map_of hs k)" for hs
    by (induction hs) auto
  have d: "distinct (map fst (map (\<lambda>(k, v). (k, sort_keys v)) hs)) = distinct (map fst hs)" for hs :: "(jsstring \<times> jsval) list"
    by (simp add: o_def case_prod_beta)
  have "map_of (map (\<lambda>(k, v). (k, sort_keys v)) fs) = map_of (map (\<lambda>(k, v). (k, sort_keys v)) gs)"
    using assms map_of_sort_key [of "map (\<lambda>(k, v). (k, sort_keys v)) fs", unfolded d]
      map_of_sort_key [of "map (\<lambda>(k, v). (k, sort_keys v)) gs", unfolded d]
    by simp
  then show ?thesis using m by metis
qed

end
