(* ===== verification/Receipt_Schema.thy ===== *)
theory Receipt_Schema
  imports Canonical_Json Inspector_Store
begin

text \<open>
  The schema \<open>ArtifactInspectionReceiptSchema\<close> of \<open>packages/contracts/src/artifact-inspection.ts\<close> as a parser of
  untyped values, and the object a parsed receipt is. What it accepts are exactly the receipts that pass the
  checks the inspector makes before it emits one.
\<close>

section \<open>The parser\<close>

definition z_sha :: "jsstring schema" where
  "z_sha = z_refine HEX64_PATTERN z_string"

definition z_range :: "nat \<Rightarrow> nat \<Rightarrow> nat \<Rightarrow> returned_range schema" where
  "z_range lo hi max_offset v = do {
     f \<leftarrow> z_strict [''offset'', ''length''] v;
     off \<leftarrow> z_nat 0 max_offset (f ''offset'');
     len \<leftarrow> z_nat lo hi (f ''length'');
     Some \<lparr>ret_offset = off, ret_length = len\<rparr> }"

text \<open>\<open>.int()\<close> admits safe integers only.\<close>

definition z_returned_range :: "returned_range schema" where
  "z_returned_range = z_range 0 MAX_RANGE_BYTES (nat MAX_SAFE_INTEGER)"

definition receipt_range_detail :: "operation_detail schema" where
  "receipt_range_detail v = do {
     f \<leftarrow> z_strict [''operation'', ''requestedRange'', ''returnedRange'', ''returnedByteSha256''] v;
     q \<leftarrow> z_range 1 MAX_RANGE_BYTES MAX_ARTIFACT_BYTE_OFFSET (f ''requestedRange'');
     r \<leftarrow> z_returned_range (f ''returnedRange'');
     s \<leftarrow> z_sha (f ''returnedByteSha256'');
     Some (D_range q r s) }"

definition receipt_lines_detail :: "operation_detail schema" where
  "receipt_lines_detail v = do {
     f \<leftarrow> z_strict [''operation'', ''requestedLineRange'', ''returnedRange'', ''returnedByteSha256''] v;
     g \<leftarrow> z_strict [''startLine'', ''count''] (f ''requestedLineRange'');
     sl \<leftarrow> z_nat 1 MAX_START_LINE (g ''startLine'');
     c \<leftarrow> z_nat 1 MAX_LINE_COUNT (g ''count'');
     r \<leftarrow> z_returned_range (f ''returnedRange'');
     s \<leftarrow> z_sha (f ''returnedByteSha256'');
     Some (D_lines sl c r s) }"

definition receipt_heading_detail :: "operation_detail schema" where
  "receipt_heading_detail v = do {
     f \<leftarrow> z_strict [''operation'', ''requestedHeadingId'', ''returnedRange'', ''returnedByteSha256''] v;
     h \<leftarrow> z_refine HeadingIdSchema z_string (f ''requestedHeadingId'');
     r \<leftarrow> z_returned_range (f ''returnedRange'');
     s \<leftarrow> z_sha (f ''returnedByteSha256'');
     Some (D_heading h r s) }"

definition receipt_hit_detail :: "(returned_range \<times> jsstring) schema" where
  "receipt_hit_detail v = do {
     f \<leftarrow> z_strict [''returnedRange'', ''returnedByteSha256''] v;
     r \<leftarrow> z_returned_range (f ''returnedRange'');
     s \<leftarrow> z_sha (f ''returnedByteSha256'');
     Some (r, s) }"

text \<open>\<open>offset:length\<close> names a range, so the set of names has as many members as the list of ranges without repetition.\<close>

definition receipt_search_detail :: "operation_detail schema" where
  "receipt_search_detail v = do {
     f \<leftarrow> z_strict [''operation'', ''queryLength'', ''maxHits'', ''returnedHits''] v;
     q \<leftarrow> z_nat 1 MAX_SEARCH_QUERY_LENGTH (f ''queryLength'');
     m \<leftarrow> z_nat 1 MAX_SEARCH_HITS (f ''maxHits'');
     hs \<leftarrow> z_refine (\<lambda>hs. length hs \<le> MAX_SEARCH_HITS) (z_array receipt_hit_detail) (f ''returnedHits'');
     if list_ex (\<lambda>h. ret_length (fst h) < 1) hs then None
     else if 1 < length hs \<and> card (set (map fst hs)) \<noteq> length hs then None
     else Some (D_search q m hs) }"

definition receipt_operation_detail :: "operation_detail schema" where
  "receipt_operation_detail v =
     (case v of
        VObj fs \<Rightarrow>
          (let op = getp fs (js ''operation'')
           in if op = VStr (js ''artifact_stat'') then map_option (\<lambda>_. D_stat) (z_strict [''operation''] v)
              else if op = VStr (js ''artifact_read_range'') then receipt_range_detail v
              else if op = VStr (js ''artifact_read_lines'') then receipt_lines_detail v
              else if op = VStr (js ''artifact_read_heading'') then receipt_heading_detail v
              else if op = VStr (js ''artifact_search_exact'') then receipt_search_detail v
              else None)
      | _ \<Rightarrow> None)"

definition receipt_error_classes :: "(string \<times> inspection_error) list" where
  "receipt_error_classes =
     [(''INVALID_REQUEST'', AI_INVALID_REQUEST), (''RESOURCE_UNAVAILABLE'', AI_RESOURCE_UNAVAILABLE),
      (''UNSUPPORTED'', AI_UNSUPPORTED), (''RESPONSE_LIMIT_EXCEEDED'', AI_RESPONSE_LIMIT_EXCEEDED),
      (''INTEGRITY_FAILURE'', AI_INTEGRITY_FAILURE), (''DEADLINE_EXCEEDED'', AI_DEADLINE_EXCEEDED),
      (''INTERNAL_ERROR'', AI_INTERNAL_ERROR)]"

definition receipt_result :: "inspection_error option schema" where
  "receipt_result v =
     (case v of
        VObj fs \<Rightarrow>
          (let kind = getp fs (js ''kind'')
           in if kind = VStr (js ''result'') then map_option (\<lambda>_. None) (z_strict [''kind''] v)
              else if kind = VStr (js ''error'') then do {
                f \<leftarrow> z_strict [''kind'', ''errorClass''] v;
                c \<leftarrow> z_enum receipt_error_classes (f ''errorClass'');
                Some (Some c) }
              else None)
      | _ \<Rightarrow> None)"

definition RECEIPT_KEYS :: "string list" where
  "RECEIPT_KEYS =
     [''receiptSchemaVersion'', ''verifierAudience'', ''principalRef'', ''principalBinding'', ''inspectorClientRef'',
      ''inspectorClientBinding'', ''inspectorCapabilityRef'', ''artifactId'', ''objectVersionRef'', ''sourceSha256'',
      ''merkleRoot'', ''analyzerProfileId'', ''analyzerProfileVersion'', ''policyVersion'',
      ''inspectorDeploymentGitCoordinate'', ''recordedAt'', ''operationDetail'', ''resultOrErrorClass'']"

definition parse_receipt :: "inspection_receipt schema" where
  "parse_receipt v = do {
     f \<leftarrow> z_strict RECEIPT_KEYS v;
     sv \<leftarrow> z_literal ''artifact-inspection-receipt/0.2'' (f ''receiptSchemaVersion'');
     va \<leftarrow> AuthorizationIdentifierSchema (f ''verifierAudience'');
     pr \<leftarrow> AuthorizationIdentifierSchema (f ''principalRef'');
     pb \<leftarrow> z_literal ''session_derived'' (f ''principalBinding'');
     ic \<leftarrow> AuthorizationIdentifierSchema (f ''inspectorClientRef'');
     ib \<leftarrow> z_literal ''approved'' (f ''inspectorClientBinding'');
     g \<leftarrow> z_strict [''capability'', ''ref''] (f ''inspectorCapabilityRef'');
     ca \<leftarrow> z_literal ''artifact:inspect'' (g ''capability'');
     cr \<leftarrow> AuthorizationIdentifierSchema (g ''ref'');
     aid \<leftarrow> ArtifactIdSchema (f ''artifactId'');
     ov \<leftarrow> z_refine OpaqueObjectVersionRef z_string (f ''objectVersionRef'');
     so \<leftarrow> z_sha (f ''sourceSha256'');
     mr \<leftarrow> z_sha (f ''merkleRoot'');
     ap \<leftarrow> z_refine AnalyzerProfileSupportSchema z_string (f ''analyzerProfileId'');
     av \<leftarrow> z_refine BoundedVersionString z_string (f ''analyzerProfileVersion'');
     pv \<leftarrow> z_refine BoundedVersionString z_string (f ''policyVersion'');
     git \<leftarrow> z_refine GitCommitCoordinate z_string (f ''inspectorDeploymentGitCoordinate'');
     ra \<leftarrow> z_refine iso_datetime z_string (f ''recordedAt'');
     od \<leftarrow> receipt_operation_detail (f ''operationDetail'');
     re \<leftarrow> receipt_result (f ''resultOrErrorClass'');
     Some \<lparr>rc_schemaVersion = sv, rc_verifierAudience = va, rc_principalRef = pr, principalBinding = pb,
       rc_inspectorClientRef = ic, inspectorClientBinding = ib, rc_capability = ca, rc_capabilityRef = cr,
       rc_artifactId = aid, rc_objectVersionRef = ov, rc_sourceSha256 = so, rc_merkleRoot = mr,
       analyzerProfileId = ap, analyzerProfileVersion = av, rc_policyVersion = pv, rc_gitCoordinate = git,
       recordedAt = ra, operationDetail = od, resultOrErrorClass = re\<rparr> }"

section \<open>The object\<close>

text \<open>\<open>safeParse\<close> returns a new object with the keys of the schema, in its order.\<close>

definition hit_detail_val :: "returned_range \<times> jsstring \<Rightarrow> jsval" where
  "hit_detail_val h = obj [(''returnedRange'', range_val (fst h)), (''returnedByteSha256'', VStr (snd h))]"

fun detail_val :: "operation_detail \<Rightarrow> jsval" where
  "detail_val D_stat = obj [(''operation'', VStr (js ''artifact_stat''))]"
| "detail_val (D_range q r s) =
     obj [(''operation'', VStr (js ''artifact_read_range'')), (''requestedRange'', range_val q),
       (''returnedRange'', range_val r), (''returnedByteSha256'', VStr s)]"
| "detail_val (D_lines sl c r s) =
     obj [(''operation'', VStr (js ''artifact_read_lines'')),
       (''requestedLineRange'', obj [(''startLine'', num sl), (''count'', num c)]),
       (''returnedRange'', range_val r), (''returnedByteSha256'', VStr s)]"
| "detail_val (D_heading h r s) =
     obj [(''operation'', VStr (js ''artifact_read_heading'')), (''requestedHeadingId'', VStr h),
       (''returnedRange'', range_val r), (''returnedByteSha256'', VStr s)]"
| "detail_val (D_search q m hs) =
     obj [(''operation'', VStr (js ''artifact_search_exact'')), (''queryLength'', num q), (''maxHits'', num m),
       (''returnedHits'', VArr (map hit_detail_val hs))]"

definition result_val :: "inspection_error option \<Rightarrow> jsval" where
  "result_val e =
     (case e of
        None \<Rightarrow> obj [(''kind'', VStr (js ''result''))]
      | Some c \<Rightarrow> obj [(''kind'', VStr (js ''error'')), (''errorClass'', VStr (inspection_code c))])"

definition receipt_fields :: "inspection_receipt \<Rightarrow> (string \<times> jsval) list" where
  "receipt_fields r =
     [(''receiptSchemaVersion'', VStr (rc_schemaVersion r)), (''verifierAudience'', VStr (rc_verifierAudience r)),
      (''principalRef'', VStr (rc_principalRef r)), (''principalBinding'', VStr (principalBinding r)),
      (''inspectorClientRef'', VStr (rc_inspectorClientRef r)),
      (''inspectorClientBinding'', VStr (inspectorClientBinding r)),
      (''inspectorCapabilityRef'',
         obj [(''capability'', VStr (rc_capability r)), (''ref'', VStr (rc_capabilityRef r))]),
      (''artifactId'', VStr (rc_artifactId r)), (''objectVersionRef'', VStr (rc_objectVersionRef r)),
      (''sourceSha256'', VStr (rc_sourceSha256 r)), (''merkleRoot'', VStr (rc_merkleRoot r)),
      (''analyzerProfileId'', VStr (analyzerProfileId r)),
      (''analyzerProfileVersion'', VStr (analyzerProfileVersion r)), (''policyVersion'', VStr (rc_policyVersion r)),
      (''inspectorDeploymentGitCoordinate'', VStr (rc_gitCoordinate r)), (''recordedAt'', VStr (recordedAt r)),
      (''operationDetail'', detail_val (operationDetail r)),
      (''resultOrErrorClass'', result_val (resultOrErrorClass r))]"

definition receipt_val :: "inspection_receipt \<Rightarrow> jsval" where
  "receipt_val r = obj (receipt_fields r)"

section \<open>What is parsed\<close>

lemma z_range_Some:
  "z_range lo hi m v = Some r \<Longrightarrow> ret_offset r \<le> m \<and> lo \<le> ret_length r \<and> ret_length r \<le> hi \<and> safe_nat (ret_offset r)"
  by (auto simp: z_range_def bind_eq_Some_conv z_nat_Some safe_nat_def)

lemma z_range_val:
  "z_range lo hi m (range_val r) =
     (if int (ret_offset r) \<le> MAX_SAFE_INTEGER \<and> int (ret_length r) \<le> MAX_SAFE_INTEGER \<and> ret_offset r \<le> m \<and>
         lo \<le> ret_length r \<and> ret_length r \<le> hi then Some r else None)"
  by (simp add: z_range_def range_val_def z_strict_obj parse_num)

lemma returned_range_Some: "z_returned_range v = Some r \<Longrightarrow> ReturnedRangeSchema r"
  by (auto simp: z_returned_range_def ReturnedRangeSchema_def dest: z_range_Some)

lemma returned_range_val: "ReturnedRangeSchema r \<Longrightarrow> z_returned_range (range_val r) = Some r"
  by (auto simp: z_returned_range_def z_range_val ReturnedRangeSchema_def safe_nat_def limits MAX_SAFE_INTEGER_def)

lemma z_sha_Some: "z_sha v = Some s \<longleftrightarrow> v = VStr s \<and> HEX64_PATTERN s"
  by (auto simp: z_sha_def z_simps)

lemma hit_detail_Some: "receipt_hit_detail v = Some h \<Longrightarrow> ReturnedRangeSchema (fst h) \<and> HEX64_PATTERN (snd h)"
  by (auto simp: receipt_hit_detail_def bind_eq_Some_conv z_sha_Some dest: returned_range_Some)

lemma search_detail_Some: "receipt_search_detail v = Some d \<Longrightarrow> ReceiptOperationDetailSchema d"
proof -
  assume "receipt_search_detail v = Some d"
  then obtain q m hs f where p: "z_nat 1 MAX_SEARCH_QUERY_LENGTH (f ''queryLength'') = Some q"
      "z_nat 1 MAX_SEARCH_HITS (f ''maxHits'') = Some m"
      "z_refine (\<lambda>hs. length hs \<le> MAX_SEARCH_HITS) (z_array receipt_hit_detail) (f ''returnedHits'') = Some hs"
    and c: "\<not> list_ex (\<lambda>h. ret_length (fst h) < 1) hs" "1 < length hs \<longrightarrow> card (set (map fst hs)) = length hs" "d = D_search q m hs"
    by (auto simp: receipt_search_detail_def bind_eq_Some_conv split: if_splits)
  have "distinct (map fst hs)"
  proof (cases "1 < length hs")
    case True
    with c(2) show ?thesis by (intro card_distinct) simp
  next
    case False
    then show ?thesis by (cases hs; cases "tl hs") auto
  qed
  moreover have "ReturnedRangeSchema (fst h) \<and> HEX64_PATTERN (snd h)" if h: "h \<in> set hs" for h
  proof -
    from p(3) obtain xs where "map receipt_hit_detail xs = map Some hs" by (auto simp: z_simps)
    with h have "Some h \<in> set (map receipt_hit_detail xs)" by simp
    then obtain x where "receipt_hit_detail x = Some h" by auto
    then show ?thesis by (rule hit_detail_Some)
  qed
  ultimately show ?thesis using p c by (auto simp: z_simps z_nat_Some list_ex_iff list_all_iff limits)
qed

lemma detail_Some: "receipt_operation_detail v = Some d \<Longrightarrow> ReceiptOperationDetailSchema d"
  by (auto simp: receipt_operation_detail_def Let_def receipt_range_detail_def receipt_lines_detail_def
      receipt_heading_detail_def bind_eq_Some_conv z_sha_Some z_nat_Some z_refine_Some limits
      split: jsval.splits if_splits dest: z_range_Some returned_range_Some search_detail_Some)

lemma detail_val_parsed:
  assumes "ReceiptOperationDetailSchema d"
  shows "receipt_operation_detail (detail_val d) = Some d"
proof -
  have op: "receipt_operation_detail (obj ((''operation'', VStr (js op)) # fs)) =
      (if op = ''artifact_stat'' then map_option (\<lambda>_. D_stat) (z_strict [''operation''] (obj ((''operation'', VStr (js op)) # fs)))
       else if op = ''artifact_read_range'' then receipt_range_detail (obj ((''operation'', VStr (js op)) # fs))
       else if op = ''artifact_read_lines'' then receipt_lines_detail (obj ((''operation'', VStr (js op)) # fs))
       else if op = ''artifact_read_heading'' then receipt_heading_detail (obj ((''operation'', VStr (js op)) # fs))
       else if op = ''artifact_search_exact'' then receipt_search_detail (obj ((''operation'', VStr (js op)) # fs))
       else None)" for op fs
    by (simp add: receipt_operation_detail_def obj_def getp_def)
  show ?thesis
  proof (cases d)
    case D_stat
    then show ?thesis by (simp add: op z_strict_obj)
  next
    case (D_range q r s)
    with assms show ?thesis
      by (simp add: op z_strict_obj receipt_range_detail_def z_range_val returned_range_val z_sha_def parse_str limits MAX_SAFE_INTEGER_def)
  next
    case (D_lines sl c r s)
    with assms show ?thesis
      by (simp add: op z_strict_obj receipt_lines_detail_def parse_num returned_range_val z_sha_def parse_str limits MAX_SAFE_INTEGER_def)
  next
    case (D_heading h r s)
    with assms show ?thesis
      by (simp add: op z_strict_obj receipt_heading_detail_def returned_range_val z_sha_def parse_str)
  next
    case (D_search q m hs)
    have "receipt_hit_detail (hit_detail_val h) = Some h" if "h \<in> set hs" for h
      using that assms D_search
      by (auto simp: receipt_hit_detail_def hit_detail_val_def z_strict_obj returned_range_val z_sha_def parse_str list_all_iff)
    then have "z_array receipt_hit_detail (VArr (map hit_detail_val hs)) = Some hs"
      unfolding z_array_Some by (intro exI [of _ "map hit_detail_val hs"]) simp
    moreover have "card (fst ` set hs) = length hs"
      using distinct_card [of "map fst hs"] assms D_search by simp
    ultimately show ?thesis using assms D_search
      by (auto simp: op z_strict_obj receipt_search_detail_def parse_num z_refine_def limits MAX_SAFE_INTEGER_def
          list_ex_iff list_all_iff)
  qed
qed

lemma result_val_parsed: "receipt_result (result_val e) = Some e"
proof (cases e)
  case None
  then show ?thesis by (simp add: receipt_result_def result_val_def obj_def getp_def z_strict_def)
next
  case (Some c)
  then show ?thesis
    by (cases c) (simp_all add: receipt_result_def result_val_def obj_def getp_def z_strict_def z_enum_def receipt_error_classes_def)
qed

lemma parse_receipt_sound: "parse_receipt v = Some r \<Longrightarrow> ArtifactInspectionReceiptSchema r"
  by (auto simp: parse_receipt_def bind_eq_Some_conv z_simps z_sha_Some ArtifactInspectionReceiptSchema_def
      AuthorizationIdentifierSchema_def ArtifactIdSchema_def ARTIFACT_INSPECTION_RECEIPT_SCHEMA_VERSION_def
      dest: detail_Some)

lemma receipt_keys: "map fst (receipt_fields r) = RECEIPT_KEYS"
  by (simp add: receipt_fields_def RECEIPT_KEYS_def)

lemma parse_receipt_val:
  assumes "ArtifactInspectionReceiptSchema r"
  shows "parse_receipt (receipt_val r) = Some r"
proof -
  have "z_strict RECEIPT_KEYS (receipt_val r) = Some (\<lambda>k. case map_of (receipt_fields r) k of None \<Rightarrow> VUndef | Some v \<Rightarrow> v)"
    unfolding receipt_val_def by (rule z_strict_obj) (simp add: receipt_keys [symmetric, of r])
  then show ?thesis using assms
    by (simp add: parse_receipt_def receipt_fields_def z_literal_def AuthorizationIdentifierSchema_def ArtifactIdSchema_def
        parse_str z_sha_def detail_val_parsed result_val_parsed z_strict_obj ArtifactInspectionReceiptSchema_def
        ARTIFACT_INSPECTION_RECEIPT_SCHEMA_VERSION_def)
qed

section \<open>The object is plain data that determines the receipt\<close>

lemma int_data_obj: "int_data (obj fs) \<longleftrightarrow> list_all (int_data \<circ> snd) fs"
  by (auto simp: obj_def list_all_iff)

lemma plain_data_obj:
  "plain_data (obj fs) \<longleftrightarrow> distinct (map fst fs) \<and> ''toJSON'' \<notin> set (map fst fs) \<and> list_all (plain_data \<circ> snd) fs"
proof -
  have "map fst (map (\<lambda>(k, v). (js k, v)) fs) = map js (map fst fs)" by auto
  then show ?thesis unfolding obj_def plain_data.simps by (auto simp: distinct_map inj_on_def list_all_iff image_iff)
qed

lemma range_val_data [simp]: "int_data (range_val r)" "plain_data (range_val r)"
  by (simp_all add: range_val_def int_data_obj plain_data_obj num_def)

lemma hit_detail_data [simp]: "int_data (hit_detail_val h)" "plain_data (hit_detail_val h)"
  by (simp_all add: hit_detail_val_def int_data_obj plain_data_obj)

lemma detail_data [simp]: "int_data (detail_val d)" "plain_data (detail_val d)"
  by (cases d; simp add: int_data_obj plain_data_obj num_def list_all_iff)+

lemma result_data [simp]: "int_data (result_val e)" "plain_data (result_val e)"
  by (cases e; simp add: result_val_def int_data_obj plain_data_obj)+

lemma receipt_data [simp]: "int_data (receipt_val r)" "plain_data (receipt_val r)"
  by (simp_all add: receipt_val_def receipt_fields_def int_data_obj plain_data_obj)

lemma sorted_obj:
  assumes "sort_keys (obj fs) = sort_keys (obj gs)" "distinct (map fst fs)" "distinct (map fst gs)"
  shows "map_option sort_keys (map_of fs k) = map_option sort_keys (map_of gs k)"
proof -
  let ?j = "map (\<lambda>(k, v). (js k, v)) :: (string \<times> jsval) list \<Rightarrow> _"
  have d: "distinct (map fst (?j hs)) = distinct (map fst hs)" for hs
  proof -
    have "map fst (?j hs) = map js (map fst hs)" by auto
    then show ?thesis by (simp only: distinct_map [of js]) (auto simp: inj_on_def)
  qed
  have m: "map_of (?j hs) (js k) = map_of hs k" for hs by (induction hs) auto
  have "map_option sort_keys (map_of (?j fs) (js k)) = map_option sort_keys (map_of (?j gs) (js k))"
    by (rule sort_keys_fields [OF assms(1) [unfolded obj_def]]) (simp_all only: d assms(2,3))
  then show ?thesis unfolding m .
qed

lemma sorted_range: "sort_keys (range_val r) = sort_keys (range_val s) \<longleftrightarrow> r = s"
proof
  assume e: "sort_keys (range_val r) = sort_keys (range_val s)"
  note f = sorted_obj [OF e [unfolded range_val_def]]
  show "r = s" using f [of "''offset''"] f [of "''length''"] by (simp add: num_def)
qed simp

lemma sorted_hits: "map (sort_keys \<circ> hit_detail_val) hs = map (sort_keys \<circ> hit_detail_val) ks \<longleftrightarrow> hs = ks"
proof -
  have "h = k" if "sort_keys (hit_detail_val h) = sort_keys (hit_detail_val k)" for h k
  proof -
    note f = sorted_obj [OF that [unfolded hit_detail_val_def]]
    show ?thesis using f [of "''returnedRange''"] f [of "''returnedByteSha256''"] by (simp add: sorted_range prod_eq_iff)
  qed
  then have "inj (sort_keys \<circ> hit_detail_val)" by (auto simp: inj_def)
  then show ?thesis by (rule inj_map_eq_map)
qed

fun operation_name :: "operation_detail \<Rightarrow> string" where
  "operation_name D_stat = ''artifact_stat''"
| "operation_name (D_range q r s) = ''artifact_read_range''"
| "operation_name (D_lines sl c r s) = ''artifact_read_lines''"
| "operation_name (D_heading h r s) = ''artifact_read_heading''"
| "operation_name (D_search q m hs) = ''artifact_search_exact''"

fun detail_fields :: "operation_detail \<Rightarrow> (string \<times> jsval) list" where
  "detail_fields D_stat = []"
| "detail_fields (D_range q r s) =
     [(''requestedRange'', range_val q), (''returnedRange'', range_val r), (''returnedByteSha256'', VStr s)]"
| "detail_fields (D_lines sl c r s) =
     [(''requestedLineRange'', obj [(''startLine'', num sl), (''count'', num c)]),
      (''returnedRange'', range_val r), (''returnedByteSha256'', VStr s)]"
| "detail_fields (D_heading h r s) =
     [(''requestedHeadingId'', VStr h), (''returnedRange'', range_val r), (''returnedByteSha256'', VStr s)]"
| "detail_fields (D_search q m hs) =
     [(''queryLength'', num q), (''maxHits'', num m), (''returnedHits'', VArr (map hit_detail_val hs))]"

lemma detail_val_fields: "detail_val d = obj ((''operation'', VStr (js (operation_name d))) # detail_fields d)"
  by (cases d) simp_all

lemma detail_distinct: "distinct (map fst ((''operation'', VStr n) # detail_fields d))"
  by (cases d) simp_all

lemma sorted_detail: "sort_keys (detail_val d) = sort_keys (detail_val e) \<longleftrightarrow> d = e"
proof
  assume eq: "sort_keys (detail_val d) = sort_keys (detail_val e)"
  note f = sorted_obj [OF eq [unfolded detail_val_fields] detail_distinct detail_distinct]
  have n: "operation_name d = operation_name e" using f [of "''operation''"] by simp
  show "d = e"
  proof (cases d)
    case D_stat
    with n show ?thesis by (cases e) simp_all
  next
    case (D_range q r s)
    with n obtain q' r' s' where "e = D_range q' r' s'" by (cases e) simp_all
    with D_range f [of "''requestedRange''"] f [of "''returnedRange''"] f [of "''returnedByteSha256''"]
    show ?thesis by (simp add: sorted_range)
  next
    case (D_lines sl c r s)
    with n obtain sl' c' r' s' where e: "e = D_lines sl' c' r' s'" by (cases e) simp_all
    with D_lines f [of "''requestedLineRange''"]
    have "sort_keys (obj [(''startLine'', num sl), (''count'', num c)]) = sort_keys (obj [(''startLine'', num sl'), (''count'', num c')])"
      by simp
    note g = sorted_obj [OF this]
    show ?thesis using D_lines e f [of "''returnedRange''"] f [of "''returnedByteSha256''"] g [of "''startLine''"] g [of "''count''"]
      by (simp add: sorted_range num_def)
  next
    case (D_heading h r s)
    with n obtain h' r' s' where "e = D_heading h' r' s'" by (cases e) simp_all
    with D_heading f [of "''requestedHeadingId''"] f [of "''returnedRange''"] f [of "''returnedByteSha256''"]
    show ?thesis by (simp add: sorted_range)
  next
    case (D_search q m hs)
    with n obtain q' m' hs' where "e = D_search q' m' hs'" by (cases e) simp_all
    with D_search f [of "''queryLength''"] f [of "''maxHits''"] f [of "''returnedHits''"]
    show ?thesis using sorted_hits [of hs hs'] by (simp add: num_def)
  qed
qed simp

lemma inspection_code_inj: "inspection_code c = inspection_code d \<longleftrightarrow> c = d"
  by (cases c; cases d) simp_all

lemma sorted_result: "sort_keys (result_val c) = sort_keys (result_val d) \<longleftrightarrow> c = d"
proof
  assume eq: "sort_keys (result_val c) = sort_keys (result_val d)"
  let ?f = "\<lambda>e. (case e of None \<Rightarrow> [(''kind'', VStr (js ''result''))]
    | Some c \<Rightarrow> [(''kind'', VStr (js ''error'')), (''errorClass'', VStr (inspection_code c))])"
  have v: "result_val e = obj (?f e)" "distinct (map fst (?f e))" for e by (cases e; simp add: result_val_def)+
  note f = sorted_obj [OF eq [unfolded v(1)] v(2) v(2)]
  show "c = d" using f [of "''kind''"] f [of "''errorClass''"] by (cases c; cases d) (simp_all add: inspection_code_inj)
qed simp

lemma sorted_receipt: "sort_keys (receipt_val r) = sort_keys (receipt_val s) \<longleftrightarrow> r = s"
proof
  assume eq: "sort_keys (receipt_val r) = sort_keys (receipt_val s)"
  have d: "distinct (map fst (receipt_fields r))" for r unfolding receipt_keys by (simp add: RECEIPT_KEYS_def)
  note f = sorted_obj [OF eq [unfolded receipt_val_def] d d]
  have cap: "sort_keys (obj [(''capability'', VStr (rc_capability r)), (''ref'', VStr (rc_capabilityRef r))]) =
      sort_keys (obj [(''capability'', VStr (rc_capability s)), (''ref'', VStr (rc_capabilityRef s))])"
    using f [of "''inspectorCapabilityRef''"] by (simp add: receipt_fields_def)
  note g = sorted_obj [OF cap]
  have "rc_schemaVersion r = rc_schemaVersion s" using f [of "''receiptSchemaVersion''"] by (simp add: receipt_fields_def)
  moreover have "rc_verifierAudience r = rc_verifierAudience s" using f [of "''verifierAudience''"] by (simp add: receipt_fields_def)
  moreover have "rc_principalRef r = rc_principalRef s" using f [of "''principalRef''"] by (simp add: receipt_fields_def)
  moreover have "principalBinding r = principalBinding s" using f [of "''principalBinding''"] by (simp add: receipt_fields_def)
  moreover have "rc_inspectorClientRef r = rc_inspectorClientRef s" using f [of "''inspectorClientRef''"] by (simp add: receipt_fields_def)
  moreover have "inspectorClientBinding r = inspectorClientBinding s" using f [of "''inspectorClientBinding''"] by (simp add: receipt_fields_def)
  moreover have "rc_capability r = rc_capability s" "rc_capabilityRef r = rc_capabilityRef s"
    using g [of "''capability''"] g [of "''ref''"] by simp_all
  moreover have "rc_artifactId r = rc_artifactId s" using f [of "''artifactId''"] by (simp add: receipt_fields_def)
  moreover have "rc_objectVersionRef r = rc_objectVersionRef s" using f [of "''objectVersionRef''"] by (simp add: receipt_fields_def)
  moreover have "rc_sourceSha256 r = rc_sourceSha256 s" using f [of "''sourceSha256''"] by (simp add: receipt_fields_def)
  moreover have "rc_merkleRoot r = rc_merkleRoot s" using f [of "''merkleRoot''"] by (simp add: receipt_fields_def)
  moreover have "analyzerProfileId r = analyzerProfileId s" using f [of "''analyzerProfileId''"] by (simp add: receipt_fields_def)
  moreover have "analyzerProfileVersion r = analyzerProfileVersion s" using f [of "''analyzerProfileVersion''"] by (simp add: receipt_fields_def)
  moreover have "rc_policyVersion r = rc_policyVersion s" using f [of "''policyVersion''"] by (simp add: receipt_fields_def)
  moreover have "rc_gitCoordinate r = rc_gitCoordinate s" using f [of "''inspectorDeploymentGitCoordinate''"] by (simp add: receipt_fields_def)
  moreover have "recordedAt r = recordedAt s" using f [of "''recordedAt''"] by (simp add: receipt_fields_def)
  moreover have "operationDetail r = operationDetail s" using f [of "''operationDetail''"] by (simp add: receipt_fields_def sorted_detail)
  moreover have "resultOrErrorClass r = resultOrErrorClass s" using f [of "''resultOrErrorClass''"] by (simp add: receipt_fields_def sorted_result)
  ultimately show "r = s" by (intro inspection_receipt.equality) simp_all
qed simp

lemma canonical_receipt_injective:
  "map_option text_encode (canonicalJson (receipt_val r)) = map_option text_encode (canonicalJson (receipt_val s)) \<longleftrightarrow> r = s"
  unfolding canonical_injective [OF receipt_data(1) receipt_data(1)] by (rule sorted_receipt)

end
