(* ===== verification/Receipt_Journal.thy ===== *)
theory Receipt_Journal
  imports Receipt_Schema
begin

text \<open>
  \<open>packages/server/src/artifact-receipt-journal.ts\<close>: the canonical bytes and the digest of a receipt, and the
  append of a receipt to an injected journal with the check of its acknowledgement.
\<close>

section \<open>Canonical bytes and digest\<close>

text \<open>Every failure is one \<open>TypeError\<close>.\<close>

datatype receipt_type_error = CANONICAL_RECEIPT_ERROR

definition canonicalArtifactInspectionReceiptBytes :: "heap \<Rightarrow> slot \<Rightarrow> receipt_type_error + byte list" where
  "canonicalArtifactInspectionReceiptBytes h receipt =
     (case assert_graph h receipt {} of
        None \<Rightarrow> Inl CANONICAL_RECEIPT_ERROR
      | Some (v, _) \<Rightarrow>
          (case parse_receipt v of
             None \<Rightarrow> Inl CANONICAL_RECEIPT_ERROR
           | Some data \<Rightarrow>
               (case canonicalJson (receipt_val data) of
                  None \<Rightarrow> Inl CANONICAL_RECEIPT_ERROR
                | Some t \<Rightarrow> Inr (text_encode t))))"

definition artifactInspectionReceiptSha256 :: "hashfn \<Rightarrow> heap \<Rightarrow> slot \<Rightarrow> receipt_type_error + jsstring" where
  "artifactInspectionReceiptSha256 H h receipt =
     map_sum id (\<lambda>b. hex (H b)) (canonicalArtifactInspectionReceiptBytes h receipt)"

section \<open>Acknowledgements\<close>

definition LowercaseSha256Schema :: "jsstring schema" where
  "LowercaseSha256Schema = z_refine HEX64_PATTERN z_string"

record acknowledgement =
  ack_schemaVersion :: jsstring
  receiptSha256 :: jsstring
  journalRef :: jsstring

definition ArtifactReceiptJournalAcknowledgementSchema :: "acknowledgement schema" where
  "ArtifactReceiptJournalAcknowledgementSchema v = do {
     f \<leftarrow> z_strict [''schemaVersion'', ''receiptSha256'', ''journalRef''] v;
     sv \<leftarrow> z_literal ''artifact-receipt-journal-ack/0.1'' (f ''schemaVersion'');
     d \<leftarrow> LowercaseSha256Schema (f ''receiptSha256'');
     j \<leftarrow> AuthorizationIdentifierSchema (f ''journalRef'');
     Some \<lparr>ack_schemaVersion = sv, receiptSha256 = d, journalRef = j\<rparr> }"

section \<open>Append\<close>

datatype journal_error = JOURNAL_APPEND_FAILED

text \<open>
  The injected journal: its answer to \<open>append(receipt, digest)\<close>, \<open>None\<close> where it throws or its promise is
  rejected. The result is paired with the calls that were made.
\<close>

type_synonym journal = "inspection_receipt \<Rightarrow> jsstring \<Rightarrow> jsval option"

definition appendArtifactInspectionReceipt ::
    "hashfn \<Rightarrow> journal \<Rightarrow> heap \<Rightarrow> slot \<Rightarrow> jsval \<Rightarrow>
     (journal_error + acknowledgement) \<times> (inspection_receipt \<times> jsstring) list" where
  "appendArtifactInspectionReceipt H journal h receipt expectedReceiptSha256 =
     (case assert_graph h receipt {} of
        None \<Rightarrow> (Inl JOURNAL_APPEND_FAILED, [])
      | Some (v, _) \<Rightarrow>
          (case (parse_receipt v, LowercaseSha256Schema expectedReceiptSha256) of
             (Some safeReceipt, Some expected) \<Rightarrow>
               (case artifactInspectionReceiptSha256 H (fst (place h (receipt_val safeReceipt))) (snd (place h (receipt_val safeReceipt))) of
                  Inl _ \<Rightarrow> (Inl JOURNAL_APPEND_FAILED, [])
                | Inr d \<Rightarrow>
                    if d \<noteq> expected then (Inl JOURNAL_APPEND_FAILED, [])
                    else
                      (case journal safeReceipt expected of
                         None \<Rightarrow> (Inl JOURNAL_APPEND_FAILED, [(safeReceipt, expected)])
                       | Some rawAcknowledgement \<Rightarrow>
                           (case ArtifactReceiptJournalAcknowledgementSchema rawAcknowledgement of
                              None \<Rightarrow> (Inl JOURNAL_APPEND_FAILED, [(safeReceipt, expected)])
                            | Some ack \<Rightarrow>
                                if receiptSha256 ack \<noteq> expected
                                then (Inl JOURNAL_APPEND_FAILED, [(safeReceipt, expected)])
                                else (Inr ack, [(safeReceipt, expected)]))))
           | _ \<Rightarrow> (Inl JOURNAL_APPEND_FAILED, [])))"

section \<open>The digest of a receipt\<close>

definition receipt_bytes :: "inspection_receipt \<Rightarrow> byte list" where
  "receipt_bytes r = text_encode (json_text (sort_keys (receipt_val r)))"

definition receipt_digest :: "hashfn \<Rightarrow> inspection_receipt \<Rightarrow> jsstring" where
  "receipt_digest H r = hex (H (receipt_bytes r))"

lemma receipt_bytes_inj: "receipt_bytes r = receipt_bytes s \<longleftrightarrow> r = s"
  using canonical_receipt_injective [of r s] by (simp add: receipt_bytes_def canonicalJson_sorted)

text \<open>The receipt a caller's object graph denotes, if it denotes one.\<close>

definition receipt_of :: "heap \<Rightarrow> slot \<Rightarrow> inspection_receipt option" where
  "receipt_of h receipt = Option.bind (assert_graph h receipt {}) (\<lambda>(v, _). parse_receipt v)"

lemma canonical_bytes_eq:
  "canonicalArtifactInspectionReceiptBytes h receipt =
     (case receipt_of h receipt of None \<Rightarrow> Inl CANONICAL_RECEIPT_ERROR | Some r \<Rightarrow> Inr (receipt_bytes r))"
  by (auto simp: canonicalArtifactInspectionReceiptBytes_def receipt_of_def canonicalJson_sorted receipt_bytes_def
      split: option.splits)

lemma receipt_of_ok: "receipt_of h receipt = Some r \<Longrightarrow> ArtifactInspectionReceiptSchema r"
  by (auto simp: receipt_of_def bind_eq_Some_conv dest: parse_receipt_sound)

text \<open>The object of a parsed receipt is canonical again and denotes the same receipt.\<close>

lemma receipt_of_placed:
  assumes "ArtifactInspectionReceiptSchema r"
  shows "receipt_of (fst (place h (receipt_val r))) (snd (place h (receipt_val r))) = Some r"
proof -
  obtain h' v where p: "place h (receipt_val r) = (h', v)" by fastforce
  from assert_placed [OF receipt_data(2) p] obtain s where "assert_graph h' v {} = Some (receipt_val r, s)" by blast
  then show ?thesis by (simp add: p receipt_of_def parse_receipt_val [OF assms])
qed

lemma digest_placed:
  "ArtifactInspectionReceiptSchema r \<Longrightarrow>
   artifactInspectionReceiptSha256 H (fst (place h (receipt_val r))) (snd (place h (receipt_val r))) = Inr (receipt_digest H r)"
  by (simp add: artifactInspectionReceiptSha256_def canonical_bytes_eq receipt_of_placed receipt_digest_def)

section \<open>What append does\<close>

definition acknowledges :: "jsval option \<Rightarrow> jsstring \<Rightarrow> acknowledgement \<Rightarrow> bool" where
  "acknowledges answer d ack \<longleftrightarrow>
     (\<exists>raw. answer = Some raw \<and> ArtifactReceiptJournalAcknowledgementSchema raw = Some ack \<and> receiptSha256 ack = d)"

lemma append_eq:
  "appendArtifactInspectionReceipt H journal h receipt expected =
     (case receipt_of h receipt of
        None \<Rightarrow> (Inl JOURNAL_APPEND_FAILED, [])
      | Some r \<Rightarrow>
          if expected \<noteq> VStr (receipt_digest H r) \<or> \<not> HEX64_PATTERN (receipt_digest H r) then (Inl JOURNAL_APPEND_FAILED, [])
          else
            (case Option.bind (journal r (receipt_digest H r)) ArtifactReceiptJournalAcknowledgementSchema of
               None \<Rightarrow> Inl JOURNAL_APPEND_FAILED
             | Some ack \<Rightarrow> if receiptSha256 ack = receipt_digest H r then Inr ack else Inl JOURNAL_APPEND_FAILED,
             [(r, receipt_digest H r)]))"
proof (cases "assert_graph h receipt {}")
  case None
  then show ?thesis by (simp add: appendArtifactInspectionReceipt_def receipt_of_def)
next
  case (Some p)
  obtain v s where p: "p = (v, s)" by fastforce
  show ?thesis
  proof (cases "parse_receipt v")
    case None
    with Some p show ?thesis by (simp add: appendArtifactInspectionReceipt_def receipt_of_def)
  next
    case r: (Some r)
    note d = digest_placed [OF parse_receipt_sound [OF r], of H h]
    have l: "LowercaseSha256Schema expected = Some e \<longleftrightarrow> expected = VStr e \<and> HEX64_PATTERN e" for e
      by (auto simp: LowercaseSha256Schema_def z_simps)
    show ?thesis
    proof (cases "LowercaseSha256Schema expected")
      case None
      with l [of "receipt_digest H r"] Some p r show ?thesis
        by (auto simp: appendArtifactInspectionReceipt_def receipt_of_def)
    next
      case e: (Some e)
      with l [of e] Some p r d show ?thesis
        by (auto simp: appendArtifactInspectionReceipt_def receipt_of_def split: option.splits)
    qed
  qed
qed

end
