(* ===== verification/Journal_Properties.thy ===== *)
theory Journal_Properties
  imports Receipt_Journal Inspector_Properties
begin

text \<open>
  The properties of the receipt journal: which object graphs are canonical, that the canonical bytes identify a
  receipt, when an append is acknowledged, and that the receipts of inspections can be journalled.
\<close>

section \<open>Concrete inputs\<close>

text \<open>\<open>const o = {}; o.self = o\<close>.\<close>

definition cyclic_heap :: heap where
  "cyclic_heap = [ObjectCell P_object [(K_str (js ''self''), Data True (S_ref 0))]]"

text \<open>A journal that acknowledges whatever it is given.\<close>

definition echo_ack :: "jsstring \<Rightarrow> jsval" where
  "echo_ack d =
     obj [(''schemaVersion'', VStr (js ''artifact-receipt-journal-ack/0.1'')), (''receiptSha256'', VStr d),
       (''journalRef'', VStr (js ''entry-1''))]"

definition echo_journal :: journal where
  "echo_journal r d = Some (echo_ack d)"

definition echo_answer :: "jsstring \<Rightarrow> acknowledgement" where
  "echo_answer d =
     \<lparr>ack_schemaVersion = js ''artifact-receipt-journal-ack/0.1'', receiptSha256 = d, journalRef = js ''entry-1''\<rparr>"

lemma echo_acknowledges: "HEX64_PATTERN d \<Longrightarrow> acknowledges (echo_journal r d) d (echo_answer d)"
proof -
  have "AuthorizationIdentifier (js ''entry-1'')" by code_simp
  then show "HEX64_PATTERN d \<Longrightarrow> acknowledges (echo_journal r d) d (echo_answer d)"
    by (simp add: acknowledges_def echo_journal_def echo_ack_def ArtifactReceiptJournalAcknowledgementSchema_def
        z_strict_obj z_literal_def LowercaseSha256Schema_def AuthorizationIdentifierSchema_def parse_str echo_answer_def)
qed

lemma digest_hex: "HEX64_PATTERN (receipt_digest sha256 r)"
  by (simp add: receipt_digest_def)

lemma append_ok_iff:
  "appendArtifactInspectionReceipt sha256 journal h receipt expected = (Inr ack, calls) \<longleftrightarrow>
     (\<exists>r. receipt_of h receipt = Some r \<and> expected = VStr (receipt_digest sha256 r) \<and>
        acknowledges (journal r (receipt_digest sha256 r)) (receipt_digest sha256 r) ack \<and>
        calls = [(r, receipt_digest sha256 r)])"
  by (auto simp: append_eq digest_hex acknowledges_def bind_eq_Some_conv split: option.splits if_splits)

lemma append_calls:
  "snd (appendArtifactInspectionReceipt sha256 journal h receipt expected) =
     (case receipt_of h receipt of
        None \<Rightarrow> []
      | Some r \<Rightarrow> if expected = VStr (receipt_digest sha256 r) then [(r, receipt_digest sha256 r)] else [])"
  by (simp add: append_eq digest_hex split: option.splits)

lemma emitted_receipt:
  assumes "E_receipt r \<in> set (snd (inspect sha256 nfc lower deps operation rawContext rawInput))"
  shows "ArtifactInspectionReceiptSchema r"
proof -
  obtain calls where c: "calls_ok calls" "closes operation calls (inspect sha256 nfc lower deps operation rawContext rawInput)"
    using sha.well_inspect [of operation nfc lower deps rawContext rawInput] unfolding well_run_def by (elim exE conjE)
  from c(2) obtain rs e out where f: "inspect sha256 nfc lower deps operation rawContext rawInput = (Inr out, calls @ map E_receipt rs @ [E_event e])"
    "\<forall>r \<in> set rs. ArtifactInspectionReceiptSchema r" unfolding closes_def by blast
  moreover have "E_receipt r \<notin> set calls" using c(1) by (auto simp: calls_ok_def)
  ultimately show ?thesis using assms by auto
qed

lemma sample_receipt:
  "\<exists>r. E_receipt r \<in> set (snd (inspect sha256 id id (store_of sample_record sample_text) artifact_read_range sample_context range_request))"
proof -
  let ?run = "inspect sha256 id id (store_of sample_record sample_text) artifact_read_range sample_context range_request"
  obtain calls where "closes artifact_read_range calls ?run"
    using sha.well_inspect [of artifact_read_range id id "store_of sample_record sample_text" sample_context range_request]
    unfolding well_run_def by (elim exE conjE)
  then obtain out rs e where f: "?run = (Inr out, calls @ map E_receipt rs @ [E_event e])" "class_of out = None \<longrightarrow> rs \<noteq> []"
    unfolding closes_def by (elim exE conjE)
  have "\<exists>str p. fst ?run = Inr (O_range str p)"
    using sha.range_refines [OF sample_served requests(1)] by (simp add: sample_range sample_answer_def)
  with f have "rs \<noteq> []" by auto
  with f(1) show ?thesis by (cases rs) auto
qed

section \<open>Properties\<close>

text \<open>
  C38. The walk over an object graph ends on every heap, and accepts a value exactly when it stands for plain
  data by objects that are pairwise different, so that every object is visited once; a value from which an
  object on a cycle can be reached is rejected.
\<close>

theorem graph_walk_decides_trees:
  "(assert_graph h v {} = Some (t, s) \<longleftrightarrow>
      (\<exists>as. stands_for h v t as \<and> distinct as \<and> set as \<subseteq> {..<length h} \<and> s = set as)) \<and>
   ((refers h)\<^sup>*\<^sup>* a b \<and> (refers h)\<^sup>+\<^sup>+ b b \<longrightarrow> assert_graph h (S_ref a) {} = None)"
proof (intro conjI impI)
  show "assert_graph h v {} = Some (t, s) \<longleftrightarrow>
      (\<exists>as. stands_for h v t as \<and> distinct as \<and> set as \<subseteq> {..<length h} \<and> s = set as)"
    unfolding assert_graph_iff using stands_for_objects(1) [of h v t] by blast
qed (elim conjE, rule cycle_rejected)

theorem graph_walk_decides_trees_witness:
  "(refers cyclic_heap)\<^sup>+\<^sup>+ 0 0 \<and> assert_graph cyclic_heap (S_ref 0) {} = None"
proof -
  have "refers cyclic_heap 0 0"
    by (simp add: refers_def cyclic_heap_def open_cell_def object_slots_def object_slot_def data_slot_def is_string_key_def)
  then have "(refers cyclic_heap)\<^sup>+\<^sup>+ 0 0" ..
  with graph_walk_decides_trees [of cyclic_heap "S_ref 0" _ _ 0 0] show ?thesis by blast
qed

text \<open>
  C24. The canonical bytes identify a receipt: two values have the same bytes exactly when both denote the same
  receipt or both are refused, in whatever order their keys were set; and the object of a parsed receipt is
  canonical again, with the same bytes.
\<close>

theorem canonical_bytes_identify_receipt:
  "(canonicalArtifactInspectionReceiptBytes h v = canonicalArtifactInspectionReceiptBytes h' v' \<longleftrightarrow>
      receipt_of h v = receipt_of h' v') \<and>
   (receipt_of h v = Some r \<longrightarrow>
      canonicalArtifactInspectionReceiptBytes (fst (place h' (receipt_val r))) (snd (place h' (receipt_val r))) =
      canonicalArtifactInspectionReceiptBytes h v)"
  using receipt_of_placed [OF receipt_of_ok, of h v r h']
  by (auto simp: canonical_bytes_eq receipt_bytes_inj split: option.splits)

theorem canonical_bytes_identify_receipt_witness:
  "\<exists>r b. canonicalArtifactInspectionReceiptBytes (fst (place cyclic_heap (receipt_val r))) (snd (place cyclic_heap (receipt_val r))) = Inr b \<and>
     canonicalArtifactInspectionReceiptBytes (fst (place [] (receipt_val r))) (snd (place [] (receipt_val r))) = Inr b"
proof -
  obtain r where r: "E_receipt r \<in>
      set (snd (inspect sha256 id id (store_of sample_record sample_text) artifact_read_range sample_context range_request))"
    using sample_receipt by blast
  note o = receipt_of_placed [OF emitted_receipt [OF r]]
  from o [of "[]"] canonical_bytes_identify_receipt [where h = "fst (place [] (receipt_val r))"
    and v = "snd (place [] (receipt_val r))" and r = r and h' = cyclic_heap]
  show ?thesis by (intro exI [of _ r] exI [of _ "receipt_bytes r"]) (simp add: canonical_bytes_eq)
qed

text \<open>
  C21. An append is acknowledged exactly when the value denotes a receipt, the expected digest is the SHA-256
  of its canonical bytes, and the journal answers with a well-formed acknowledgement of that digest; the
  journal is called at most once, and only with a valid receipt and its digest. Every other case is the one
  append error.
\<close>

theorem append_acknowledged_iff:
  "(appendArtifactInspectionReceipt sha256 journal h receipt expected = (Inr ack, calls) \<longleftrightarrow>
     (\<exists>r. receipt_of h receipt = Some r \<and> expected = VStr (receipt_digest sha256 r) \<and>
        acknowledges (journal r (receipt_digest sha256 r)) (receipt_digest sha256 r) ack \<and>
        calls = [(r, receipt_digest sha256 r)])) \<and>
   snd (appendArtifactInspectionReceipt sha256 journal h receipt expected) =
     (case receipt_of h receipt of
        None \<Rightarrow> []
      | Some r \<Rightarrow> if expected = VStr (receipt_digest sha256 r) then [(r, receipt_digest sha256 r)] else [])"
  using append_ok_iff append_calls by blast

text \<open>
  Every receipt an inspection emits can be journalled: its digest is computed, and with a journal that
  acknowledges it the append returns the acknowledgement.
\<close>

lemma inspection_receipts_journalled:
  assumes "E_receipt r \<in> set (snd (inspect sha256 nfc lower deps operation rawContext rawInput))"
    and "place h (receipt_val r) = (h', v)"
    and "acknowledges (journal r (receipt_digest sha256 r)) (receipt_digest sha256 r) ack"
  shows "artifactInspectionReceiptSha256 sha256 h' v = Inr (receipt_digest sha256 r) \<and>
    appendArtifactInspectionReceipt sha256 journal h' v (VStr (receipt_digest sha256 r)) =
      (Inr ack, [(r, receipt_digest sha256 r)])"
proof -
  have ok: "ArtifactInspectionReceiptSchema r" by (rule emitted_receipt [OF assms(1)])
  from receipt_of_placed [OF ok, of h] digest_placed [OF ok, of sha256 h] assms(2,3) show ?thesis
    by (simp add: append_ok_iff)
qed

lemma inspection_receipts_journalled_witness:
  "\<exists>r. fst (appendArtifactInspectionReceipt sha256 echo_journal (fst (place [] (receipt_val r))) (snd (place [] (receipt_val r)))
      (VStr (receipt_digest sha256 r))) = Inr (echo_answer (receipt_digest sha256 r))"
proof -
  obtain r where r: "E_receipt r \<in>
      set (snd (inspect sha256 id id (store_of sample_record sample_text) artifact_read_range sample_context range_request))"
    using sample_receipt by blast
  have "place [] (receipt_val r) = (fst (place [] (receipt_val r)), snd (place [] (receipt_val r)))" by simp
  from inspection_receipts_journalled [where journal = echo_journal, OF r this echo_acknowledges [OF digest_hex, of r r]]
  show ?thesis
    by (intro exI [of _ r]) simp
qed

end
