(* ===== verification/Operation_Gate.thy ===== *)
theory Operation_Gate
  imports Journal_Properties
begin

text \<open>
  One registered artifact operation of \<open>packages/server/src/artifact-mcp-registration.ts\<close>: the gate that holds back
  events and receipts until the journal has acknowledged the receipt, and the race of the operation with its
  deadline. The closures run interleaved, one step between two awaits; the step relation allows every order the
  event loop has, and more: the deadline may fire at any step before the race is decided, and the closing of the
  gate may come any number of steps after it.
\<close>

section \<open>The gate\<close>

record observer_gate =
  gate_open :: bool
  gate_committed :: bool
  gate_events :: "inspector_event list"
  gate_receipts :: "inspection_receipt list"

definition createOperationScopedObserverGate :: observer_gate where
  "createOperationScopedObserverGate = \<lparr>gate_open = True, gate_committed = False, gate_events = [], gate_receipts = []\<rparr>"

definition gate_emitOperationalEvent :: "inspector_event \<Rightarrow> observer_gate \<Rightarrow> observer_gate" where
  "gate_emitOperationalEvent event g =
     (if gate_open g \<and> \<not> gate_committed g then g\<lparr>gate_events := gate_events g @ [event]\<rparr> else g)"

definition gate_emitInspectionReceipt :: "inspection_receipt \<Rightarrow> observer_gate \<Rightarrow> observer_gate" where
  "gate_emitInspectionReceipt receipt g =
     (if gate_open g \<and> \<not> gate_committed g then g\<lparr>gate_receipts := gate_receipts g @ [receipt]\<rparr> else g)"

definition gate_close :: "observer_gate \<Rightarrow> observer_gate" where
  "gate_close g = g\<lparr>gate_open := False, gate_events := [], gate_receipts := []\<rparr>"

text \<open>What the observers behind the gate are told.\<close>

datatype observed = Obs_receipt inspection_receipt | Obs_event inspector_event

text \<open>\<open>commit\<close> up to its await: it throws, has nothing to append, or appends one receipt under its digest.\<close>

datatype commit_result = Commit_failed | Commit_nothing | Commit_append inspection_receipt jsstring

definition commit_start :: "hashfn \<Rightarrow> observer_gate \<Rightarrow> commit_result" where
  "commit_start H g =
     (if \<not> gate_open g \<or> gate_committed g \<or> 1 < length (gate_receipts g) then Commit_failed
      else
        (case gate_receipts g of
           [] \<Rightarrow> Commit_nothing
         | receipt # _ \<Rightarrow>
             (case artifactInspectionReceiptSha256 H (fst (place [] (receipt_val receipt))) (snd (place [] (receipt_val receipt))) of
                Inl _ \<Rightarrow> Commit_failed
              | Inr d \<Rightarrow> Commit_append receipt d)))"

text \<open>\<open>commit\<close> after its await: a closed gate releases nothing.\<close>

definition commit_release :: "observer_gate \<Rightarrow> observer_gate \<times> observed list" where
  "commit_release g =
     (if \<not> gate_open g then (g, [])
      else (g\<lparr>gate_committed := True\<rparr>, map Obs_receipt (take 1 (gate_receipts g)) @ map Obs_event (gate_events g)))"

text \<open>The append of a receipt the gate holds, with the answer the journal gives.\<close>

definition gate_append :: "hashfn \<Rightarrow> inspection_receipt \<Rightarrow> jsstring \<Rightarrow> jsval option \<Rightarrow> (journal_error + acknowledgement) \<times> (inspection_receipt \<times> jsstring) list" where
  "gate_append H receipt d answer =
     appendArtifactInspectionReceipt H (\<lambda>_ _. answer) (fst (place [] (receipt_val receipt))) (snd (place [] (receipt_val receipt))) (VStr d)"

section \<open>The operation\<close>

text \<open>
  Where the operation's own promise stands: the effects the inspector has still to perform and what it will then
  return, waiting for the journal, or settled.
\<close>

datatype op_phase =
    Inspecting "effect list" "unit + inspection_output"
  | Appending inspection_receipt jsstring inspection_output
  | Settled inspection_output

text \<open>\<open>returned\<close> is the answer after the gate is closed, with the class of the event the registration itself emits.\<close>

record op_state =
  op_gate :: observer_gate
  op_phase :: op_phase
  journal_calls :: "(inspection_receipt \<times> jsstring) list"
  acknowledged :: "inspection_receipt list"
  released :: "observed list"
  journalFailure :: bool
  race_won :: "inspection_output option"
  returned_output :: "(inspection_output \<times> inspection_error option) option"

definition op_start :: "run \<Rightarrow> op_state" where
  "op_start r =
     \<lparr>op_gate = createOperationScopedObserverGate, op_phase = Inspecting (snd r) (fst r), journal_calls = [], acknowledged = [],
      released = [], journalFailure = False, race_won = None, returned_output = None\<rparr>"

fun gate_effect :: "effect \<Rightarrow> observer_gate \<Rightarrow> observer_gate" where
  "gate_effect (E_receipt r) g = gate_emitInspectionReceipt r g"
| "gate_effect (E_event e) g = gate_emitOperationalEvent e g"
| "gate_effect _ g = g"

definition isFixedDeadlineExceededOutput :: "inspection_output \<Rightarrow> bool" where
  "isFixedDeadlineExceededOutput out \<longleftrightarrow> out = createArtifactInspectionError AI_DEADLINE_EXCEEDED"

definition registration_event :: "inspection_output \<Rightarrow> bool \<Rightarrow> inspection_error option" where
  "registration_event out failed =
     (if isFixedDeadlineExceededOutput out then Some AI_DEADLINE_EXCEEDED else if failed then Some AI_INTERNAL_ERROR else None)"

definition release_all :: "op_state \<Rightarrow> op_state" where
  "release_all s = (case commit_release (op_gate s) of (g, obs) \<Rightarrow> s\<lparr>op_gate := g, released := released s @ obs\<rparr>)"

definition commit_fails :: "op_state \<Rightarrow> op_state" where
  "commit_fails s = s\<lparr>journalFailure := True, op_phase := Settled (createArtifactInspectionError AI_INTERNAL_ERROR)\<rparr>"

text \<open>The operation after the inspector has resolved: \<open>gate.commit\<close> until it awaits the journal.\<close>

definition step_commit :: "hashfn \<Rightarrow> inspection_output \<Rightarrow> op_state \<Rightarrow> op_state" where
  "step_commit H out s =
     (case commit_start H (op_gate s) of
        Commit_failed \<Rightarrow> commit_fails s
      | Commit_nothing \<Rightarrow> (release_all s)\<lparr>op_phase := Settled out\<rparr>
      | Commit_append r d \<Rightarrow>
          s\<lparr>op_phase := Appending r d out, journal_calls := journal_calls s @ snd (gate_append H r d None)\<rparr>)"

text \<open>The answer of the journal.\<close>

definition step_answer :: "hashfn \<Rightarrow> inspection_receipt \<Rightarrow> jsstring \<Rightarrow> inspection_output \<Rightarrow> jsval option \<Rightarrow> op_state \<Rightarrow> op_state" where
  "step_answer H r d out answer s =
     (case fst (gate_append H r d answer) of
        Inl _ \<Rightarrow> commit_fails s
      | Inr _ \<Rightarrow> (release_all (s\<lparr>acknowledged := acknowledged s @ [r]\<rparr>))\<lparr>op_phase := Settled out\<rparr>)"

inductive op_step :: "hashfn \<Rightarrow> op_state \<Rightarrow> op_state \<Rightarrow> bool" for H where
  effect: "op_phase s = Inspecting (e # es) res \<Longrightarrow>
     op_step H s (s\<lparr>op_gate := gate_effect e (op_gate s), op_phase := Inspecting es res\<rparr>)"
| throw: "op_phase s = Inspecting [] (Inl ()) \<Longrightarrow>
     op_step H s (s\<lparr>op_phase := Settled (createArtifactInspectionError AI_INTERNAL_ERROR)\<rparr>)"
| commit: "op_phase s = Inspecting [] (Inr out) \<Longrightarrow> op_step H s (step_commit H out s)"
| answer: "op_phase s = Appending r d out \<Longrightarrow> op_step H s (step_answer H r d out a s)"
| win: "op_phase s = Settled out \<Longrightarrow> race_won s = None \<Longrightarrow> op_step H s (s\<lparr>race_won := Some out\<rparr>)"
| expire: "race_won s = None \<Longrightarrow>
     op_step H s (s\<lparr>race_won := Some (createArtifactInspectionError AI_DEADLINE_EXCEEDED)\<rparr>)"
| close: "race_won s = Some out \<Longrightarrow> returned_output s = None \<Longrightarrow>
     op_step H s (s\<lparr>op_gate := gate_close (op_gate s), returned_output := Some (out, registration_event out (journalFailure s))\<rparr>)"

inductive op_reachable :: "hashfn \<Rightarrow> run \<Rightarrow> op_state \<Rightarrow> bool" for H r where
  start: "op_reachable H r (op_start r)"
| step: "op_reachable H r s \<Longrightarrow> op_step H s s' \<Longrightarrow> op_reachable H r s'"

inductive_cases op_step_cases: "op_step H s s'"

end
