(* ===== verification/Gate_Properties.thy ===== *)
theory Gate_Properties
  imports Operation_Gate
begin

text \<open>
  What every interleaving of a registered artifact operation keeps: the journal is asked at most once, observers are
  told only acknowledged evidence and nothing after the return, and the operation returns.
\<close>

section \<open>Evidence of a run\<close>

fun receipts_of :: "effect list \<Rightarrow> inspection_receipt list" where
  "receipts_of (E_receipt r # es) = r # receipts_of es"
| "receipts_of (_ # es) = receipts_of es"
| "receipts_of [] = []"

fun events_of :: "effect list \<Rightarrow> inspector_event list" where
  "events_of (E_event e # es) = e # events_of es"
| "events_of (_ # es) = events_of es"
| "events_of [] = []"

abbreviation "internal_error \<equiv> createArtifactInspectionError AI_INTERNAL_ERROR"

abbreviation "deadline_error \<equiv> createArtifactInspectionError AI_DEADLINE_EXCEEDED"

section \<open>The gate\<close>

lemma gate_effect_flags [simp]:
  "gate_open (gate_effect e g) = gate_open g" "gate_committed (gate_effect e g) = gate_committed g"
  by (cases e; simp add: gate_emitInspectionReceipt_def gate_emitOperationalEvent_def)+

lemma gate_effect_held:
  assumes "gate_open g" "\<not> gate_committed g"
  shows "gate_receipts (gate_effect e g) @ receipts_of es = gate_receipts g @ receipts_of (e # es)"
    "gate_events (gate_effect e g) @ events_of es = gate_events g @ events_of (e # es)"
  using assms by (cases e; simp add: gate_emitInspectionReceipt_def gate_emitOperationalEvent_def)+

lemma commit_start_cases:
  assumes "commit_start H g = c"
  shows "c = Commit_failed \<or> c = Commit_nothing \<and> gate_open g \<and> gate_receipts g = [] \<or>
    (\<exists>r d. c = Commit_append r d \<and> gate_open g \<and> gate_receipts g = [r] \<and>
       artifactInspectionReceiptSha256 H (fst (place [] (receipt_val r))) (snd (place [] (receipt_val r))) = Inr d)"
  using assms by (auto simp: commit_start_def split: list.splits sum.splits if_splits)

section \<open>The invariant\<close>

definition held :: "op_state \<Rightarrow> effect list \<Rightarrow> effect list \<Rightarrow> bool" where
  "held s es all \<longleftrightarrow>
     (gate_open (op_gate s) \<longrightarrow>
        gate_receipts (op_gate s) @ receipts_of es = receipts_of all \<and> gate_events (op_gate s) @ events_of es = events_of all)"

definition quiet :: "op_state \<Rightarrow> bool" where
  "quiet s \<longleftrightarrow> \<not> gate_committed (op_gate s) \<and> acknowledged s = [] \<and> released s = [] \<and> \<not> journalFailure s"

fun phase_ok :: "hashfn \<Rightarrow> run \<Rightarrow> op_state \<Rightarrow> op_phase \<Rightarrow> bool" where
  "phase_ok H r s (Inspecting es res) \<longleftrightarrow> quiet s \<and> journal_calls s = [] \<and> res = fst r \<and> held s es (snd r)"
| "phase_ok H r s (Appending rc d out) \<longleftrightarrow>
     quiet s \<and> journal_calls s = snd (gate_append H rc d None) \<and> fst r = Inr out \<and> receipts_of (snd r) = [rc] \<and>
     artifactInspectionReceiptSha256 H (fst (place [] (receipt_val rc))) (snd (place [] (receipt_val rc))) = Inr d \<and>
     held s [] (snd r)"
| "phase_ok H r s (Settled out) \<longleftrightarrow>
     (released s = [] \<or> acknowledged s = receipts_of (snd r) \<and>
        released s = map Obs_receipt (receipts_of (snd r)) @ map Obs_event (events_of (snd r))) \<and>
     (journal_calls s = [] \<and> acknowledged s = [] \<or>
       (\<exists>rc d. receipts_of (snd r) = [rc] \<and> journal_calls s = snd (gate_append H rc d None) \<and>
          artifactInspectionReceiptSha256 H (fst (place [] (receipt_val rc))) (snd (place [] (receipt_val rc))) = Inr d)) \<and>
     (out = internal_error \<or> fst r = Inr out \<and> acknowledged s = receipts_of (snd r))"

definition op_inv :: "hashfn \<Rightarrow> run \<Rightarrow> op_state \<Rightarrow> bool" where
  "op_inv H r s \<longleftrightarrow>
     (gate_open (op_gate s) \<longleftrightarrow> returned_output s = None) \<and>
     (\<forall>out. race_won s = Some out \<longrightarrow> out = deadline_error \<or> op_phase s = Settled out) \<and>
     (\<forall>out ev. returned_output s = Some (out, ev) \<longrightarrow> race_won s = Some out) \<and>
     phase_ok H r s (op_phase s)"

lemma append_calls_same: "snd (gate_append H r d a) = snd (gate_append H r d b)"
  unfolding gate_append_def append_eq by (auto split: option.split)

lemma release_open:
  assumes "gate_open (op_gate s)"
  shows "op_gate (release_all s) = (op_gate s)\<lparr>gate_committed := True\<rparr>"
    "released (release_all s) = released s @ map Obs_receipt (take 1 (gate_receipts (op_gate s))) @ map Obs_event (gate_events (op_gate s))"
  using assms by (simp_all add: release_all_def commit_release_def)

lemma release_closed: "\<not> gate_open (op_gate s) \<Longrightarrow> release_all s = s"
  by (simp add: release_all_def commit_release_def)

lemma release_kept [simp]:
  "op_phase (release_all s) = op_phase s" "journal_calls (release_all s) = journal_calls s"
  "acknowledged (release_all s) = acknowledged s" "journalFailure (release_all s) = journalFailure s"
  "race_won (release_all s) = race_won s" "returned_output (release_all s) = returned_output s"
  "gate_open (op_gate (release_all s)) = gate_open (op_gate s)"
  by (simp_all add: release_all_def commit_release_def)

lemma commit_inv:
  assumes inv: "op_inv H r s" and p: "op_phase s = Inspecting [] (Inr out)"
  shows "op_inv H r (step_commit H out s)"
proof -
  have ok: "quiet s" "journal_calls s = []" "fst r = Inr out" "held s [] (snd r)"
    using inv p by (simp_all add: op_inv_def)
  consider "commit_start H (op_gate s) = Commit_failed"
    | "commit_start H (op_gate s) = Commit_nothing" "gate_open (op_gate s)" "gate_receipts (op_gate s) = []"
    | rc d where "commit_start H (op_gate s) = Commit_append rc d" "gate_open (op_gate s)" "gate_receipts (op_gate s) = [rc]"
        "artifactInspectionReceiptSha256 H (fst (place [] (receipt_val rc))) (snd (place [] (receipt_val rc))) = Inr d"
    using commit_start_cases [OF refl, of H "op_gate s"] by blast
  then show ?thesis
  proof cases
    case 1
    with inv p ok show ?thesis by (auto simp: op_inv_def step_commit_def commit_fails_def quiet_def)
  next
    case 2
    with inv p ok show ?thesis by (auto simp: op_inv_def step_commit_def release_open held_def quiet_def)
  next
    case 3
    with inv p ok show ?thesis by (auto simp: op_inv_def step_commit_def held_def quiet_def)
  qed
qed

lemma answer_inv:
  assumes inv: "op_inv H r s" and p: "op_phase s = Appending rc d out"
  shows "op_inv H r (step_answer H rc d out a s)"
proof (cases "fst (gate_append H rc d a)")
  case (Inl e)
  with inv p show ?thesis by (auto simp: op_inv_def step_answer_def commit_fails_def quiet_def)
next
  case (Inr ack)
  let ?s = "s\<lparr>acknowledged := acknowledged s @ [rc]\<rparr>"
  show ?thesis
  proof (cases "gate_open (op_gate s)")
    case True
    with inv p Inr show ?thesis by (auto simp: op_inv_def step_answer_def quiet_def held_def release_open)
  next
    case False
    with inv p Inr show ?thesis by (auto simp: op_inv_def step_answer_def quiet_def held_def release_closed)
  qed
qed

lemma step_inv: "op_step H s s' \<Longrightarrow> op_inv H r s \<Longrightarrow> op_inv H r s'"
proof (induction rule: op_step.induct)
  case (effect s e es res)
  show ?case
  proof (cases "gate_open (op_gate s)")
    case True
    with effect gate_effect_held [OF True, of e es] show ?thesis by (auto simp: op_inv_def quiet_def held_def)
  next
    case False
    with effect show ?thesis by (auto simp: op_inv_def quiet_def held_def)
  qed
next
  case (throw s)
  then show ?case by (auto simp: op_inv_def quiet_def)
next
  case (commit s out)
  then show ?case by (simp add: commit_inv)
next
  case (answer s rc d out a)
  then show ?case by (simp add: answer_inv)
next
  case (win s out)
  then show ?case by (auto simp: op_inv_def)
next
  case (expire s)
  then show ?case by (cases "op_phase s") (auto simp: op_inv_def quiet_def held_def)
next
  case (close s out)
  then show ?case by (cases "op_phase s") (auto simp: op_inv_def quiet_def held_def gate_close_def)
qed

lemma reachable_op_inv: "op_reachable H r s \<Longrightarrow> op_inv H r s"
proof (induction rule: op_reachable.induct)
  case start
  show ?case
    by (simp add: op_inv_def op_start_def quiet_def held_def createOperationScopedObserverGate_def)
qed (rule step_inv)

section \<open>Evidence before answers\<close>

lemma append_call:
  assumes "ArtifactInspectionReceiptSchema rc"
  shows "artifactInspectionReceiptSha256 sha256 (fst (place [] (receipt_val rc))) (snd (place [] (receipt_val rc))) =
      Inr (receipt_digest sha256 rc)"
    "snd (gate_append sha256 rc (receipt_digest sha256 rc) a) = [(rc, receipt_digest sha256 rc)]"
  unfolding gate_append_def append_calls using digest_placed [OF assms] receipt_of_placed [OF assms] by simp_all

text \<open>
  C3. Safety: whatever the order of the steps, the journal is called at most once in an operation; what the observers
  have been told is nothing, or all the evidence of the run after every receipt of it was acknowledged; and the answer
  is the deadline error, the internal error, or the inspector's own output with every receipt acknowledged before.
\<close>

theorem observers_after_journal:
  assumes "op_reachable sha256 r s"
  shows "length (journal_calls s) \<le> 1 \<and>
    (released s = [] \<or> acknowledged s = receipts_of (snd r) \<and>
       released s = map Obs_receipt (receipts_of (snd r)) @ map Obs_event (events_of (snd r))) \<and>
    (\<forall>out ev. returned_output s = Some (out, ev) \<longrightarrow>
       out = deadline_error \<or> out = internal_error \<or> fst r = Inr out \<and> acknowledged s = receipts_of (snd r))"
proof -
  note inv = reachable_op_inv [OF assms]
  have "length (snd (gate_append sha256 rc d a)) \<le> 1" for rc d a
    unfolding gate_append_def append_calls by (auto split: option.split)
  then have "length (journal_calls s) \<le> 1" using inv by (cases "op_phase s") (auto simp: op_inv_def)
  moreover have "released s = [] \<or> acknowledged s = receipts_of (snd r) \<and>
       released s = map Obs_receipt (receipts_of (snd r)) @ map Obs_event (events_of (snd r))"
    using inv by (cases "op_phase s") (auto simp: op_inv_def quiet_def)
  moreover have "out = deadline_error \<or> out = internal_error \<or> fst r = Inr out \<and> acknowledged s = receipts_of (snd r)"
    if "returned_output s = Some (out, ev)" for out ev
  proof -
    from inv that have "out = deadline_error \<or> op_phase s = Settled out" by (auto simp: op_inv_def)
    with inv show ?thesis by (auto simp: op_inv_def)
  qed
  ultimately show ?thesis by blast
qed

lemma receipts_of_shape: "calls_ok calls \<Longrightarrow> receipts_of (calls @ map E_receipt rs @ [E_event e]) = rs"
proof -
  have "receipts_of (map E_receipt rs @ [E_event e]) = rs" by (induction rs) simp_all
  then show "calls_ok calls \<Longrightarrow> receipts_of (calls @ map E_receipt rs @ [E_event e]) = rs" by (auto simp: calls_ok_def)
qed

text \<open>
  C7. Safety: no artifact content without evidence. When a registered inspection answers a success, the journal has
  acknowledged one receipt, a valid one of class success, under the SHA-256 of its canonical bytes.
\<close>

theorem success_acknowledged:
  assumes "op_reachable sha256 (inspect sha256 nfc lower deps operation rawContext rawInput) s"
    and "returned_output s = Some (out, ev)" "class_of out = None"
  shows "\<exists>rc. acknowledged s = [rc] \<and> ArtifactInspectionReceiptSchema rc \<and> resultOrErrorClass rc = None \<and>
    journal_calls s = [(rc, receipt_digest sha256 rc)]"
proof -
  let ?r = "inspect sha256 nfc lower deps operation rawContext rawInput"
  obtain calls out' rs e where r: "?r = (Inr out', calls @ map E_receipt rs @ [E_event e])" "calls_ok calls" "length rs \<le> 1"
    "list_all (\<lambda>r. ArtifactInspectionReceiptSchema r \<and> resultOrErrorClass r = class_of out') rs"
    "length rs = 1 \<or> (\<exists>c. class_of out' = Some c)"
    using inspect_shape [of nfc lower deps operation rawContext rawInput] by (elim exE conjE)
  note inv = reachable_op_inv [OF assms(1)]
  have "op_phase s = Settled out" using inv assms(2,3) by (auto simp: op_inv_def createArtifactInspectionError_def)
  then have p: "fst ?r = Inr out" "acknowledged s = receipts_of (snd ?r)" "phase_ok sha256 ?r s (Settled out)"
    using inv assms(3) by (auto simp: op_inv_def createArtifactInspectionError_def)
  have rs: "receipts_of (snd ?r) = rs" using receipts_of_shape [OF r(2)] r(1) by simp
  have "out' = out" using p(1) r(1) by simp
  with r(5) assms(3) obtain rc where rc: "rs = [rc]" by (auto simp: length_Suc_conv)
  then have ok: "ArtifactInspectionReceiptSchema rc" "resultOrErrorClass rc = None"
    using r(4) \<open>out' = out\<close> assms(3) by simp_all
  have "acknowledged s = [rc]" using p(2) rs rc by simp
  then have "journal_calls s = [(rc, receipt_digest sha256 rc)]"
    using p(3) rs rc append_call [OF ok(1)] by auto
  with ok \<open>acknowledged s = [rc]\<close> show ?thesis by blast
qed

section \<open>After the return\<close>

lemma step_after_return:
  "op_step H s s' \<Longrightarrow> op_inv H r s \<Longrightarrow> returned_output s \<noteq> None \<Longrightarrow>
   released s' = released s \<and> returned_output s' = returned_output s"
proof (induction rule: op_step.induct)
  case (commit s out)
  then have "\<not> gate_open (op_gate s)" by (simp add: op_inv_def)
  then show ?case by (simp add: step_commit_def commit_start_def commit_fails_def)
next
  case (answer s rc d out a)
  then have "\<not> gate_open (op_gate s)" by (simp add: op_inv_def)
  then show ?case by (auto simp: step_answer_def commit_fails_def release_closed split: sum.split)
qed auto

text \<open>
  C23. Safety: the gate is shut for good. Once the operation has returned, no later step (an inspector that goes on
  working, an acknowledgement that arrives late) tells the observers anything or changes the answer.
\<close>

theorem silent_after_return:
  assumes "op_reachable H r s" "returned_output s \<noteq> None" "(op_step H)\<^sup>*\<^sup>* s s'"
  shows "released s' = released s \<and> returned_output s' = returned_output s"
proof -
  from assms(3,1,2) have "op_reachable H r s' \<and> released s' = released s \<and> returned_output s' = returned_output s"
  proof (induction rule: rtranclp_induct)
    case (step y z)
    with step_after_return [OF step(2) reachable_op_inv, of r] show ?case by (auto intro: op_reachable.step)
  qed simp
  then show ?thesis by simp
qed

section \<open>The operation returns\<close>

fun phase_work :: "op_phase \<Rightarrow> nat" where
  "phase_work (Inspecting es res) = length es + 2"
| "phase_work (Appending r d out) = 1"
| "phase_work (Settled out) = 0"

definition op_work :: "op_state \<Rightarrow> nat" where
  "op_work s = phase_work (op_phase s) + (if race_won s = None then 1 else 0) + (if returned_output s = None then 1 else 0)"

lemma step_work: "op_step H s s' \<Longrightarrow> op_work s' < op_work s"
  by (induction rule: op_step.induct)
    (auto simp: op_work_def step_commit_def step_answer_def commit_fails_def split: commit_result.split sum.split)

text \<open>
  C30. Termination: an operation makes at most as many steps as the inspector has effects and four more, and it can
  only stop with an answer: every execution returns.
\<close>

theorem operation_returns:
  assumes "(op_step H ^^ n) (op_start r) s"
  shows "n \<le> length (snd r) + 4 \<and> ((\<forall>s'. \<not> op_step H s s') \<longrightarrow> returned_output s \<noteq> None)"
proof -
  from assms have "op_work s + n \<le> op_work (op_start r)"
  proof (induction n arbitrary: s)
    case (Suc n)
    then obtain t where t: "(op_step H ^^ n) (op_start r) t" "op_step H t s" by auto
    show ?case using Suc.IH [OF t(1)] step_work [OF t(2)] by simp
  qed simp
  moreover have "op_work (op_start r) = length (snd r) + 4" by (simp add: op_work_def op_start_def)
  moreover have "\<exists>s'. op_step H s s'" if "returned_output s = None"
    using that op_step.close [of s] op_step.expire [of s] by (cases "race_won s") blast+
  ultimately show ?thesis by force
qed

section \<open>Evidence gets through\<close>

lemma reach_inspected:
  "op_reachable H r s \<Longrightarrow> op_phase s = Inspecting es res \<Longrightarrow> race_won s = None \<Longrightarrow>
   \<exists>t. op_reachable H r t \<and> op_phase t = Inspecting [] res \<and> race_won t = None"
proof (induction es arbitrary: s)
  case (Cons e es)
  from op_reachable.step [OF Cons.prems(1) op_step.effect [OF Cons.prems(2)]] show ?case
    by (rule Cons.IH) (use Cons.prems in simp_all)
qed auto

lemma reach_returned:
  assumes "op_reachable H r s" "op_phase s = Settled out" "race_won s = None"
  shows "op_reachable H r (s\<lparr>race_won := Some out, op_gate := gate_close (op_gate s),
    returned_output := Some (out, registration_event out (journalFailure s))\<rparr>)"
proof -
  have "returned_output s = None" using reachable_op_inv [OF assms(1)] assms(3) by (auto simp: op_inv_def)
  with op_reachable.step [OF op_reachable.step [OF assms(1) op_step.win [OF assms(2,3)]] op_step.close, of out]
  show ?thesis by simp
qed

lemma evidence_reachable:
  assumes "inspect sha256 nfc lower deps operation rawContext rawInput = (Inr out, effects)"
  shows "\<exists>s. op_reachable sha256 (Inr out, effects) s \<and> acknowledged s = receipts_of effects \<and>
    released s = map Obs_receipt (receipts_of effects) @ map Obs_event (events_of effects) \<and>
    returned_output s = Some (out, registration_event out False)"
proof -
  let ?r = "(Inr out, effects)"
  obtain calls rs e where r: "effects = calls @ map E_receipt rs @ [E_event e]" "calls_ok calls" "length rs \<le> 1"
    "list_all ArtifactInspectionReceiptSchema rs"
    using inspect_shape [of nfc lower deps operation rawContext rawInput] assms by (auto simp: list_all_iff)
  then have rs: "receipts_of effects = rs" using receipts_of_shape by simp
  obtain t where t: "op_reachable sha256 ?r t" "op_phase t = Inspecting [] (Inr out)" "race_won t = None"
    using reach_inspected [OF op_reachable.start, where H = sha256 and r = ?r and es = effects and res = "Inr out"] by (auto simp: op_start_def)
  have inv: "op_inv sha256 ?r t" by (rule reachable_op_inv [OF t(1)])
  then have held: "gate_open (op_gate t)" "gate_receipts (op_gate t) = rs" "gate_events (op_gate t) = events_of effects" "quiet t"
    using t rs by (auto simp: op_inv_def held_def)
  note c = op_reachable.step [OF t(1) op_step.commit [OF t(2)]]
  have "\<exists>u. op_reachable sha256 ?r u \<and> op_phase u = Settled out \<and> race_won u = None \<and> journalFailure u = False \<and>
      acknowledged u = rs \<and> released u = map Obs_receipt rs @ map Obs_event (events_of effects)"
  proof (cases rs)
    case Nil
    with held t have "commit_start sha256 (op_gate t) = Commit_nothing" by (simp add: commit_start_def quiet_def)
    with c held t Nil show ?thesis
      by (intro exI [of _ "step_commit sha256 out t"]) (simp add: step_commit_def release_open quiet_def)
  next
    case (Cons rc rest)
    then have one: "rs = [rc]" "ArtifactInspectionReceiptSchema rc" using r(3,4) by simp_all
    let ?d = "receipt_digest sha256 rc"
    have "commit_start sha256 (op_gate t) = Commit_append rc ?d"
      using held one append_call(1) by (simp add: commit_start_def quiet_def)
    then have u: "op_phase (step_commit sha256 out t) = Appending rc ?d out" "race_won (step_commit sha256 out t) = None"
      "op_gate (step_commit sha256 out t) = op_gate t" "released (step_commit sha256 out t) = []"
      "acknowledged (step_commit sha256 out t) = []" "journalFailure (step_commit sha256 out t) = False"
      using t held by (simp_all add: step_commit_def quiet_def)
    have a: "fst (gate_append sha256 rc ?d (echo_journal rc ?d)) = Inr (echo_answer ?d)"
      using echo_acknowledges [OF digest_hex, of rc rc] receipt_of_placed [OF one(2)]
      by (auto simp: gate_append_def append_eq digest_hex acknowledges_def)
    from op_reachable.step [OF c op_step.answer [OF u(1), of sha256 "echo_journal rc ?d"]] a u held one show ?thesis
      by (intro exI [of _ "step_answer sha256 rc ?d out (echo_journal rc ?d) (step_commit sha256 out t)"])
        (simp add: step_answer_def release_open)
  qed
  then obtain u where u: "op_reachable sha256 ?r u" "op_phase u = Settled out" "race_won u = None" "journalFailure u = False"
    "acknowledged u = rs" "released u = map Obs_receipt rs @ map Obs_event (events_of effects)" by (elim exE conjE)
  show ?thesis by (intro exI conjI, rule reach_returned [OF u(1-3)]) (use u(4-6) rs in simp_all)
qed

text \<open>
  C31. Liveness: nothing in the registration withholds evidence. Every inspection has an execution in which the journal
  acknowledges its receipt, and then it returns the inspector's output and the observers have been told every receipt
  and every event, in this order.
\<close>

theorem evidence_gets_through:
  assumes "inspect sha256 nfc lower deps operation rawContext rawInput = (Inr out, effects)"
  shows "\<exists>s. op_reachable sha256 (Inr out, effects) s \<and> acknowledged s = receipts_of effects \<and>
    released s = map Obs_receipt (receipts_of effects) @ map Obs_event (events_of effects) \<and>
    returned_output s = Some (out, registration_event out False)"
  using assms by (rule evidence_reachable)

text \<open>The range read of the sample, journalled and returned.\<close>

definition sample_run :: run where
  "sample_run = inspect sha256 id id (store_of sample_record sample_text) artifact_read_range sample_context range_request"

lemma sample_returned:
  "\<exists>s out ev. op_reachable sha256 sample_run s \<and> returned_output s = Some (out, ev) \<and> class_of out = None"
proof -
  obtain str p where "fst sample_run = Inr (O_range str p)"
    using sha.range_refines [OF sample_served requests(1)] by (auto simp: sample_run_def sample_range sample_answer_def)
  then have r: "sample_run = (Inr (O_range str p), snd sample_run)" by (metis prod.collapse)
  from evidence_reachable [OF r [unfolded sample_run_def]] show ?thesis using r unfolding sample_run_def by force
qed

theorem evidence_gets_through_witness:
  "\<exists>out s. op_reachable sha256 sample_run s \<and> acknowledged s = receipts_of (snd sample_run) \<and>
     returned_output s = Some (out, registration_event out False)"
proof -
  obtain str p where "fst sample_run = Inr (O_range str p)"
    using sha.range_refines [OF sample_served requests(1)] by (auto simp: sample_run_def sample_range sample_answer_def)
  then have r: "sample_run = (Inr (O_range str p), snd sample_run)" by (metis prod.collapse)
  from evidence_gets_through [OF r [unfolded sample_run_def]] show ?thesis using r unfolding sample_run_def by force
qed

theorem success_acknowledged_witness:
  "\<exists>s rc. op_reachable sha256 sample_run s \<and> acknowledged s = [rc] \<and> journal_calls s = [(rc, receipt_digest sha256 rc)]"
proof -
  obtain s out ev where s: "op_reachable sha256 sample_run s" "returned_output s = Some (out, ev)" "class_of out = None"
    using sample_returned by (elim exE conjE)
  from success_acknowledged [OF s(1) [unfolded sample_run_def] s(2,3)] s(1) show ?thesis by blast
qed

theorem observers_after_journal_witness:
  "\<exists>s. op_reachable sha256 sample_run s \<and> returned_output s \<noteq> None \<and> length (journal_calls s) \<le> 1"
proof -
  obtain s out ev where s: "op_reachable sha256 sample_run s" "returned_output s = Some (out, ev)"
    using sample_returned by (elim exE conjE)
  from observers_after_journal [OF s(1)] s show ?thesis by blast
qed

text \<open>A late receipt: the inspector goes on after the deadline.\<close>

lemma late_step:
  assumes "op_reachable H r s" "op_phase s = Inspecting (e # es) res" "race_won s = None"
  shows "\<exists>t u. op_reachable H r t \<and> returned_output t = Some (deadline_error, Some AI_DEADLINE_EXCEEDED) \<and> op_step H t u"
proof -
  have "returned_output s = None" using reachable_op_inv [OF assms(1)] assms(3) by (auto simp: op_inv_def)
  with op_reachable.step [OF op_reachable.step [OF assms(1) op_step.expire [OF assms(3)]] op_step.close, of deadline_error]
  have t: "op_reachable H r (s\<lparr>race_won := Some deadline_error, op_gate := gate_close (op_gate s),
      returned_output := Some (deadline_error, Some AI_DEADLINE_EXCEEDED)\<rparr>)"
    by (simp add: registration_event_def isFixedDeadlineExceededOutput_def)
  show ?thesis by (intro exI conjI, rule t, simp, rule op_step.effect) (use assms(2) in simp)
qed

theorem silent_after_return_witness:
  "\<exists>t u. op_step sha256 t u \<and> returned_output t = Some (deadline_error, Some AI_DEADLINE_EXCEEDED) \<and> released u = released t"
proof -
  let ?r = "(Inr internal_error, [E_resolve \<lparr>principalRef = [], inspectorClientRef = [], capabilityRef = [], verifierAudience = [],
      policyVersion = [], inspectorDeploymentGitCoordinate = [], requestCorrelationId = None\<rparr> []])"
  obtain t u where tu: "op_reachable sha256 ?r t" "returned_output t = Some (deadline_error, Some AI_DEADLINE_EXCEEDED)" "op_step sha256 t u"
    using late_step [OF op_reachable.start, where r = ?r and H = sha256] by (auto simp: op_start_def)
  have "(op_step sha256)\<^sup>*\<^sup>* t u" using tu(3) by blast
  from silent_after_return [OF tu(1) _ this] tu show ?thesis by (intro exI [of _ t] exI [of _ u]) simp
qed

theorem operation_returns_witness:
  "\<exists>s. (op_step sha256 ^^ 1) (op_start (Inl (), [])) s \<and> 1 \<le> length ([] :: effect list) + 4"
proof -
  have "op_step sha256 (op_start (Inl (), [])) ((op_start (Inl (), []))\<lparr>op_phase := Settled internal_error\<rparr>)"
    by (rule op_step.throw) (simp add: op_start_def)
  then have "(op_step sha256 ^^ 1) (op_start (Inl (), [])) ((op_start (Inl (), []))\<lparr>op_phase := Settled internal_error\<rparr>)"
    by (simp only: relpowp_1)
  from this operation_returns [OF this] show ?thesis by auto
qed

end
