(* ===== verification/Artifact_Registration.thy ===== *)
theory Artifact_Registration
  imports Gate_Properties
begin

text \<open>
  The rest of \<open>packages/server/src/artifact-mcp-registration.ts\<close>: the closure manifest and its exact comparison, the
  trusted part of the configuration, the correlation reference of a request, and the registration of the five tools.
\<close>

section \<open>The closure manifest\<close>

definition manifest_operation :: "string \<Rightarrow> string \<Rightarrow> jsval" where
  "manifest_operation name reads = obj [(''name'', VStr (js name)), (''byteReadClass'', VStr (js reads))]"

definition ARTIFACT_STORAGE_CLOSURE_MANIFEST :: jsval where
  "ARTIFACT_STORAGE_CLOSURE_MANIFEST =
     obj [(''version'', VStr (js ''artifact-storage-closure/0.2'')),
       (''plane'', VStr (js ''Supabase Storage byte custody'')),
       (''authorization'',
         obj [(''resolver'', VStr (js ''injected resolveAuthorizedArtifact'')),
           (''principal'', VStr (js ''verified principal'')),
           (''inspectorClient'', VStr (js ''approved inspector client'')),
           (''capabilityGrant'', VStr (js ''approved artifact:inspect capability grant'')),
           (''currentPolicyEvaluation'', VStr (js ''required for every call'')),
           (''historicalReceipts'', VStr (js ''evidence, not authorization''))]),
       (''resolution'',
         obj [(''input'', VStr (js ''opaque artifact ID only'')),
           (''internalLocator'', VStr (js ''adapter-only, never tool input/output/receipt/event''))]),
       (''byteRead'',
         obj [(''dependency'', VStr (js ''injected exact-version readVersionedRange only'')),
           (''versionBinding'', VStr (js ''immutable objectVersionRef equality'')),
           (''integrity'', VStr (js ''S1b source/raw chunk/domain-separated leaf/Merkle verification''))]),
       (''operations'',
         VArr [manifest_operation ''artifact_stat'' ''zero byte reads'',
           manifest_operation ''artifact_read_range'' ''one bounded covering read'',
           manifest_operation ''artifact_read_lines'' ''one bounded complete-source read'',
           manifest_operation ''artifact_read_heading'' ''one bounded complete-source read'',
           manifest_operation ''artifact_search_exact'' ''one bounded complete-source read'']),
       (''retries'', num 0),
       (''artifactDataWrites'', VStr (js ''none'')),
       (''operationalEvidenceWrites'', VStr (js ''acknowledged append-only inspection receipts'')),
       (''receiptJournal'',
         obj [(''profile'', VStr (js ''artifact-receipt-journal/0.1'')),
           (''acknowledgement'', VStr (js ''required before every source-bound MCP return'')),
           (''unavailableWithoutSourceReceipt'', VStr (js ''no append'')),
           (''role'', VStr (js ''evidence, not authorization'')),
           (''currentPolicyEvaluation'', VStr (js ''required for every call''))]),
       (''directListingEnumeration'', VStr (js ''none'')),
       (''signedUrls'', VStr (js ''none'')),
       (''privilegedCredentials'', VStr (js ''prohibited, including service_role'')),
       (''unregisteredOperations'',
         VArr [VStr (js ''artifact_ingest''), VStr (js ''artifact_semantic_analysis''), VStr (js ''artifact_write'')])]"

text \<open>
  The walk over the expected value. \<open>Object.is\<close> on primitive values is equality here; an array and a record never
  match each other, and the keys of a record match in any order.
\<close>

fun exactlyMatchesManifest :: "jsval \<Rightarrow> jsval \<Rightarrow> bool"
  and matches_entries :: "jsval list \<Rightarrow> jsval list \<Rightarrow> bool"
  and matches_members :: "(jsstring \<times> jsval) list \<Rightarrow> (jsstring \<times> jsval) list \<Rightarrow> bool" where
  "exactlyMatchesManifest (VArr es) cand =
     (case cand of VArr cs \<Rightarrow> length cs = length es \<and> matches_entries es cs | _ \<Rightarrow> False)"
| "exactlyMatchesManifest (VObj fs) cand =
     (case cand of VObj gs \<Rightarrow> length gs = length fs \<and> matches_members fs gs | _ \<Rightarrow> False)"
| "exactlyMatchesManifest expected cand = (cand = expected)"
| "matches_entries (e # es) cs = (exactlyMatchesManifest e (case cs of [] \<Rightarrow> VUndef | c # _ \<Rightarrow> c) \<and> matches_entries es (drop 1 cs))"
| "matches_entries [] cs = True"
| "matches_members ((k, e) # fs) gs = (k \<in> fst ` set gs \<and> exactlyMatchesManifest e (getp gs k) \<and> matches_members fs gs)"
| "matches_members [] gs = True"

text \<open>\<open>None\<close>: a \<open>TypeError\<close>.\<close>

definition assertArtifactStorageClosureManifest :: "jsval \<Rightarrow> unit option" where
  "assertArtifactStorageClosureManifest cand =
     (if exactlyMatchesManifest ARTIFACT_STORAGE_CLOSURE_MANIFEST cand then Some () else None)"

definition assertArtifactTransportLimits :: "unit option" where
  "assertArtifactTransportLimits =
     (if MAX_ARTIFACT_RESPONSE_BYTES \<noteq> MAX_RESPONSE_BYTES \<or> MAX_ARTIFACT_REQUEST_ID_BYTES \<noteq> MAX_REQUEST_ID_BYTES then None
      else Some ())"

section \<open>Requests and their contexts\<close>

text \<open>The trusted part of a configuration: the fields handed to \<open>createArtifactInspectorTrustedContext\<close>.\<close>

record registration_config =
  cfg_inspectorClientRef :: jsval
  cfg_inspectorCapabilityRef :: jsval
  cfg_verifierAudience :: jsval
  cfg_policyVersion :: jsval
  cfg_inspectorDeploymentGitCoordinate :: jsval

definition context_input :: "jsstring \<Rightarrow> registration_config \<Rightarrow> (string \<times> jsval) list \<Rightarrow> jsval" where
  "context_input owner c extra =
     obj ([(''principalRef'', VStr owner), (''inspectorClientRef'', cfg_inspectorClientRef c),
       (''inspectorCapabilityRef'', cfg_inspectorCapabilityRef c), (''verifierAudience'', cfg_verifierAudience c),
       (''policyVersion'', cfg_policyVersion c),
       (''inspectorDeploymentGitCoordinate'', cfg_inspectorDeploymentGitCoordinate c)] @ extra)"

definition capability_val :: "jsstring \<Rightarrow> jsval" where
  "capability_val r = obj [(''capability'', VStr (js ''artifact:inspect'')), (''ref'', VStr r)]"

definition validateConfig_context :: "jsstring \<Rightarrow> registration_config \<Rightarrow> registration_config option" where
  "validateConfig_context owner raw =
     (case ArtifactInspectorTrustedContextSchema (context_input owner raw []) of
        None \<Rightarrow> None
      | Some ctx \<Rightarrow>
          if inspectorClientRef ctx = capabilityRef ctx then None
          else Some \<lparr>cfg_inspectorClientRef = VStr (inspectorClientRef ctx), cfg_inspectorCapabilityRef = capability_val (capabilityRef ctx),
                     cfg_verifierAudience = VStr (verifierAudience ctx), cfg_policyVersion = VStr (policyVersion ctx),
                     cfg_inspectorDeploymentGitCoordinate = VStr (inspectorDeploymentGitCoordinate ctx)\<rparr>)"

definition createArtifactRequestCorrelationRef :: "hashfn \<Rightarrow> request_id \<Rightarrow> jsstring" where
  "createArtifactRequestCorrelationRef H requestId = js ''mcp_req:'' @ hex (H (text_encode (stringify (id_val requestId))))"

text \<open>The context of one request; \<open>None\<close> is the exception of the parser.\<close>

definition trustedContext :: "hashfn \<Rightarrow> jsstring \<Rightarrow> registration_config \<Rightarrow> request_id \<Rightarrow> trusted_context option" where
  "trustedContext H owner config requestId =
     ArtifactInspectorTrustedContextSchema
       (context_input owner config [(''requestCorrelationId'', VStr (createArtifactRequestCorrelationRef H requestId))])"

section \<open>Registration\<close>

text \<open>A tool as the server gets it; its callback is that of \<open>tool_operation\<close>, \<open>tool_callback\<close> below.\<close>

record registered_tool =
  tool_name :: jsstring
  tool_title :: string
  tool_description :: string
  tool_operation :: inspection_operation

text \<open>The \<open>switch\<close> on the name; a name without a case registers nothing.\<close>

definition tool_of :: "jsstring \<Rightarrow> registered_tool option" where
  "tool_of name =
     (if name = js ''artifact_stat'' then
        Some \<lparr>tool_name = name, tool_title = ''Inspect artifact metadata'',
              tool_description = ''Returns bounded integrity metadata for one authorized opaque artifact.'',
              tool_operation = artifact_stat\<rparr>
      else if name = js ''artifact_read_range'' then
        Some \<lparr>tool_name = name, tool_title = ''Read an artifact byte range'',
              tool_description = ''Returns one bounded UTF-8 range after exact-version chunk and Merkle verification.'',
              tool_operation = artifact_read_range\<rparr>
      else if name = js ''artifact_read_lines'' then
        Some \<lparr>tool_name = name, tool_title = ''Read artifact lines'',
              tool_description = ''Returns bounded UTF-8 lines after exact-version complete-source verification.'',
              tool_operation = artifact_read_lines\<rparr>
      else if name = js ''artifact_read_heading'' then
        Some \<lparr>tool_name = name, tool_title = ''Read an artifact heading'',
              tool_description = ''Returns one exact Markdown ATX heading line after exact-version complete-source verification.'',
              tool_operation = artifact_read_heading\<rparr>
      else if name = js ''artifact_search_exact'' then
        Some \<lparr>tool_name = name, tool_title = ''Search exact artifact bytes'',
              tool_description = ''Returns bounded case-sensitive exact UTF-8 matches after complete-source verification.'',
              tool_operation = artifact_search_exact\<rparr>
      else None)"

text \<open>The names registered so far, and the tools of the server; \<open>False\<close> is a \<open>TypeError\<close> thrown half-way.\<close>

record tool_registration =
  registeredOperations :: "jsstring list"
  server_tools :: "registered_tool list"

definition add_tool :: "jsstring \<Rightarrow> tool_registration \<Rightarrow> tool_registration" where
  "add_tool name g =
     (case tool_of name of
        None \<Rightarrow> g
      | Some t \<Rightarrow> \<lparr>registeredOperations = registeredOperations g @ [name], server_tools = server_tools g @ [t]\<rparr>)"

fun register_loop :: "jsstring list \<Rightarrow> tool_registration \<Rightarrow> tool_registration \<times> bool" where
  "register_loop [] g = (g, True)"
| "register_loop (name # names) g =
     (if name \<in> set (registeredOperations g) then (g, False) else register_loop names (add_tool name g))"

definition manifest_operations :: "jsval \<Rightarrow> jsstring list" where
  "manifest_operations m =
     (case m of
        VObj fs \<Rightarrow>
          (case getp fs (js ''operations'') of
             VArr ops \<Rightarrow> map (\<lambda>v. case v of VObj gs \<Rightarrow> (case getp gs (js ''name'') of VStr s \<Rightarrow> s | _ \<Rightarrow> []) | _ \<Rightarrow> []) ops
           | _ \<Rightarrow> [])
      | _ \<Rightarrow> [])"

definition register :: "tool_registration \<Rightarrow> tool_registration \<times> bool" where
  "register g =
     (case register_loop (manifest_operations ARTIFACT_STORAGE_CLOSURE_MANIFEST) g of
        (g', ok) \<Rightarrow>
          (g', ok \<and> stringify (VArr (map VStr (sort (registeredOperations g')))) =
                    stringify (VArr (map VStr (sort (manifest_operations ARTIFACT_STORAGE_CLOSURE_MANIFEST))))))"

text \<open>The frozen context as the inspector gets it.\<close>

definition context_val :: "trusted_context \<Rightarrow> jsval" where
  "context_val c =
     obj ([(''principalRef'', VStr (principalRef c)), (''inspectorClientRef'', VStr (inspectorClientRef c)),
       (''inspectorCapabilityRef'', capability_val (capabilityRef c)), (''verifierAudience'', VStr (verifierAudience c)),
       (''policyVersion'', VStr (policyVersion c)),
       (''inspectorDeploymentGitCoordinate'', VStr (inspectorDeploymentGitCoordinate c))] @
       (case requestCorrelationId c of None \<Rightarrow> [] | Some r \<Rightarrow> [(''requestCorrelationId'', VStr r)]))"

text \<open>
  What a call of a registered tool can answer: the result of an execution of its operation, under the context of the
  request. \<open>receiptJournal\<close> and the deadline are in the steps of the execution. A context that cannot be created is an
  exception of the callback.
\<close>

inductive tool_answers ::
    "hashfn \<Rightarrow> strfn \<Rightarrow> strfn \<Rightarrow> dependencies \<Rightarrow> jsstring \<Rightarrow> registration_config \<Rightarrow> registered_tool \<Rightarrow> request_id \<Rightarrow> jsval \<Rightarrow>
     inspection_output \<Rightarrow> jsval \<Rightarrow> bool" for H nfc lower deps owner config t requestId rawInput where
  "trustedContext H owner config requestId = Some ctx \<Longrightarrow>
   op_reachable H (inspect H nfc lower deps (tool_operation t) (context_val ctx) rawInput) s \<Longrightarrow>
   returned_output s = Some (out, ev) \<Longrightarrow>
   tool_answers H nfc lower deps owner config t requestId rawInput out (createArtifactInspectionMcpResult (output_val out))"

section \<open>Properties\<close>

text \<open>Plain data whose records have no key twice match themselves.\<close>

fun distinct_keys :: "jsval \<Rightarrow> bool" where
  "distinct_keys (VArr xs) = list_all distinct_keys xs"
| "distinct_keys (VObj fs) = (distinct (map fst fs) \<and> list_all (distinct_keys \<circ> snd) fs)"
| "distinct_keys v = True"

lemma entries_iff: "length cs = length es \<Longrightarrow> matches_entries es cs \<longleftrightarrow> list_all2 exactlyMatchesManifest es cs"
proof (induction es arbitrary: cs)
  case (Cons e es)
  then show ?case by (cases cs) auto
qed simp

lemma members_iff:
  "matches_members fs gs \<longleftrightarrow> (\<forall>(k, e) \<in> set fs. k \<in> fst ` set gs \<and> exactlyMatchesManifest e (getp gs k))"
proof (induction fs)
  case (Cons a fs)
  then show ?case by (cases a) simp
qed simp

lemma matches_self: "distinct_keys v \<Longrightarrow> exactlyMatchesManifest v v"
proof (induction v)
  case (VArr xs)
  then have "list_all2 exactlyMatchesManifest xs xs" by (intro list.rel_refl_strong) (auto simp: list_all_iff)
  then show ?case by (simp add: entries_iff)
next
  case (VObj fs)
  have "k \<in> fst ` set fs \<and> exactlyMatchesManifest e (getp fs k)" if "(k, e) \<in> set fs" for k e
  proof -
    have "getp fs k = e" using that VObj.prems by (simp add: getp_def)
    moreover have "exactlyMatchesManifest e e" using VObj.IH [OF that] VObj.prems that by (auto simp: list_all_iff)
    ultimately show ?thesis using that by force
  qed
  then show ?case by (auto simp: members_iff)
qed simp_all

lemma manifest_accepted: "assertArtifactStorageClosureManifest ARTIFACT_STORAGE_CLOSURE_MANIFEST = Some ()"
proof -
  have "distinct_keys ARTIFACT_STORAGE_CLOSURE_MANIFEST"
    by (simp add: ARTIFACT_STORAGE_CLOSURE_MANIFEST_def manifest_operation_def obj_def num_def)
  then show ?thesis by (simp add: assertArtifactStorageClosureManifest_def matches_self)
qed

lemma correlation_ref:
  assumes "length (H (text_encode (stringify (id_val requestId)))) = 32"
  shows "AuthorizationIdentifier (createArtifactRequestCorrelationRef H requestId)"
proof -
  let ?d = "hex (H (text_encode (stringify (id_val requestId))))"
  have "list_all (\<lambda>v. alnum v \<or> v \<in> set (js ''._:-'')) ?d"
    using hex_lower [of "H (text_encode (stringify (id_val requestId)))"]
    by (auto simp: list_all_iff lower_hex_def alnum_def)
  moreover have "list_all (\<lambda>v. alnum v \<or> v \<in> set (js ''._:-'')) (js ''cp_req:'')" "alnum (hd (js ''m''))" by code_simp+
  moreover have "createArtifactRequestCorrelationRef H requestId = hd (js ''m'') # js ''cp_req:'' @ ?d"
    by (simp add: createArtifactRequestCorrelationRef_def js_def)
  moreover have "length (js ''cp_req:'' @ ?d) \<le> 127" using assms by (simp add: js_def)
  ultimately show ?thesis unfolding AuthorizationIdentifier_def by (simp only: list.case list.sel list_all_append simp_thms)
qed

lemma tool_can_answer:
  assumes "trustedContext sha256 owner config requestId = Some ctx"
  shows "\<exists>out. fst (inspect sha256 nfc lower deps (tool_operation t) (context_val ctx) rawInput) = Inr out \<and>
    tool_answers sha256 nfc lower deps owner config t requestId rawInput out (createArtifactInspectionMcpResult (output_val out))"
proof -
  let ?run = "inspect sha256 nfc lower deps (tool_operation t) (context_val ctx) rawInput"
  obtain out effects where run: "?run = (Inr out, effects)"
    using inspect_shape [of nfc lower deps "tool_operation t" "context_val ctx" rawInput] by blast
  then obtain s where "op_reachable sha256 ?run s" "returned_output s = Some (out, registration_event out False)"
    using evidence_reachable [OF run] by auto
  then show ?thesis using run tool_answers.intros [OF assms] by auto
qed

definition context_fields_ok :: "trusted_context \<Rightarrow> bool" where
  "context_fields_ok c \<longleftrightarrow>
     AuthorizationIdentifier (principalRef c) \<and> AuthorizationIdentifier (inspectorClientRef c) \<and>
     AuthorizationIdentifier (capabilityRef c) \<and> AuthorizationIdentifier (verifierAudience c) \<and>
     BoundedVersionString (policyVersion c) \<and> GitCommitCoordinate (inspectorDeploymentGitCoordinate c) \<and>
     pred_option AuthorizationIdentifier (requestCorrelationId c)"

lemma identifier_Some: "AuthorizationIdentifierSchema v = Some s \<longleftrightarrow> v = VStr s \<and> AuthorizationIdentifier s"
  by (cases v) (auto simp: AuthorizationIdentifierSchema_def z_refine_def)

lemma identifier_val: "AuthorizationIdentifier s \<Longrightarrow> AuthorizationIdentifierSchema (VStr s) = Some s"
  by (simp add: identifier_Some)

lemma optional_identifier:
  "z_optional AuthorizationIdentifierSchema v = Some x \<Longrightarrow> pred_option AuthorizationIdentifier x"
  by (cases v) (auto simp: z_optional_def identifier_Some)

lemma context_schema_Some:
  assumes "ArtifactInspectorTrustedContextSchema v = Some c"
  shows "context_fields_ok c"
proof -
  from assms obtain f g where
    "AuthorizationIdentifierSchema (f ''principalRef'') = Some (principalRef c)"
    "AuthorizationIdentifierSchema (f ''inspectorClientRef'') = Some (inspectorClientRef c)"
    "AuthorizationIdentifierSchema (g ''ref'') = Some (capabilityRef c)"
    "AuthorizationIdentifierSchema (f ''verifierAudience'') = Some (verifierAudience c)"
    "z_refine BoundedVersionString z_string (f ''policyVersion'') = Some (policyVersion c)"
    "z_refine GitCommitCoordinate z_string (f ''inspectorDeploymentGitCoordinate'') = Some (inspectorDeploymentGitCoordinate c)"
    "z_optional AuthorizationIdentifierSchema (f ''requestCorrelationId'') = Some (requestCorrelationId c)"
    unfolding ArtifactInspectorTrustedContextSchema_def bind_eq_Some_conv by (elim exE conjE) fastforce
  then show ?thesis
    by (simp add: context_fields_ok_def identifier_Some z_refine_Some optional_identifier)
qed

lemma context_val_parsed:
  assumes "context_fields_ok c"
  shows "ArtifactInspectorTrustedContextSchema (context_val c) = Some c"
  using assms
  by (cases c; cases "requestCorrelationId c")
    (simp_all add: ArtifactInspectorTrustedContextSchema_def context_val_def capability_val_def z_strict_obj identifier_val
      z_enum_def z_refine_def z_optional_def context_fields_ok_def)

text \<open>
  An accepted configuration serves every request. If the configuration is accepted, the context of any
  request identifier is created, under the registered principal, with the client and the capability kept apart and the
  request's own correlation reference; the inspector validates it to itself, returns an output under it, and a call of
  the registered tool can answer that output.
\<close>

lemma context_serves:
  assumes "validateConfig_context owner raw = Some config"
  shows "\<exists>ctx. trustedContext sha256 owner config requestId = Some ctx \<and> principalRef ctx = owner \<and>
    inspectorClientRef ctx \<noteq> capabilityRef ctx \<and>
    requestCorrelationId ctx = Some (createArtifactRequestCorrelationRef sha256 requestId) \<and>
    validateRuntimeContext (context_val ctx) = Some ctx \<and>
    (\<exists>out. fst (inspect sha256 nfc lower deps (tool_operation t) (context_val ctx) rawInput) = Inr out \<and>
       tool_answers sha256 nfc lower deps owner config t requestId rawInput out (createArtifactInspectionMcpResult (output_val out)))"
proof -
  obtain c where c: "ArtifactInspectorTrustedContextSchema (context_input owner raw []) = Some c" "inspectorClientRef c \<noteq> capabilityRef c"
    "config = \<lparr>cfg_inspectorClientRef = VStr (inspectorClientRef c), cfg_inspectorCapabilityRef = capability_val (capabilityRef c),
       cfg_verifierAudience = VStr (verifierAudience c), cfg_policyVersion = VStr (policyVersion c),
       cfg_inspectorDeploymentGitCoordinate = VStr (inspectorDeploymentGitCoordinate c)\<rparr>"
    using assms by (auto simp: validateConfig_context_def split: option.splits if_splits)
  let ?r = "createArtifactRequestCorrelationRef sha256 requestId"
  let ?c = "c\<lparr>requestCorrelationId := Some ?r\<rparr>"
  have owner: "principalRef c = owner"
    using c(1) by (auto simp: ArtifactInspectorTrustedContextSchema_def context_input_def z_strict_obj bind_eq_Some_conv identifier_Some)
  have "AuthorizationIdentifier ?r" by (rule correlation_ref) simp
  then have "context_fields_ok ?c" using context_schema_Some [OF c(1)] by (simp add: context_fields_ok_def)
  then have p: "ArtifactInspectorTrustedContextSchema (context_val ?c) = Some ?c" by (rule context_val_parsed)
  moreover have "context_input owner config [(''requestCorrelationId'', VStr ?r)] = context_val ?c"
    by (simp add: context_input_def context_val_def c(3) owner)
  ultimately have t: "trustedContext sha256 owner config requestId = Some ?c" by (simp add: trustedContext_def)
  have "\<exists>out. fst (inspect sha256 nfc lower deps (tool_operation t) (context_val ?c) rawInput) = Inr out \<and>
      tool_answers sha256 nfc lower deps owner config t requestId rawInput out (createArtifactInspectionMcpResult (output_val out))"
    using t by (rule tool_can_answer)
  with t p show ?thesis using c(2) owner
    by (intro exI [of _ ?c] conjI) (simp_all add: validateRuntimeContext_def)
qed

definition sample_registration :: registration_config where
  "sample_registration =
     \<lparr>cfg_inspectorClientRef = VStr (js ''client:cli''), cfg_inspectorCapabilityRef = capability_val (js ''grant:inspect''),
      cfg_verifierAudience = VStr (js ''verifier:main''), cfg_policyVersion = VStr (js ''policy-1''),
      cfg_inspectorDeploymentGitCoordinate = VStr (js ''0123456789abcdef0123456789abcdef01234567'')\<rparr>"

lemma sample_config_accepted: "validateConfig_context (js ''user-1'') sample_registration = Some sample_registration"
  by code_simp

text \<open>
  The tools are registered once. From scratch exactly the five operations of the manifest are registered, in its order,
  and the final comparison passes; a second run throws before it registers anything.
\<close>

definition no_tools :: tool_registration where
  "no_tools = \<lparr>registeredOperations = [], server_tools = []\<rparr>"

lemma manifest_names:
  "manifest_operations ARTIFACT_STORAGE_CLOSURE_MANIFEST =
     map js [''artifact_stat'', ''artifact_read_range'', ''artifact_read_lines'', ''artifact_read_heading'', ''artifact_search_exact'']"
  by (simp add: manifest_operations_def ARTIFACT_STORAGE_CLOSURE_MANIFEST_def manifest_operation_def getp_def obj_def js_def)

lemma tools_named:
  "tool_of name = Some t \<Longrightarrow> tool_name t = name"
  "map_option tool_operation (tool_of (js ''artifact_stat'')) = Some artifact_stat"
  "map_option tool_operation (tool_of (js ''artifact_read_range'')) = Some artifact_read_range"
  "map_option tool_operation (tool_of (js ''artifact_read_lines'')) = Some artifact_read_lines"
  "map_option tool_operation (tool_of (js ''artifact_read_heading'')) = Some artifact_read_heading"
  "map_option tool_operation (tool_of (js ''artifact_search_exact'')) = Some artifact_search_exact"
  by (auto simp: tool_of_def js_def split: if_splits)

lemma register_shape:
  "snd (register no_tools)" "registeredOperations (fst (register no_tools)) = manifest_operations ARTIFACT_STORAGE_CLOSURE_MANIFEST"
  "map tool_name (server_tools (fst (register no_tools))) = manifest_operations ARTIFACT_STORAGE_CLOSURE_MANIFEST"
  "map tool_operation (server_tools (fst (register no_tools))) =
     [artifact_stat, artifact_read_range, artifact_read_lines, artifact_read_heading, artifact_search_exact]"
  unfolding manifest_names register_def no_tools_def by (simp_all add: add_tool_def tool_of_def js_def)

lemma register_again: "js ''artifact_stat'' \<in> set (registeredOperations g) \<Longrightarrow> register g = (g, False)"
  by (simp add: register_def manifest_names)

lemma registers_once:
  "snd (register no_tools) \<and>
   map tool_name (server_tools (fst (register no_tools))) = manifest_operations ARTIFACT_STORAGE_CLOSURE_MANIFEST \<and>
   map tool_operation (server_tools (fst (register no_tools))) =
     [artifact_stat, artifact_read_range, artifact_read_lines, artifact_read_heading, artifact_search_exact] \<and>
   register (fst (register no_tools)) = (fst (register no_tools), False)"
  using register_shape register_again [of "fst (register no_tools)"] by (simp add: manifest_names)

end
