(* ===== verification/Registration_Config.thy ===== *)
theory Registration_Config
  imports Artifact_Registration
begin

text \<open>
  The configuration of \<open>packages/server/src/artifact-mcp-registration.ts\<close> as the caller hands it in, with the functions
  it injects, and the preparation of a registration from it. Also the events the registration itself emits.
\<close>

section \<open>Objects with functions\<close>

text \<open>
  A value of the configuration: a function, an object that is no array with its own properties (string or symbol keys),
  or any other value.
\<close>

datatype config_value = C_function | C_object "(property_key \<times> config_value) list" | C_data jsval

definition config_get :: "(property_key \<times> config_value) list \<Rightarrow> string \<Rightarrow> config_value" where
  "config_get ps k = (case map_of ps (K_str (js k)) of None \<Rightarrow> C_data VUndef | Some v \<Rightarrow> v)"

text \<open>The value a schema sees: functions are of no type it knows, symbol keys are invisible to it.\<close>

fun as_jsval :: "config_value \<Rightarrow> jsval" where
  "as_jsval C_function = VOther"
| "as_jsval (C_data v) = v"
| "as_jsval (C_object ps) =
     VObj (concat (map (\<lambda>(k, v). case k of K_str s \<Rightarrow> [(s, as_jsval v)] | K_sym _ \<Rightarrow> []) ps))"

definition ARTIFACT_REGISTRATION_CONFIG_KEYS :: "string list" where
  "ARTIFACT_REGISTRATION_CONFIG_KEYS =
     [''dependencies'', ''receiptJournal'', ''inspectorClientRef'', ''inspectorCapabilityRef'', ''verifierAudience'', ''policyVersion'',
      ''inspectorDeploymentGitCoordinate'']"

definition ARTIFACT_DEPENDENCY_KEYS :: "string list" where
  "ARTIFACT_DEPENDENCY_KEYS =
     [''resolveAuthorizedArtifact'', ''readVersionedRange'', ''now'', ''emitOperationalEvent'', ''emitInspectionReceipt'']"

definition allowed_key :: "string list \<Rightarrow> property_key \<Rightarrow> bool" where
  "allowed_key allowed k = (case k of K_str s \<Rightarrow> s \<in> set (map js allowed) | K_sym _ \<Rightarrow> False)"

definition hasExactOwnKeys :: "(property_key \<times> config_value) list \<Rightarrow> string list \<Rightarrow> bool" where
  "hasExactOwnKeys ps allowed \<longleftrightarrow> length (map fst ps) = length allowed \<and> list_all (allowed_key allowed) (map fst ps)"

text \<open>What is kept of the dependencies: which of the two observers there are.\<close>

record injected =
  has_event_observer :: bool
  has_receipt_observer :: bool

definition optional_function :: "config_value \<Rightarrow> bool" where
  "optional_function v \<longleftrightarrow> v = C_data VUndef \<or> v = C_function"

text \<open>\<open>None\<close>: a \<open>TypeError\<close>.\<close>

definition validateDependencies :: "config_value \<Rightarrow> injected option" where
  "validateDependencies raw =
     (case raw of
        C_object ps \<Rightarrow>
          if list_ex (\<lambda>k. \<not> allowed_key ARTIFACT_DEPENDENCY_KEYS k) (map fst ps) then None
          else if config_get ps ''resolveAuthorizedArtifact'' \<noteq> C_function \<or> config_get ps ''readVersionedRange'' \<noteq> C_function \<or>
                  config_get ps ''now'' \<noteq> C_function \<or> \<not> optional_function (config_get ps ''emitOperationalEvent'') \<or>
                  \<not> optional_function (config_get ps ''emitInspectionReceipt'')
               then None
          else Some \<lparr>has_event_observer = (config_get ps ''emitOperationalEvent'' = C_function),
                     has_receipt_observer = (config_get ps ''emitInspectionReceipt'' = C_function)\<rparr>
      | _ \<Rightarrow> None)"

definition validateReceiptJournal :: "config_value \<Rightarrow> unit option" where
  "validateReceiptJournal raw =
     (case raw of
        C_object ps \<Rightarrow> if \<not> hasExactOwnKeys ps [''append''] \<or> config_get ps ''append'' \<noteq> C_function then None else Some ()
      | _ \<Rightarrow> None)"

definition validateConfig :: "config_value \<Rightarrow> jsstring \<Rightarrow> (injected \<times> registration_config) option" where
  "validateConfig raw owner =
     (case raw of
        C_object ps \<Rightarrow>
          if \<not> hasExactOwnKeys ps ARTIFACT_REGISTRATION_CONFIG_KEYS then None
          else
            do {
              deps \<leftarrow> validateDependencies (config_get ps ''dependencies'');
              _ \<leftarrow> validateReceiptJournal (config_get ps ''receiptJournal'');
              config \<leftarrow> validateConfig_context owner
                \<lparr>cfg_inspectorClientRef = as_jsval (config_get ps ''inspectorClientRef''),
                 cfg_inspectorCapabilityRef = as_jsval (config_get ps ''inspectorCapabilityRef''),
                 cfg_verifierAudience = as_jsval (config_get ps ''verifierAudience''),
                 cfg_policyVersion = as_jsval (config_get ps ''policyVersion''),
                 cfg_inspectorDeploymentGitCoordinate = as_jsval (config_get ps ''inspectorDeploymentGitCoordinate'')\<rparr>;
              Some (deps, config)
            }
      | _ \<Rightarrow> None)"

text \<open>A prepared registration: what its closures keep, with no tool registered yet.\<close>

record prepared_registration =
  pr_owner :: jsstring
  pr_injected :: injected
  pr_config :: registration_config
  pr_registered :: tool_registration

definition prepareArtifactMcpRegistration :: "config_value \<Rightarrow> jsstring \<Rightarrow> prepared_registration option" where
  "prepareArtifactMcpRegistration rawConfig owner =
     do {
       _ \<leftarrow> assertArtifactTransportLimits;
       _ \<leftarrow> assertArtifactStorageClosureManifest ARTIFACT_STORAGE_CLOSURE_MANIFEST;
       (deps, config) \<leftarrow> validateConfig rawConfig owner;
       Some \<lparr>pr_owner = owner, pr_injected = deps, pr_config = config, pr_registered = no_tools\<rparr>
     }"

section \<open>The events of the registration\<close>

text \<open>\<open>Math.max(0, x)\<close> and \<open>Math.min(limit, x)\<close> on finite numbers.\<close>

fun at_least_zero :: "jsnum \<Rightarrow> jsnum" where
  "at_least_zero (JInt k) = JInt (max 0 k)"
| "at_least_zero (JFrac f t) = (if f < 0 then JInt 0 else JFrac f t)"
| "at_least_zero x = x"

fun at_most :: "int \<Rightarrow> jsnum \<Rightarrow> jsnum" where
  "at_most n (JInt k) = JInt (min n k)"
| "at_most n (JFrac f t) = (if n \<le> f then JInt n else JFrac f t)"
| "at_most n x = x"

definition registration_elapsed :: "inspection_error \<Rightarrow> jsnum \<Rightarrow> jsnum" where
  "registration_elapsed class measuredElapsedMs =
     (if \<not> isFinite measuredElapsedMs then JInt 0
      else if class = AI_DEADLINE_EXCEEDED then at_most MAX_ARTIFACT_TOOL_EXECUTION_MS (at_least_zero measuredElapsedMs)
      else at_least_zero measuredElapsedMs)"

text \<open>The event with its elapsed time; nothing is emitted when there is no observer.\<close>

definition emitRegistrationEvent ::
    "injected \<Rightarrow> inspection_operation \<Rightarrow> trusted_context \<Rightarrow> jsnum \<Rightarrow> inspection_error \<Rightarrow> (inspector_event \<times> jsnum) option" where
  "emitRegistrationEvent deps operation ctx measuredElapsedMs class =
     (if has_event_observer deps then
        Some (\<lparr>e_operation = operation, resultClass = Some class, e_correlationId = requestCorrelationId ctx, byteCounts = no_counts\<rparr>,
              registration_elapsed class measuredElapsedMs)
      else None)"

lemma deadline_elapsed_bounded:
  "\<exists>x. registration_elapsed AI_DEADLINE_EXCEEDED m = x \<and> isFinite x \<and> \<not> num_lt x 0 \<and> \<not> num_gt x MAX_ARTIFACT_TOOL_EXECUTION_MS"
  by (cases m) (auto simp: registration_elapsed_def limits)

section \<open>What a preparation gives\<close>

lemma prepared:
  "prepareArtifactMcpRegistration raw owner = Some p \<longleftrightarrow>
     (\<exists>deps config. validateConfig raw owner = Some (deps, config) \<and>
        p = \<lparr>pr_owner = owner, pr_injected = deps, pr_config = config, pr_registered = no_tools\<rparr>)"
proof -
  have "assertArtifactTransportLimits = Some ()" by (simp add: assertArtifactTransportLimits_def limits)
  then show ?thesis by (auto simp: prepareArtifactMcpRegistration_def manifest_accepted bind_eq_Some_conv)
qed

lemma config_context:
  "validateConfig raw owner = Some (deps, config) \<Longrightarrow> \<exists>c. validateConfig_context owner c = Some config"
  by (auto simp: validateConfig_def bind_eq_Some_conv split: config_value.splits if_splits)

text \<open>
  C39. Functional: a prepared registration serves every request. If the configuration is accepted, no tool is registered
  yet, and registering adds the five tools; the context of any request identifier is created, under the registered
  principal, with the client and the capability kept apart and the request's own correlation reference; the inspector
  validates it to itself, returns an output under it, and a call of any registered tool can answer that output.
\<close>

theorem prepared_serves_requests:
  assumes "prepareArtifactMcpRegistration raw owner = Some p"
  shows "snd (register (pr_registered p)) \<and> length (server_tools (fst (register (pr_registered p)))) = 5 \<and>
    (\<exists>ctx. trustedContext sha256 owner (pr_config p) requestId = Some ctx \<and> principalRef ctx = owner \<and>
      inspectorClientRef ctx \<noteq> capabilityRef ctx \<and>
      requestCorrelationId ctx = Some (createArtifactRequestCorrelationRef sha256 requestId) \<and>
      validateRuntimeContext (context_val ctx) = Some ctx \<and>
      (\<exists>out. fst (inspect sha256 nfc lower deps (tool_operation t) (context_val ctx) rawInput) = Inr out \<and>
         tool_answers sha256 nfc lower deps owner (pr_config p) t requestId rawInput out
           (createArtifactInspectionMcpResult (output_val out))))"
proof -
  obtain injected config where c: "validateConfig raw owner = Some (injected, config)" "pr_config p = config" "pr_registered p = no_tools"
    using assms by (auto simp: prepared)
  obtain raw' where "validateConfig_context owner raw' = Some config" using config_context [OF c(1)] by blast
  note serves = context_serves [OF this, of requestId nfc lower deps t rawInput]
  have "length (server_tools (fst (register no_tools))) = 5" using arg_cong [OF register_shape(4), of length] by simp
  with serves register_shape(1) show ?thesis unfolding c by blast
qed

definition sample_raw_config :: config_value where
  "sample_raw_config =
     C_object (map (\<lambda>(k, v). (K_str (js k), v))
       [(''dependencies'', C_object (map (\<lambda>k. (K_str (js k), C_function)) [''resolveAuthorizedArtifact'', ''readVersionedRange'', ''now''])),
        (''receiptJournal'', C_object [(K_str (js ''append''), C_function)]),
        (''inspectorClientRef'', C_data (VStr (js ''client:cli''))),
        (''inspectorCapabilityRef'', C_data (capability_val (js ''grant:inspect''))),
        (''verifierAudience'', C_data (VStr (js ''verifier:main''))),
        (''policyVersion'', C_data (VStr (js ''policy-1''))),
        (''inspectorDeploymentGitCoordinate'', C_data (VStr (js ''0123456789abcdef0123456789abcdef01234567'')))])"

lemma sample_prepared:
  "prepareArtifactMcpRegistration sample_raw_config (js ''user-1'') =
     Some \<lparr>pr_owner = js ''user-1'', pr_injected = \<lparr>has_event_observer = False, has_receipt_observer = False\<rparr>,
           pr_config = sample_registration, pr_registered = no_tools\<rparr>"
proof -
  have "hasExactOwnKeys (map (\<lambda>(k, v). (K_str (js k), v))
       [(''dependencies'', C_object (map (\<lambda>k. (K_str (js k), C_function)) [''resolveAuthorizedArtifact'', ''readVersionedRange'', ''now''])),
        (''receiptJournal'', C_object [(K_str (js ''append''), C_function)]),
        (''inspectorClientRef'', C_data (VStr (js ''client:cli''))),
        (''inspectorCapabilityRef'', C_data (capability_val (js ''grant:inspect''))),
        (''verifierAudience'', C_data (VStr (js ''verifier:main''))),
        (''policyVersion'', C_data (VStr (js ''policy-1''))),
        (''inspectorDeploymentGitCoordinate'', C_data (VStr (js ''0123456789abcdef0123456789abcdef01234567'')))]) ARTIFACT_REGISTRATION_CONFIG_KEYS"
    by (simp add: hasExactOwnKeys_def allowed_key_def ARTIFACT_REGISTRATION_CONFIG_KEYS_def js_def)
  moreover have "validateDependencies (C_object (map (\<lambda>k. (K_str (js k), C_function)) [''resolveAuthorizedArtifact'', ''readVersionedRange'', ''now''])) =
      Some \<lparr>has_event_observer = False, has_receipt_observer = False\<rparr>"
    by (simp add: validateDependencies_def allowed_key_def ARTIFACT_DEPENDENCY_KEYS_def config_get_def optional_function_def js_def)
  moreover have "validateReceiptJournal (C_object [(K_str (js ''append''), C_function)]) = Some ()" by code_simp
  ultimately have "validateConfig sample_raw_config (js ''user-1'') = Some (\<lparr>has_event_observer = False, has_receipt_observer = False\<rparr>, sample_registration)"
    using sample_config_accepted by (simp add: validateConfig_def sample_raw_config_def config_get_def js_def sample_registration_def)
  then show ?thesis by (simp add: prepared)
qed

theorem prepared_serves_requests_witness:
  "\<exists>ctx. trustedContext sha256 (js ''user-1'') sample_registration (IdNumber (JInt 7)) = Some ctx \<and> principalRef ctx = js ''user-1''"
  using prepared_serves_requests [OF sample_prepared, of "IdNumber (JInt 7)" id id "store_of sample_record sample_text"] by auto

end
