(* ===== verification/Memory_Schemas.thy ===== *)
theory Memory_Schemas
  imports Zod_Objects
begin

text \<open>
  The schemas of the memory tools in \<open>packages/contracts/src/read-tools.ts\<close>: what a caller may ask, what a
  tool may answer, and the objects of both. A schema returns the parsed request or answer; its object is
  parsed to itself exactly when it satisfies the checks.
\<close>

section \<open>Ceilings and identifiers\<close>

definition MAX_QUERY_LENGTH :: nat where [limits]: "MAX_QUERY_LENGTH = 512"
definition MAX_FILTERS :: nat where [limits]: "MAX_FILTERS = 5"
definition MAX_SEARCH_ROWS :: nat where [limits]: "MAX_SEARCH_ROWS = 20"
definition MAX_RECENT_ROWS :: nat where [limits]: "MAX_RECENT_ROWS = 25"
definition MAX_TOOL_EXECUTION_MS :: int where [limits]: "MAX_TOOL_EXECUTION_MS = 2000"

definition OpaqueCursor :: "jsstring \<Rightarrow> bool" where
  "OpaqueCursor = opaque_ref ''cur_'' 20 1024"

definition OpaqueMemoryId :: "jsstring \<Rightarrow> bool" where
  "OpaqueMemoryId = opaque_ref ''mem_'' 26 132"

definition z_bool :: "bool \<Rightarrow> bool schema" where
  "z_bool b v = (if v = VBool b then Some b else None)"

text \<open>\<open>.default(d)\<close>, \<open>z.union\<close>, \<open>z.string().trim()\<close>.\<close>

definition z_default :: "'a \<Rightarrow> 'a schema \<Rightarrow> 'a schema" where
  "z_default d f v = (if v = VUndef then Some d else f v)"

definition z_union :: "'a schema \<Rightarrow> 'a schema \<Rightarrow> 'a schema" where
  "z_union f g v = (case f v of None \<Rightarrow> g v | Some x \<Rightarrow> Some x)"

definition z_trimmed :: "nat \<Rightarrow> nat \<Rightarrow> jsstring schema" where
  "z_trimmed lo hi = z_refine (\<lambda>s. lo \<le> length s \<and> length s \<le> hi) (\<lambda>v. map_option trim (z_string v))"

section \<open>Requests\<close>

record search_filters =
  tags :: "jsstring list option"
  createdAfter :: "jsstring option"
  createdBefore :: "jsstring option"

datatype search_mode = Mode_text | Mode_semantic

record search_input =
  sq_query :: jsstring
  sq_mode :: search_mode
  sq_filters :: "search_filters option"
  sq_limit :: nat
  sq_cursor :: "jsstring option"

record recent_input =
  ri_tags :: "jsstring list option option"
  ri_limit :: nat
  ri_cursor :: "jsstring option"

definition z_tags :: "jsstring list schema" where
  "z_tags = z_refine (\<lambda>ts. length ts \<le> MAX_FILTERS) (z_array (z_trimmed 1 64))"

definition count_filters :: "search_filters \<Rightarrow> nat" where
  "count_filters f =
     (case tags f of None \<Rightarrow> 0 | Some ts \<Rightarrow> length ts) +
     (case createdAfter f of None \<Rightarrow> 0 | Some _ \<Rightarrow> 1) + (case createdBefore f of None \<Rightarrow> 0 | Some _ \<Rightarrow> 1)"

definition ordered_dates :: "search_filters \<Rightarrow> bool" where
  "ordered_dates f \<longleftrightarrow>
     (case (createdAfter f, createdBefore f) of
        (Some a, Some b) \<Rightarrow> (case (date_parse a, date_parse b) of (Some x, Some y) \<Rightarrow> x \<le> y | _ \<Rightarrow> False)
      | _ \<Rightarrow> True)"

definition SearchFiltersSchema :: "search_filters schema" where
  "SearchFiltersSchema v = do {
     f \<leftarrow> z_strict [''tags'', ''createdAfter'', ''createdBefore''] v;
     ts \<leftarrow> z_optional z_tags (f ''tags'');
     ca \<leftarrow> z_optional (z_refine iso_datetime z_string) (f ''createdAfter'');
     cb \<leftarrow> z_optional (z_refine iso_datetime z_string) (f ''createdBefore'');
     let r = \<lparr>tags = ts, createdAfter = ca, createdBefore = cb\<rparr>
     in if MAX_FILTERS < count_filters r then None else if \<not> ordered_dates r then None else Some r }"

definition z_mode :: "search_mode schema" where
  "z_mode = z_enum [(''text'', Mode_text), (''semantic'', Mode_semantic)]"

definition MemorySearchInputSchema :: "search_input schema" where
  "MemorySearchInputSchema v = do {
     f \<leftarrow> z_strict [''query'', ''mode'', ''filters'', ''limit'', ''cursor''] v;
     q \<leftarrow> z_trimmed 1 MAX_QUERY_LENGTH (f ''query'');
     m \<leftarrow> z_default Mode_text z_mode (f ''mode'');
     fs \<leftarrow> z_optional SearchFiltersSchema (f ''filters'');
     n \<leftarrow> z_default MAX_SEARCH_ROWS (z_nat 1 MAX_SEARCH_ROWS) (f ''limit'');
     c \<leftarrow> z_optional (z_refine OpaqueCursor z_string) (f ''cursor'');
     Some \<lparr>sq_query = q, sq_mode = m, sq_filters = fs, sq_limit = n, sq_cursor = c\<rparr> }"

definition MemoryGetInputSchema :: "jsstring schema" where
  "MemoryGetInputSchema v = do { f \<leftarrow> z_strict [''id''] v; z_refine OpaqueMemoryId z_string (f ''id'') }"

definition RecentFiltersSchema :: "jsstring list option schema" where
  "RecentFiltersSchema v = do { f \<leftarrow> z_strict [''tags''] v; z_optional z_tags (f ''tags'') }"

definition MemoryListRecentInputSchema :: "recent_input schema" where
  "MemoryListRecentInputSchema v = do {
     f \<leftarrow> z_strict [''filters'', ''limit'', ''cursor''] v;
     ts \<leftarrow> z_optional RecentFiltersSchema (f ''filters'');
     n \<leftarrow> z_default MAX_RECENT_ROWS (z_nat 1 MAX_RECENT_ROWS) (f ''limit'');
     c \<leftarrow> z_optional (z_refine OpaqueCursor z_string) (f ''cursor'');
     Some \<lparr>ri_tags = ts, ri_limit = n, ri_cursor = c\<rparr> }"

text \<open>The objects of parsed requests: absent fields have no key.\<close>

definition field_opt :: "string \<Rightarrow> ('a \<Rightarrow> jsval) \<Rightarrow> 'a option \<Rightarrow> (string \<times> jsval) list" where
  "field_opt k f x = (case x of None \<Rightarrow> [] | Some y \<Rightarrow> [(k, f y)])"

definition tags_val :: "jsstring list \<Rightarrow> jsval" where
  "tags_val ts = VArr (map VStr ts)"

definition filters_val :: "search_filters \<Rightarrow> jsval" where
  "filters_val f =
     obj (field_opt ''tags'' tags_val (tags f) @ field_opt ''createdAfter'' VStr (createdAfter f)
       @ field_opt ''createdBefore'' VStr (createdBefore f))"

fun mode_val :: "search_mode \<Rightarrow> jsval" where
  "mode_val Mode_text = VStr (js ''text'')"
| "mode_val Mode_semantic = VStr (js ''semantic'')"

definition search_input_val :: "search_input \<Rightarrow> jsval" where
  "search_input_val i =
     obj ([(''query'', VStr (sq_query i)), (''mode'', mode_val (sq_mode i))]
       @ field_opt ''filters'' filters_val (sq_filters i) @ [(''limit'', num (sq_limit i))]
       @ field_opt ''cursor'' VStr (sq_cursor i))"

definition get_input_val :: "jsstring \<Rightarrow> jsval" where
  "get_input_val i = obj [(''id'', VStr i)]"

definition recent_input_val :: "recent_input \<Rightarrow> jsval" where
  "recent_input_val i =
     obj (field_opt ''filters'' (\<lambda>ts. obj (field_opt ''tags'' tags_val ts)) (ri_tags i)
       @ [(''limit'', num (ri_limit i))] @ field_opt ''cursor'' VStr (ri_cursor i))"

section \<open>Records\<close>

record memory_record =
  m_id :: jsstring
  m_title :: jsstring
  m_content :: jsstring
  m_createdAt :: jsstring
  m_provenance :: jsstring

record search_row =
  s_record :: memory_record
  s_rank :: jsnum

definition RECORD_KEYS :: "string list" where
  "RECORD_KEYS = [''id'', ''title'', ''content'', ''contentTrust'', ''createdAt'', ''provenanceSummary'']"

definition z_max :: "nat \<Rightarrow> jsstring schema" where
  "z_max n = z_refine (\<lambda>s. length s \<le> n) z_string"

definition MemoryRecordFields :: "(string \<Rightarrow> jsval) \<Rightarrow> memory_record option" where
  "MemoryRecordFields f = do {
     i \<leftarrow> z_refine OpaqueMemoryId z_string (f ''id'');
     t \<leftarrow> z_max 256 (f ''title'');
     c \<leftarrow> z_max 8192 (f ''content'');
     _ \<leftarrow> z_literal ''untrusted'' (f ''contentTrust'');
     a \<leftarrow> z_refine iso_datetime z_string (f ''createdAt'');
     p \<leftarrow> z_max 512 (f ''provenanceSummary'');
     Some \<lparr>m_id = i, m_title = t, m_content = c, m_createdAt = a, m_provenance = p\<rparr> }"

definition MemoryRecordSchema :: "memory_record schema" where
  "MemoryRecordSchema v = do { f \<leftarrow> z_strict RECORD_KEYS v; MemoryRecordFields f }"

text \<open>\<open>z.number()\<close> refuses \<open>NaN\<close> and the infinities.\<close>

definition z_rank :: "jsnum schema" where
  "z_rank v =
     (case v of VNum x \<Rightarrow> if isFinite x \<and> \<not> num_lt x 0 \<and> \<not> num_gt x 1 then Some x else None | _ \<Rightarrow> None)"

definition SearchResultSchema :: "search_row schema" where
  "SearchResultSchema v = do {
     f \<leftarrow> z_strict (RECORD_KEYS @ [''rank'']) v;
     r \<leftarrow> MemoryRecordFields f;
     k \<leftarrow> z_rank (f ''rank'');
     Some \<lparr>s_record = r, s_rank = k\<rparr> }"

definition memory_fields :: "memory_record \<Rightarrow> (string \<times> jsval) list" where
  "memory_fields r =
     [(''id'', VStr (m_id r)), (''title'', VStr (m_title r)), (''content'', VStr (m_content r)),
      (''contentTrust'', VStr (js ''untrusted'')), (''createdAt'', VStr (m_createdAt r)),
      (''provenanceSummary'', VStr (m_provenance r))]"

definition memory_val :: "memory_record \<Rightarrow> jsval" where
  "memory_val r = obj (memory_fields r)"

definition search_row_val :: "search_row \<Rightarrow> jsval" where
  "search_row_val r = obj (memory_fields (s_record r) @ [(''rank'', VNum (s_rank r))])"

section \<open>Answers\<close>

datatype retrieve_result =
    R_found memory_record | R_ambiguous "search_row list" | R_no_match | R_partial "search_row list" jsstring

text \<open>\<open>A_retrieve q r\<close>: the retrieval block is constant but for the query last executed.\<close>

datatype read_answer =
    A_error read_error
  | A_search "search_row list" "jsstring option"
  | A_get memory_record
  | A_recent "memory_record list" "jsstring option"
  | A_retrieve jsstring retrieve_result

definition read_error_codes :: "(string \<times> read_error) list" where
  "read_error_codes =
     [(''INVALID_REQUEST'', INVALID_REQUEST), (''RESOURCE_UNAVAILABLE'', RESOURCE_UNAVAILABLE),
      (''RESPONSE_LIMIT_EXCEEDED'', RT_RESPONSE_LIMIT_EXCEEDED), (''DEADLINE_EXCEEDED'', DEADLINE_EXCEEDED),
      (''INTERNAL_ERROR'', INTERNAL_ERROR)]"

definition ReadToolErrorSchema :: "read_error schema" where
  "ReadToolErrorSchema v =
     (case v of
        VObj fs \<Rightarrow> do {
          c \<leftarrow> z_enum read_error_codes (getp fs (js ''code''));
          f \<leftarrow> z_strict [''code'', ''message'', ''retryable''] v;
          if f ''message'' = VStr (READ_TOOL_ERROR_MESSAGES c) \<and> f ''retryable'' = VBool False then Some c else None }
      | _ \<Rightarrow> None)"

definition ReadToolErrorOutputSchema :: "read_answer schema" where
  "ReadToolErrorOutputSchema v = do {
     f \<leftarrow> z_strict [''ok'', ''error''] v;
     _ \<leftarrow> z_bool False (f ''ok'');
     c \<leftarrow> ReadToolErrorSchema (f ''error'');
     Some (A_error c) }"

definition MemorySearchSuccessSchema :: "(search_row list \<times> jsstring option) schema" where
  "MemorySearchSuccessSchema v = do {
     f \<leftarrow> z_strict [''ok'', ''items'', ''nextCursor''] v;
     _ \<leftarrow> z_bool True (f ''ok'');
     rs \<leftarrow> z_refine (\<lambda>rs. length rs \<le> MAX_SEARCH_ROWS) (z_array SearchResultSchema) (f ''items'');
     c \<leftarrow> z_optional (z_refine OpaqueCursor z_string) (f ''nextCursor'');
     Some (rs, c) }"

definition MemoryGetSuccessSchema :: "memory_record schema" where
  "MemoryGetSuccessSchema v = do {
     f \<leftarrow> z_strict [''ok'', ''record''] v;
     _ \<leftarrow> z_bool True (f ''ok'');
     MemoryRecordSchema (f ''record'') }"

definition MemoryListRecentSuccessSchema :: "(memory_record list \<times> jsstring option) schema" where
  "MemoryListRecentSuccessSchema v = do {
     f \<leftarrow> z_strict [''ok'', ''items'', ''nextCursor''] v;
     _ \<leftarrow> z_bool True (f ''ok'');
     rs \<leftarrow> z_refine (\<lambda>rs. length rs \<le> MAX_RECENT_ROWS) (z_array MemoryRecordSchema) (f ''items'');
     c \<leftarrow> z_optional (z_refine OpaqueCursor z_string) (f ''nextCursor'');
     Some (rs, c) }"

definition MemoryRetrieveRetrievalBaseSchema :: "jsstring schema" where
  "MemoryRetrieveRetrievalBaseSchema v = do {
     f \<leftarrow> z_strict [''strategy'', ''query_last_executed'', ''scope_semantics'', ''snapshot_semantics'',
            ''provenance_currentness''] v;
     _ \<leftarrow> z_literal ''defensive_search_then_get_v1'' (f ''strategy'');
     q \<leftarrow> z_max MAX_QUERY_LENGTH (f ''query_last_executed'');
     _ \<leftarrow> z_literal ''authorized_scope_only'' (f ''scope_semantics'');
     _ \<leftarrow> z_literal ''no_server_snapshot_v1'' (f ''snapshot_semantics'');
     _ \<leftarrow> z_literal ''unknown'' (f ''provenance_currentness'');
     Some q }"

definition scoped_no_match_result :: "retrieve_result schema" where
  "scoped_no_match_result v = do {
     f \<leftarrow> z_strict [''ok'', ''items''] v;
     _ \<leftarrow> z_bool True (f ''ok'');
     rs \<leftarrow> z_refine (\<lambda>rs. length rs \<le> 0) (z_array SearchResultSchema) (f ''items'');
     if rs \<noteq> [] then None else Some R_no_match }"

definition ambiguous_result :: "retrieve_result schema" where
  "ambiguous_result v =
     (case MemorySearchSuccessSchema v of
        Some (rs, None) \<Rightarrow> if 2 \<le> length rs then Some (R_ambiguous rs) else None
      | _ \<Rightarrow> None)"

definition partial_result :: "retrieve_result schema" where
  "partial_result v =
     (case MemorySearchSuccessSchema v of Some (rs, Some c) \<Rightarrow> Some (R_partial rs c) | _ \<Rightarrow> None)"

text \<open>The four members of the union differ in the literal \<open>outcome\<close> and in the schema of \<open>result\<close>.\<close>

definition retrieve_member :: "string \<Rightarrow> retrieve_result schema \<Rightarrow> read_answer schema" where
  "retrieve_member outcome result v = do {
     f \<leftarrow> z_strict [''ok'', ''outcome'', ''completeness'', ''retrieval'', ''result''] v;
     _ \<leftarrow> z_bool True (f ''ok'');
     _ \<leftarrow> z_literal outcome (f ''outcome'');
     _ \<leftarrow> z_literal ''unknown'' (f ''completeness'');
     q \<leftarrow> MemoryRetrieveRetrievalBaseSchema (f ''retrieval'');
     r \<leftarrow> result (f ''result'');
     Some (A_retrieve q r) }"

definition MemoryRetrieveSuccessOutputSchema :: "read_answer schema" where
  "MemoryRetrieveSuccessOutputSchema v =
     (case v of
        VObj fs \<Rightarrow>
          (let outcome = getp fs (js ''outcome'')
           in if outcome = VStr (js ''found'')
              then retrieve_member ''found'' (\<lambda>w. map_option R_found (MemoryGetSuccessSchema w)) v
              else if outcome = VStr (js ''ambiguous'') then retrieve_member ''ambiguous'' ambiguous_result v
              else if outcome = VStr (js ''scoped_no_match'') then retrieve_member ''scoped_no_match'' scoped_no_match_result v
              else if outcome = VStr (js ''partial'') then retrieve_member ''partial'' partial_result v
              else None)
      | _ \<Rightarrow> None)"

section \<open>The objects of answers\<close>

definition search_success_val :: "search_row list \<Rightarrow> jsstring option \<Rightarrow> jsval" where
  "search_success_val rs c =
     obj ([(''ok'', VBool True), (''items'', VArr (map search_row_val rs))] @ field_opt ''nextCursor'' VStr c)"

definition get_success_val :: "memory_record \<Rightarrow> jsval" where
  "get_success_val r = obj [(''ok'', VBool True), (''record'', memory_val r)]"

fun outcome_name :: "retrieve_result \<Rightarrow> string" where
  "outcome_name (R_found r) = ''found''"
| "outcome_name (R_ambiguous rs) = ''ambiguous''"
| "outcome_name R_no_match = ''scoped_no_match''"
| "outcome_name (R_partial rs c) = ''partial''"

fun retrieve_result_val :: "retrieve_result \<Rightarrow> jsval" where
  "retrieve_result_val (R_found r) = get_success_val r"
| "retrieve_result_val (R_ambiguous rs) = search_success_val rs None"
| "retrieve_result_val R_no_match = search_success_val [] None"
| "retrieve_result_val (R_partial rs c) = search_success_val rs (Some c)"

definition retrieval_val :: "jsstring \<Rightarrow> jsval" where
  "retrieval_val q =
     obj [(''strategy'', VStr (js ''defensive_search_then_get_v1'')), (''query_last_executed'', VStr q),
       (''scope_semantics'', VStr (js ''authorized_scope_only'')),
       (''snapshot_semantics'', VStr (js ''no_server_snapshot_v1'')),
       (''provenance_currentness'', VStr (js ''unknown''))]"

fun answer_val :: "read_answer \<Rightarrow> jsval" where
  "answer_val (A_error c) = createReadToolError c"
| "answer_val (A_search rs c) = search_success_val rs c"
| "answer_val (A_get r) = get_success_val r"
| "answer_val (A_recent rs c) =
     obj ([(''ok'', VBool True), (''items'', VArr (map memory_val rs))] @ field_opt ''nextCursor'' VStr c)"
| "answer_val (A_retrieve q r) =
     obj [(''ok'', VBool True), (''outcome'', VStr (js (outcome_name r))), (''completeness'', VStr (js ''unknown'')),
       (''retrieval'', retrieval_val q), (''result'', retrieve_result_val r)]"

text \<open>The four output schemas: success or error, within the wire limit.\<close>

definition bounded_answer :: "read_answer schema \<Rightarrow> read_answer schema" where
  "bounded_answer success =
     z_refine (\<lambda>a. withinMinimumWireResponseByteLimit (answer_val a)) (z_union success ReadToolErrorOutputSchema)"

definition MemorySearchOutputSchema :: "read_answer schema" where
  "MemorySearchOutputSchema = bounded_answer (\<lambda>v. map_option (\<lambda>(rs, c). A_search rs c) (MemorySearchSuccessSchema v))"

definition MemoryGetOutputSchema :: "read_answer schema" where
  "MemoryGetOutputSchema = bounded_answer (\<lambda>v. map_option A_get (MemoryGetSuccessSchema v))"

definition MemoryListRecentOutputSchema :: "read_answer schema" where
  "MemoryListRecentOutputSchema = bounded_answer (\<lambda>v. map_option (\<lambda>(rs, c). A_recent rs c) (MemoryListRecentSuccessSchema v))"

definition MemoryRetrieveOutputSchema :: "read_answer schema" where
  "MemoryRetrieveOutputSchema = bounded_answer MemoryRetrieveSuccessOutputSchema"

end
