(* ===== verification/Supabase_Client.thy ===== *)
theory Supabase_Client
  imports Memory_Schemas
begin

text \<open>
  \<open>packages/server/src/fixed-supabase-client.ts\<close>: the client of the Supabase project. The network is a function
  from requests to responses, \<open>new URL\<close>, \<open>Buffer.toString('utf8')\<close> and \<open>JSON.parse\<close> are parameters of the
  operations. An operation returns its result together with the requests it has made; \<open>aborted\<close> tells whether
  its controller is aborted when an exception is caught.
\<close>

section \<open>Constants and errors\<close>

definition FIXED_PATH :: jsstring where
  "FIXED_PATH = js ''/rest/v1/memories?select=id%2Ccontent&limit=100''"
definition FIXED_SCHEMA :: jsstring where "FIXED_SCHEMA = js ''memory''"
definition FIXED_SEARCH_PATH :: jsstring where "FIXED_SEARCH_PATH = js ''/rest/v1/rpc/authorized_memory_search_v1''"
definition FIXED_GET_PATH :: jsstring where "FIXED_GET_PATH = js ''/rest/v1/rpc/authorized_memory_get_v1''"
definition FIXED_LIST_RECENT_PATH :: jsstring where
  "FIXED_LIST_RECENT_PATH = js ''/rest/v1/rpc/authorized_memory_list_recent_v1''"
definition FIXED_USER_PATH :: jsstring where "FIXED_USER_PATH = js ''/auth/v1/user''"
definition DEFAULT_TIMEOUT_MS :: int where "DEFAULT_TIMEOUT_MS = 5000"
definition MAX_TIMEOUT_MS :: int where "MAX_TIMEOUT_MS = 10000"
definition DEFAULT_MAX_RESPONSE_BYTES :: int where "DEFAULT_MAX_RESPONSE_BYTES = 256 * 1024"
definition CLIENT_MAX_RESPONSE_BYTES :: int where "CLIENT_MAX_RESPONSE_BYTES = 1024 * 1024"

datatype client_error =
    FIXED_CLIENT_INVALID_CREDENTIAL | FIXED_CLIENT_INVALID_REQUEST | FIXED_CLIENT_INVALID_CURSOR
  | FIXED_CLIENT_TIMEOUT | FIXED_CLIENT_NETWORK_FAILURE | FIXED_CLIENT_MALFORMED_RESPONSE
  | FIXED_CLIENT_UPSTREAM_STATUS | FIXED_CLIENT_RESPONSE_TOO_LARGE

fun client_code :: "client_error \<Rightarrow> jsstring" where
  "client_code FIXED_CLIENT_INVALID_CREDENTIAL = js ''FIXED_CLIENT_INVALID_CREDENTIAL''"
| "client_code FIXED_CLIENT_INVALID_REQUEST = js ''FIXED_CLIENT_INVALID_REQUEST''"
| "client_code FIXED_CLIENT_INVALID_CURSOR = js ''FIXED_CLIENT_INVALID_CURSOR''"
| "client_code FIXED_CLIENT_TIMEOUT = js ''FIXED_CLIENT_TIMEOUT''"
| "client_code FIXED_CLIENT_NETWORK_FAILURE = js ''FIXED_CLIENT_NETWORK_FAILURE''"
| "client_code FIXED_CLIENT_MALFORMED_RESPONSE = js ''FIXED_CLIENT_MALFORMED_RESPONSE''"
| "client_code FIXED_CLIENT_UPSTREAM_STATUS = js ''FIXED_CLIENT_UPSTREAM_STATUS''"
| "client_code FIXED_CLIENT_RESPONSE_TOO_LARGE = js ''FIXED_CLIENT_RESPONSE_TOO_LARGE''"

text \<open>\<open>/^cur_[A-Za-z0-9_-]{16,1020}$/\<close>\<close>

definition OPAQUE_CURSOR :: "jsstring \<Rightarrow> bool" where
  "OPAQUE_CURSOR s \<longleftrightarrow>
     take 4 s = js ''cur_'' \<and> 16 \<le> length (drop 4 s) \<and> length (drop 4 s) \<le> 1020 \<and> list_all ref_char (drop 4 s)"

text \<open>The five groups of a UUID; version and variant digit are checked, letters of either case.\<close>

definition hex_ci :: "cunit \<Rightarrow> bool" where
  "hex_ci u \<longleftrightarrow> hex_value u \<noteq> None"

definition UUID :: "jsstring \<Rightarrow> bool" where
  "UUID s \<longleftrightarrow>
     length s = 36 \<and>
     (\<forall>i < 36. if i \<in> {8, 13, 18, 23} then s ! i = 0x2d
               else if i = 14 then s ! i \<in> set (js ''12345'')
               else if i = 19 then s ! i \<in> set (js ''89abAB'') else hex_ci (s ! i))"

lemma UUID_enumerate:
  assumes "length s = 36" "list_all (\<lambda>(i, u). if i \<in> {8, 13, 18, 23} then u = 0x2d
    else if i = 14 then u \<in> set (js ''12345'') else if i = 19 then u \<in> set (js ''89abAB'') else hex_ci u) (enumerate 0 s)"
  shows "UUID s"
  using all_enumerate [OF assms(2)] assms(1) unfolding UUID_def by simp

section \<open>Rows and payloads\<close>

definition ALLOWED_MEMORY_ROW_FIELDS :: "string list" where
  "ALLOWED_MEMORY_ROW_FIELDS = [''id'', ''title'', ''content'', ''createdAt'', ''provenanceSummary'']"

definition hasAllowedKeys :: "(jsstring \<times> jsval) list \<Rightarrow> string list \<Rightarrow> bool" where
  "hasAllowedKeys fs allowed \<longleftrightarrow>
     length (map fst fs) = length allowed \<and> list_all (\<lambda>k. k \<in> set (map js allowed)) (map fst fs)"

fun is_string :: "jsval \<Rightarrow> bool" where
  "is_string (VStr s) = True"
| "is_string _ = False"

fun the_string :: "jsval \<Rightarrow> jsstring" where
  "the_string (VStr s) = s"
| "the_string _ = []"

definition hasRequiredStringFields :: "(jsstring \<times> jsval) list \<Rightarrow> string list \<Rightarrow> bool" where
  "hasRequiredStringFields fs required \<longleftrightarrow>
     hasAllowedKeys fs required \<and> list_all (\<lambda>k. is_string (getp fs (js k))) required"

definition parseGetRow :: "jsval \<Rightarrow> client_error \<Rightarrow> client_error + memory_record" where
  "parseGetRow v code =
     (case v of
        VObj fs \<Rightarrow>
          if \<not> hasRequiredStringFields fs ALLOWED_MEMORY_ROW_FIELDS then Inl code
          else Inr \<lparr>m_id = the_string (getp fs (js ''id'')), m_title = the_string (getp fs (js ''title'')),
                    m_content = the_string (getp fs (js ''content'')),
                    m_createdAt = the_string (getp fs (js ''createdAt'')),
                    m_provenance = the_string (getp fs (js ''provenanceSummary''))\<rparr>
      | _ \<Rightarrow> Inl code)"

definition parseMemoryGetPayload :: "jsval \<Rightarrow> client_error + memory_record option" where
  "parseMemoryGetPayload v =
     (case v of
        VObj fs \<Rightarrow>
          if length fs \<noteq> 1 \<or> map fst fs \<noteq> [js ''record''] then Inl FIXED_CLIENT_MALFORMED_RESPONSE
          else if getp fs (js ''record'') = VNull then Inr None
          else map_sum id Some (parseGetRow (getp fs (js ''record'')) FIXED_CLIENT_MALFORMED_RESPONSE)
      | _ \<Rightarrow> Inl FIXED_CLIENT_MALFORMED_RESPONSE)"

definition envelope_keys_ok :: "(jsstring \<times> jsval) list \<Rightarrow> bool" where
  "envelope_keys_ok fs \<longleftrightarrow>
     1 \<le> length fs \<and> length fs \<le> 2 \<and> list_all (\<lambda>k. k \<in> {js ''nextCursor'', js ''rows''}) (map fst fs)"

definition parse_cursor :: "jsval \<Rightarrow> client_error + jsstring option" where
  "parse_cursor v =
     (case v of
        VUndef \<Rightarrow> Inr None
      | VStr s \<Rightarrow> if OPAQUE_CURSOR s then Inr (Some s) else Inl FIXED_CLIENT_INVALID_CURSOR
      | _ \<Rightarrow> Inl FIXED_CLIENT_INVALID_CURSOR)"

definition parseMemoryListPayload :: "jsval \<Rightarrow> client_error + memory_record list \<times> jsstring option" where
  "parseMemoryListPayload v =
     (case v of
        VObj fs \<Rightarrow>
          if \<not> envelope_keys_ok fs then Inl FIXED_CLIENT_MALFORMED_RESPONSE
          else (case getp fs (js ''rows'') of
                  VArr rawRows \<Rightarrow>
                    (case mapE (\<lambda>w. parseGetRow w FIXED_CLIENT_MALFORMED_RESPONSE) rawRows of
                       Inl e \<Rightarrow> Inl e
                     | Inr rows \<Rightarrow> map_sum id (Pair rows) (parse_cursor (getp fs (js ''nextCursor''))))
                | _ \<Rightarrow> Inl FIXED_CLIENT_MALFORMED_RESPONSE)
      | _ \<Rightarrow> Inl FIXED_CLIENT_MALFORMED_RESPONSE)"

text \<open>One row of a search: the five strings and a rank between 0 and 1.\<close>

definition parse_search_row :: "jsval \<Rightarrow> client_error + search_row" where
  "parse_search_row v =
     (case v of
        VObj fs \<Rightarrow>
          if \<not> hasAllowedKeys fs (ALLOWED_MEMORY_ROW_FIELDS @ [''rank'']) then Inl FIXED_CLIENT_MALFORMED_RESPONSE
          else (case getp fs (js ''rank'') of
                  VNum rank \<Rightarrow>
                    if \<not> isFinite rank \<or> num_lt rank 0 \<or> num_gt rank 1 then Inl FIXED_CLIENT_MALFORMED_RESPONSE
                    else (case parseGetRow (VObj (map (\<lambda>k. (js k, getp fs (js k))) ALLOWED_MEMORY_ROW_FIELDS))
                                 FIXED_CLIENT_MALFORMED_RESPONSE of
                            Inl e \<Rightarrow> Inl e
                          | Inr r \<Rightarrow> Inr \<lparr>s_record = r, s_rank = rank\<rparr>)
                | _ \<Rightarrow> Inl FIXED_CLIENT_MALFORMED_RESPONSE)
      | _ \<Rightarrow> Inl FIXED_CLIENT_MALFORMED_RESPONSE)"

definition parseMemorySearchPayload :: "jsval \<Rightarrow> nat \<Rightarrow> client_error + search_row list \<times> jsstring option" where
  "parseMemorySearchPayload v limit =
     (case v of
        VObj fs \<Rightarrow>
          (case getp fs (js ''rows'') of
             VArr rawRows \<Rightarrow>
               if \<not> envelope_keys_ok fs \<or> limit < length rawRows then Inl FIXED_CLIENT_MALFORMED_RESPONSE
               else (case mapE parse_search_row rawRows of
                       Inl e \<Rightarrow> Inl e
                     | Inr rows \<Rightarrow> map_sum id (Pair rows) (parse_cursor (getp fs (js ''nextCursor''))))
           | _ \<Rightarrow> Inl FIXED_CLIENT_MALFORMED_RESPONSE)
      | _ \<Rightarrow> Inl FIXED_CLIENT_MALFORMED_RESPONSE)"

section \<open>Configuration\<close>

record url =
  protocol :: jsstring
  url_origin :: jsstring
  username :: jsstring
  password :: jsstring

record client_config =
  cf_origin :: jsstring
  projectPublishableKey :: "jsstring option"
  userAccessToken :: "jsstring option"
  cf_timeoutMs :: "jsnum option"
  cf_maxResponseBytes :: "jsnum option"

record fixed_client =
  fc_origin :: jsstring
  fc_key :: jsstring
  fc_token :: jsstring
  fc_timeoutMs :: int
  fc_maxResponseBytes :: int

definition boundedInteger :: "jsnum \<Rightarrow> int \<Rightarrow> bool" where
  "boundedInteger value maximum \<longleftrightarrow> isSafeInteger value \<and> num_gt value 0 \<and> \<not> num_gt value maximum"

text \<open>\<open>s.split('.').length\<close>\<close>

definition dot_parts :: "jsstring \<Rightarrow> nat" where
  "dot_parts s = Suc (length (filter (\<lambda>u. u = 0x2e) s))"

definition createFixedSupabaseClient ::
    "(jsstring \<Rightarrow> url option) \<Rightarrow> client_config \<Rightarrow> client_error + fixed_client" where
  "createFixedSupabaseClient parse_url config =
     (case parse_url (cf_origin config) of
        None \<Rightarrow> Inl FIXED_CLIENT_INVALID_CREDENTIAL
      | Some u \<Rightarrow>
          if protocol u \<noteq> js ''https:'' \<or> url_origin u \<noteq> cf_origin config \<or> username u \<noteq> [] \<or> password u \<noteq> []
          then Inl FIXED_CLIENT_INVALID_CREDENTIAL
          else
            (case (map_option trim (projectPublishableKey config), map_option trim (userAccessToken config)) of
               (Some key, Some token) \<Rightarrow>
                 if key = [] \<or> token = [] \<or> key = token \<or> dot_parts key = 3 \<or> dot_parts token \<noteq> 3
                 then Inl FIXED_CLIENT_INVALID_CREDENTIAL
                 else
                   (let timeoutMs = (case cf_timeoutMs config of None \<Rightarrow> JInt DEFAULT_TIMEOUT_MS | Some t \<Rightarrow> t);
                        maxResponseBytes =
                          (case cf_maxResponseBytes config of None \<Rightarrow> JInt DEFAULT_MAX_RESPONSE_BYTES | Some n \<Rightarrow> n)
                    in if \<not> boundedInteger timeoutMs MAX_TIMEOUT_MS \<or>
                          \<not> boundedInteger maxResponseBytes CLIENT_MAX_RESPONSE_BYTES
                       then Inl FIXED_CLIENT_INVALID_CREDENTIAL
                       else Inr \<lparr>fc_origin = url_origin u, fc_key = key, fc_token = token,
                                 fc_timeoutMs = num_int timeoutMs, fc_maxResponseBytes = num_int maxResponseBytes\<rparr>)
             | _ \<Rightarrow> Inl FIXED_CLIENT_INVALID_CREDENTIAL))"

section \<open>Requests and responses\<close>

datatype http_method = GET | POST

record http_request =
  rq_url :: jsstring
  rq_method :: http_method
  rq_headers :: "(string \<times> jsstring) list"
  rq_body :: "jsstring option"
  redirect_error :: bool

text \<open>A body is read in chunks; the last component tells whether the stream ends or fails after them.\<close>

datatype http_body = No_body | Stream "byte list list" bool

text \<open>\<open>advertisedLength\<close> is the number the text of the \<open>content-length\<close> header converts to.\<close>

record http_response =
  rs_ok :: bool
  rs_status :: nat
  rs_redirected :: bool
  rs_url :: jsstring
  advertisedLength :: "jsnum option"
  rs_body :: http_body

text \<open>\<open>None\<close>: the promise of \<open>fetch\<close> is rejected.\<close>

type_synonym network = "http_request \<Rightarrow> http_response option"

type_synonym 'a call = "(client_error + 'a) \<times> http_request list"

definition listHeaders :: "fixed_client \<Rightarrow> (string \<times> jsstring) list" where
  "listHeaders c =
     [(''Accept'', js ''application/json''), (''Accept-Profile'', FIXED_SCHEMA),
      (''Authorization'', js ''Bearer '' @ fc_token c), (''apikey'', fc_key c)]"

definition postHeaders :: "fixed_client \<Rightarrow> (string \<times> jsstring) list" where
  "postHeaders c = listHeaders c @ [(''Content-Type'', js ''application/json''), (''Content-Profile'', FIXED_SCHEMA)]"

definition authHeaders :: "fixed_client \<Rightarrow> (string \<times> jsstring) list" where
  "authHeaders c =
     [(''Accept'', js ''application/json''), (''Authorization'', js ''Bearer '' @ fc_token c), (''apikey'', fc_key c)]"

text \<open>What an operation throws inside its \<open>try\<close>: an error of the client, or anything else.\<close>

datatype thrown = Client_error client_error | Other_error

definition caught :: "bool \<Rightarrow> thrown \<Rightarrow> client_error" where
  "caught aborted t =
     (case t of
        Client_error e \<Rightarrow> e
      | Other_error \<Rightarrow> if aborted then FIXED_CLIENT_TIMEOUT else FIXED_CLIENT_NETWORK_FAILURE)"

text \<open>The reading loop, with the bytes read so far.\<close>

fun read_chunks :: "int \<Rightarrow> byte list \<Rightarrow> byte list list \<Rightarrow> bool \<Rightarrow> thrown + byte list" where
  "read_chunks maximum acc [] ends = (if ends then Inr acc else Inl Other_error)"
| "read_chunks maximum acc (c # cs) ends =
     (if maximum < int (length (acc @ c)) then Inl (Client_error FIXED_CLIENT_RESPONSE_TOO_LARGE)
      else read_chunks maximum (acc @ c) cs ends)"

definition readBoundedBody :: "(byte list \<Rightarrow> jsstring) \<Rightarrow> http_body \<Rightarrow> int \<Rightarrow> thrown + jsstring" where
  "readBoundedBody to_text body maximum =
     (case body of
        No_body \<Rightarrow> Inr []
      | Stream cs ends \<Rightarrow> map_sum id to_text (read_chunks maximum [] cs ends))"

text \<open>The common part after the status check: advertised length, body, \<open>JSON.parse\<close>.\<close>

definition read_json ::
    "(byte list \<Rightarrow> jsstring) \<Rightarrow> (jsstring \<Rightarrow> jsval option) \<Rightarrow> int \<Rightarrow> http_response \<Rightarrow> thrown + jsval" where
  "read_json to_text parse maximum upstream =
     (if (case advertisedLength upstream of None \<Rightarrow> False | Some n \<Rightarrow> num_gt n maximum)
      then Inl (Client_error FIXED_CLIENT_RESPONSE_TOO_LARGE)
      else
        (case readBoundedBody to_text (rs_body upstream) maximum of
           Inl e \<Rightarrow> Inl e
         | Inr body \<Rightarrow>
             (case parse body of None \<Rightarrow> Inl (Client_error FIXED_CLIENT_MALFORMED_RESPONSE) | Some v \<Rightarrow> Inr v)))"

section \<open>Operations\<close>

definition verifyUserIdentity ::
    "(byte list \<Rightarrow> jsstring) \<Rightarrow> (jsstring \<Rightarrow> jsval option) \<Rightarrow> network \<Rightarrow> fixed_client \<Rightarrow> bool \<Rightarrow> jsstring call" where
  "verifyUserIdentity to_text parse fetch c aborted =
     (let expectedUserUrl = fc_origin c @ FIXED_USER_PATH;
          req = \<lparr>rq_url = expectedUserUrl, rq_method = GET, rq_headers = authHeaders c, rq_body = None, redirect_error = True\<rparr>;
          outcome =
            (case fetch req of
               None \<Rightarrow> Inl Other_error
             | Some upstream \<Rightarrow>
                 if rs_redirected upstream \<or> (rs_url upstream \<noteq> [] \<and> rs_url upstream \<noteq> expectedUserUrl)
                 then Inl (Client_error FIXED_CLIENT_INVALID_CREDENTIAL)
                 else if \<not> rs_ok upstream
                 then Inl (Client_error (if rs_status upstream = 401 \<or> rs_status upstream = 403
                                         then FIXED_CLIENT_INVALID_CREDENTIAL else FIXED_CLIENT_UPSTREAM_STATUS))
                 else
                   (case read_json to_text parse (fc_maxResponseBytes c) upstream of
                      Inl e \<Rightarrow> Inl e
                    | Inr (VObj fs) \<Rightarrow>
                        (case (getp fs (js ''id''), getp fs (js ''aud'')) of
                           (VStr i, VStr a) \<Rightarrow>
                             if UUID i \<and> a = js ''authenticated'' then Inr i
                             else Inl (Client_error FIXED_CLIENT_MALFORMED_RESPONSE)
                         | _ \<Rightarrow> Inl (Client_error FIXED_CLIENT_MALFORMED_RESPONSE))
                    | Inr _ \<Rightarrow> Inl (Client_error FIXED_CLIENT_MALFORMED_RESPONSE)))
      in (map_sum (caught aborted) id outcome, [req]))"

fun is_object :: "jsval \<Rightarrow> bool" where
  "is_object (VObj fs) = True"
| "is_object _ = False"

definition listMemoryRows ::
    "(byte list \<Rightarrow> jsstring) \<Rightarrow> (jsstring \<Rightarrow> jsval option) \<Rightarrow> network \<Rightarrow> fixed_client \<Rightarrow> bool \<Rightarrow> jsval list call" where
  "listMemoryRows to_text parse fetch c aborted =
     (let req = \<lparr>rq_url = fc_origin c @ FIXED_PATH, rq_method = GET, rq_headers = listHeaders c, rq_body = None,
                 redirect_error = False\<rparr>;
          outcome =
            (case fetch req of
               None \<Rightarrow> Inl Other_error
             | Some upstream \<Rightarrow>
                 if \<not> rs_ok upstream then Inl (Client_error FIXED_CLIENT_UPSTREAM_STATUS)
                 else
                   (case read_json to_text parse (fc_maxResponseBytes c) upstream of
                      Inl e \<Rightarrow> Inl e
                    | Inr (VArr rows) \<Rightarrow>
                        if list_ex (\<lambda>r. \<not> is_object r) rows then Inl (Client_error FIXED_CLIENT_MALFORMED_RESPONSE)
                        else Inr rows
                    | Inr _ \<Rightarrow> Inl (Client_error FIXED_CLIENT_MALFORMED_RESPONSE)))
      in (map_sum (caught aborted) id outcome, [req]))"

text \<open>
  \<open>JSON.parse(JSON.stringify(input))\<close> runs before the \<open>try\<close>: where it throws, the error is not the client's.
\<close>

definition requestMemoryRpc ::
    "(byte list \<Rightarrow> jsstring) \<Rightarrow> (jsstring \<Rightarrow> jsval option) \<Rightarrow> network \<Rightarrow> fixed_client \<Rightarrow> jsstring \<Rightarrow> jsval \<Rightarrow> bool \<Rightarrow>
     (client_error option + jsval) \<times> http_request list" where
  "requestMemoryRpc to_text parse fetch c path input aborted =
     (case parse (stringify input) of
        None \<Rightarrow> (Inl None, [])
      | Some parsedInput \<Rightarrow>
          (let req = \<lparr>rq_url = fc_origin c @ path, rq_method = POST, rq_headers = postHeaders c,
                      rq_body = Some (stringify parsedInput), redirect_error = False\<rparr>;
               outcome =
                 (case fetch req of
                    None \<Rightarrow> Inl Other_error
                  | Some upstream \<Rightarrow>
                      if \<not> rs_ok upstream
                      then Inl (Client_error (if rs_status upstream = 400 then FIXED_CLIENT_INVALID_CURSOR
                                              else FIXED_CLIENT_UPSTREAM_STATUS))
                      else read_json to_text parse (fc_maxResponseBytes c) upstream)
           in (map_sum (\<lambda>t. Some (caught aborted t)) id outcome, [req])))"

text \<open>A call on parsed input, followed by the parser of the payload.\<close>

definition rpc_call ::
    "(byte list \<Rightarrow> jsstring) \<Rightarrow> (jsstring \<Rightarrow> jsval option) \<Rightarrow> network \<Rightarrow> fixed_client \<Rightarrow> jsstring \<Rightarrow> jsval \<Rightarrow> bool \<Rightarrow>
     (jsval \<Rightarrow> client_error + 'a) \<Rightarrow> (client_error option + 'a) \<times> http_request list" where
  "rpc_call to_text parse fetch c path input aborted payload =
     (case requestMemoryRpc to_text parse fetch c path input aborted of
        (Inl e, reqs) \<Rightarrow> (Inl e, reqs)
      | (Inr v, reqs) \<Rightarrow> (map_sum Some id (payload v), reqs))"

definition getMemoryRow ::
    "(byte list \<Rightarrow> jsstring) \<Rightarrow> (jsstring \<Rightarrow> jsval option) \<Rightarrow> network \<Rightarrow> fixed_client \<Rightarrow> jsval \<Rightarrow> bool \<Rightarrow>
     (client_error option + memory_record option) \<times> http_request list" where
  "getMemoryRow to_text parse fetch c unsafeInput aborted =
     (case MemoryGetInputSchema unsafeInput of
        None \<Rightarrow> (Inl (Some FIXED_CLIENT_INVALID_REQUEST), [])
      | Some i \<Rightarrow> rpc_call to_text parse fetch c FIXED_GET_PATH (get_input_val i) aborted parseMemoryGetPayload)"

definition searchMemoryRows ::
    "(byte list \<Rightarrow> jsstring) \<Rightarrow> (jsstring \<Rightarrow> jsval option) \<Rightarrow> network \<Rightarrow> fixed_client \<Rightarrow> jsval \<Rightarrow> bool \<Rightarrow>
     (client_error option + search_row list \<times> jsstring option) \<times> http_request list" where
  "searchMemoryRows to_text parse fetch c unsafeInput aborted =
     (case MemorySearchInputSchema unsafeInput of
        None \<Rightarrow> (Inl (Some FIXED_CLIENT_INVALID_REQUEST), [])
      | Some i \<Rightarrow> rpc_call to_text parse fetch c FIXED_SEARCH_PATH (search_input_val i) aborted
                   (\<lambda>v. parseMemorySearchPayload v (sq_limit i)))"

definition listRecentMemoryRows ::
    "(byte list \<Rightarrow> jsstring) \<Rightarrow> (jsstring \<Rightarrow> jsval option) \<Rightarrow> network \<Rightarrow> fixed_client \<Rightarrow> jsval \<Rightarrow> bool \<Rightarrow>
     (client_error option + memory_record list \<times> jsstring option) \<times> http_request list" where
  "listRecentMemoryRows to_text parse fetch c unsafeInput aborted =
     (case MemoryListRecentInputSchema unsafeInput of
        None \<Rightarrow> (Inl (Some FIXED_CLIENT_INVALID_REQUEST), [])
      | Some i \<Rightarrow> rpc_call to_text parse fetch c FIXED_LIST_RECENT_PATH (recent_input_val i) aborted
                   (\<lambda>v. case parseMemoryListPayload v of
                          Inl e \<Rightarrow> Inl e
                        | Inr (rows, cur) \<Rightarrow>
                            if ri_limit i < length rows then Inl FIXED_CLIENT_MALFORMED_RESPONSE else Inr (rows, cur)))"

end
