(* ===== verification/Memory_Answers.thy ===== *)
theory Memory_Answers
  imports Memory_Schemas Wire_Length
begin

text \<open>
  When the schemas of the memory tools accept: the answers they return satisfy the checks and fit the wire, and
  the object of such an answer is parsed to that answer.
\<close>

section \<open>Checks\<close>

definition memory_ok :: "memory_record \<Rightarrow> bool" where
  "memory_ok r \<longleftrightarrow>
     OpaqueMemoryId (m_id r) \<and> length (m_title r) \<le> 256 \<and> length (m_content r) \<le> 8192 \<and>
     iso_datetime (m_createdAt r) \<and> length (m_provenance r) \<le> 512"

definition row_ok :: "search_row \<Rightarrow> bool" where
  "row_ok r \<longleftrightarrow>
     memory_ok (s_record r) \<and> isFinite (s_rank r) \<and> \<not> num_lt (s_rank r) 0 \<and> \<not> num_gt (s_rank r) 1"

definition cursor_ok :: "jsstring option \<Rightarrow> bool" where
  "cursor_ok c \<longleftrightarrow> (case c of None \<Rightarrow> True | Some s \<Rightarrow> OpaqueCursor s)"

definition search_ok :: "search_row list \<Rightarrow> jsstring option \<Rightarrow> bool" where
  "search_ok rs c \<longleftrightarrow> list_all row_ok rs \<and> length rs \<le> MAX_SEARCH_ROWS \<and> cursor_ok c"

definition recent_ok :: "memory_record list \<Rightarrow> jsstring option \<Rightarrow> bool" where
  "recent_ok rs c \<longleftrightarrow> list_all memory_ok rs \<and> length rs \<le> MAX_RECENT_ROWS \<and> cursor_ok c"

fun retrieve_ok :: "retrieve_result \<Rightarrow> bool" where
  "retrieve_ok (R_found r) = memory_ok r"
| "retrieve_ok (R_ambiguous rs) = (search_ok rs None \<and> 2 \<le> length rs)"
| "retrieve_ok R_no_match = True"
| "retrieve_ok (R_partial rs c) = search_ok rs (Some c)"

definition fits :: "read_answer \<Rightarrow> bool" where
  "fits a \<longleftrightarrow> withinMinimumWireResponseByteLimit (answer_val a)"

section \<open>Records\<close>

lemma z_max_val: "z_max n (VStr s) = (if length s \<le> n then Some s else None)"
  by (simp add: z_max_def z_refine_def)

lemma memory_fields_parsed:
  assumes "f ''id'' = VStr (m_id r)" "f ''title'' = VStr (m_title r)" "f ''content'' = VStr (m_content r)"
    "f ''contentTrust'' = VStr (js ''untrusted'')" "f ''createdAt'' = VStr (m_createdAt r)"
    "f ''provenanceSummary'' = VStr (m_provenance r)"
  shows "MemoryRecordFields f = (if memory_ok r then Some r else None)"
  by (simp add: MemoryRecordFields_def assms z_refine_def z_max_val z_literal_def memory_ok_def)

lemma memory_fields_Some: "MemoryRecordFields f = Some r \<Longrightarrow> memory_ok r"
  by (auto simp: MemoryRecordFields_def bind_eq_Some_conv z_simps z_max_def memory_ok_def)

lemma memory_val_parsed: "MemoryRecordSchema (memory_val r) = (if memory_ok r then Some r else None)"
proof -
  have "z_strict RECORD_KEYS (memory_val r) = Some (\<lambda>k. case map_of (memory_fields r) k of None \<Rightarrow> VUndef | Some v \<Rightarrow> v)"
    unfolding memory_val_def by (rule z_strict_obj) (simp add: memory_fields_def RECORD_KEYS_def)
  moreover have "MemoryRecordFields (\<lambda>k. case map_of (memory_fields r) k of None \<Rightarrow> VUndef | Some v \<Rightarrow> v) =
      (if memory_ok r then Some r else None)"
    by (rule memory_fields_parsed) (simp_all add: memory_fields_def)
  ultimately show ?thesis by (simp only: MemoryRecordSchema_def bind.bind_lunit)
qed

lemma z_rank_Some: "z_rank v = Some x \<longleftrightarrow> v = VNum x \<and> isFinite x \<and> \<not> num_lt x 0 \<and> \<not> num_gt x 1"
  by (cases v) (auto simp: z_rank_def)

lemma z_rank_val: "z_rank (VNum x) = (if isFinite x \<and> \<not> num_lt x 0 \<and> \<not> num_gt x 1 then Some x else None)"
  by (simp add: z_rank_def)

lemma search_row_parsed:
  assumes "fst ` set fs \<subseteq> set (RECORD_KEYS @ [''rank''])"
    "map_of fs ''id'' = Some (VStr (m_id r))" "map_of fs ''title'' = Some (VStr (m_title r))"
    "map_of fs ''content'' = Some (VStr (m_content r))" "map_of fs ''contentTrust'' = Some (VStr (js ''untrusted''))"
    "map_of fs ''createdAt'' = Some (VStr (m_createdAt r))"
    "map_of fs ''provenanceSummary'' = Some (VStr (m_provenance r))" "map_of fs ''rank'' = Some (VNum x)"
  shows "SearchResultSchema (obj fs) =
    (if row_ok \<lparr>s_record = r, s_rank = x\<rparr> then Some \<lparr>s_record = r, s_rank = x\<rparr> else None)"
proof -
  let ?f = "\<lambda>k. case map_of fs k of None \<Rightarrow> VUndef | Some v \<Rightarrow> v"
  have "MemoryRecordFields ?f = (if memory_ok r then Some r else None)"
    by (rule memory_fields_parsed) (simp_all add: assms)
  then show ?thesis
    by (simp add: SearchResultSchema_def z_strict_obj [OF assms(1)] assms(8) z_rank_val row_ok_def)
qed

lemma search_row_val_parsed: "SearchResultSchema (search_row_val r) = (if row_ok r then Some r else None)"
proof -
  have "SearchResultSchema (search_row_val r) =
      (if row_ok \<lparr>s_record = s_record r, s_rank = s_rank r\<rparr> then Some \<lparr>s_record = s_record r, s_rank = s_rank r\<rparr> else None)"
    unfolding search_row_val_def by (rule search_row_parsed) (simp_all add: memory_fields_def RECORD_KEYS_def)
  then show ?thesis by (cases r) simp
qed

lemma search_row_Some: "SearchResultSchema v = Some r \<Longrightarrow> row_ok r"
  by (auto simp: SearchResultSchema_def bind_eq_Some_conv z_rank_Some row_ok_def dest: memory_fields_Some)

lemma memory_Some: "MemoryRecordSchema v = Some r \<Longrightarrow> memory_ok r"
  by (auto simp: MemoryRecordSchema_def bind_eq_Some_conv dest: memory_fields_Some)

section \<open>Lists\<close>

text \<open>A list of values each of which parses to itself exactly when it is in order.\<close>

lemma z_array_map:
  assumes "\<And>x. f (g x) = (if p x then Some x else None)"
  shows "z_array f (VArr (map g xs)) = (if list_all p xs then Some xs else None)"
proof (cases "list_all p xs")
  case True
  then have "map f (map g xs) = map Some xs" using assms by (auto simp: list_all_iff)
  then have "z_array f (VArr (map g xs)) = Some xs" unfolding z_array_Some by blast
  with True show ?thesis by simp
next
  case False
  have "list_all p xs" if "z_array f (VArr (map g xs)) = Some ys" for ys
  proof -
    from that have e: "map (\<lambda>x. f (g x)) xs = map Some ys" by (auto simp: z_array_Some o_def)
    have "f (g x) \<noteq> None" if "x \<in> set xs" for x
    proof -
      have "f (g x) \<in> set (map Some ys)" using that unfolding e [symmetric] by simp
      then show ?thesis by auto
    qed
    then show ?thesis using assms by (auto simp: list_all_iff split: if_splits) (metis option.distinct(1))
  qed
  with False show ?thesis by (cases "z_array f (VArr (map g xs))") auto
qed

lemma z_array_all: "z_array f v = Some xs \<Longrightarrow> (\<And>w x. f w = Some x \<Longrightarrow> p x) \<Longrightarrow> list_all p xs"
proof -
  assume "z_array f v = Some xs" and p: "\<And>w x. f w = Some x \<Longrightarrow> p x"
  then obtain vs where "map f vs = map Some xs" by (auto simp: z_array_Some)
  then show "list_all p xs" by (induction xs arbitrary: vs) (auto simp: Cons_eq_map_conv p)
qed

lemma z_opt_cursor:
  "z_optional (z_refine OpaqueCursor z_string) (VStr s) = (if OpaqueCursor s then Some (Some s) else None)"
  "z_optional (z_refine OpaqueCursor z_string) VUndef = Some None"
  by (auto simp: z_optional_def z_refine_def)

lemma opt_cursor_Some: "z_optional (z_refine OpaqueCursor z_string) v = Some c \<Longrightarrow> cursor_ok c"
  by (auto simp: z_optional_Some z_refine_Some cursor_ok_def split: option.splits)

lemma field_opt_simps [simp]:
  "field_opt k f None = []" "field_opt k f (Some x) = [(k, f x)]"
  "map_of (field_opt k f y) k = map_option f y" "k' \<noteq> k \<Longrightarrow> map_of (field_opt k f y) k' = None"
  by (cases y; simp add: field_opt_def)+

lemma field_opt_keys: "fst ` set (field_opt k f x) \<subseteq> {k}"
  by (cases x) simp_all

section \<open>Successes\<close>

lemma search_success_fields:
  assumes "\<And>r. SearchResultSchema (g r) = (if row_ok r then Some r else None)"
  shows "MemorySearchSuccessSchema (obj ([(''ok'', VBool True), (''items'', VArr (map g rs))] @ field_opt ''nextCursor'' VStr c)) =
    (if search_ok rs c then Some (rs, c) else None)"
  using field_opt_keys [of "''nextCursor''" VStr c]
  by (subst MemorySearchSuccessSchema_def, subst z_strict_obj)
    (auto simp: z_bool_def z_refine_Some z_array_map [OF assms] z_opt_cursor search_ok_def cursor_ok_def z_refine_def [of "\<lambda>rs. length rs \<le> _"] split: option.split)

lemma search_success_parsed: "MemorySearchSuccessSchema (search_success_val rs c) = (if search_ok rs c then Some (rs, c) else None)"
  unfolding search_success_val_def by (rule search_success_fields) (rule search_row_val_parsed)

lemma search_success_Some: "MemorySearchSuccessSchema v = Some (rs, c) \<Longrightarrow> search_ok rs c"
  by (auto simp: MemorySearchSuccessSchema_def bind_eq_Some_conv z_refine_Some search_ok_def
      intro: opt_cursor_Some z_array_all search_row_Some)

lemma get_success_parsed: "MemoryGetSuccessSchema (get_success_val r) = (if memory_ok r then Some r else None)"
  by (simp add: MemoryGetSuccessSchema_def get_success_val_def z_strict_obj z_bool_def memory_val_parsed)

lemma get_success_Some: "MemoryGetSuccessSchema v = Some r \<Longrightarrow> memory_ok r"
  by (auto simp: MemoryGetSuccessSchema_def bind_eq_Some_conv dest: memory_Some)

lemma recent_success_fields:
  assumes "\<And>r. MemoryRecordSchema (g r) = (if memory_ok r then Some r else None)"
  shows "MemoryListRecentSuccessSchema (obj ([(''ok'', VBool True), (''items'', VArr (map g rs))] @ field_opt ''nextCursor'' VStr c)) =
    (if recent_ok rs c then Some (rs, c) else None)"
  using field_opt_keys [of "''nextCursor''" VStr c]
  by (subst MemoryListRecentSuccessSchema_def, subst z_strict_obj)
    (auto simp: z_bool_def z_refine_Some z_array_map [OF assms] z_opt_cursor recent_ok_def cursor_ok_def z_refine_def [of "\<lambda>rs. length rs \<le> _"] split: option.split)

lemma recent_success_Some: "MemoryListRecentSuccessSchema v = Some (rs, c) \<Longrightarrow> recent_ok rs c"
  by (auto simp: MemoryListRecentSuccessSchema_def bind_eq_Some_conv z_refine_Some recent_ok_def
      intro: opt_cursor_Some z_array_all memory_Some)

section \<open>Errors\<close>

lemma error_val_obj:
  "createReadToolError c = obj [(''ok'', VBool False), (''error'', obj [(''code'', VStr (error_code c)),
     (''message'', VStr (READ_TOOL_ERROR_MESSAGES c)), (''retryable'', VBool False)])]"
  by (simp add: createReadToolError_def obj_def)

lemma error_parsed: "ReadToolErrorOutputSchema (createReadToolError c) = Some (A_error c)"
proof -
  have "z_enum read_error_codes (VStr (error_code c)) = Some c" by (cases c) (simp_all add: z_enum_def read_error_codes_def)
  moreover have "ReadToolErrorSchema (obj fs) = do {
      c \<leftarrow> z_enum read_error_codes (case map_of fs ''code'' of None \<Rightarrow> VUndef | Some v \<Rightarrow> v);
      f \<leftarrow> z_strict [''code'', ''message'', ''retryable''] (obj fs);
      if f ''message'' = VStr (READ_TOOL_ERROR_MESSAGES c) \<and> f ''retryable'' = VBool False then Some c else None }" for fs
    by (simp add: ReadToolErrorSchema_def obj_def getp_obj)
  ultimately have "ReadToolErrorSchema (obj [(''code'', VStr (error_code c)), (''message'', VStr (READ_TOOL_ERROR_MESSAGES c)),
      (''retryable'', VBool False)]) = Some c"
    by (simp add: z_strict_obj)
  then show ?thesis by (simp add: ReadToolErrorOutputSchema_def error_val_obj z_strict_obj z_bool_def)
qed

lemma error_Some: "ReadToolErrorOutputSchema v = Some a \<Longrightarrow> \<exists>c. a = A_error c"
  by (auto simp: ReadToolErrorOutputSchema_def bind_eq_Some_conv)

lemma error_fits: "fits (A_error c)"
proof -
  have "ascii_val (createReadToolError c)" "weight (createReadToolError c) \<le> 400"
    by (cases c; simp add: createReadToolError_def js_def printable_def)+
  with read_wire_length [of "createReadToolError c"] show ?thesis
    by (simp add: fits_def withinMinimumWireResponseByteLimit_def limits)
qed

text \<open>A success is no error and an error no success: they differ in \<open>ok\<close>.\<close>

lemma success_no_error:
  "MemorySearchSuccessSchema (createReadToolError c) = None" "MemoryGetSuccessSchema (createReadToolError c) = None"
  "MemoryListRecentSuccessSchema (createReadToolError c) = None" "MemoryRetrieveSuccessOutputSchema (createReadToolError c) = None"
  by (simp_all add: error_val_obj MemorySearchSuccessSchema_def MemoryGetSuccessSchema_def MemoryListRecentSuccessSchema_def
      z_strict_def z_bool_def) (simp_all add: obj_def getp_def MemoryRetrieveSuccessOutputSchema_def)

section \<open>Retrievals\<close>

lemma retrieval_parsed:
  "MemoryRetrieveRetrievalBaseSchema (retrieval_val q) = (if length q \<le> MAX_QUERY_LENGTH then Some q else None)"
  by (simp add: MemoryRetrieveRetrievalBaseSchema_def retrieval_val_def z_strict_obj z_literal_def z_max_val)

lemma retrieval_Some: "MemoryRetrieveRetrievalBaseSchema v = Some q \<Longrightarrow> length q \<le> MAX_QUERY_LENGTH"
  by (auto simp: MemoryRetrieveRetrievalBaseSchema_def bind_eq_Some_conv z_max_def z_refine_Some)

lemma no_match_parsed: "scoped_no_match_result (search_success_val [] None) = Some R_no_match"
  by (simp add: scoped_no_match_result_def search_success_val_def z_strict_obj z_bool_def z_refine_def z_array_def)

lemma ambiguous_parsed:
  "ambiguous_result (search_success_val rs None) = (if search_ok rs None \<and> 2 \<le> length rs then Some (R_ambiguous rs) else None)"
  by (simp add: ambiguous_result_def search_success_parsed)

lemma partial_parsed:
  "partial_result (search_success_val rs (Some c)) = (if search_ok rs (Some c) then Some (R_partial rs c) else None)"
  by (simp add: partial_result_def search_success_parsed)

lemma ambiguous_Some: "ambiguous_result v = Some r \<Longrightarrow> retrieve_ok r \<and> outcome_name r = ''ambiguous''"
  using search_success_Some [of v] by (auto simp: ambiguous_result_def split: option.splits prod.splits if_splits)

lemma partial_Some: "partial_result v = Some r \<Longrightarrow> retrieve_ok r \<and> outcome_name r = ''partial''"
  using search_success_Some [of v] by (auto simp: partial_result_def split: option.splits prod.splits if_splits)

lemma no_match_Some: "scoped_no_match_result v = Some r \<Longrightarrow> r = R_no_match"
  by (auto simp: scoped_no_match_result_def bind_eq_Some_conv split: if_splits)

definition retrieve_obj :: "string \<Rightarrow> jsstring \<Rightarrow> jsval \<Rightarrow> jsval" where
  "retrieve_obj outcome q result =
     obj [(''ok'', VBool True), (''outcome'', VStr (js outcome)), (''completeness'', VStr (js ''unknown'')),
       (''retrieval'', retrieval_val q), (''result'', result)]"

lemma member_parsed:
  "retrieve_member outcome f (retrieve_obj outcome q w) =
     (if length q \<le> MAX_QUERY_LENGTH then map_option (A_retrieve q) (f w) else None)"
  by (cases "f w") (simp_all add: retrieve_member_def retrieve_obj_def z_strict_obj z_bool_def z_literal_def retrieval_parsed)

lemma member_Some:
  "retrieve_member outcome f v = Some a \<Longrightarrow> \<exists>q r w. a = A_retrieve q r \<and> length q \<le> MAX_QUERY_LENGTH \<and> f w = Some r"
  by (auto simp: retrieve_member_def bind_eq_Some_conv dest: retrieval_Some)

lemma retrieve_dispatch:
  "MemoryRetrieveSuccessOutputSchema (retrieve_obj outcome q w) =
     (if outcome = ''found''
      then retrieve_member ''found'' (\<lambda>w. map_option R_found (MemoryGetSuccessSchema w)) (retrieve_obj outcome q w)
      else if outcome = ''ambiguous'' then retrieve_member ''ambiguous'' ambiguous_result (retrieve_obj outcome q w)
      else if outcome = ''scoped_no_match'' then retrieve_member ''scoped_no_match'' scoped_no_match_result (retrieve_obj outcome q w)
      else if outcome = ''partial'' then retrieve_member ''partial'' partial_result (retrieve_obj outcome q w)
      else None)"
  by (simp add: MemoryRetrieveSuccessOutputSchema_def retrieve_obj_def obj_def getp_def)

lemma retrieve_val_obj: "answer_val (A_retrieve q r) = retrieve_obj (outcome_name r) q (retrieve_result_val r)"
  by (simp add: retrieve_obj_def)

lemma retrieve_success_parsed:
  "MemoryRetrieveSuccessOutputSchema (answer_val (A_retrieve q r)) =
     (if length q \<le> MAX_QUERY_LENGTH \<and> retrieve_ok r then Some (A_retrieve q r) else None)"
  unfolding retrieve_val_obj retrieve_dispatch
  by (cases r) (simp_all add: member_parsed get_success_parsed ambiguous_parsed no_match_parsed partial_parsed)

lemma retrieve_success_Some:
  assumes "MemoryRetrieveSuccessOutputSchema v = Some a"
  shows "\<exists>q r. a = A_retrieve q r \<and> length q \<le> MAX_QUERY_LENGTH \<and> retrieve_ok r"
proof -
  from assms have "retrieve_member ''found'' (\<lambda>w. map_option R_found (MemoryGetSuccessSchema w)) v = Some a \<or>
      retrieve_member ''ambiguous'' ambiguous_result v = Some a \<or>
      retrieve_member ''scoped_no_match'' scoped_no_match_result v = Some a \<or> retrieve_member ''partial'' partial_result v = Some a"
    by (simp add: MemoryRetrieveSuccessOutputSchema_def Let_def split: jsval.splits if_splits)
  then show ?thesis
  proof (elim disjE)
    assume "retrieve_member ''found'' (\<lambda>w. map_option R_found (MemoryGetSuccessSchema w)) v = Some a"
    from member_Some [OF this] show ?thesis by (auto dest: get_success_Some)
  next
    assume "retrieve_member ''ambiguous'' ambiguous_result v = Some a"
    from member_Some [OF this] show ?thesis by (auto dest: ambiguous_Some)
  next
    assume "retrieve_member ''scoped_no_match'' scoped_no_match_result v = Some a"
    from member_Some [OF this] show ?thesis by (auto dest: no_match_Some)
  next
    assume "retrieve_member ''partial'' partial_result v = Some a"
    from member_Some [OF this] show ?thesis by (auto dest: partial_Some)
  qed
qed

section \<open>Answers of the tools\<close>

fun answer_ok :: "read_answer \<Rightarrow> bool" where
  "answer_ok (A_error c) = True"
| "answer_ok (A_search rs c) = search_ok rs c"
| "answer_ok (A_get r) = memory_ok r"
| "answer_ok (A_recent rs c) = recent_ok rs c"
| "answer_ok (A_retrieve q r) = (length q \<le> MAX_QUERY_LENGTH \<and> retrieve_ok r)"

lemma bounded_Some: "bounded_answer f v = Some a \<Longrightarrow> fits a \<and> (f v = Some a \<or> (\<exists>c. a = A_error c))"
  by (auto simp: bounded_answer_def z_refine_Some z_union_def fits_def split: option.splits dest: error_Some)

lemma bounded_val: "f (answer_val a) = Some a \<Longrightarrow> fits a \<Longrightarrow> bounded_answer f (answer_val a) = Some a"
  by (simp add: bounded_answer_def z_refine_Some z_union_def fits_def)

lemma bounded_error: "f (createReadToolError c) = None \<Longrightarrow> bounded_answer f (createReadToolError c) = Some (A_error c)"
  using error_fits [of c] by (simp add: bounded_answer_def z_refine_Some z_union_def fits_def error_parsed)

lemma search_output_Some:
  "MemorySearchOutputSchema v = Some a \<Longrightarrow> fits a \<and> answer_ok a \<and> ((\<exists>rs c. a = A_search rs c) \<or> (\<exists>c. a = A_error c))"
  unfolding MemorySearchOutputSchema_def by (drule bounded_Some) (auto dest: search_success_Some)

lemma get_output_Some:
  "MemoryGetOutputSchema v = Some a \<Longrightarrow> fits a \<and> answer_ok a \<and> ((\<exists>r. a = A_get r) \<or> (\<exists>c. a = A_error c))"
  unfolding MemoryGetOutputSchema_def by (drule bounded_Some) (auto dest: get_success_Some)

lemma recent_output_Some:
  "MemoryListRecentOutputSchema v = Some a \<Longrightarrow> fits a \<and> answer_ok a \<and> ((\<exists>rs c. a = A_recent rs c) \<or> (\<exists>c. a = A_error c))"
  unfolding MemoryListRecentOutputSchema_def by (drule bounded_Some) (auto dest: recent_success_Some)

lemma retrieve_output_Some:
  "MemoryRetrieveOutputSchema v = Some a \<Longrightarrow> fits a \<and> answer_ok a \<and> ((\<exists>q r. a = A_retrieve q r) \<or> (\<exists>c. a = A_error c))"
  unfolding MemoryRetrieveOutputSchema_def by (drule bounded_Some) (auto dest: retrieve_success_Some)

text \<open>The object of an answer in order is parsed to that answer by the schema of its tool.\<close>

lemma search_answer_parsed: "fits (A_search rs c) \<Longrightarrow> search_ok rs c \<Longrightarrow> MemorySearchOutputSchema (answer_val (A_search rs c)) = Some (A_search rs c)"
  unfolding MemorySearchOutputSchema_def by (rule bounded_val) (simp_all add: search_success_parsed)

lemma get_answer_parsed: "fits (A_get r) \<Longrightarrow> memory_ok r \<Longrightarrow> MemoryGetOutputSchema (answer_val (A_get r)) = Some (A_get r)"
  unfolding MemoryGetOutputSchema_def by (rule bounded_val) (simp_all add: get_success_parsed)

lemma recent_answer_parsed: "fits (A_recent rs c) \<Longrightarrow> recent_ok rs c \<Longrightarrow> MemoryListRecentOutputSchema (answer_val (A_recent rs c)) = Some (A_recent rs c)"
  unfolding MemoryListRecentOutputSchema_def
  by (rule bounded_val) (simp_all add: recent_success_fields [OF memory_val_parsed, simplified])

lemma retrieve_answer_parsed:
  "fits (A_retrieve q r) \<Longrightarrow> length q \<le> MAX_QUERY_LENGTH \<Longrightarrow> retrieve_ok r \<Longrightarrow>
   MemoryRetrieveOutputSchema (answer_val (A_retrieve q r)) = Some (A_retrieve q r)"
  unfolding MemoryRetrieveOutputSchema_def by (rule bounded_val) (simp_all only: retrieve_success_parsed, simp)

lemma error_answer_parsed:
  "MemorySearchOutputSchema (createReadToolError c) = Some (A_error c)" "MemoryGetOutputSchema (createReadToolError c) = Some (A_error c)"
  "MemoryListRecentOutputSchema (createReadToolError c) = Some (A_error c)" "MemoryRetrieveOutputSchema (createReadToolError c) = Some (A_error c)"
  unfolding MemorySearchOutputSchema_def MemoryGetOutputSchema_def MemoryListRecentOutputSchema_def MemoryRetrieveOutputSchema_def
  by (rule bounded_error, simp add: success_no_error)+

section \<open>Requests\<close>

text \<open>White space is trimmed once: a parsed request is parsed to itself.\<close>

lemma dropWhile_idem: "dropWhile p (dropWhile p xs) = dropWhile p xs"
  by (induction xs) auto

lemma trimEnd_no_end: "trimEnd s = s \<longleftrightarrow> s = [] \<or> \<not> is_space (last s)"
proof (cases s rule: rev_cases)
  case (snoc r u)
  have "length (dropWhile is_space (rev r)) \<le> length r" using length_dropWhile_le [of is_space "rev r"] by simp
  then have "rev (dropWhile is_space (rev r)) \<noteq> r @ [u]" by (metis add.commute length_append_singleton length_rev not_less_eq_eq order_refl)
  with snoc show ?thesis by (simp add: trimEnd_def)
qed (simp add: trimEnd_def)

lemma trimmed_iff: "trim s = s \<longleftrightarrow> s = [] \<or> \<not> is_space (hd s) \<and> \<not> is_space (last s)"
proof
  assume t: "trim s = s"
  have "length (dropWhile is_space (trimEnd s)) \<le> length (trimEnd s)" by (rule length_dropWhile_le)
  moreover have "length (trimEnd s) \<le> length s" using length_dropWhile_le [of is_space "rev s"] by (simp add: trimEnd_def)
  moreover have "trimEnd s = takeWhile is_space (trimEnd s) @ trim s" by (simp add: trim_def)
  ultimately have e: "trimEnd s = s" using t
    by (metis append_eq_append_conv append_Nil le_antisym length_append trim_def self_append_conv2)
  then have "dropWhile is_space s = s" using t by (simp add: trim_def)
  then have "s = [] \<or> \<not> is_space (hd s)" by (metis hd_dropWhile)
  with e show "s = [] \<or> \<not> is_space (hd s) \<and> \<not> is_space (last s)" using trimEnd_no_end by blast
next
  assume s: "s = [] \<or> \<not> is_space (hd s) \<and> \<not> is_space (last s)"
  then have "trimEnd s = s" using trimEnd_no_end by blast
  with s show "trim s = s" by (cases s) (auto simp: trim_def)
qed

lemma trim_trim [simp]: "trim (trim s) = trim s"
proof (cases "trim s = []")
  case False
  have "trimEnd s = [] \<or> \<not> is_space (last (trimEnd s))"
    using hd_dropWhile [of is_space "rev s"]
    by (cases "dropWhile is_space (rev s) = []") (auto simp: trimEnd_def last_rev simp del: dropWhile_eq_Nil_conv)
  moreover have "\<not> is_space (hd (trim s))" using False unfolding trim_def by (metis hd_dropWhile)
  moreover have "trim s = [] \<or> last (trim s) = last (trimEnd s)"
    unfolding trim_def by (metis last_appendR takeWhile_dropWhile_id)
  ultimately show ?thesis using False by (subst trimmed_iff) (auto simp: trim_def)
next
  case True
  moreover have "trim [] = []" by (simp add: trim_def trimEnd_def)
  ultimately show ?thesis by simp
qed

definition tags_ok :: "jsstring list \<Rightarrow> bool" where
  "tags_ok ts \<longleftrightarrow> length ts \<le> MAX_FILTERS \<and> list_all (\<lambda>t. trim t = t \<and> 1 \<le> length t \<and> length t \<le> 64) ts"

definition filters_ok :: "search_filters \<Rightarrow> bool" where
  "filters_ok f \<longleftrightarrow>
     pred_option tags_ok (tags f) \<and> pred_option iso_datetime (createdAfter f) \<and> pred_option iso_datetime (createdBefore f) \<and>
     count_filters f \<le> MAX_FILTERS \<and> ordered_dates f"

definition query_ok :: "jsstring \<Rightarrow> bool" where
  "query_ok q \<longleftrightarrow> trim q = q \<and> 1 \<le> length q \<and> length q \<le> MAX_QUERY_LENGTH"

definition search_input_ok :: "search_input \<Rightarrow> bool" where
  "search_input_ok i \<longleftrightarrow>
     query_ok (sq_query i) \<and> pred_option filters_ok (sq_filters i) \<and>
     1 \<le> sq_limit i \<and> sq_limit i \<le> MAX_SEARCH_ROWS \<and> cursor_ok (sq_cursor i)"

definition recent_input_ok :: "recent_input \<Rightarrow> bool" where
  "recent_input_ok i \<longleftrightarrow>
     pred_option (pred_option tags_ok) (ri_tags i) \<and> 1 \<le> ri_limit i \<and> ri_limit i \<le> MAX_RECENT_ROWS \<and> cursor_ok (ri_cursor i)"

lemma z_trimmed_Some: "z_trimmed lo hi v = Some s \<Longrightarrow> trim s = s \<and> lo \<le> length s \<and> length s \<le> hi"
  by (auto simp: z_trimmed_def z_refine_Some)

lemma z_trimmed_val: "z_trimmed lo hi (VStr s) = (if lo \<le> length (trim s) \<and> length (trim s) \<le> hi then Some (trim s) else None)"
  by (simp add: z_trimmed_def z_refine_def)

lemma z_tags_Some: "z_tags v = Some ts \<Longrightarrow> tags_ok ts"
  unfolding z_tags_def z_refine_Some tags_ok_def by (elim conjE, rule conjI, assumption, erule z_array_all) (rule z_trimmed_Some)

lemma z_tags_val: "tags_ok ts \<Longrightarrow> z_tags (tags_val ts) = Some ts"
proof -
  assume ts: "tags_ok ts"
  then have "map (z_trimmed 1 64) (map VStr ts) = map Some ts" by (auto simp: tags_ok_def list_all_iff z_trimmed_val)
  then have "z_array (z_trimmed 1 64) (tags_val ts) = Some ts" unfolding z_array_Some tags_val_def by blast
  with ts show ?thesis by (simp add: z_tags_def z_refine_def tags_ok_def)
qed

lemma tags_val_object: "tags_val ts \<noteq> VUndef"
  by (simp add: tags_val_def)

lemma optional_Some: "z_optional f v = Some x \<Longrightarrow> (\<And>w y. f w = Some y \<Longrightarrow> p y) \<Longrightarrow> pred_option p x"
  by (cases x) (auto simp: z_optional_Some)

lemma optional_field:
  "pred_option p x \<Longrightarrow> (\<And>y. p y \<Longrightarrow> f (g y) = Some y \<and> g y \<noteq> VUndef) \<Longrightarrow>
   z_optional f (case map_option g x of None \<Rightarrow> VUndef | Some v \<Rightarrow> v) = Some x"
  by (cases x) (auto simp: z_optional_Some)

lemma default_Some: "z_default d f v = Some x \<Longrightarrow> p d \<Longrightarrow> (\<And>w y. f w = Some y \<Longrightarrow> p y) \<Longrightarrow> p x"
  by (auto simp: z_default_def split: if_splits)

lemma filters_Some: "SearchFiltersSchema v = Some f \<Longrightarrow> filters_ok f"
  by (auto simp: SearchFiltersSchema_def bind_eq_Some_conv Let_def filters_ok_def z_refine_Some
      split: if_splits intro: optional_Some [OF _ z_tags_Some] optional_Some)

lemma search_input_Some: "MemorySearchInputSchema v = Some i \<Longrightarrow> search_input_ok i"
proof -
  assume "MemorySearchInputSchema v = Some i"
  then obtain f where f: "z_trimmed 1 MAX_QUERY_LENGTH (f ''query'') = Some (sq_query i)"
    "z_optional SearchFiltersSchema (f ''filters'') = Some (sq_filters i)"
    "z_default MAX_SEARCH_ROWS (z_nat 1 MAX_SEARCH_ROWS) (f ''limit'') = Some (sq_limit i)"
    "z_optional (z_refine OpaqueCursor z_string) (f ''cursor'') = Some (sq_cursor i)"
    by (auto simp: MemorySearchInputSchema_def bind_eq_Some_conv)
  have "1 \<le> sq_limit i \<and> sq_limit i \<le> MAX_SEARCH_ROWS" by (rule default_Some [OF f(3)]) (simp_all add: z_nat_Some limits)
  moreover have "pred_option filters_ok (sq_filters i)" by (rule optional_Some [OF f(2)]) (rule filters_Some)
  ultimately show ?thesis
    using z_trimmed_Some [OF f(1)] opt_cursor_Some [OF f(4)] by (simp add: search_input_ok_def query_ok_def)
qed

lemma filters_val_parsed: "filters_ok f \<Longrightarrow> SearchFiltersSchema (filters_val f) = Some f"
proof -
  assume f: "filters_ok f"
  let ?fs = "field_opt ''tags'' tags_val (tags f) @ field_opt ''createdAfter'' VStr (createdAfter f) @ field_opt ''createdBefore'' VStr (createdBefore f)"
  let ?g = "\<lambda>k. case map_of ?fs k of None \<Rightarrow> VUndef | Some v \<Rightarrow> v"
  have keys: "fst ` set ?fs \<subseteq> set [''tags'', ''createdAfter'', ''createdBefore'']"
    using field_opt_keys [of "''tags''" tags_val "tags f"] field_opt_keys [of "''createdAfter''" VStr "createdAfter f"]
      field_opt_keys [of "''createdBefore''" VStr "createdBefore f"] by (auto simp: image_Un)
  have g: "?g ''tags'' = (case map_option tags_val (tags f) of None \<Rightarrow> VUndef | Some v \<Rightarrow> v)"
    "?g ''createdAfter'' = (case map_option VStr (createdAfter f) of None \<Rightarrow> VUndef | Some v \<Rightarrow> v)"
    "?g ''createdBefore'' = (case map_option VStr (createdBefore f) of None \<Rightarrow> VUndef | Some v \<Rightarrow> v)"
    by (simp_all add: map_add_def split: option.split)
  have "z_optional z_tags (?g ''tags'') = Some (tags f)"
    unfolding g by (rule optional_field [of tags_ok]) (use f in \<open>auto simp: filters_ok_def z_tags_val tags_val_object\<close>)
  moreover have "z_optional (z_refine iso_datetime z_string) (?g ''createdAfter'') = Some (createdAfter f)"
    "z_optional (z_refine iso_datetime z_string) (?g ''createdBefore'') = Some (createdBefore f)"
    unfolding g by (rule optional_field [of iso_datetime]; use f in \<open>auto simp: filters_ok_def z_refine_def\<close>)+
  moreover have "\<lparr>tags = tags f, createdAfter = createdAfter f, createdBefore = createdBefore f\<rparr> = f" by simp
  ultimately show ?thesis
    using f by (simp only: SearchFiltersSchema_def filters_val_def z_strict_obj [OF keys] bind.bind_lunit Let_def)
      (simp add: filters_ok_def)
qed

lemma filters_val_object: "filters_val f \<noteq> VUndef"
  by (simp add: filters_val_def obj_def)

lemma mode_parsed: "z_default Mode_text z_mode (mode_val m) = Some m"
  by (cases m) (simp_all add: z_default_def z_mode_def z_enum_def)

lemma search_input_parsed: "search_input_ok i \<Longrightarrow> MemorySearchInputSchema (search_input_val i) = Some i"
proof -
  assume i: "search_input_ok i"
  let ?fs = "[(''query'', VStr (sq_query i)), (''mode'', mode_val (sq_mode i))] @ field_opt ''filters'' filters_val (sq_filters i)
       @ [(''limit'', num (sq_limit i))] @ field_opt ''cursor'' VStr (sq_cursor i)"
  let ?g = "\<lambda>k. case map_of ?fs k of None \<Rightarrow> VUndef | Some v \<Rightarrow> v"
  have keys: "fst ` set ?fs \<subseteq> set [''query'', ''mode'', ''filters'', ''limit'', ''cursor'']"
    using field_opt_keys [of "''filters''" filters_val "sq_filters i"] field_opt_keys [of "''cursor''" VStr "sq_cursor i"]
    by (auto simp: image_Un)
  have g: "?g ''query'' = VStr (sq_query i)" "?g ''mode'' = mode_val (sq_mode i)" "?g ''limit'' = num (sq_limit i)"
    "?g ''filters'' = (case map_option filters_val (sq_filters i) of None \<Rightarrow> VUndef | Some v \<Rightarrow> v)"
    "?g ''cursor'' = (case map_option VStr (sq_cursor i) of None \<Rightarrow> VUndef | Some v \<Rightarrow> v)"
    by (simp_all add: map_add_def split: option.splits)
  have "z_optional SearchFiltersSchema (?g ''filters'') = Some (sq_filters i)"
    unfolding g by (rule optional_field [of filters_ok]) (use i in \<open>auto simp: search_input_ok_def filters_val_parsed filters_val_object\<close>)
  moreover have "z_optional (z_refine OpaqueCursor z_string) (?g ''cursor'') = Some (sq_cursor i)"
    unfolding g by (rule optional_field [of OpaqueCursor]) (use i in \<open>auto simp: search_input_ok_def cursor_ok_def z_refine_def split: option.splits\<close>)
  moreover have "z_trimmed 1 MAX_QUERY_LENGTH (?g ''query'') = Some (sq_query i)"
    unfolding g using i by (simp add: z_trimmed_val search_input_ok_def query_ok_def)
  moreover have "z_default MAX_SEARCH_ROWS (z_nat 1 MAX_SEARCH_ROWS) (?g ''limit'') = Some (sq_limit i)"
    unfolding g using i by (simp add: z_default_def parse_num search_input_ok_def limits MAX_SAFE_INTEGER_def) (simp add: num_def)
  moreover have "z_default Mode_text z_mode (?g ''mode'') = Some (sq_mode i)" unfolding g by (rule mode_parsed)
  ultimately show ?thesis
    by (simp only: MemorySearchInputSchema_def search_input_val_def z_strict_obj [OF keys] bind.bind_lunit) simp
qed

end
