(* ===== verification/Memory_Tools.thy ===== *)
theory Memory_Tools
  imports Supabase_Client Memory_Answers Governor "HOL-Library.List_Lexorder"
begin

text \<open>
  \<open>memory-search.ts\<close>, \<open>memory-get.ts\<close> and \<open>memory-list-recent.ts\<close> of \<open>packages/server/src\<close>, with the
  descriptors of \<open>read-tools.ts\<close>. A client is the function a tool awaits: it answers rows or throws, and what it
  throws is known by its \<open>code\<close> property (\<open>None\<close>: there is none). \<open>aborted\<close> is \<open>controller.signal.aborted\<close> when
  the exception is caught.
\<close>

section \<open>Descriptors\<close>

definition READ_TOOL_ERROR_MAPPING :: error_mapping where
  "READ_TOOL_ERROR_MAPPING =
     \<lparr>em_validation = INVALID_REQUEST, em_unavailable = RESOURCE_UNAVAILABLE,
      em_responseLimit = RT_RESPONSE_LIMIT_EXCEEDED, em_timeout = DEADLINE_EXCEEDED, em_unexpected = INTERNAL_ERROR\<rparr>"

definition MEMORY_SEARCH_TOOL :: descriptor where
  "MEMORY_SEARCH_TOOL =
     \<lparr>operation = js ''authorized_memory_search_v1'',
      inputSchema = (\<lambda>v. map_option search_input_val (MemorySearchInputSchema v)),
      outputSchema = (\<lambda>v. map_option answer_val (MemorySearchOutputSchema v)),
      maxRows = MAX_SEARCH_ROWS, maxResponseBytes = MAX_RESPONSE_BYTES, errorMapping = READ_TOOL_ERROR_MAPPING\<rparr>"

definition MEMORY_GET_TOOL :: descriptor where
  "MEMORY_GET_TOOL =
     \<lparr>operation = js ''authorized_memory_get_v1'',
      inputSchema = (\<lambda>v. map_option get_input_val (MemoryGetInputSchema v)),
      outputSchema = (\<lambda>v. map_option answer_val (MemoryGetOutputSchema v)),
      maxRows = 1, maxResponseBytes = MAX_RESPONSE_BYTES, errorMapping = READ_TOOL_ERROR_MAPPING\<rparr>"

definition MEMORY_LIST_RECENT_TOOL :: descriptor where
  "MEMORY_LIST_RECENT_TOOL =
     \<lparr>operation = js ''authorized_memory_list_recent_v1'',
      inputSchema = (\<lambda>v. map_option recent_input_val (MemoryListRecentInputSchema v)),
      outputSchema = (\<lambda>v. map_option answer_val (MemoryListRecentOutputSchema v)),
      maxRows = MAX_RECENT_ROWS, maxResponseBytes = MAX_RESPONSE_BYTES, errorMapping = READ_TOOL_ERROR_MAPPING\<rparr>"

text \<open>The check of the constructors' \<open>timeoutMs\<close>; a timeout that fails it is a \<open>TypeError\<close>.\<close>

definition tool_timeout :: "jsnum option \<Rightarrow> jsnum option" where
  "tool_timeout option_ms =
     (let timeoutMs = (case option_ms of None \<Rightarrow> JInt MAX_TOOL_EXECUTION_MS | Some t \<Rightarrow> t)
      in if \<not> isSafeInteger timeoutMs \<or> \<not> num_gt timeoutMs 0 \<or> num_gt timeoutMs MAX_TOOL_EXECUTION_MS then None
         else Some timeoutMs)"

section \<open>Candidates\<close>

text \<open>\<open>{ ...row, contentTrust: 'untrusted' }\<close>, in the order of the client's rows.\<close>

definition client_fields :: "memory_record \<Rightarrow> (string \<times> jsval) list" where
  "client_fields r =
     [(''id'', VStr (m_id r)), (''title'', VStr (m_title r)), (''content'', VStr (m_content r)),
      (''createdAt'', VStr (m_createdAt r)), (''provenanceSummary'', VStr (m_provenance r))]"

definition UNTRUSTED :: "string \<times> jsval" where
  "UNTRUSTED = (''contentTrust'', VStr (js ''untrusted''))"

definition mapRow :: "memory_record \<Rightarrow> jsval" where
  "mapRow r = obj (client_fields r @ [UNTRUSTED])"

definition mapSearchRow :: "search_row \<Rightarrow> jsval" where
  "mapSearchRow r = obj (client_fields (s_record r) @ [(''rank'', VNum (s_rank r)), UNTRUSTED])"

definition items_candidate :: "jsval list \<Rightarrow> jsstring option \<Rightarrow> jsval" where
  "items_candidate rows nextCursor =
     obj ([(''ok'', VBool True), (''items'', VArr rows)] @ field_opt ''nextCursor'' VStr nextCursor)"

definition get_candidate :: "memory_record \<Rightarrow> jsval" where
  "get_candidate r = obj [(''ok'', VBool True), (''record'', mapRow r)]"

definition oversized :: "jsval \<Rightarrow> bool" where
  "oversized cand \<longleftrightarrow> MAX_RESPONSE_BYTES < readToolWireResponseByteLength IdNull cand"

section \<open>Errors\<close>

definition mapClientError :: "jsval option \<Rightarrow> read_error" where
  "mapClientError code =
     (if code = Some (VStr (client_code FIXED_CLIENT_TIMEOUT)) then DEADLINE_EXCEEDED
      else if code = Some (VStr (client_code FIXED_CLIENT_RESPONSE_TOO_LARGE)) then RT_RESPONSE_LIMIT_EXCEEDED
      else if code = Some (VStr (client_code FIXED_CLIENT_INVALID_REQUEST)) \<or>
              code = Some (VStr (client_code FIXED_CLIENT_INVALID_CURSOR)) then INVALID_REQUEST
      else INTERNAL_ERROR)"

definition normalizeError :: "jsval option \<Rightarrow> bool \<Rightarrow> read_error" where
  "normalizeError code aborted = (if aborted then DEADLINE_EXCEEDED else mapClientError code)"

section \<open>The tools\<close>

type_synonym 'a answered = "jsval option + 'a"

definition memory_search_raw ::
    "(search_input \<Rightarrow> (search_row list \<times> jsstring option) answered) \<Rightarrow> bool \<Rightarrow> jsval \<Rightarrow> read_answer" where
  "memory_search_raw client aborted unsafeInput =
     (case MemorySearchInputSchema unsafeInput of
        None \<Rightarrow> A_error INVALID_REQUEST
      | Some input \<Rightarrow>
          (case client input of
             Inl code \<Rightarrow> A_error (normalizeError code aborted)
           | Inr (rows, nextCursor) \<Rightarrow>
               (let cand = items_candidate (map mapSearchRow rows) nextCursor
                in if oversized cand then A_error RT_RESPONSE_LIMIT_EXCEEDED
                   else (case MemorySearchOutputSchema cand of
                           None \<Rightarrow> A_error INTERNAL_ERROR
                         | Some validated \<Rightarrow> validated))))"

definition memory_get_raw ::
    "(jsstring \<Rightarrow> memory_record option answered) \<Rightarrow> bool \<Rightarrow> jsval \<Rightarrow> read_answer" where
  "memory_get_raw client aborted unsafeInput =
     (case MemoryGetInputSchema unsafeInput of
        None \<Rightarrow> A_error INVALID_REQUEST
      | Some input \<Rightarrow>
          (case client input of
             Inl code \<Rightarrow> A_error (normalizeError code aborted)
           | Inr None \<Rightarrow> A_error RESOURCE_UNAVAILABLE
           | Inr (Some r) \<Rightarrow>
               (let cand = get_candidate r
                in case MemoryGetOutputSchema cand of
                     None \<Rightarrow> A_error (if oversized cand then RT_RESPONSE_LIMIT_EXCEEDED else INTERNAL_ERROR)
                   | Some validated \<Rightarrow> validated)))"

text \<open>The order of \<open>created_at_desc_id_desc\<close>: strings compare by their code units.\<close>

definition not_before :: "memory_record \<Rightarrow> memory_record \<Rightarrow> bool" where
  "not_before previous current \<longleftrightarrow>
     m_createdAt current < m_createdAt previous \<or>
     m_createdAt previous = m_createdAt current \<and> m_id current \<le> m_id previous"

fun isOrdered :: "memory_record list \<Rightarrow> bool" where
  "isOrdered (previous # current # rows) = (not_before previous current \<and> isOrdered (current # rows))"
| "isOrdered _ = True"

definition memory_list_recent_raw ::
    "(recent_input \<Rightarrow> (memory_record list \<times> jsstring option) answered) \<Rightarrow> bool \<Rightarrow> jsval \<Rightarrow> read_answer" where
  "memory_list_recent_raw client aborted unsafeInput =
     (case MemoryListRecentInputSchema unsafeInput of
        None \<Rightarrow> A_error INVALID_REQUEST
      | Some input \<Rightarrow>
          (case client input of
             Inl code \<Rightarrow> A_error (normalizeError code aborted)
           | Inr (rows, nextCursor) \<Rightarrow>
               if \<not> isOrdered rows then A_error INTERNAL_ERROR
               else
                 (let cand = items_candidate (map mapRow rows) nextCursor
                  in case MemoryListRecentOutputSchema cand of
                       None \<Rightarrow> A_error (if oversized cand then RT_RESPONSE_LIMIT_EXCEEDED else INTERNAL_ERROR)
                     | Some validated \<Rightarrow> validated)))"

text \<open>The object of the missing record's error is the public one.\<close>

lemma missing_is_public: "answer_val (A_error RESOURCE_UNAVAILABLE) = publicMemoryGetUnavailable reason"
  by (simp add: publicMemoryGetUnavailable_def PUBLIC_MEMORY_GET_UNAVAILABLE_def createReadToolError_def)

section \<open>When a cand is accepted\<close>

lemma mapRow_parsed: "MemoryRecordSchema (mapRow r) = (if memory_ok r then Some r else None)"
proof -
  have "z_strict RECORD_KEYS (mapRow r) =
      Some (\<lambda>k. case map_of (client_fields r @ [UNTRUSTED]) k of None \<Rightarrow> VUndef | Some v \<Rightarrow> v)"
    unfolding mapRow_def by (rule z_strict_obj) (simp add: client_fields_def UNTRUSTED_def RECORD_KEYS_def)
  moreover have "MemoryRecordFields (\<lambda>k. case map_of (client_fields r @ [UNTRUSTED]) k of None \<Rightarrow> VUndef | Some v \<Rightarrow> v) =
      (if memory_ok r then Some r else None)"
    by (rule memory_fields_parsed) (simp_all add: client_fields_def UNTRUSTED_def)
  ultimately show ?thesis by (simp add: MemoryRecordSchema_def)
qed

lemma mapSearchRow_parsed: "SearchResultSchema (mapSearchRow r) = (if row_ok r then Some r else None)"
proof -
  have "SearchResultSchema (mapSearchRow r) =
      (if row_ok \<lparr>s_record = s_record r, s_rank = s_rank r\<rparr> then Some \<lparr>s_record = s_record r, s_rank = s_rank r\<rparr> else None)"
    unfolding mapSearchRow_def
    by (rule search_row_parsed) (simp_all add: client_fields_def UNTRUSTED_def RECORD_KEYS_def)
  then show ?thesis by (cases r) simp
qed

lemma candidate_no_error:
  "ReadToolErrorOutputSchema (items_candidate rows c) = None" "ReadToolErrorOutputSchema (get_candidate r) = None"
  by (simp_all add: ReadToolErrorOutputSchema_def items_candidate_def get_candidate_def z_strict_def obj_def)

lemma bounded_cases:
  "ReadToolErrorOutputSchema v = None \<Longrightarrow>
   bounded_answer f v = (case f v of None \<Rightarrow> None | Some a \<Rightarrow> if fits a then Some a else None)"
  by (simp add: bounded_answer_def z_refine_def z_union_def fits_def split: option.split)

lemma search_candidate_parsed:
  "MemorySearchOutputSchema (items_candidate (map mapSearchRow rs) c) =
     (if search_ok rs c \<and> fits (A_search rs c) then Some (A_search rs c) else None)"
  unfolding MemorySearchOutputSchema_def bounded_cases [OF candidate_no_error(1)]
  by (simp add: items_candidate_def search_success_fields [OF mapSearchRow_parsed, simplified])

lemma recent_candidate_parsed:
  "MemoryListRecentOutputSchema (items_candidate (map mapRow rs) c) =
     (if recent_ok rs c \<and> fits (A_recent rs c) then Some (A_recent rs c) else None)"
  unfolding MemoryListRecentOutputSchema_def bounded_cases [OF candidate_no_error(1)]
  by (simp add: items_candidate_def recent_success_fields [OF mapRow_parsed, simplified])

lemma get_candidate_parsed:
  "MemoryGetOutputSchema (get_candidate r) = (if memory_ok r \<and> fits (A_get r) then Some (A_get r) else None)"
  unfolding MemoryGetOutputSchema_def bounded_cases [OF candidate_no_error(2)]
  by (simp add: MemoryGetSuccessSchema_def get_candidate_def z_strict_obj z_bool_def mapRow_parsed)

section \<open>Answers\<close>

lemma search_raw_iff:
  "memory_search_raw client ab v = A_search rs c \<longleftrightarrow>
     (\<exists>i. MemorySearchInputSchema v = Some i \<and> client i = Inr (rs, c) \<and> search_ok rs c \<and> fits (A_search rs c) \<and>
          \<not> oversized (items_candidate (map mapSearchRow rs) c))"
  by (auto simp: memory_search_raw_def Let_def search_candidate_parsed split: option.split sum.split)

lemma get_raw_iff:
  "memory_get_raw client ab v = A_get r \<longleftrightarrow>
     (\<exists>i. MemoryGetInputSchema v = Some i \<and> client i = Inr (Some r) \<and> memory_ok r \<and> fits (A_get r))"
  by (auto simp: memory_get_raw_def Let_def get_candidate_parsed split: option.split sum.split)

lemma recent_raw_iff:
  "memory_list_recent_raw client ab v = A_recent rs c \<longleftrightarrow>
     (\<exists>i. MemoryListRecentInputSchema v = Some i \<and> client i = Inr (rs, c) \<and> isOrdered rs \<and> recent_ok rs c \<and> fits (A_recent rs c))"
  by (auto simp: memory_list_recent_raw_def Let_def recent_candidate_parsed split: option.split sum.split)

text \<open>No tool answers in the shape of another.\<close>

lemma search_raw_cases: "(\<exists>rs c. memory_search_raw client ab v = A_search rs c) \<or> (\<exists>e. memory_search_raw client ab v = A_error e)"
  by (auto simp: memory_search_raw_def Let_def search_candidate_parsed split: option.split sum.split)

lemma get_raw_cases: "(\<exists>r. memory_get_raw client ab v = A_get r) \<or> (\<exists>e. memory_get_raw client ab v = A_error e)"
  by (auto simp: memory_get_raw_def Let_def get_candidate_parsed split: option.split sum.split)

lemma recent_raw_cases:
  "(\<exists>rs c. memory_list_recent_raw client ab v = A_recent rs c) \<or> (\<exists>e. memory_list_recent_raw client ab v = A_error e)"
  by (auto simp: memory_list_recent_raw_def Let_def recent_candidate_parsed split: option.split sum.split)

lemma search_raw_typed: "MemorySearchOutputSchema (answer_val (memory_search_raw client ab v)) = Some (memory_search_raw client ab v)"
proof -
  consider (success) rs c where "memory_search_raw client ab v = A_search rs c" | (failure) e where "memory_search_raw client ab v = A_error e"
    using search_raw_cases [of client ab v] by blast
  then show ?thesis
  proof cases
    case success
    then have "fits (A_search rs c)" "search_ok rs c" unfolding search_raw_iff by blast+
    then show ?thesis unfolding success by (rule search_answer_parsed)
  qed (simp add: error_answer_parsed)
qed

lemma get_raw_typed: "MemoryGetOutputSchema (answer_val (memory_get_raw client ab v)) = Some (memory_get_raw client ab v)"
proof -
  consider (success) r where "memory_get_raw client ab v = A_get r" | (failure) e where "memory_get_raw client ab v = A_error e"
    using get_raw_cases [of client ab v] by blast
  then show ?thesis
  proof cases
    case success
    then have "fits (A_get r)" "memory_ok r" unfolding get_raw_iff by blast+
    then show ?thesis unfolding success by (rule get_answer_parsed)
  qed (simp add: error_answer_parsed)
qed

lemma recent_raw_typed: "MemoryListRecentOutputSchema (answer_val (memory_list_recent_raw client ab v)) = Some (memory_list_recent_raw client ab v)"
proof -
  consider (success) rs c where "memory_list_recent_raw client ab v = A_recent rs c" | (failure) e where "memory_list_recent_raw client ab v = A_error e"
    using recent_raw_cases [of client ab v] by blast
  then show ?thesis
  proof cases
    case success
    then have "fits (A_recent rs c)" "recent_ok rs c" unfolding recent_raw_iff by blast+
    then show ?thesis unfolding success by (rule recent_answer_parsed)
  qed (simp add: error_answer_parsed)
qed

end
