(* ===== verification/Defensive_Retrieval.thy ===== *)
theory Defensive_Retrieval
  imports Memory_Tools Text_Index
begin

text \<open>
  \<open>packages/server/src/defensive-retrieval.ts\<close> and \<open>memory-retrieve.ts\<close>: search, search once more with the white
  space of the query collapsed, then read the only hit. Each await has its own client behaviour and its own abort
  flags: \<open>inner_aborted k\<close> is the signal of the inner tool, \<open>cancelled k\<close> the signal of the retrieval at its \<open>k\<close>-th
  check. An abort while the retrieval is pending resolves the race with the answer that check gives.
\<close>

section \<open>The composition\<close>

datatype retrieval_outcome = O_found | O_ambiguous | O_partial | O_no_match | O_error

fun retrieval_outcome_name :: "retrieval_outcome \<Rightarrow> string" where
  "retrieval_outcome_name O_found = ''found''"
| "retrieval_outcome_name O_ambiguous = ''ambiguous''"
| "retrieval_outcome_name O_partial = ''partial''"
| "retrieval_outcome_name O_no_match = ''no-match-within-searched-scope''"
| "retrieval_outcome_name O_error = ''error''"

record retrieval_output =
  ro_outcome :: retrieval_outcome
  ro_result :: read_answer
  lastSearchQuery :: jsstring

record retrieval_env =
  re_search :: "nat \<Rightarrow> search_input \<Rightarrow> (search_row list \<times> jsstring option) answered"
  re_get :: "jsstring \<Rightarrow> memory_record option answered"
  inner_aborted :: "nat \<Rightarrow> bool"
  cancelled :: "nat \<Rightarrow> bool"

datatype id_error = Id_too_long | Id_wrong_type

text \<open>The precondition on the request ID, before anything is dispatched.\<close>

definition check_request_id :: "jsval \<Rightarrow> id_error + request_id" where
  "check_request_id rid =
     (case rid of
        VStr s \<Rightarrow> if MAX_REQUEST_ID_BYTES < length (text_encode s) then Inl Id_too_long else Inr (IdString s)
      | VUndef \<Rightarrow> Inr IdNull
      | VNull \<Rightarrow> Inr IdNull
      | VNum x \<Rightarrow> if \<not> isFinite x then Inl Id_wrong_type else Inr (IdNumber x)
      | _ \<Rightarrow> Inl Id_wrong_type)"

definition failure :: "read_error \<Rightarrow> retrieval_output" where
  "failure code = \<lparr>ro_outcome = O_error, ro_result = A_error code, lastSearchQuery = []\<rparr>"

definition retrieval_output_val :: "retrieval_output \<Rightarrow> jsval" where
  "retrieval_output_val out =
     obj [(''outcome'', VStr (js (retrieval_outcome_name (ro_outcome out)))), (''completeness'', VStr (js ''unknown'')),
       (''result'', answer_val (ro_result out)), (''lastSearchQuery'', VStr (lastSearchQuery out))]"

definition finish :: "request_id \<Rightarrow> retrieval_outcome \<Rightarrow> read_answer \<Rightarrow> jsstring \<Rightarrow> retrieval_output" where
  "finish rid outcome result query =
     (let out = \<lparr>ro_outcome = outcome, ro_result = result, lastSearchQuery = query\<rparr>
      in if readToolWireResponseByteLength rid (retrieval_output_val out) \<le> MAX_RESPONSE_BYTES then out
         else failure RT_RESPONSE_LIMIT_EXCEEDED)"

definition normalized_query :: "jsstring \<Rightarrow> jsstring" where
  "normalized_query query = trim (collapse_spaces query)"

text \<open>After the last search: classify its answer, and read the record of a single hit.\<close>

definition conclude ::
    "retrieval_env \<Rightarrow> request_id \<Rightarrow> jsstring \<Rightarrow> search_row list \<Rightarrow> jsstring option \<Rightarrow> retrieval_output" where
  "conclude env rid query rows nextCursor =
     (let result = A_search rows nextCursor
      in if nextCursor \<noteq> None then finish rid O_partial result query
         else
           (case rows of
              [] \<Rightarrow> finish rid O_no_match result query
            | [hit] \<Rightarrow>
                (let i = m_id (s_record hit);
                     exact = memory_get_raw (re_get env) (inner_aborted env 2) (get_input_val i)
                 in if cancelled env 3 then failure DEADLINE_EXCEEDED
                    else (case exact of
                            A_get r \<Rightarrow> if m_id r \<noteq> i then failure INTERNAL_ERROR else finish rid O_found exact query
                          | _ \<Rightarrow> finish rid O_error exact query))
            | _ \<Rightarrow> finish rid O_ambiguous result query))"

definition retrieval_run :: "retrieval_env \<Rightarrow> request_id \<Rightarrow> jsval \<Rightarrow> retrieval_output" where
  "retrieval_run env rid unsafeInput =
     (if cancelled env 0 then failure DEADLINE_EXCEEDED
      else
        (case MemorySearchInputSchema unsafeInput of
           None \<Rightarrow> failure INVALID_REQUEST
         | Some input \<Rightarrow>
             (let result = memory_search_raw (re_search env 0) (inner_aborted env 0) (search_input_val input)
              in if cancelled env 1 then failure DEADLINE_EXCEEDED
                 else
                   (case result of
                      A_search rows nextCursor \<Rightarrow>
                        (let normalized = normalized_query (sq_query input)
                         in if rows = [] \<and> nextCursor = None \<and> sq_cursor input = None \<and> normalized \<noteq> sq_query input
                            then
                              (let again = memory_search_raw (re_search env 1) (inner_aborted env 1)
                                             (search_input_val (input\<lparr>sq_query := normalized\<rparr>))
                               in if cancelled env 2 then failure DEADLINE_EXCEEDED
                                  else (case again of
                                          A_search rows' nextCursor' \<Rightarrow> conclude env rid normalized rows' nextCursor'
                                        | _ \<Rightarrow> finish rid O_error again normalized))
                            else conclude env rid (sq_query input) rows nextCursor)
                    | _ \<Rightarrow> finish rid O_error result (sq_query input)))))"

section \<open>memory_retrieve\<close>

definition MEMORY_RETRIEVE_TOOL :: descriptor where
  "MEMORY_RETRIEVE_TOOL =
     \<lparr>operation = js ''memory_retrieve_defensive_v1'',
      inputSchema = (\<lambda>v. map_option search_input_val (MemorySearchInputSchema v)),
      outputSchema = (\<lambda>v. map_option answer_val (MemoryRetrieveOutputSchema v)),
      maxRows = MAX_SEARCH_ROWS, maxResponseBytes = MAX_RESPONSE_BYTES, errorMapping = READ_TOOL_ERROR_MAPPING\<rparr>"

definition finalizeMemoryRetrieveOutput :: "jsval \<Rightarrow> read_answer" where
  "finalizeMemoryRetrieveOutput cand =
     (case MemoryRetrieveOutputSchema cand of
        None \<Rightarrow> A_error (if oversized cand then RT_RESPONSE_LIMIT_EXCEEDED else INTERNAL_ERROR)
      | Some a \<Rightarrow> a)"

fun mapDefensiveRetrievalToMemoryRetrieveOutput :: "retrieval_output \<Rightarrow> read_answer" where
  "mapDefensiveRetrievalToMemoryRetrieveOutput internal =
     (let q = lastSearchQuery internal; result = ro_result internal
      in case ro_outcome internal of
           O_error \<Rightarrow>
             (case result of A_error e \<Rightarrow> finalizeMemoryRetrieveOutput (answer_val result) | _ \<Rightarrow> A_error INTERNAL_ERROR)
         | O_found \<Rightarrow>
             (case result of
                A_get r \<Rightarrow> finalizeMemoryRetrieveOutput (retrieve_obj ''found'' q (answer_val result))
              | _ \<Rightarrow> A_error INTERNAL_ERROR)
         | O_no_match \<Rightarrow>
             (case result of
                A_search rows nextCursor \<Rightarrow>
                  if 0 < length rows \<or> nextCursor \<noteq> None then A_error INTERNAL_ERROR
                  else finalizeMemoryRetrieveOutput (retrieve_obj ''scoped_no_match'' q (search_success_val [] None))
              | _ \<Rightarrow> A_error INTERNAL_ERROR)
         | O_ambiguous \<Rightarrow>
             (case result of
                A_search rows nextCursor \<Rightarrow>
                  if length rows < 2 \<or> nextCursor \<noteq> None then A_error INTERNAL_ERROR
                  else finalizeMemoryRetrieveOutput (retrieve_obj ''ambiguous'' q (answer_val result))
              | _ \<Rightarrow> A_error INTERNAL_ERROR)
         | O_partial \<Rightarrow>
             (case result of
                A_search rows nextCursor \<Rightarrow>
                  if nextCursor = None then A_error INTERNAL_ERROR
                  else finalizeMemoryRetrieveOutput (retrieve_obj ''partial'' q (answer_val result))
              | _ \<Rightarrow> A_error INTERNAL_ERROR))"

text \<open>What the executor of the tool awaits: the precondition's errors have no \<open>code\<close>.\<close>

definition memory_retrieve_execute :: "retrieval_env \<Rightarrow> jsval \<Rightarrow> jsval \<Rightarrow> settled" where
  "memory_retrieve_execute env rid input =
     (case check_request_id rid of
        Inl _ \<Rightarrow> Rejected None
      | Inr i \<Rightarrow> Resolved (answer_val (mapDefensiveRetrievalToMemoryRetrieveOutput (retrieval_run env i input))))"

declare mapDefensiveRetrievalToMemoryRetrieveOutput.simps [simp del]

section \<open>The second query\<close>

lemma collapse_Cons:
  "collapse_spaces (u # s) =
     (if is_space u then if s \<noteq> [] \<and> is_space (hd s) then collapse_spaces s else SPACE # collapse_spaces s
      else u # collapse_spaces s)"
  by (cases s) (auto simp del: collapse_spaces.simps(2) simp: collapse_spaces.simps(2) [of u])

lemma collapse_length: "length (collapse_spaces s) \<le> length s"
  by (induction s) (auto simp: collapse_Cons simp del: collapse_spaces.simps(2))

lemma collapse_nonspace: "u \<in> set s \<Longrightarrow> \<not> is_space u \<Longrightarrow> u \<in> set (collapse_spaces s)"
  by (induction s) (auto simp: collapse_Cons simp del: collapse_spaces.simps(2))

lemma trim_Nil: "trim s = [] \<Longrightarrow> u \<in> set s \<Longrightarrow> is_space u"
proof -
  assume t: "trim s = []" and u: "u \<in> set s"
  from t have "\<forall>u \<in> set (trimEnd s). is_space u" by (simp add: trim_def)
  then have "set (dropWhile is_space (rev s)) \<subseteq> Collect is_space" by (auto simp: trimEnd_def)
  moreover have "u \<in> set (takeWhile is_space (rev s)) \<union> set (dropWhile is_space (rev s))"
    using u by (metis set_append set_rev takeWhile_dropWhile_id)
  ultimately show ?thesis by (auto dest: set_takeWhileD)
qed

lemma trim_length: "length (trim s) \<le> length s"
proof -
  have "length (trim s) \<le> length (trimEnd s)" unfolding trim_def by (rule length_dropWhile_le)
  also have "\<dots> \<le> length s" using length_dropWhile_le [of is_space "rev s"] by (simp add: trimEnd_def)
  finally show ?thesis .
qed

lemma normalized_query_ok: "query_ok q \<Longrightarrow> query_ok (normalized_query q)"
proof -
  assume q: "query_ok q"
  then have "q \<noteq> []" "\<not> is_space (hd q)" using trimmed_iff [of q] by (auto simp: query_ok_def)
  then have "hd q \<in> set (collapse_spaces q)" by (intro collapse_nonspace) simp_all
  with \<open>\<not> is_space (hd q)\<close> have "normalized_query q \<noteq> []" unfolding normalized_query_def by (metis trim_Nil)
  moreover have "length (normalized_query q) \<le> length q"
    unfolding normalized_query_def using trim_length collapse_length by (meson order_trans)
  ultimately show ?thesis using q by (auto simp: query_ok_def normalized_query_def Suc_le_eq)
qed

section \<open>What the retrieval has seen\<close>

text \<open>The last search was the caller's, or the second one after an empty answer to a query without a cursor.\<close>

definition searched :: "retrieval_env \<Rightarrow> search_input \<Rightarrow> jsstring \<Rightarrow> search_row list \<Rightarrow> jsstring option \<Rightarrow> bool" where
  "searched env i q rows nextCursor \<longleftrightarrow>
     q = sq_query i \<and> re_search env 0 i = Inr (rows, nextCursor) \<or>
     q = normalized_query (sq_query i) \<and> q \<noteq> sq_query i \<and> sq_cursor i = None \<and> re_search env 0 i = Inr ([], None) \<and>
     re_search env 1 (i\<lparr>sq_query := q\<rparr>) = Inr (rows, nextCursor)"

lemma finish_outcome: "ro_outcome (finish rid oc r q) \<noteq> O_error \<Longrightarrow> finish rid oc r q = \<lparr>ro_outcome = oc, ro_result = r, lastSearchQuery = q\<rparr>"
  by (auto simp: finish_def failure_def Let_def)

lemma finish_error: "ro_outcome (finish rid O_error r q) = O_error"
  by (simp add: finish_def failure_def Let_def)

lemma failure_outcome [simp]: "ro_outcome (failure e) = O_error"
  by (simp add: failure_def)

lemma search_input_again:
  "MemorySearchInputSchema v = Some i \<Longrightarrow>
   MemorySearchInputSchema (search_input_val i) = Some i \<and>
   MemorySearchInputSchema (search_input_val (i\<lparr>sq_query := normalized_query (sq_query i)\<rparr>)) = Some (i\<lparr>sq_query := normalized_query (sq_query i)\<rparr>)"
proof -
  assume "MemorySearchInputSchema v = Some i"
  then have i: "search_input_ok i" by (rule search_input_Some)
  then have "search_input_ok (i\<lparr>sq_query := normalized_query (sq_query i)\<rparr>)"
    by (simp add: search_input_ok_def normalized_query_ok)
  with i show ?thesis by (simp add: search_input_parsed)
qed

lemma run_concludes:
  assumes "ro_outcome (retrieval_run env rid v) \<noteq> O_error"
  shows "\<exists>i q rows nextCursor. MemorySearchInputSchema v = Some i \<and> searched env i q rows nextCursor \<and>
    retrieval_run env rid v = conclude env rid q rows nextCursor"
proof -
  obtain i where i: "MemorySearchInputSchema v = Some i" "\<not> cancelled env 0" "\<not> cancelled env 1"
    using assms by (auto simp: retrieval_run_def Let_def split: if_splits option.splits)
  note again = search_input_again [OF i(1)]
  obtain rows cur where first: "memory_search_raw (re_search env 0) (inner_aborted env 0) (search_input_val i) = A_search rows cur"
    using assms i by (auto simp: retrieval_run_def Let_def finish_error split: read_answer.splits)
  then have c: "re_search env 0 i = Inr (rows, cur)" using again unfolding search_raw_iff by auto
  let ?n = "normalized_query (sq_query i)"
  show ?thesis
  proof (cases "rows = [] \<and> cur = None \<and> sq_cursor i = None \<and> ?n \<noteq> sq_query i")
    case False
    then have "retrieval_run env rid v = conclude env rid (sq_query i) rows cur"
      using i by (simp only: retrieval_run_def Let_def first option.case read_answer.case if_not_P [OF False] if_False)
    with i c show ?thesis unfolding searched_def by blast
  next
    case True
    with assms i first obtain rows' cur' where second:
      "memory_search_raw (re_search env 1) (inner_aborted env 1) (search_input_val (i\<lparr>sq_query := ?n\<rparr>)) = A_search rows' cur'"
      "\<not> cancelled env 2"
      by (auto simp: retrieval_run_def Let_def finish_error split: read_answer.splits if_splits)
    then have "re_search env 1 (i\<lparr>sq_query := ?n\<rparr>) = Inr (rows', cur')" using again unfolding search_raw_iff by auto
    moreover have "retrieval_run env rid v = conclude env rid ?n rows' cur'"
      using i first second True by (simp add: retrieval_run_def Let_def)
    ultimately show ?thesis using i c True unfolding searched_def by blast
  qed
qed

lemma conclude_outcome:
  assumes "out = conclude env rid q rows nextCursor" "ro_outcome out \<noteq> O_error"
  shows "lastSearchQuery out = q \<and>
    (ro_outcome out = O_partial \<and> nextCursor \<noteq> None \<and> ro_result out = A_search rows nextCursor \<or>
     ro_outcome out = O_no_match \<and> nextCursor = None \<and> rows = [] \<and> ro_result out = A_search [] None \<or>
     ro_outcome out = O_ambiguous \<and> nextCursor = None \<and> 2 \<le> length rows \<and> ro_result out = A_search rows None \<or>
     ro_outcome out = O_found \<and> nextCursor = None \<and>
     (\<exists>hit r. rows = [hit] \<and> ro_result out = A_get r \<and> m_id r = m_id (s_record hit) \<and>
        re_get env (m_id r) = Inr (Some r)))"
proof (cases "nextCursor = None")
  case False
  then have "out = finish rid O_partial (A_search rows nextCursor) q" using assms by (simp add: conclude_def)
  with finish_outcome assms(2) False show ?thesis by fastforce
next
  case True
  consider "rows = []" | hit where "rows = [hit]" | a b rs where "rows = a # b # rs" by (metis list.exhaust)
  then show ?thesis
  proof cases
    case 1
    then have "out = finish rid O_no_match (A_search [] None) q" using assms True by (simp add: conclude_def)
    with finish_outcome assms(2) 1 True show ?thesis by fastforce
  next
    case 2
    let ?i = "m_id (s_record hit)"
    obtain r where r: "memory_get_raw (re_get env) (inner_aborted env 2) (get_input_val ?i) = A_get r" "m_id r = ?i"
      "out = finish rid O_found (A_get r) q"
      using assms True 2 by (auto simp: conclude_def Let_def finish_error split: if_splits read_answer.splits)
    then obtain j where "MemoryGetInputSchema (get_input_val ?i) = Some j" "re_get env j = Inr (Some r)"
      unfolding get_raw_iff by blast
    then have "re_get env (m_id r) = Inr (Some r)"
      using r(2) by (auto simp: MemoryGetInputSchema_def get_input_val_def z_strict_obj z_refine_def split: if_splits)
    moreover have "out = \<lparr>ro_outcome = O_found, ro_result = A_get r, lastSearchQuery = q\<rparr>"
      using r(3) assms(2) finish_outcome by fastforce
    ultimately show ?thesis using 2 True r(2) by simp
  next
    case 3
    then have "out = finish rid O_ambiguous (A_search rows None) q" using assms True by (simp add: conclude_def)
    with finish_outcome assms(2) 3 True show ?thesis by fastforce
  qed
qed

section \<open>The answers of memory_retrieve\<close>

lemma retrieve_no_error: "ReadToolErrorOutputSchema (retrieve_obj oc q w) = None"
  by (simp add: ReadToolErrorOutputSchema_def retrieve_obj_def z_strict_def obj_def)

lemma retrieve_parsed:
  "MemoryRetrieveOutputSchema (retrieve_obj (outcome_name r) q (retrieve_result_val r)) =
     (if length q \<le> MAX_QUERY_LENGTH \<and> retrieve_ok r \<and> fits (A_retrieve q r) then Some (A_retrieve q r) else None)"
  unfolding MemoryRetrieveOutputSchema_def bounded_cases [OF retrieve_no_error]
  unfolding retrieve_val_obj [symmetric] retrieve_success_parsed by simp

lemma finalize_retrieve:
  "finalizeMemoryRetrieveOutput (retrieve_obj (outcome_name r) q (retrieve_result_val r)) = A_retrieve q' r' \<longleftrightarrow>
     q' = q \<and> r' = r \<and> length q \<le> MAX_QUERY_LENGTH \<and> retrieve_ok r \<and> fits (A_retrieve q r)"
  unfolding finalizeMemoryRetrieveOutput_def retrieve_parsed by auto

lemma finalize_error: "finalizeMemoryRetrieveOutput (answer_val (A_error e)) = A_error e"
  by (simp add: finalizeMemoryRetrieveOutput_def error_answer_parsed)

fun answers_outcome :: "retrieve_result \<Rightarrow> retrieval_outcome \<Rightarrow> read_answer \<Rightarrow> bool" where
  "answers_outcome (R_found r) oc a = (oc = O_found \<and> a = A_get r)"
| "answers_outcome (R_ambiguous rs) oc a = (oc = O_ambiguous \<and> a = A_search rs None)"
| "answers_outcome R_no_match oc a = (oc = O_no_match \<and> a = A_search [] None)"
| "answers_outcome (R_partial rs c) oc a = (oc = O_partial \<and> a = A_search rs (Some c))"

lemma finalize_members:
  "finalizeMemoryRetrieveOutput (retrieve_obj ''found'' q (get_success_val r)) = A_retrieve q' r' \<longleftrightarrow>
     q' = q \<and> r' = R_found r \<and> length q \<le> MAX_QUERY_LENGTH \<and> retrieve_ok (R_found r) \<and> fits (A_retrieve q (R_found r))"
  "finalizeMemoryRetrieveOutput (retrieve_obj ''ambiguous'' q (search_success_val rs None)) = A_retrieve q' r' \<longleftrightarrow>
     q' = q \<and> r' = R_ambiguous rs \<and> length q \<le> MAX_QUERY_LENGTH \<and> retrieve_ok (R_ambiguous rs) \<and> fits (A_retrieve q (R_ambiguous rs))"
  "finalizeMemoryRetrieveOutput (retrieve_obj ''scoped_no_match'' q (search_success_val [] None)) = A_retrieve q' r' \<longleftrightarrow>
     q' = q \<and> r' = R_no_match \<and> length q \<le> MAX_QUERY_LENGTH \<and> retrieve_ok (R_no_match) \<and> fits (A_retrieve q (R_no_match))"
  "finalizeMemoryRetrieveOutput (retrieve_obj ''partial'' q (search_success_val rs (Some c))) = A_retrieve q' r' \<longleftrightarrow>
     q' = q \<and> r' = R_partial rs c \<and> length q \<le> MAX_QUERY_LENGTH \<and> retrieve_ok (R_partial rs c) \<and> fits (A_retrieve q (R_partial rs c))"
  using finalize_retrieve [of "R_found r" q] finalize_retrieve [of "R_ambiguous rs" q] finalize_retrieve [of R_no_match q]
    finalize_retrieve [of "R_partial rs c" q] by simp_all

lemma map_retrieve:
  "mapDefensiveRetrievalToMemoryRetrieveOutput out = A_retrieve q res \<longleftrightarrow>
     q = lastSearchQuery out \<and> answers_outcome res (ro_outcome out) (ro_result out) \<and>
     length q \<le> MAX_QUERY_LENGTH \<and> retrieve_ok res \<and> fits (A_retrieve q res)"
proof (cases "ro_result out")
  case (A_error e)
  then show ?thesis
    by (cases "ro_outcome out"; cases res)
      (simp_all add: mapDefensiveRetrievalToMemoryRetrieveOutput.simps finalize_error [simplified])
next
  case (A_search rs c)
  show ?thesis
    by (cases "ro_outcome out"; cases res; cases c)
      (auto simp: mapDefensiveRetrievalToMemoryRetrieveOutput.simps A_search finalize_members)
next
  case (A_get r)
  then show ?thesis
    by (cases "ro_outcome out"; cases res) (auto simp: mapDefensiveRetrievalToMemoryRetrieveOutput.simps finalize_members)
qed (cases "ro_outcome out"; cases res; simp add: mapDefensiveRetrievalToMemoryRetrieveOutput.simps)+

end
