(* ===== verification/Memory_Properties.thy ===== *)
theory Memory_Properties
  imports Defensive_Retrieval
begin

text \<open>
  The properties of the memory tools, of the defensive retrieval and of the fixed client, and of the tools run
  over that client.
\<close>

section \<open>Answers and their schemas\<close>

lemma finalize_cases:
  "(\<exists>q r. finalizeMemoryRetrieveOutput v = A_retrieve q r \<and> MemoryRetrieveOutputSchema v = Some (A_retrieve q r)) \<or>
   (\<exists>e. finalizeMemoryRetrieveOutput v = A_error e)"
  by (cases "MemoryRetrieveOutputSchema v")
    (auto simp: finalizeMemoryRetrieveOutput_def dest: retrieve_output_Some)

lemma map_cases:
  "(\<exists>q r. mapDefensiveRetrievalToMemoryRetrieveOutput out = A_retrieve q r) \<or>
   (\<exists>e. mapDefensiveRetrievalToMemoryRetrieveOutput out = A_error e)"
proof -
  have "(\<exists>q r. finalizeMemoryRetrieveOutput v = A_retrieve q r) \<or> (\<exists>e. finalizeMemoryRetrieveOutput v = A_error e)" for v
    using finalize_cases [of v] by blast
  then show ?thesis
    by (simp add: mapDefensiveRetrievalToMemoryRetrieveOutput.simps Let_def split: retrieval_outcome.split read_answer.split)
qed

lemma retrieve_typed:
  "MemoryRetrieveOutputSchema (answer_val (mapDefensiveRetrievalToMemoryRetrieveOutput out)) =
     Some (mapDefensiveRetrievalToMemoryRetrieveOutput out)"
proof -
  consider (answer) q r where "mapDefensiveRetrievalToMemoryRetrieveOutput out = A_retrieve q r"
    | (failed) e where "mapDefensiveRetrievalToMemoryRetrieveOutput out = A_error e"
    using map_cases [of out] by blast
  then show ?thesis
  proof cases
    case answer
    then have "fits (A_retrieve q r)" "length q \<le> MAX_QUERY_LENGTH" "retrieve_ok r" unfolding map_retrieve by blast+
    then show ?thesis unfolding answer by (rule retrieve_answer_parsed)
  qed (simp add: error_answer_parsed)
qed

text \<open>
  C12. Type: whatever the caller sends, the client answers and the signals do, the answer of each of the four memory
  tools is accepted by the output schema the tool declares, and parses to itself.
\<close>

theorem memory_answers_typed:
  "MemorySearchOutputSchema (answer_val (memory_search_raw client ab v)) = Some (memory_search_raw client ab v) \<and>
   MemoryGetOutputSchema (answer_val (memory_get_raw client' ab v)) = Some (memory_get_raw client' ab v) \<and>
   MemoryListRecentOutputSchema (answer_val (memory_list_recent_raw client'' ab v)) = Some (memory_list_recent_raw client'' ab v) \<and>
   MemoryRetrieveOutputSchema (answer_val (mapDefensiveRetrievalToMemoryRetrieveOutput (retrieval_run env rid v))) =
     Some (mapDefensiveRetrievalToMemoryRetrieveOutput (retrieval_run env rid v))"
  by (simp only: search_raw_typed get_raw_typed recent_raw_typed retrieve_typed)

section \<open>Order of the recent memories\<close>

lemma not_before_trans: "not_before p q \<Longrightarrow> not_before q r \<Longrightarrow> not_before p r"
  by (auto simp: not_before_def)

lemma isOrdered_sorted: "isOrdered rs \<longleftrightarrow> sorted_wrt not_before rs"
proof (induction rs rule: isOrdered.induct)
  case (1 p c rs)
  then show ?case by (auto intro: not_before_trans)
qed simp_all

text \<open>
  Functional: \<open>memory_list_recent\<close> answers rows exactly when the client answered them in descending order of
  creation time and identifier, every row is in order and the answer fits the wire; it answers the client's own rows.
\<close>

lemma recent_answers_sorted:
  "memory_list_recent_raw client ab v = A_recent rs c \<longleftrightarrow>
     (\<exists>i. MemoryListRecentInputSchema v = Some i \<and> client i = Inr (rs, c) \<and>
          sorted_wrt (\<lambda>p q. m_createdAt q < m_createdAt p \<or> m_createdAt p = m_createdAt q \<and> m_id q \<le> m_id p) rs \<and>
          recent_ok rs c \<and> fits (A_recent rs c))"
  unfolding recent_raw_iff isOrdered_sorted not_before_def by (rule refl)

section \<open>Retrieval\<close>

text \<open>
  C18. Safety: a successful \<open>memory_retrieve\<close> tells what was searched. The rows are those of the search for the query
  it names: the caller's, or the caller's with its white space collapsed when the first search was empty and had no
  cursor to continue. \<open>found\<close> means one hit, and the record the client returned for the identifier of that hit;
  \<open>ambiguous\<close> at least two hits; \<open>scoped_no_match\<close> no hit and nothing to continue; \<open>partial\<close> an answer to continue.
\<close>

theorem retrieval_sound:
  assumes "mapDefensiveRetrievalToMemoryRetrieveOutput (retrieval_run env rid v) = A_retrieve q res"
  shows "\<exists>i rows nextCursor. MemorySearchInputSchema v = Some i \<and> searched env i q rows nextCursor \<and>
    (case res of
       R_found r \<Rightarrow> nextCursor = None \<and> (\<exists>hit. rows = [hit] \<and> m_id r = m_id (s_record hit)) \<and> re_get env (m_id r) = Inr (Some r)
     | R_ambiguous rs \<Rightarrow> nextCursor = None \<and> rs = rows \<and> 2 \<le> length rows
     | R_no_match \<Rightarrow> nextCursor = None \<and> rows = []
     | R_partial rs c \<Rightarrow> nextCursor = Some c \<and> rs = rows)"
proof -
  let ?out = "retrieval_run env rid v"
  have out: "q = lastSearchQuery ?out" "answers_outcome res (ro_outcome ?out) (ro_result ?out)"
    using assms unfolding map_retrieve by simp_all
  then have "ro_outcome ?out \<noteq> O_error" by (cases res) auto
  with run_concludes obtain i q' rows cur where
    i: "MemorySearchInputSchema v = Some i" "searched env i q' rows cur" "?out = conclude env rid q' rows cur"
    by blast
  note c = conclude_outcome [OF i(3) \<open>ro_outcome ?out \<noteq> O_error\<close>]
  with out(1) i(2) have "searched env i q rows cur" by simp
  moreover have "case res of
       R_found r \<Rightarrow> cur = None \<and> (\<exists>hit. rows = [hit] \<and> m_id r = m_id (s_record hit)) \<and> re_get env (m_id r) = Inr (Some r)
     | R_ambiguous rs \<Rightarrow> cur = None \<and> rs = rows \<and> 2 \<le> length rows
     | R_no_match \<Rightarrow> cur = None \<and> rows = []
     | R_partial rs c \<Rightarrow> cur = Some c \<and> rs = rows"
    using c out(2) by (cases res) auto
  ultimately show ?thesis using i(1) by blast
qed

text \<open>A search of \<open>a  b\<close> that only hits once the white space is collapsed.\<close>

definition sample_memory :: memory_record where
  "sample_memory =
     \<lparr>m_id = js ''mem_0123456789abcdefghijklmn'', m_title = js ''Note'', m_content = js ''Text'',
      m_createdAt = js ''2026-01-01T00:00:00Z'', m_provenance = js ''Import''\<rparr>"

definition sample_hit :: search_row where
  "sample_hit = \<lparr>s_record = sample_memory, s_rank = JInt 1\<rparr>"

definition sample_search :: search_input where
  "sample_search = \<lparr>sq_query = js ''a  b'', sq_mode = Mode_text, sq_filters = None, sq_limit = 5, sq_cursor = None\<rparr>"

definition sample_env :: retrieval_env where
  "sample_env =
     \<lparr>re_search = (\<lambda>k i. if k = 0 then Inr ([], None) else Inr ([sample_hit], None)),
      re_get = (\<lambda>i. Inr (Some sample_memory)), inner_aborted = (\<lambda>k. False), cancelled = (\<lambda>k. False)\<rparr>"

lemma small_answer: "ascii_val v \<Longrightarrow> weight v \<le> 12000 \<Longrightarrow> readToolWireResponseByteLength IdNull v \<le> MAX_RESPONSE_BYTES"
  using read_wire_length [of v] by (simp add: MAX_RESPONSE_BYTES_def)

lemma small_fits: "ascii_val (answer_val a) \<Longrightarrow> weight (answer_val a) \<le> 12000 \<Longrightarrow> fits a"
  unfolding fits_def withinMinimumWireResponseByteLimit_def by (rule small_answer)

lemma small_candidate: "ascii_val v \<Longrightarrow> weight v \<le> 12000 \<Longrightarrow> \<not> oversized v"
  using small_answer [of v] by (simp add: oversized_def)

lemma sample_memory_ok: "memory_ok sample_memory" "row_ok sample_hit"
  by code_simp+

lemma sample_search_ok: "search_input_ok sample_search" "search_input_ok (sample_search\<lparr>sq_query := js ''a b''\<rparr>)"
proof -
  have "query_ok (js ''a  b'')" "query_ok (js ''a b'')" by code_simp+
  then show "search_input_ok sample_search" "search_input_ok (sample_search\<lparr>sq_query := js ''a b''\<rparr>)"
    by (simp_all add: search_input_ok_def sample_search_def cursor_ok_def MAX_SEARCH_ROWS_def)
qed

lemmas sample_defs = sample_memory_def sample_hit_def js_def printable_def obj_def search_success_val_def get_success_val_def
  search_row_val_def memory_val_def memory_fields_def client_fields_def UNTRUSTED_def mapSearchRow_def mapRow_def items_candidate_def
  get_candidate_def retrieval_val_def

lemma sample_small:
  "fits (A_search [] None)" "fits (A_search [sample_hit] None)" "fits (A_get sample_memory)"
  "fits (A_retrieve (js ''a b'') (R_found sample_memory))"
  "\<not> oversized (items_candidate (map mapSearchRow []) None)" "\<not> oversized (items_candidate (map mapSearchRow [sample_hit]) None)"
  by (rule small_fits small_candidate; simp add: sample_defs)+

lemma sample_answers:
  "memory_search_raw (re_search sample_env 0) ab (search_input_val sample_search) = A_search [] None"
  "memory_search_raw (re_search sample_env 1) ab (search_input_val (sample_search\<lparr>sq_query := js ''a b''\<rparr>)) = A_search [sample_hit] None"
  "memory_get_raw (re_get sample_env) ab (get_input_val (m_id sample_memory)) = A_get sample_memory"
proof -
  show "memory_search_raw (re_search sample_env 1) ab (search_input_val (sample_search\<lparr>sq_query := js ''a b''\<rparr>)) = A_search [sample_hit] None"
    unfolding search_raw_iff using sample_memory_ok(2) sample_search_ok(2) sample_small
    by (simp add: search_input_parsed sample_env_def search_ok_def cursor_ok_def MAX_SEARCH_ROWS_def)
  show "memory_search_raw (re_search sample_env 0) ab (search_input_val sample_search) = A_search [] None"
    unfolding search_raw_iff using sample_search_ok(1) sample_small
    by (simp add: search_input_parsed sample_env_def search_ok_def cursor_ok_def)
  show "memory_get_raw (re_get sample_env) ab (get_input_val (m_id sample_memory)) = A_get sample_memory"
    unfolding get_raw_iff using sample_memory_ok(1) sample_small
    by (simp add: MemoryGetInputSchema_def get_input_val_def z_strict_obj z_refine_def sample_env_def memory_ok_def)
qed

lemma sample_retrieved:
  "mapDefensiveRetrievalToMemoryRetrieveOutput (retrieval_run sample_env IdNull (search_input_val sample_search)) =
     A_retrieve (js ''a b'') (R_found sample_memory)"
proof -
  have n: "normalized_query (sq_query sample_search) = js ''a b''" "js ''a b'' \<noteq> sq_query sample_search" by code_simp+
  let ?out = "\<lparr>ro_outcome = O_found, ro_result = A_get sample_memory, lastSearchQuery = js ''a b''\<rparr>"
  have "readToolWireResponseByteLength IdNull (retrieval_output_val ?out) \<le> MAX_RESPONSE_BYTES"
    by (rule small_answer) (simp_all add: retrieval_output_val_def sample_defs)
  then have c: "conclude sample_env IdNull (js ''a b'') [sample_hit] None = ?out"
    using sample_answers(3) by (simp add: conclude_def sample_hit_def finish_def sample_env_def)
  have "retrieval_run sample_env IdNull (search_input_val sample_search) =
      conclude sample_env IdNull (js ''a b'') [sample_hit] None"
    using n sample_answers(1,2) search_input_parsed [OF sample_search_ok(1)]
    by (simp add: retrieval_run_def) (simp add: sample_env_def sample_search_def)
  then show ?thesis unfolding map_retrieve c using sample_memory_ok(1) sample_small(4) by (simp add: js_def MAX_QUERY_LENGTH_def)
qed

theorem retrieval_sound_witness:
  "\<exists>i rows. searched sample_env i (js ''a b'') rows None \<and> m_id sample_memory \<in> (m_id \<circ> s_record) ` set rows"
  using retrieval_sound [OF sample_retrieved] by fastforce

section \<open>The fixed client\<close>

text \<open>The requests of one call: none, or one.\<close>

lemma rpc_requests:
  "snd (requestMemoryRpc to_text parse fetch c path input ab) =
     (case parse (stringify input) of
        None \<Rightarrow> []
      | Some w \<Rightarrow> [\<lparr>rq_url = fc_origin c @ path, rq_method = POST, rq_headers = postHeaders c,
                   rq_body = Some (stringify w), redirect_error = False\<rparr>])"
  by (simp add: requestMemoryRpc_def Let_def split: option.split)

lemma rpc_call_requests:
  "snd (rpc_call to_text parse fetch c path input ab payload) = snd (requestMemoryRpc to_text parse fetch c path input ab)"
  by (simp add: rpc_call_def split: prod.split sum.split)

datatype client_call = Call_user | Call_list | Call_search jsval | Call_get jsval | Call_recent jsval

fun call_requests ::
    "(byte list \<Rightarrow> jsstring) \<Rightarrow> (jsstring \<Rightarrow> jsval option) \<Rightarrow> network \<Rightarrow> fixed_client \<Rightarrow> bool \<Rightarrow> client_call \<Rightarrow> http_request list" where
  "call_requests to_text parse fetch c ab Call_user = snd (verifyUserIdentity to_text parse fetch c ab)"
| "call_requests to_text parse fetch c ab Call_list = snd (listMemoryRows to_text parse fetch c ab)"
| "call_requests to_text parse fetch c ab (Call_search v) = snd (searchMemoryRows to_text parse fetch c v ab)"
| "call_requests to_text parse fetch c ab (Call_get v) = snd (getMemoryRow to_text parse fetch c v ab)"
| "call_requests to_text parse fetch c ab (Call_recent v) = snd (listRecentMemoryRows to_text parse fetch c v ab)"

lemmas call_defs = verifyUserIdentity_def listMemoryRows_def searchMemoryRows_def getMemoryRow_def listRecentMemoryRows_def

text \<open>What a call may send: a method, one of five paths, one of the three header lists.\<close>

definition allowed_request :: "fixed_client \<Rightarrow> http_request \<Rightarrow> bool" where
  "allowed_request c r \<longleftrightarrow>
     (rq_method r, rq_url r, rq_headers r) \<in>
       {(GET, fc_origin c @ FIXED_USER_PATH, authHeaders c), (GET, fc_origin c @ FIXED_PATH, listHeaders c),
        (POST, fc_origin c @ FIXED_SEARCH_PATH, postHeaders c), (POST, fc_origin c @ FIXED_GET_PATH, postHeaders c),
        (POST, fc_origin c @ FIXED_LIST_RECENT_PATH, postHeaders c)} \<and>
     (rq_body r = None \<longleftrightarrow> rq_method r = GET)"

lemma calls_allowed: "length (call_requests to_text parse fetch c ab call) \<le> 1 \<and> list_all (allowed_request c) (call_requests to_text parse fetch c ab call)"
  by (cases call) (simp_all add: call_defs Let_def rpc_call_requests rpc_requests allowed_request_def split: option.split)

text \<open>
  C14. Safety: a client that could be created talks to its origin only. The origin is an \<open>https\<close> origin without user
  information, written as configured; every call sends at most one request, to one of the five fixed paths of that
  origin, with the method and the headers of that path; a request with a body is a POST.
\<close>

theorem client_requests_confined:
  assumes "createFixedSupabaseClient parse_url config = Inr c"
  shows "(\<exists>u. parse_url (cf_origin config) = Some u \<and> protocol u = js ''https:'' \<and> url_origin u = cf_origin config \<and>
            username u = [] \<and> password u = []) \<and>
    fc_origin c = cf_origin config \<and>
    length (call_requests to_text parse fetch c ab call) \<le> 1 \<and>
    list_all (allowed_request c) (call_requests to_text parse fetch c ab call)"
  using assms calls_allowed [of to_text parse fetch c ab call]
  by (auto simp: createFixedSupabaseClient_def Let_def split: option.splits if_splits)

definition sample_config :: client_config where
  "sample_config =
     \<lparr>cf_origin = js ''https://p.supabase.co'', projectPublishableKey = Some (js '' sb_key''), userAccessToken = Some (js ''a.b.c''),
      cf_timeoutMs = None, cf_maxResponseBytes = None\<rparr>"

definition sample_url :: "jsstring \<Rightarrow> url option" where
  "sample_url s = Some \<lparr>protocol = js ''https:'', url_origin = s, username = [], password = []\<rparr>"

definition sample_client :: fixed_client where
  "sample_client =
     \<lparr>fc_origin = js ''https://p.supabase.co'', fc_key = js ''sb_key'', fc_token = js ''a.b.c'', fc_timeoutMs = 5000,
      fc_maxResponseBytes = 262144\<rparr>"

lemma sample_client_created: "createFixedSupabaseClient sample_url sample_config = Inr sample_client"
  by code_simp

theorem client_requests_confined_witness:
  "list_all (allowed_request sample_client)
     (call_requests (\<lambda>b. []) (\<lambda>s. Some VNull) (\<lambda>r. None) sample_client False (Call_get (get_input_val (m_id sample_memory)))) \<and>
   call_requests (\<lambda>b. []) (\<lambda>s. Some VNull) (\<lambda>r. None) sample_client False (Call_get (get_input_val (m_id sample_memory))) \<noteq> []"
proof
  show "list_all (allowed_request sample_client)
     (call_requests (\<lambda>b. []) (\<lambda>s. Some VNull) (\<lambda>r. None) sample_client False (Call_get (get_input_val (m_id sample_memory))))"
    using client_requests_confined [OF sample_client_created] by blast
  have "MemoryGetInputSchema (get_input_val (m_id sample_memory)) = Some (m_id sample_memory)"
    using sample_memory_ok(1) by (simp add: MemoryGetInputSchema_def get_input_val_def z_strict_obj z_refine_def memory_ok_def)
  then show "call_requests (\<lambda>b. []) (\<lambda>s. Some VNull) (\<lambda>r. None) sample_client False (Call_get (get_input_val (m_id sample_memory))) \<noteq> []"
    by (simp add: getMemoryRow_def rpc_call_requests rpc_requests)
qed

section \<open>The body of a response\<close>

lemma read_chunks_iff:
  "int (length acc) \<le> m \<Longrightarrow>
   read_chunks m acc cs ends = Inr b \<longleftrightarrow> ends \<and> b = acc @ concat cs \<and> int (length b) \<le> m"
proof (induction cs arbitrary: acc)
  case (Cons x cs)
  then show ?case by (cases "m < int (length (acc @ x))") auto
qed auto

lemma read_chunks_over:
  "m < int (length (acc @ concat cs)) \<Longrightarrow> int (length acc) \<le> m \<Longrightarrow>
   read_chunks m acc (cs @ ds) ends = Inl (Client_error FIXED_CLIENT_RESPONSE_TOO_LARGE)"
proof (induction cs arbitrary: acc)
  case (Cons x cs)
  then show ?case by (cases "m < int (length (acc @ x))") auto
qed simp

text \<open>
  C37. Bounds: a body is read in full or not at all. The client decodes it exactly when the stream ends and all its
  bytes together are within the limit; as soon as the chunks read exceed the limit it gives up, whatever follows.
\<close>

theorem body_read_bounded:
  "0 \<le> maximum \<Longrightarrow>
   (readBoundedBody to_text (Stream cs ends) maximum = Inr text' \<longleftrightarrow>
      ends \<and> int (length (concat cs)) \<le> maximum \<and> text' = to_text (concat cs)) \<and>
   (maximum < int (length (concat cs)) \<longrightarrow>
      readBoundedBody to_text (Stream (cs @ ds) ends) maximum = Inl (Client_error FIXED_CLIENT_RESPONSE_TOO_LARGE))"
proof -
  assume m: "0 \<le> maximum"
  have "readBoundedBody to_text (Stream cs ends) maximum = Inr text' \<longleftrightarrow>
      (\<exists>b. read_chunks maximum [] cs ends = Inr b \<and> text' = to_text b)"
    by (cases "read_chunks maximum [] cs ends") (auto simp: readBoundedBody_def)
  moreover have "read_chunks maximum [] cs ends = Inr b \<longleftrightarrow> ends \<and> b = concat cs \<and> int (length b) \<le> maximum" for b
    using read_chunks_iff [of "[]" maximum cs ends b] m by simp
  moreover have "maximum < int (length (concat cs)) \<longrightarrow>
      readBoundedBody to_text (Stream (cs @ ds) ends) maximum = Inl (Client_error FIXED_CLIENT_RESPONSE_TOO_LARGE)"
    using read_chunks_over [of maximum "[]" cs ds ends] m by (simp add: readBoundedBody_def)
  ultimately show ?thesis by auto
qed

theorem body_read_bounded_witness:
  "readBoundedBody (\<lambda>b. replicate (length b) 0x61) (Stream [[1, 2], [3]] True) 3 = Inr (js ''aaa'') \<and>
   readBoundedBody (\<lambda>b. []) (Stream ([[1, 2], [3, 4]] @ [[5]]) False) 3 = Inl (Client_error FIXED_CLIENT_RESPONSE_TOO_LARGE)"
  using body_read_bounded [of 3 "\<lambda>b. replicate (length b) 0x61" "[[1, 2], [3]]" True "js ''aaa''"]
    body_read_bounded [of 3 "\<lambda>b. []" "[[1, 2], [3, 4]]" False] by (simp add: js_def numeral_eq_Suc)

section \<open>The tools over the client\<close>

definition over_client :: "(client_error option + 'a) \<times> http_request list \<Rightarrow> 'a answered" where
  "over_client result = map_sum (map_option (\<lambda>e. VStr (client_code e))) id (fst result)"

definition search_over ::
    "(byte list \<Rightarrow> jsstring) \<Rightarrow> (jsstring \<Rightarrow> jsval option) \<Rightarrow> network \<Rightarrow> fixed_client \<Rightarrow> bool \<Rightarrow> bool \<Rightarrow> jsval \<Rightarrow> read_answer" where
  "search_over to_text parse fetch c client_aborted aborted unsafeInput =
     memory_search_raw (\<lambda>i. over_client (searchMemoryRows to_text parse fetch c (search_input_val i) client_aborted))
       aborted unsafeInput"










section \<open>Errors of the client\<close>

lemma mapE_fails: "mapE f xs = Inl e \<Longrightarrow> \<exists>x. f x = Inl e"
  by (induction xs) (auto split: sum.splits)

lemma row_error: "parseGetRow v code = Inl e \<Longrightarrow> e = code" "parse_search_row v = Inl e' \<Longrightarrow> e' = FIXED_CLIENT_MALFORMED_RESPONSE"
proof -
  show row: "parseGetRow v code = Inl e \<Longrightarrow> e = code" for v code e
    by (auto simp: parseGetRow_def split: jsval.splits if_splits)
  show "parse_search_row v = Inl e' \<Longrightarrow> e' = FIXED_CLIENT_MALFORMED_RESPONSE"
    by (auto simp: parse_search_row_def split: jsval.splits if_splits sum.splits dest: row)
qed

lemma cursor_error: "parse_cursor v = Inl e \<Longrightarrow> e = FIXED_CLIENT_INVALID_CURSOR"
  by (auto simp: parse_cursor_def split: jsval.splits if_splits)

lemma search_payload_error:
  "parseMemorySearchPayload v n = Inl e \<Longrightarrow> e = FIXED_CLIENT_MALFORMED_RESPONSE \<or> e = FIXED_CLIENT_INVALID_CURSOR"
  by (auto simp: parseMemorySearchPayload_def map_sum_def split: jsval.splits if_splits sum.splits
      dest!: mapE_fails row_error(2) cursor_error)

lemma chunks_error: "read_chunks m acc cs ends = Inl t \<Longrightarrow> t \<in> {Client_error FIXED_CLIENT_RESPONSE_TOO_LARGE, Other_error}"
  by (induction cs arbitrary: acc) (auto split: if_splits)

lemma read_json_error:
  "read_json to_text parse m r = Inl t \<Longrightarrow>
   t \<in> {Client_error FIXED_CLIENT_RESPONSE_TOO_LARGE, Client_error FIXED_CLIENT_MALFORMED_RESPONSE, Other_error}"
  by (auto simp: read_json_def readBoundedBody_def map_sum_def split: if_splits sum.splits option.splits http_body.splits
      dest!: chunks_error)

text \<open>What a call on an input that has been parsed before can throw.\<close>

lemma rpc_error:
  "fst (requestMemoryRpc to_text parse fetch c path input ab) = Inl e \<Longrightarrow>
   e \<in> {None, Some FIXED_CLIENT_INVALID_CURSOR, Some FIXED_CLIENT_TIMEOUT, Some FIXED_CLIENT_NETWORK_FAILURE,
        Some FIXED_CLIENT_MALFORMED_RESPONSE, Some FIXED_CLIENT_UPSTREAM_STATUS, Some FIXED_CLIENT_RESPONSE_TOO_LARGE}"
  by (auto simp: requestMemoryRpc_def Let_def map_sum_def caught_def split: option.splits if_splits sum.splits
      dest!: read_json_error)

lemma search_error:
  assumes "MemorySearchInputSchema v = Some i"
  shows "fst (searchMemoryRows to_text parse fetch c (search_input_val i) ab) \<noteq> Inl (Some FIXED_CLIENT_INVALID_REQUEST)"
  using rpc_error [of to_text parse fetch c FIXED_SEARCH_PATH "search_input_val i" ab]
  by (auto simp: searchMemoryRows_def search_input_again [OF assms] rpc_call_def map_sum_def split: prod.splits sum.splits
      dest: search_payload_error)

text \<open>
  C40. Error: over the fixed client, an unaborted search answers \<open>INVALID_REQUEST\<close> exactly when the request does not
  parse, or when the client refused the cursor: upstream said 400, or the next cursor it sent is malformed. The client
  never refuses what the tool has parsed.
\<close>

theorem search_invalid_iff:
  "search_over to_text parse fetch c client_ab False v = A_error INVALID_REQUEST \<longleftrightarrow>
     (case MemorySearchInputSchema v of
        None \<Rightarrow> True
      | Some i \<Rightarrow> fst (searchMemoryRows to_text parse fetch c (search_input_val i) client_ab) = Inl (Some FIXED_CLIENT_INVALID_CURSOR))"
proof (cases "MemorySearchInputSchema v")
  case (Some i)
  let ?r = "fst (searchMemoryRows to_text parse fetch c (search_input_val i) client_ab)"
  show ?thesis
  proof (cases ?r)
    case (Inl e)
    then have "e \<noteq> Some FIXED_CLIENT_INVALID_REQUEST" using search_error [OF Some] by metis
    then have "normalizeError (map_option (\<lambda>e. VStr (client_code e)) e) False = INVALID_REQUEST \<longleftrightarrow>
        e = Some FIXED_CLIENT_INVALID_CURSOR"
      by (cases e; cases "the e") (simp_all add: normalizeError_def mapClientError_def js_def)
    with Some Inl show ?thesis by (simp add: search_over_def memory_search_raw_def over_client_def)
  next
    case (Inr y)
    obtain rows cur where "y = (rows, cur)" by (cases y)
    with Some Inr show ?thesis
      by (simp add: search_over_def memory_search_raw_def over_client_def Let_def search_candidate_parsed)
  qed
qed (simp add: search_over_def memory_search_raw_def)

end
