(* ===== verification/Governed_Tools.thy ===== *)
theory Governed_Tools
  imports Memory_Properties
begin

text \<open>The memory tools under the governor: what the executor makes of their answers.\<close>

fun answer_rows :: "read_answer \<Rightarrow> nat" where
  "answer_rows (A_error e) = 0"
| "answer_rows (A_search rs c) = length rs"
| "answer_rows (A_get r) = 1"
| "answer_rows (A_recent rs c) = length rs"
| "answer_rows (A_retrieve q (R_found r)) = 1"
| "answer_rows (A_retrieve q (R_ambiguous rs)) = length rs"
| "answer_rows (A_retrieve q R_no_match) = 0"
| "answer_rows (A_retrieve q (R_partial rs c)) = length rs"

lemma countRows_answer: "countRows (answer_val a) = answer_rows a"
  by (cases a rule: answer_rows.cases)
    (simp_all add: countRows_def rows_of_def createReadToolError_def getp_def js_def array_length_def obj_def search_success_val_def
      get_success_val_def memory_val_def)

lemma declared_answer: "declared_error (answer_val a) = (case a of A_error e \<Rightarrow> Some (VStr (error_code e)) | _ \<Rightarrow> None)"
  by (cases a) (simp_all add: createReadToolError_def getp_def js_def obj_def search_success_val_def get_success_val_def)

definition limited_to :: "request_id \<Rightarrow> read_answer \<Rightarrow> read_answer" where
  "limited_to rid a =
     (if (\<exists>e. a = A_error e) \<or> readToolWireResponseByteLength rid (answer_val a) \<le> MAX_RESPONSE_BYTES then a
      else A_error RT_RESPONSE_LIMIT_EXCEEDED)"

section \<open>Tools that keep their contract\<close>

text \<open>
  A tool and the answers it may give: the error mapping and the byte limit all read tools share, answers that parse to
  themselves under the declared schema, and no more rows than declared.
\<close>

locale read_tool =
  fixes tool :: descriptor and answers :: "read_answer \<Rightarrow> bool"
  assumes mapping: "errorMapping tool = READ_TOOL_ERROR_MAPPING"
    and bytes: "maxResponseBytes tool = MAX_RESPONSE_BYTES"
    and typed: "answers a \<Longrightarrow> outputSchema tool (answer_val a) = Some (answer_val a)"
    and rows: "answers a \<Longrightarrow> answer_rows a \<le> maxRows tool"
begin

lemma settle_answer:
  assumes "answers a"
  shows "fst (settle_output tool rid ab (Resolved (answer_val a))) = answer_val (limited_to rid a)"
proof (cases a)
  case (A_error e)
  with typed [OF assms] declared_answer [of a] show ?thesis by (simp add: settle_output_def limited_to_def Let_def)
qed (use typed [OF assms] rows [OF assms] mapping bytes declared_answer [of a] countRows_answer [of a] in
    \<open>simp_all add: settle_output_def limited_to_def Let_def READ_TOOL_ERROR_MAPPING_def\<close>)

text \<open>The event of an answer: its rows and success, or the error it carries.\<close>

lemma settle_event:
  assumes "answers a"
  shows "snd (settle_output tool rid ab (Resolved (answer_val a))) =
    (case a of A_error e \<Rightarrow> (0, Blocked, Some (VStr (error_code e)))
     | _ \<Rightarrow> if readToolWireResponseByteLength rid (answer_val a) \<le> MAX_RESPONSE_BYTES then (answer_rows a, Success, None)
           else (answer_rows a, Blocked, Some (VStr (error_code RT_RESPONSE_LIMIT_EXCEEDED))))"
proof (cases a)
  case (A_error e)
  with typed [OF assms] declared_answer [of a] show ?thesis by (simp add: settle_output_def Let_def)
qed (use typed [OF assms] rows [OF assms] mapping bytes declared_answer [of a] countRows_answer [of a] in
    \<open>simp_all add: settle_output_def Let_def READ_TOOL_ERROR_MAPPING_def\<close>)

end

lemma search_rows: "answer_rows (memory_search_raw client ab v) \<le> MAX_SEARCH_ROWS"
proof -
  consider rs c where "memory_search_raw client ab v = A_search rs c" "search_ok rs c"
    | e where "memory_search_raw client ab v = A_error e"
    using search_raw_cases [of client ab v] search_raw_iff by metis
  then show ?thesis by cases (simp_all add: search_ok_def)
qed

lemma get_rows: "answer_rows (memory_get_raw client ab v) \<le> 1"
  using get_raw_cases [of client ab v] by auto

lemma recent_rows: "answer_rows (memory_list_recent_raw client ab v) \<le> MAX_RECENT_ROWS"
proof -
  consider rs c where "memory_list_recent_raw client ab v = A_recent rs c" "recent_ok rs c"
    | e where "memory_list_recent_raw client ab v = A_error e"
    using recent_raw_cases [of client ab v] recent_raw_iff by metis
  then show ?thesis by cases (simp_all add: recent_ok_def)
qed

lemma retrieve_rows: "answer_rows (mapDefensiveRetrievalToMemoryRetrieveOutput out) \<le> MAX_SEARCH_ROWS"
proof -
  have small: "answer_rows (A_retrieve q r) \<le> MAX_SEARCH_ROWS" if "retrieve_ok r" for q r
    using that by (cases r) (simp_all add: search_ok_def MAX_SEARCH_ROWS_def)
  consider q r where "mapDefensiveRetrievalToMemoryRetrieveOutput out = A_retrieve q r" "retrieve_ok r"
    | e where "mapDefensiveRetrievalToMemoryRetrieveOutput out = A_error e"
    using map_cases [of out] map_retrieve by metis
  then show ?thesis by cases (simp_all add: small)
qed

interpretation search_tool: read_tool MEMORY_SEARCH_TOOL "\<lambda>a. \<exists>client ab v. a = memory_search_raw client ab v"
  by unfold_locales (auto simp: MEMORY_SEARCH_TOOL_def search_raw_typed search_rows)

interpretation get_tool: read_tool MEMORY_GET_TOOL "\<lambda>a. \<exists>client ab v. a = memory_get_raw client ab v"
  by unfold_locales (use get_rows in \<open>auto simp: MEMORY_GET_TOOL_def get_raw_typed\<close>)

interpretation recent_tool: read_tool MEMORY_LIST_RECENT_TOOL "\<lambda>a. \<exists>client ab v. a = memory_list_recent_raw client ab v"
  by unfold_locales (auto simp: MEMORY_LIST_RECENT_TOOL_def recent_raw_typed recent_rows)

interpretation retrieve_tool: read_tool MEMORY_RETRIEVE_TOOL
  "\<lambda>a. \<exists>env rid v. a = mapDefensiveRetrievalToMemoryRetrieveOutput (retrieval_run env rid v)"
  by unfold_locales (auto simp: MEMORY_RETRIEVE_TOOL_def retrieve_typed retrieve_rows)

text \<open>
  C25. Refinement: under the governor, what an admitted call of a memory tool answers is what the tool answered, whole,
  or the response-limit error when it is a success that does not fit the wire together with the caller's request ID.
  No answer is refused by the schema, cut, or counted over the row limit.
\<close>

theorem governed_answers_limited:
  "fst (settle_output MEMORY_SEARCH_TOOL rid ab (Resolved (answer_val (memory_search_raw client iab v)))) =
     answer_val (limited_to rid (memory_search_raw client iab v)) \<and>
   fst (settle_output MEMORY_GET_TOOL rid ab (Resolved (answer_val (memory_get_raw client' iab v)))) =
     answer_val (limited_to rid (memory_get_raw client' iab v)) \<and>
   fst (settle_output MEMORY_LIST_RECENT_TOOL rid ab (Resolved (answer_val (memory_list_recent_raw client'' iab v)))) =
     answer_val (limited_to rid (memory_list_recent_raw client'' iab v)) \<and>
   fst (settle_output MEMORY_RETRIEVE_TOOL rid ab
         (Resolved (answer_val (mapDefensiveRetrievalToMemoryRetrieveOutput (retrieval_run env rid' v))))) =
     answer_val (limited_to rid (mapDefensiveRetrievalToMemoryRetrieveOutput (retrieval_run env rid' v)))"
  by (intro conjI;
      (rule search_tool.settle_answer get_tool.settle_answer recent_tool.settle_answer retrieve_tool.settle_answer, blast))

end
