(* ===== verification/Iso_Round_Trip.thy ===== *)
theory Iso_Round_Trip
  imports Iso_Date
begin

text \<open>
  \<open>Date.prototype.toISOString\<close> and \<open>Date.parse\<close> are inverse on the years 0 to 9999: the calendar of \<open>date_of_day\<close>
  and \<open>day_number\<close>, the padded fields, and the text as a whole.
\<close>

section \<open>Years of an era\<close>

text \<open>Days before the \<open>y\<close>-th year of an era of 400 years, whose years begin in March.\<close>

definition year_start :: "int \<Rightarrow> int" where
  "year_start y = (if y = 400 then 146097 else 365 * y + y div 4 - y div 100)"

definition year_index :: "int \<Rightarrow> int" where
  "year_index doe = doe - doe div 1460 + doe div 36524 - doe div 146096"

lemma div_step: "0 < k \<Longrightarrow> (n + 1) div k = n div k + (if (n + 1) mod k = 0 then 1 else (0::int))"
proof -
  assume k: "0 < k"
  show ?thesis
  proof (cases "(n + 1) mod k = 0")
    case True
    then obtain q where q: "n + 1 = k * q" by auto
    then have "n = k * (q - 1) + (k - 1)" by (simp add: algebra_simps)
    then have "n div k = q - 1" using k by (simp add: div_add1_eq)
    with q True k show ?thesis by simp
  next
    case False
    then have "(n + 1) mod k = n mod k + 1" using k by (smt (verit) mod_add_left_eq pos_mod_bound pos_mod_sign mod_pos_pos_trivial mod_self)
    with False k show ?thesis by (smt (verit) div_mult_mod_eq mult_cancel_right)
  qed
qed

lemma year_index_step: "year_index n \<le> year_index (n + 1)"
proof -
  have "(n + 1) mod 36524 = 0" if "(n + 1) mod 146096 = 0"
  proof -
    have "36524 dvd (146096 :: int)" by simp
    then show ?thesis using that dvd_trans [of 36524 146096 "n + 1"] by (simp add: dvd_eq_mod_eq_0)
  qed
  then show ?thesis by (auto simp: year_index_def div_step)
qed

lemma year_index_mono: "a \<le> b \<Longrightarrow> year_index a \<le> year_index b"
proof (induction b rule: int_ge_induct)
  case (step i)
  then show ?case using year_index_step [of i] by simp
qed simp

definition year_exact :: "int \<Rightarrow> bool" where
  "year_exact y \<longleftrightarrow>
     year_index (year_start y) div 365 = y \<and> year_index (year_start (y + 1) - 1) div 365 = y \<and>
     year_start (y + 1) - year_start y = (if is_leap (y + 1) then 366 else 365)"

lemma years_exact: "list_all year_exact [0..399]"
  by code_simp

lemma era_year: "0 \<le> y \<Longrightarrow> y < 400 \<Longrightarrow> year_exact y"
  using years_exact by (auto simp: list_all_iff)

lemma year_found: "0 \<le> doe \<Longrightarrow> doe < year_start (int n) \<Longrightarrow> \<exists>y. 0 \<le> y \<and> y < int n \<and> year_start y \<le> doe \<and> doe < year_start (y + 1)"
proof (induction n)
  case (Suc n)
  show ?case
  proof (cases "doe < year_start (int n)")
    case True
    with Suc show ?thesis by force
  next
    case False
    with Suc.prems show ?thesis by (intro exI [of _ "int n"]) (simp add: add.commute)
  qed
qed (simp add: year_start_def)

text \<open>The year of a day of the era, and the day of that year.\<close>

lemma era_day:
  assumes "0 \<le> doe" "doe < 146097"
  defines "yoe \<equiv> (doe - doe div 1460 + doe div 36524 - doe div 146096) div 365"
  shows "0 \<le> yoe" "yoe < 400" "0 \<le> doe - (365 * yoe + yoe div 4 - yoe div 100)"
    "doe - (365 * yoe + yoe div 4 - yoe div 100) < (if is_leap (yoe + 1) then 366 else 365)"
proof -
  obtain y where y: "0 \<le> y" "y < 400" "year_start y \<le> doe" "doe < year_start (y + 1)"
    using year_found [of doe 400] assms(1,2) by (auto simp: year_start_def)
  note e = era_year [OF y(1,2), unfolded year_exact_def]
  have "year_index (year_start y) div 365 \<le> year_index doe div 365" "year_index doe div 365 \<le> year_index (year_start (y + 1) - 1) div 365"
    using y(3,4) by (auto intro!: zdiv_mono1 year_index_mono)
  with e have yoe: "yoe = y" by (simp add: yoe_def year_index_def)
  have "year_start y = 365 * y + y div 4 - y div 100" using y(2) by (simp add: year_start_def)
  with e y yoe show "0 \<le> yoe" "yoe < 400" "0 \<le> doe - (365 * yoe + yoe div 4 - yoe div 100)"
    "doe - (365 * yoe + yoe div 4 - yoe div 100) < (if is_leap (yoe + 1) then 366 else 365)" by simp_all
qed

section \<open>Months\<close>

definition month_of :: "int \<Rightarrow> int" where
  "month_of doy = (let mp = (5 * doy + 2) div 153 in if mp < 10 then mp + 3 else mp - 9)"

definition day_of :: "int \<Rightarrow> int" where
  "day_of doy = doy - (153 * ((5 * doy + 2) div 153) + 2) div 5 + 1"

text \<open>A day of the year that begins in March; only the 366th depends on the year.\<close>

definition month_exact :: "int \<Rightarrow> bool" where
  "month_exact doy \<longleftrightarrow>
     1 \<le> month_of doy \<and> month_of doy \<le> 12 \<and> 1 \<le> day_of doy \<and>
     (153 * (if month_of doy \<le> 2 then month_of doy + 9 else month_of doy - 3) + 2) div 5 + day_of doy - 1 = doy \<and>
     day_of doy \<le> (if month_of doy = 2 then if doy = 365 then 29 else 28 else if month_of doy \<in> {4, 6, 9, 11} then 30 else 31)"

lemma months_exact: "list_all month_exact [0..365]"
  by code_simp

lemma day_month: "0 \<le> doy \<Longrightarrow> doy < 366 \<Longrightarrow> month_exact doy"
  using months_exact by (auto simp: list_all_iff)

section \<open>The calendar\<close>

lemma leap_era: "is_leap (y + era * 400) \<longleftrightarrow> is_leap y"
proof -
  have "(y + 4 * (era * 100)) mod 4 = y mod 4" "(y + 100 * (era * 4)) mod 100 = y mod 100" "(y + 400 * era) mod 400 = y mod 400"
    by (rule mod_mult_self2)+
  then have "(y + era * 400) mod 4 = y mod 4" "(y + era * 400) mod 100 = y mod 100" "(y + era * 400) mod 400 = y mod 400"
    by (simp_all add: mult.commute mult.left_commute)
  then show ?thesis by (simp add: is_leap_def)
qed

lemma date_of_day_inverse:
  assumes "date_of_day n = (y, mo, d)"
  shows "day_number y mo d = n" "1 \<le> mo" "mo \<le> 12" "1 \<le> d" "d \<le> days_in_month y mo"
proof -
  define z where "z = n + 719468"
  define doe where "doe = z mod 146097"
  define yoe where "yoe = (doe - doe div 1460 + doe div 36524 - doe div 146096) div 365"
  define doy where "doy = doe - (365 * yoe + yoe div 4 - yoe div 100)"
  have "0 \<le> doe" "doe < 146097" by (simp_all add: doe_def)
  note era = era_day [OF this, folded yoe_def, folded doy_def]
  then have "0 \<le> doy" "doy < 366" by (auto split: if_splits)
  note mon = day_month [OF this, unfolded month_exact_def]
  have whole: "date_of_day n = (if month_of doy \<le> 2 then yoe + z div 146097 * 400 + 1 else yoe + z div 146097 * 400, month_of doy, day_of doy)"
    unfolding date_of_day_def Let_def month_of_def day_of_def doy_def yoe_def doe_def z_def by (rule refl)
  have date: "mo = month_of doy" "d = day_of doy" "y = (if mo \<le> 2 then yoe + z div 146097 * 400 + 1 else yoe + z div 146097 * 400)"
    using assms whole by auto
  let ?y = "if mo \<le> 2 then y - 1 else y"
  have y': "?y = yoe + z div 146097 * 400" using date(3) by auto
  then have "?y mod 400 = yoe" "?y div 400 = z div 146097" using era(1,2) by simp_all
  moreover have "(153 * (if mo \<le> 2 then mo + 9 else mo - 3) + 2) div 5 + d - 1 = doy" using mon unfolding date(1,2) by blast
  ultimately have "day_number y mo d = z div 146097 * 146097 + yoe * 365 + yoe div 4 - yoe div 100 + doy - 719468"
    unfolding day_number_def Let_def by metis
  also have "\<dots> = z div 146097 * 146097 + doe - 719468" by (simp add: doy_def)
  also have "\<dots> = n" by (simp add: doe_def z_def)
  finally show "day_number y mo d = n" .
  show "1 \<le> mo" "mo \<le> 12" "1 \<le> d" using mon date by simp_all
  have "doy = 365 \<Longrightarrow> mo = 2 \<Longrightarrow> is_leap y"
    using era(4) date(3) leap_era [of "yoe + 1" "z div 146097"] by (auto simp: algebra_simps split: if_splits)
  then show "d \<le> days_in_month y mo"
    using mon date(1,2) by (auto simp: days_in_month_def split: if_splits)
qed

section \<open>Fields\<close>

lemma dig_hex_digit [simp]: "n < 10 \<Longrightarrow> dig (hex_digit n) = Some (int n)"
  by (simp add: dig_def unat_hex_digit)

lemma num_of_snoc: "num_of (s @ [u]) = 10 * num_of s + (case dig u of None \<Rightarrow> 0 | Some d \<Rightarrow> d)"
  by (simp add: num_of_def)

lemma to_base_digits: "all_digits (to_base 10 n)"
  unfolding all_digits_def list_all_iff by (auto dest!: to_base_digit [rotated 2])

lemma num_of_to_base: "num_of (to_base 10 n) = int n"
proof (induction n rule: less_induct)
  case (less n)
  show ?case
  proof (cases "n < 10")
    case True
    then show ?thesis by (simp add: num_of_def)
  next
    case False
    then have "num_of (to_base 10 (n div 10)) = int (n div 10)" by (intro less.IH) simp
    moreover have "int n = 10 * int (n div 10) + int (n mod 10)" by presburger
    ultimately show ?thesis using False by (simp add: num_of_snoc)
  qed
qed

lemma length_to_base_10: "n < 10 ^ Suc k \<Longrightarrow> length (to_base 10 n) \<le> Suc k"
proof (induction k arbitrary: n)
  case (Suc k)
  show ?case
  proof (cases "n < 10")
    case False
    have "n div 10 < 10 ^ Suc k" using Suc.prems by (simp add: less_mult_imp_div_less mult.commute)
    with Suc.IH [of "n div 10"] False show ?thesis by simp
  qed simp
qed simp

lemma num_of_zeros: "num_of (replicate k 0x30 @ s) = num_of s"
  by (induction k) (simp_all add: num_of_def dig_def)

lemma hex_dig: "dig 0x30 = Some 0"
  by (simp add: dig_def)

lemma padded_field:
  assumes "0 \<le> n" "n < 10 ^ Suc k"
  shows "length (padded (Suc k) n) = Suc k" "all_digits (padded (Suc k) n)" "num_of (padded (Suc k) n) = n"
proof -
  have "nat n < 10 ^ Suc k" using assms by (metis nat_less_iff of_nat_numeral of_nat_power)
  then have "length (to_base 10 (nat n)) \<le> Suc k" by (rule length_to_base_10)
  then show "length (padded (Suc k) n) = Suc k" by (simp add: padded_def Let_def)
  show "all_digits (padded (Suc k) n)"
    using to_base_digits [of "nat n"] hex_dig by (auto simp: padded_def Let_def all_digits_def list_all_iff)
  show "num_of (padded (Suc k) n) = n"
    using assms(1) by (simp add: padded_def Let_def num_of_zeros num_of_to_base)
qed

lemma padded_fields:
  "0 \<le> n \<Longrightarrow> n < 10000 \<Longrightarrow> length (padded 4 n) = 4 \<and> all_digits (padded 4 n) \<and> num_of (padded 4 n) = n"
  "0 \<le> n \<Longrightarrow> n < 1000 \<Longrightarrow> length (padded 3 n) = 3 \<and> all_digits (padded 3 n) \<and> num_of (padded 3 n) = n"
  "0 \<le> n \<Longrightarrow> n < 100 \<Longrightarrow> length (padded 2 n) = 2 \<and> all_digits (padded 2 n) \<and> num_of (padded 2 n) = n"
  using padded_field [of n 3] padded_field [of n 2] padded_field [of n 1] by (simp_all add: eval_nat_numeral)

lemma padded_clock: "0 \<le> n \<Longrightarrow> n < 60 \<Longrightarrow> length (padded 2 n) = 2 \<and> all_digits (padded 2 n) \<and> num_of (padded 2 n) = n"
  by (rule padded_fields(3)) simp_all

section \<open>The text\<close>

lemma iso_text_fields:
  assumes "length Y = 4" "length M = 2" "length D = 2" "length H = 2" "length I = 2" "length S = 2" "length F = 3"
    and "all_digits Y" "all_digits M" "all_digits D" "all_digits H" "all_digits I" "all_digits S" "all_digits F"
    and "1 \<le> num_of M" "num_of M \<le> 12" "1 \<le> num_of D" "num_of D \<le> days_in_month (num_of Y) (num_of M)"
    and "num_of H < 24" "num_of I < 60" "num_of S < 60"
  shows "iso_fields_of (Y @ [0x2d] @ M @ [0x2d] @ D @ [0x54] @ H @ [0x3a] @ I @ [0x3a] @ S @ [0x2e] @ F @ [0x5a]) =
    Some \<lparr>yr = num_of Y, mon = num_of M, dy = num_of D, hr = num_of H, mnt = num_of I, sec = num_of S, milli = num_of F,
          offset_minutes = 0\<rparr>"
proof -
  obtain y1 y2 y3 y4 where Y: "Y = [y1, y2, y3, y4]" using assms(1) by (auto simp: numeral_eq_Suc length_Suc_conv)
  obtain m1 m2 where M: "M = [m1, m2]" using assms(2) by (auto simp: numeral_eq_Suc length_Suc_conv)
  obtain d1 d2 where D: "D = [d1, d2]" using assms(3) by (auto simp: numeral_eq_Suc length_Suc_conv)
  obtain h1 h2 where H: "H = [h1, h2]" using assms(4) by (auto simp: numeral_eq_Suc length_Suc_conv)
  obtain i1 i2 where I: "I = [i1, i2]" using assms(5) by (auto simp: numeral_eq_Suc length_Suc_conv)
  obtain s1 s2 where S: "S = [s1, s2]" using assms(6) by (auto simp: numeral_eq_Suc length_Suc_conv)
  obtain f1 f2 f3 where F: "F = [f1, f2, f3]" using assms(7) by (auto simp: numeral_eq_Suc length_Suc_conv)
  have z: "dig 0x5a = None" "iso_zone [0x5a] = Some 0" by (simp_all add: dig_def iso_zone_def js_def)
  have f: "takeWhile (\<lambda>u. dig u \<noteq> None) [f1, f2, f3, 0x5a] = F"
    using assms(14) by (simp add: F all_digits_def z)
  have sec: "iso_seconds ([0x3a] @ S @ [0x2e] @ F @ [0x5a]) = Some (num_of S, num_of F, [0x5a])"
    using assms(13,21) f by (simp add: iso_seconds_def S F)
  have d: "drop 16 (Y @ [0x2d] @ M @ [0x2d] @ D @ [0x54] @ H @ [0x3a] @ I @ [0x3a] @ S @ [0x2e] @ F @ [0x5a]) =
      [0x3a] @ S @ [0x2e] @ F @ [0x5a]"
    by (simp add: Y M D H I)
  show ?thesis
    unfolding iso_fields_of_def Let_def d sec using assms(8-12,15-20) z(2)
    by (simp add: Y M D H I)
qed

lemma nested_units:
  "t = day * 86400000 + u \<Longrightarrow> u = a * 1000 + r \<Longrightarrow> a = b * 60 + s \<Longrightarrow> b = h * 60 + m \<Longrightarrow>
   (t :: int) = ((day * 24 + h) * 60 + m) * 60000 + s * 1000 + r"
  by simp

lemma clock_parts:
  "(t :: int) = ((t div 86400000 * 24 + t mod 86400000 div 3600000) * 60 + t mod 86400000 div 60000 mod 60) * 60000 +
     t mod 86400000 div 1000 mod 60 * 1000 + t mod 86400000 mod 1000"
proof (rule nested_units)
  show "t = t div 86400000 * 86400000 + t mod 86400000" by (rule div_mult_mod_eq [symmetric])
  show "t mod 86400000 = t mod 86400000 div 1000 * 1000 + t mod 86400000 mod 1000" by (rule div_mult_mod_eq [symmetric])
  have "t mod 86400000 div 60000 = t mod 86400000 div 1000 div 60" "t mod 86400000 div 3600000 = t mod 86400000 div 60000 div 60"
    by (simp_all add: zdiv_zmult2_eq [symmetric])
  then show "t mod 86400000 div 1000 = t mod 86400000 div 60000 * 60 + t mod 86400000 div 1000 mod 60"
    "t mod 86400000 div 60000 = t mod 86400000 div 3600000 * 60 + t mod 86400000 div 60000 mod 60"
    by (metis div_mult_mod_eq)+
qed

text \<open>
  Every time of the years 0 to 9999 is printed as a text that is a timestamp of the contract, and
  \<open>Date.parse\<close> reads the time back from it, to the millisecond.
\<close>

lemma iso_text_round_trip:
  assumes "date_of_day (t div 86400000) = (y, mo, d)" "0 \<le> y" "y \<le> 9999"
  shows "iso_datetime (toISOString t) \<and> date_parse (toISOString t) = Some t"
proof -
  define u where "u = t mod 86400000"
  have u: "0 \<le> u" "u < 86400000" by (simp_all add: u_def)
  note cal = date_of_day_inverse [OF assms(1)]
  have "days_in_month y mo \<le> 31" by (simp add: days_in_month_def)
  have h: "0 \<le> u div 3600000" "u div 3600000 < 24" "0 \<le> u div 60000 mod 60" "u div 60000 mod 60 < 60"
    "0 \<le> u div 1000 mod 60" "u div 1000 mod 60 < 60" "0 \<le> u mod 1000" "u mod 1000 < 1000" using u by simp_all
  have fields: "iso_fields_of (toISOString t) =
      Some \<lparr>yr = y, mon = mo, dy = d, hr = u div 3600000, mnt = u div 60000 mod 60, sec = u div 1000 mod 60,
            milli = u mod 1000, offset_minutes = 0\<rparr>"
  proof -
    have f: "length (padded 4 y) = 4 \<and> all_digits (padded 4 y) \<and> num_of (padded 4 y) = y"
      "length (padded 2 mo) = 2 \<and> all_digits (padded 2 mo) \<and> num_of (padded 2 mo) = mo"
      "length (padded 2 d) = 2 \<and> all_digits (padded 2 d) \<and> num_of (padded 2 d) = d"
      using cal \<open>days_in_month y mo \<le> 31\<close> assms(2,3) by (simp_all add: padded_fields)
    have g: "length (padded 2 (u div 3600000)) = 2 \<and> all_digits (padded 2 (u div 3600000)) \<and> num_of (padded 2 (u div 3600000)) = u div 3600000"
      "length (padded 2 (u div 60000 mod 60)) = 2 \<and> all_digits (padded 2 (u div 60000 mod 60)) \<and> num_of (padded 2 (u div 60000 mod 60)) = u div 60000 mod 60"
      "length (padded 2 (u div 1000 mod 60)) = 2 \<and> all_digits (padded 2 (u div 1000 mod 60)) \<and> num_of (padded 2 (u div 1000 mod 60)) = u div 1000 mod 60"
      "length (padded 3 (u mod 1000)) = 3 \<and> all_digits (padded 3 (u mod 1000)) \<and> num_of (padded 3 (u mod 1000)) = u mod 1000"
      by (rule padded_clock [OF h(1) less_trans [OF h(2)]], simp, rule padded_clock [OF h(3,4)], rule padded_clock [OF h(5,6)],
          rule padded_fields(2) [OF h(7,8)])
    let ?text = "padded 4 y @ [0x2d] @ padded 2 mo @ [0x2d] @ padded 2 d @ [0x54] @ padded 2 (u div 3600000) @ [0x3a] @
        padded 2 (u div 60000 mod 60) @ [0x3a] @ padded 2 (u div 1000 mod 60) @ [0x2e] @ padded 3 (u mod 1000) @ [0x5a]"
    have text': "toISOString t = ?text"
      using assms(2,3) by (simp add: toISOString_def assms(1) iso_year_def u_def Let_def)
    have "iso_fields_of ?text =
        Some \<lparr>yr = num_of (padded 4 y), mon = num_of (padded 2 mo), dy = num_of (padded 2 d),
              hr = num_of (padded 2 (u div 3600000)), mnt = num_of (padded 2 (u div 60000 mod 60)),
              sec = num_of (padded 2 (u div 1000 mod 60)), milli = num_of (padded 3 (u mod 1000)), offset_minutes = 0\<rparr>"
      by (rule iso_text_fields) (simp_all only: f g cal(2-5) h)
    then show ?thesis unfolding text' by (simp only: f g)
  qed
  have "date_parse (toISOString t) =
      Some (((t div 86400000 * 24 + u div 3600000) * 60 + u div 60000 mod 60) * 60000 + u div 1000 mod 60 * 1000 + u mod 1000)"
    unfolding date_parse_def fields option.case iso_fields.simps cal(1) diff_0_right by (rule refl)
  then have "date_parse (toISOString t) = Some t" unfolding u_def clock_parts [of t, symmetric] .
  with fields show ?thesis by (simp only: iso_datetime_def option.distinct not_False_eq_True simp_thms)
qed

text \<open>The times whose texts have a year of four digits.\<close>

definition four_digit_year :: "int \<Rightarrow> bool" where
  "four_digit_year t \<longleftrightarrow> 0 \<le> fst (date_of_day (t div 86400000)) \<and> fst (date_of_day (t div 86400000)) \<le> 9999"

lemma iso_text:
  assumes "four_digit_year t"
  shows "iso_datetime (toISOString t)" "date_parse (toISOString t) = Some t"
  using iso_text_round_trip [of t] assms
  by (cases "date_of_day (t div 86400000)"; simp add: four_digit_year_def)+

end
