(* ===== verification/Session_Capabilities.thy ===== *)
theory Session_Capabilities
  imports Memory_Tools Iso_Round_Trip
begin

text \<open>
  The session capabilities tool: its schemas in \<open>packages/contracts/src/read-tools.ts\<close> and
  \<open>packages/server/src/session-capabilities-get.ts\<close>. The registered names are the elements of a set in insertion
  order; the time is \<open>new Date()\<close> in milliseconds.
\<close>

section \<open>Schemas\<close>

definition SessionCapabilitiesGetInputSchema :: "unit schema" where
  "SessionCapabilitiesGetInputSchema v = map_option (\<lambda>_. ()) (z_strict [] v)"

text \<open>\<open>/^[a-z][a-z0-9_]*$/\<close>\<close>

definition lower_letter :: "cunit \<Rightarrow> bool" where
  "lower_letter u \<longleftrightarrow> 97 \<le> unat u \<and> unat u \<le> 122"

definition SESSION_CAPABILITIES_TOOL_NAME_PATTERN :: "jsstring \<Rightarrow> bool" where
  "SESSION_CAPABILITIES_TOOL_NAME_PATTERN s \<longleftrightarrow>
     s \<noteq> [] \<and> lower_letter (hd s) \<and>
     list_all (\<lambda>u. lower_letter u \<or> 48 \<le> unat u \<and> unat u \<le> 57 \<or> u = 0x5f) (tl s)"

datatype evidence_state = Established | Evidence_unknown

datatype availability = Is_available | Is_unavailable | Availability_unknown

record tool_access =
  acc_declared :: evidence_state
  acc_verified :: evidence_state
  acc_qualified :: evidence_state
  acc_authorized :: evidence_state
  acc_available :: availability

record visible_tool =
  vt_name :: jsstring
  vt_access :: tool_access

record capabilities =
  observed_at :: jsstring
  expires_at :: jsstring
  read_semantics_digest :: jsstring
  visible_tools :: "visible_tool list"

definition z_evidence :: "string \<Rightarrow> evidence_state schema" where
  "z_evidence n = z_enum [(n, Established), (''unknown'', Evidence_unknown)]"

definition SessionToolAccessEvidenceSchema :: "tool_access schema" where
  "SessionToolAccessEvidenceSchema v = do {
     f \<leftarrow> z_strict [''declared'', ''verified'', ''qualified'', ''authorized'', ''available''] v;
     d \<leftarrow> z_evidence ''declared'' (f ''declared'');
     w \<leftarrow> z_evidence ''verified'' (f ''verified'');
     q \<leftarrow> z_evidence ''qualified'' (f ''qualified'');
     z \<leftarrow> z_evidence ''authorized'' (f ''authorized'');
     b \<leftarrow> z_enum [(''available'', Is_available), (''unavailable'', Is_unavailable), (''unknown'', Availability_unknown)] (f ''available'');
     Some \<lparr>acc_declared = d, acc_verified = w, acc_qualified = q, acc_authorized = z, acc_available = b\<rparr> }"

definition tool_name_ok :: "jsstring \<Rightarrow> bool" where
  "tool_name_ok s \<longleftrightarrow> 1 \<le> length s \<and> length s \<le> 64 \<and> SESSION_CAPABILITIES_TOOL_NAME_PATTERN s"

definition SessionVisibleToolSchema :: "visible_tool schema" where
  "SessionVisibleToolSchema v = do {
     f \<leftarrow> z_strict [''name'', ''access''] v;
     n \<leftarrow> z_refine tool_name_ok z_string (f ''name'');
     a \<leftarrow> SessionToolAccessEvidenceSchema (f ''access'');
     Some \<lparr>vt_name = n, vt_access = a\<rparr> }"

text \<open>\<open>z.literal\<close> of a number.\<close>

definition z_number :: "nat \<Rightarrow> unit schema" where
  "z_number n v = (if v = num n then Some () else None)"

definition DISCOVERY_STATUS :: string where
  "DISCOVERY_STATUS = ''DRAFT; supplements tools/list only; no runtime authority''"

definition SessionCapabilitiesDiscoverySchema :: "(jsstring \<times> jsstring) schema" where
  "SessionCapabilitiesDiscoverySchema v = do {
     f \<leftarrow> z_strict [''profile'', ''schema_version'', ''tools_list'', ''status'', ''observed_at'', ''expires_at'', ''assurance''] v;
     _ \<leftarrow> z_literal ''session_capabilities_minimal_draft_0_2'' (f ''profile'');
     _ \<leftarrow> z_literal ''draft-0.2'' (f ''schema_version'');
     l \<leftarrow> z_strict [''method'', ''permission_authority''] (f ''tools_list'');
     _ \<leftarrow> z_literal ''tools/list'' (l ''method'');
     _ \<leftarrow> z_bool False (l ''permission_authority'');
     _ \<leftarrow> z_literal DISCOVERY_STATUS (f ''status'');
     a \<leftarrow> z_refine iso_datetime z_string (f ''observed_at'');
     e \<leftarrow> z_refine iso_datetime z_string (f ''expires_at'');
     s \<leftarrow> z_strict [''tools_list_is_permission_authority'', ''catalog_provenance_currentness'', ''effective_grants''] (f ''assurance'');
     _ \<leftarrow> z_bool False (s ''tools_list_is_permission_authority'');
     _ \<leftarrow> z_literal ''unknown'' (s ''catalog_provenance_currentness'');
     _ \<leftarrow> z_literal ''unknown'' (s ''effective_grants'');
     if (case (date_parse e, date_parse a) of (Some y, Some x) \<Rightarrow> x \<le> y | _ \<Rightarrow> False) then Some (a, e) else None }"

definition SessionCapabilitiesSuccessSchema :: "capabilities schema" where
  "SessionCapabilitiesSuccessSchema v = do {
     f \<leftarrow> z_strict [''ok'', ''discovery'', ''session'', ''visible_tools''] v;
     _ \<leftarrow> z_bool True (f ''ok'');
     (a, e) \<leftarrow> SessionCapabilitiesDiscoverySchema (f ''discovery'');
     s \<leftarrow> z_strict [''wire'', ''read_semantics_digest''] (f ''session'');
     w \<leftarrow> z_strict [''max_request_id_utf8_bytes'', ''max_complete_response_utf8_bytes'', ''default_deadline_ms'', ''automatic_retries''] (s ''wire'');
     _ \<leftarrow> z_number MAX_REQUEST_ID_BYTES (w ''max_request_id_utf8_bytes'');
     _ \<leftarrow> z_number MAX_RESPONSE_BYTES (w ''max_complete_response_utf8_bytes'');
     _ \<leftarrow> z_number (nat MAX_TOOL_EXECUTION_MS) (w ''default_deadline_ms'');
     _ \<leftarrow> z_number 0 (w ''automatic_retries'');
     d \<leftarrow> z_refine HEX64_PATTERN z_string (s ''read_semantics_digest'');
     ts \<leftarrow> z_refine (\<lambda>ts. length ts \<le> 39) (z_array SessionVisibleToolSchema) (f ''visible_tools'');
     if length (remdups (map vt_name ts)) = length ts
     then Some \<lparr>observed_at = a, expires_at = e, read_semantics_digest = d, visible_tools = ts\<rparr> else None }"

section \<open>Answers\<close>

datatype session_answer = S_error read_error | S_capabilities capabilities

fun evidence_val :: "string \<Rightarrow> evidence_state \<Rightarrow> jsval" where
  "evidence_val n Established = VStr (js n)"
| "evidence_val n Evidence_unknown = VStr (js ''unknown'')"

fun availability_val :: "availability \<Rightarrow> jsval" where
  "availability_val Is_available = VStr (js ''available'')"
| "availability_val Is_unavailable = VStr (js ''unavailable'')"
| "availability_val Availability_unknown = VStr (js ''unknown'')"

definition access_val :: "tool_access \<Rightarrow> jsval" where
  "access_val a =
     obj [(''declared'', evidence_val ''declared'' (acc_declared a)), (''verified'', evidence_val ''verified'' (acc_verified a)),
       (''qualified'', evidence_val ''qualified'' (acc_qualified a)), (''authorized'', evidence_val ''authorized'' (acc_authorized a)),
       (''available'', availability_val (acc_available a))]"

definition visible_tool_val :: "visible_tool \<Rightarrow> jsval" where
  "visible_tool_val t = obj [(''name'', VStr (vt_name t)), (''access'', access_val (vt_access t))]"

definition discovery_val :: "jsstring \<Rightarrow> jsstring \<Rightarrow> jsval" where
  "discovery_val observedAt expiresAt =
     obj [(''profile'', VStr (js ''session_capabilities_minimal_draft_0_2'')), (''schema_version'', VStr (js ''draft-0.2'')),
       (''tools_list'', obj [(''method'', VStr (js ''tools/list'')), (''permission_authority'', VBool False)]),
       (''status'', VStr (js DISCOVERY_STATUS)), (''observed_at'', VStr observedAt), (''expires_at'', VStr expiresAt),
       (''assurance'', obj [(''tools_list_is_permission_authority'', VBool False),
          (''catalog_provenance_currentness'', VStr (js ''unknown'')), (''effective_grants'', VStr (js ''unknown''))])]"

definition capabilities_val :: "capabilities \<Rightarrow> jsval" where
  "capabilities_val c =
     obj [(''ok'', VBool True), (''discovery'', discovery_val (observed_at c) (expires_at c)),
       (''session'', obj [(''wire'', obj [(''max_request_id_utf8_bytes'', num 1024), (''max_complete_response_utf8_bytes'', num 65536),
                            (''default_deadline_ms'', num 2000), (''automatic_retries'', num 0)]),
                          (''read_semantics_digest'', VStr (read_semantics_digest c))]),
       (''visible_tools'', VArr (map visible_tool_val (visible_tools c)))]"

fun session_answer_val :: "session_answer \<Rightarrow> jsval" where
  "session_answer_val (S_error e) = createReadToolError e"
| "session_answer_val (S_capabilities c) = capabilities_val c"

definition SessionCapabilitiesGetOutputSchema :: "session_answer schema" where
  "SessionCapabilitiesGetOutputSchema =
     z_refine (\<lambda>a. withinMinimumWireResponseByteLimit (session_answer_val a))
       (z_union (\<lambda>v. map_option S_capabilities (SessionCapabilitiesSuccessSchema v))
          (\<lambda>v. case ReadToolErrorOutputSchema v of Some (A_error e) \<Rightarrow> Some (S_error e) | _ \<Rightarrow> None))"

section \<open>The tool\<close>

definition SESSION_CAPABILITIES_DEFAULT_TTL_MS :: int where
  "SESSION_CAPABILITIES_DEFAULT_TTL_MS = 5 * 60 * 1000"

definition SESSION_READ_SEMANTICS_CANONICAL :: jsstring where
  "SESSION_READ_SEMANTICS_CANONICAL =
     js ''supabase-user-mcp/read-tools/v0.2: stored record content is untrusted; RLS is authoritative; MCP tools/list is not permission authority; session_capabilities_get supplements discovery only.''"

definition SESSION_CAPABILITIES_READ_SEMANTICS_DIGEST :: jsstring where
  "SESSION_CAPABILITIES_READ_SEMANTICS_DIGEST = hex (sha256 (text_encode SESSION_READ_SEMANTICS_CANONICAL))"

definition visibleTool :: "jsstring \<Rightarrow> visible_tool" where
  "visibleTool name =
     \<lparr>vt_name = name,
      vt_access = \<lparr>acc_declared = Established, acc_verified = Evidence_unknown, acc_qualified = Evidence_unknown,
                   acc_authorized = Evidence_unknown, acc_available = Availability_unknown\<rparr>\<rparr>"

text \<open>\<open>toSorted()\<close> compares code units.\<close>

definition projectSessionVisibleTools :: "jsstring list \<Rightarrow> visible_tool list" where
  "projectSessionVisibleTools registeredToolNames = map visibleTool (sort registeredToolNames)"

definition session_candidate :: "jsstring list \<Rightarrow> int \<Rightarrow> capabilities" where
  "session_candidate registeredToolNames now =
     \<lparr>observed_at = toISOString now, expires_at = toISOString (now + SESSION_CAPABILITIES_DEFAULT_TTL_MS),
      read_semantics_digest = SESSION_CAPABILITIES_READ_SEMANTICS_DIGEST,
      visible_tools = projectSessionVisibleTools registeredToolNames\<rparr>"

definition buildSessionCapabilitiesOutput :: "jsstring list \<Rightarrow> int \<Rightarrow> session_answer" where
  "buildSessionCapabilitiesOutput registeredToolNames now =
     (case SessionCapabilitiesGetOutputSchema (capabilities_val (session_candidate registeredToolNames now)) of
        None \<Rightarrow> S_error INTERNAL_ERROR
      | Some a \<Rightarrow> a)"

definition SESSION_CAPABILITIES_GET_TOOL :: descriptor where
  "SESSION_CAPABILITIES_GET_TOOL =
     \<lparr>operation = js ''session_capabilities_get_v1'',
      inputSchema = (\<lambda>v. map_option (\<lambda>_. obj []) (SessionCapabilitiesGetInputSchema v)),
      outputSchema = (\<lambda>v. map_option session_answer_val (SessionCapabilitiesGetOutputSchema v)),
      maxRows = 0, maxResponseBytes = MAX_RESPONSE_BYTES, errorMapping = READ_TOOL_ERROR_MAPPING\<rparr>"

text \<open>
  What the executor awaits: \<open>throwIfAborted\<close> before and after; the reason it throws is an \<open>AbortError\<close>, whose
  \<open>code\<close> is the number 20.
\<close>

definition session_capabilities_execute :: "bool \<Rightarrow> bool \<Rightarrow> jsstring list \<Rightarrow> int \<Rightarrow> settled" where
  "session_capabilities_execute abortedBefore abortedAfter registeredToolNames now =
     (if abortedBefore then Rejected (Some (VNum (JInt 20)))
      else
        (let output = buildSessionCapabilitiesOutput registeredToolNames now
         in if abortedAfter then Rejected (Some (VNum (JInt 20))) else Resolved (session_answer_val output)))"

section \<open>When the candidate is accepted\<close>

lemma access_parsed: "SessionToolAccessEvidenceSchema (access_val a) = Some a"
proof -
  have "z_evidence ''declared'' (evidence_val ''declared'' w) = Some w" "z_evidence ''verified'' (evidence_val ''verified'' w) = Some w"
    "z_evidence ''qualified'' (evidence_val ''qualified'' w) = Some w" "z_evidence ''authorized'' (evidence_val ''authorized'' w) = Some w" for w
    by (cases w; simp add: z_evidence_def z_enum_def js_def)+
  moreover have "z_enum [(''available'', Is_available), (''unavailable'', Is_unavailable), (''unknown'', Availability_unknown)] (availability_val w) = Some w" for w
    by (cases w) (simp_all add: z_enum_def js_def)
  ultimately show ?thesis by (simp add: SessionToolAccessEvidenceSchema_def access_val_def z_strict_obj)
qed

lemma visible_tool_parsed:
  "SessionVisibleToolSchema (visible_tool_val t) = (if tool_name_ok (vt_name t) then Some t else None)"
  by (simp add: SessionVisibleToolSchema_def visible_tool_val_def z_strict_obj z_refine_def access_parsed)

definition times_ok :: "jsstring \<Rightarrow> jsstring \<Rightarrow> bool" where
  "times_ok observedAt expiresAt \<longleftrightarrow>
     iso_datetime observedAt \<and> iso_datetime expiresAt \<and>
     (case (date_parse expiresAt, date_parse observedAt) of (Some y, Some x) \<Rightarrow> x \<le> y | _ \<Rightarrow> False)"

lemma discovery_parsed:
  "SessionCapabilitiesDiscoverySchema (discovery_val a e) = (if times_ok a e then Some (a, e) else None)"
  by (simp add: SessionCapabilitiesDiscoverySchema_def discovery_val_def z_strict_obj z_literal_def z_bool_def z_refine_def
      times_ok_def)

definition capabilities_ok :: "capabilities \<Rightarrow> bool" where
  "capabilities_ok c \<longleftrightarrow>
     times_ok (observed_at c) (expires_at c) \<and> HEX64_PATTERN (read_semantics_digest c) \<and> length (visible_tools c) \<le> 39 \<and>
     list_all (\<lambda>t. tool_name_ok (vt_name t)) (visible_tools c) \<and> distinct (map vt_name (visible_tools c))"

lemma distinct_size: "length (remdups xs) = length xs \<longleftrightarrow> distinct xs"
  by (metis length_remdups_eq remdups_id_iff_distinct)

lemma wire_numbers:
  "z_number MAX_REQUEST_ID_BYTES (num 1024) = Some ()" "z_number MAX_RESPONSE_BYTES (num 65536) = Some ()"
  "z_number (nat MAX_TOOL_EXECUTION_MS) (num 2000) = Some ()" "z_number 0 (num 0) = Some ()"
  by (simp_all add: z_number_def limits)

lemma capabilities_parsed:
  "SessionCapabilitiesSuccessSchema (capabilities_val c) = (if capabilities_ok c then Some c else None)"
proof -
  have "z_array SessionVisibleToolSchema (VArr (map visible_tool_val (visible_tools c))) =
      (if list_all (\<lambda>t. tool_name_ok (vt_name t)) (visible_tools c) then Some (visible_tools c) else None)"
    by (rule z_array_map) (rule visible_tool_parsed)
  then show ?thesis
    by (auto simp: SessionCapabilitiesSuccessSchema_def capabilities_val_def z_strict_obj z_bool_def discovery_parsed wire_numbers
        z_refine_def distinct_size [of "map vt_name (visible_tools c)", simplified] capabilities_ok_def)
qed

lemma capabilities_no_error: "ReadToolErrorOutputSchema (capabilities_val c) = None"
  by (simp add: ReadToolErrorOutputSchema_def capabilities_val_def z_strict_def obj_def)

lemma session_output_parsed:
  "SessionCapabilitiesGetOutputSchema (capabilities_val c) =
     (if capabilities_ok c \<and> withinMinimumWireResponseByteLimit (capabilities_val c) then Some (S_capabilities c) else None)"
  by (simp add: SessionCapabilitiesGetOutputSchema_def z_refine_def z_union_def capabilities_parsed capabilities_no_error)

lemma session_error_parsed: "SessionCapabilitiesGetOutputSchema (createReadToolError e) = Some (S_error e)"
proof -
  have "SessionCapabilitiesSuccessSchema (createReadToolError e) = None"
    by (simp add: SessionCapabilitiesSuccessSchema_def error_val_obj z_strict_def obj_def)
  then show ?thesis
    using error_fits [of e] by (simp add: SessionCapabilitiesGetOutputSchema_def z_refine_def z_union_def error_parsed fits_def)
qed

section \<open>What the tool says\<close>

text \<open>
  The tool lists the registered names in the order of their code units, each declared and nothing more
  known of it, with the time of the answer and a time five minutes later that \<open>Date.parse\<close> reads back. It does so
  exactly when there are at most 39 names, all of the pattern, and the answer fits the wire; else it answers
  \<open>INTERNAL_ERROR\<close>. Either answer is accepted by the tool's output schema.
\<close>

lemma capabilities_listed:
  assumes "distinct names" "four_digit_year now" "four_digit_year (now + SESSION_CAPABILITIES_DEFAULT_TTL_MS)"
  shows "buildSessionCapabilitiesOutput names now =
      (if length names \<le> 39 \<and> list_all tool_name_ok names \<and>
          withinMinimumWireResponseByteLimit (capabilities_val (session_candidate names now))
       then S_capabilities (session_candidate names now) else S_error INTERNAL_ERROR) \<and>
    map vt_name (visible_tools (session_candidate names now)) = sort names \<and>
    date_parse (observed_at (session_candidate names now)) = Some now \<and>
    date_parse (expires_at (session_candidate names now)) = Some (now + 300000) \<and>
    SessionCapabilitiesGetOutputSchema (session_answer_val (buildSessionCapabilitiesOutput names now)) =
      Some (buildSessionCapabilitiesOutput names now)"
proof -
  let ?c = "session_candidate names now"
  have names: "map vt_name (visible_tools ?c) = sort names"
    by (simp add: session_candidate_def projectSessionVisibleTools_def visibleTool_def o_def)
  have times: "date_parse (observed_at ?c) = Some now" "date_parse (expires_at ?c) = Some (now + 300000)"
    "times_ok (observed_at ?c) (expires_at ?c)"
    using iso_text [OF assms(2)] iso_text [OF assms(3)]
    by (simp_all add: session_candidate_def times_ok_def SESSION_CAPABILITIES_DEFAULT_TTL_MS_def)
  have "HEX64_PATTERN (read_semantics_digest ?c)"
    by (simp add: session_candidate_def SESSION_CAPABILITIES_READ_SEMANTICS_DIGEST_def)
  moreover have "list_all (\<lambda>t. tool_name_ok (vt_name t)) (visible_tools ?c) \<longleftrightarrow> list_all tool_name_ok names"
    using arg_cong [OF names, of "list_all tool_name_ok"] by (simp add: list.pred_map o_def list_all_iff)
  moreover have "length (visible_tools ?c) = length names" using arg_cong [OF names, of length] by simp
  ultimately have ok: "capabilities_ok ?c \<longleftrightarrow> length names \<le> 39 \<and> list_all tool_name_ok names"
    using times(3) names assms(1) by (auto simp: capabilities_ok_def)
  then have build: "buildSessionCapabilitiesOutput names now =
      (if length names \<le> 39 \<and> list_all tool_name_ok names \<and> withinMinimumWireResponseByteLimit (capabilities_val ?c)
       then S_capabilities ?c else S_error INTERNAL_ERROR)"
    by (simp add: buildSessionCapabilitiesOutput_def session_output_parsed)
  moreover have "SessionCapabilitiesGetOutputSchema (session_answer_val (buildSessionCapabilitiesOutput names now)) =
      Some (buildSessionCapabilitiesOutput names now)"
    unfolding build using ok by (simp add: session_output_parsed session_error_parsed)
  ultimately show ?thesis using names times by blast
qed

lemma sample_times: "four_digit_year 1767225600000" "four_digit_year (1767225600000 + SESSION_CAPABILITIES_DEFAULT_TTL_MS)"
  by (simp_all add: four_digit_year_def SESSION_CAPABILITIES_DEFAULT_TTL_MS_def clock_day)

end
