(* ===== verification/Argument_Digest.thy ===== *)
theory Argument_Digest
  imports Governor Iso_Round_Trip "HOL-Library.List_Lexorder" "HOL-Library.Multiset"
begin

text \<open>
  The digest of the arguments in the operational events of \<open>packages/server/src/read-tool-governor.ts\<close>, and the forms
  of context a read tool is invoked with. Values are trees: an object that occurs in itself cannot come from a request.
\<close>

section \<open>Normalised values\<close>

text \<open>\<open>String(value)\<close> of the numbers that are not finite.\<close>

fun non_finite_text :: "jsnum \<Rightarrow> string" where
  "non_finite_text JNaN = ''NaN''"
| "non_finite_text JInf = ''Infinity''"
| "non_finite_text JNegInf = ''-Infinity''"
| "non_finite_text _ = []"

text \<open>The property names an object lists first, in ascending order: the decimal texts of array indices.\<close>

definition index_key :: "jsstring \<Rightarrow> bool" where
  "index_key k \<longleftrightarrow> k \<noteq> [] \<and> all_digits k \<and> (length k = 1 \<or> hd k \<noteq> 0x30) \<and> num_of k < 4294967295"

text \<open>
  The object that arises when members are added in the order of their sorted keys; adding \<open>__proto__\<close> makes no own property.
\<close>

definition own_members :: "(jsstring \<times> jsval) list \<Rightarrow> (jsstring \<times> jsval) list" where
  "own_members fs =
     (let gs = sort_key fst (filter (\<lambda>m. fst m \<noteq> js ''__proto__'') fs)
      in sort_key (num_of \<circ> fst) (filter (index_key \<circ> fst) gs) @ filter (\<lambda>m. \<not> index_key (fst m)) gs)"

text \<open>\<open>kind\<close> is the \<open>typeof\<close> of the values outside the model (functions, symbols, bigints).\<close>

fun normalizeValueForDigest :: "jsstring \<Rightarrow> jsval \<Rightarrow> jsval" where
  "normalizeValueForDigest kind VNull = VNull"
| "normalizeValueForDigest kind (VStr s) = VStr s"
| "normalizeValueForDigest kind (VBool b) = VBool b"
| "normalizeValueForDigest kind (VNum x) = (if isFinite x then VNum x else VStr (js (non_finite_text x)))"
| "normalizeValueForDigest kind VOther = VStr ([0x5b] @ kind @ [0x5d])"
| "normalizeValueForDigest kind VUndef = VStr (js ''[undefined]'')"
| "normalizeValueForDigest kind (VArr xs) = VArr (map (normalizeValueForDigest kind) xs)"
| "normalizeValueForDigest kind (VObj fs) = VObj (own_members (map (\<lambda>(k, v). (k, normalizeValueForDigest kind v)) fs))"
| "normalizeValueForDigest kind (VBytes bs) = VObj (map (\<lambda>(i, x). (to_base 10 i, VNum (JInt (int (unat x))))) (enumerate 0 bs))"

definition hashedArgumentDigest :: "hashfn \<Rightarrow> jsstring \<Rightarrow> jsval \<Rightarrow> jsstring" where
  "hashedArgumentDigest H kind value = take 24 (hex (H (text_encode (stringify (normalizeValueForDigest kind value)))))"

text \<open>The event with its digest: of the parsed input, or of the raw one where it does not parse.\<close>

record audited_event = op_event +
  ev_normalizedArgumentDigest :: jsstring

definition audited :: "hashfn \<Rightarrow> jsstring \<Rightarrow> descriptor \<Rightarrow> jsval \<Rightarrow> op_event \<Rightarrow> audited_event" where
  "audited H kind d unsafeInput ev =
     op_event.extend ev
       \<lparr>ev_normalizedArgumentDigest =
          hashedArgumentDigest H kind (case inputSchema d unsafeInput of Some input \<Rightarrow> input | None \<Rightarrow> unsafeInput)\<rparr>"

section \<open>Invocation contexts\<close>

text \<open>An abort signal, nothing, or a context.\<close>

datatype invocation = By_signal | No_context | In_context exec_context

definition normalizeReadToolExecutionContext :: "invocation \<Rightarrow> exec_context" where
  "normalizeReadToolExecutionContext i =
     (case i of In_context c \<Rightarrow> c | _ \<Rightarrow> \<lparr>requestId = IdNull, principalId = None, clientId = None\<rparr>)"

section \<open>The digest\<close>

lemma digest_shape:
  assumes "length (H (text_encode (stringify (normalizeValueForDigest kind v)))) = 32"
  shows "length (hashedArgumentDigest H kind v) = 24" "list_all lower_hex (hashedArgumentDigest H kind v)"
proof -
  have "length (hex (H (text_encode (stringify (normalizeValueForDigest kind v))))) = 64" using assms by simp
  then show "length (hashedArgumentDigest H kind v) = 24" by (simp add: hashedArgumentDigest_def)
  show "list_all lower_hex (hashedArgumentDigest H kind v)"
    using hex_lower [of "H (text_encode (stringify (normalizeValueForDigest kind v)))"]
    by (auto simp: hashedArgumentDigest_def list_all_iff dest: in_set_takeD)
qed

lemma sort_by_distinct:
  assumes "mset xs = mset ys" "inj_on f (set xs)"
  shows "sort_key f xs = sort_key f ys"
  using assms by (intro sort_key_inj_key_eq) simp_all

text \<open>The digest of an object does not depend on the order of its members.\<close>

lemma digest_order:
  assumes "mset fs = mset gs" "distinct (map fst fs)"
  shows "hashedArgumentDigest H kind (VObj fs) = hashedArgumentDigest H kind (VObj gs)"
proof -
  let ?n = "\<lambda>(k, v). (k, normalizeValueForDigest kind v)"
  let ?p = "\<lambda>m :: jsstring \<times> jsval. fst m \<noteq> js ''__proto__''"
  have keys: "map fst (map ?n fs) = map fst fs" by (simp add: o_def case_prod_beta)
  have "distinct (map fst (map ?n fs))" using assms(2) by (simp only: keys)
  then have "inj_on fst (set (map ?n fs))" unfolding distinct_map by (rule conjunct2)
  then have "inj_on fst (set (filter ?p (map ?n fs)))" by (rule inj_on_subset) auto
  moreover have "mset (filter ?p (map ?n fs)) = mset (filter ?p (map ?n gs))" using assms(1) by (simp only: mset_filter mset_map)
  ultimately have "sort_key fst (filter ?p (map ?n fs)) = sort_key fst (filter ?p (map ?n gs))" by (intro sort_by_distinct)
  then show ?thesis by (simp add: hashedArgumentDigest_def own_members_def)
qed

lemma audited_shape:
  "length (ev_normalizedArgumentDigest (audited sha256 kind d v ev)) = 24"
  "op_event.truncate (audited sha256 kind d v ev) = ev"
proof -
  show "length (ev_normalizedArgumentDigest (audited sha256 kind d v ev)) = 24"
    by (simp add: audited_def op_event.defs digest_shape)
  show "op_event.truncate (audited sha256 kind d v ev) = ev"
    by (cases ev) (simp add: audited_def op_event.defs)
qed

end
