(* ===== verification/Inspection_Tools.thy ===== *)
theory Inspection_Tools
  imports Inspection_Contract Memory_Schemas
begin

text \<open>
  The rest of \<open>packages/contracts/src/artifact-inspection.ts\<close>: derivations with their inputs, the policy on semantic
  analysis, and the frozen descriptors of the five inspection tools.
\<close>

section \<open>Derivations\<close>

definition MAX_DERIVATION_INPUTS_PER_DERIVATION :: nat where
  [limits]: "MAX_DERIVATION_INPUTS_PER_DERIVATION = 25"

definition OpaqueDerivationId :: "jsstring \<Rightarrow> bool" where
  "OpaqueDerivationId = opaque_ref ''drv_'' 20 128"

definition S0_DETERMINISTIC_DERIVATION_TYPES :: "string list" where
  "S0_DETERMINISTIC_DERIVATION_TYPES = [''text_extraction'', ''structure_index'', ''chunk_map'']"

datatype derivation_type = text_extraction | structure_index | chunk_map

definition DerivationTypeSchema :: "derivation_type schema" where
  "DerivationTypeSchema = z_enum (zip S0_DETERMINISTIC_DERIVATION_TYPES [text_extraction, structure_index, chunk_map])"

definition AnalyzerProfileIdSchema :: "jsstring schema" where
  "AnalyzerProfileIdSchema = z_refine (\<lambda>s. s \<in> set ANALYZER_PROFILE_IDS) z_string"

record derivation_ref =
  dr_derivationId :: jsstring
  derivedArtifactId :: jsstring
  derivationType :: derivation_type
  dr_profileId :: jsstring
  dr_profileVersion :: jsstring
  dr_scope :: jsstring
  dr_createdAt :: jsstring

definition ArtifactDerivationRefSchema :: "derivation_ref schema" where
  "ArtifactDerivationRefSchema v =
     do {
       f \<leftarrow> z_strict [''derivationId'', ''derivedArtifactId'', ''derivationType'', ''profileId'', ''profileVersion'', ''scope'', ''createdAt''] v;
       i \<leftarrow> z_refine OpaqueDerivationId z_string (f ''derivationId'');
       a \<leftarrow> ArtifactIdSchema (f ''derivedArtifactId'');
       t \<leftarrow> DerivationTypeSchema (f ''derivationType'');
       p \<leftarrow> AnalyzerProfileIdSchema (f ''profileId'');
       pv \<leftarrow> z_refine BoundedVersionString z_string (f ''profileVersion'');
       s \<leftarrow> z_trimmed 1 128 (f ''scope'');
       c \<leftarrow> z_refine iso_datetime z_string (f ''createdAt'');
       Some \<lparr>dr_derivationId = i, derivedArtifactId = a, derivationType = t, dr_profileId = p, dr_profileVersion = pv, dr_scope = s,
             dr_createdAt = c\<rparr>
     }"

record derivation_input =
  di_derivationId :: jsstring
  sourceArtifactId :: jsstring
  di_sourceSha256 :: jsstring

definition ArtifactDerivationInputRefSchema :: "derivation_input schema" where
  "ArtifactDerivationInputRefSchema v =
     do {
       f \<leftarrow> z_strict [''derivationId'', ''sourceArtifactId'', ''sourceSha256''] v;
       i \<leftarrow> z_refine OpaqueDerivationId z_string (f ''derivationId'');
       a \<leftarrow> ArtifactIdSchema (f ''sourceArtifactId'');
       h \<leftarrow> z_refine HEX64_PATTERN z_string (f ''sourceSha256'');
       Some \<lparr>di_derivationId = i, sourceArtifactId = a, di_sourceSha256 = h\<rparr>
     }"

text \<open>The two cross-field checks: every input names its derivation, and no source is named twice.\<close>

definition inputs_bound :: "derivation_ref \<times> derivation_input list \<Rightarrow> bool" where
  "inputs_bound p = (case p of (d, inputs) \<Rightarrow> list_all (\<lambda>i. di_derivationId i = dr_derivationId d) inputs)"

definition sources_once :: "derivation_ref \<times> derivation_input list \<Rightarrow> bool" where
  "sources_once p = (case p of (d, inputs) \<Rightarrow>
     (let sourceIds = map sourceArtifactId inputs in length (remdups sourceIds) = length sourceIds))"

definition ArtifactDerivationWithInputsSchema :: "(derivation_ref \<times> derivation_input list) schema" where
  "ArtifactDerivationWithInputsSchema =
     z_refine (\<lambda>p. inputs_bound p \<and> sources_once p)
       (\<lambda>v. do {
          f \<leftarrow> z_strict [''derivation'', ''inputs''] v;
          d \<leftarrow> ArtifactDerivationRefSchema (f ''derivation'');
          is \<leftarrow> z_refine (\<lambda>xs. 1 \<le> length xs \<and> length xs \<le> MAX_DERIVATION_INPUTS_PER_DERIVATION)
                 (z_array ArtifactDerivationInputRefSchema) (f ''inputs'');
          Some (d, is)
        })"

lemma derivation_bound:
  assumes "ArtifactDerivationWithInputsSchema v = Some (d, is)"
  shows "is \<noteq> []" "length is \<le> 25" "distinct (map sourceArtifactId is)"
    "\<And>i. i \<in> set is \<Longrightarrow> di_derivationId i = dr_derivationId d"
proof -
  have "inputs_bound (d, is)" "sources_once (d, is)" "1 \<le> length is" "length is \<le> 25"
    using assms by (auto simp: ArtifactDerivationWithInputsSchema_def z_refine_Some bind_eq_Some_conv limits)
  then show "is \<noteq> []" "length is \<le> 25" "\<And>i. i \<in> set is \<Longrightarrow> di_derivationId i = dr_derivationId d"
    by (auto simp: inputs_bound_def list_all_iff)
  show "distinct (map sourceArtifactId is)"
    using \<open>sources_once (d, is)\<close> unfolding sources_once_def prod.case Let_def length_remdups_eq remdups_id_iff_distinct .
qed

section \<open>Semantic analysis\<close>

record analysis_policy =
  analysis_enabled :: bool
  executionClass :: string

definition SEMANTIC_ANALYSIS_POLICY :: analysis_policy where
  "SEMANTIC_ANALYSIS_POLICY = \<lparr>analysis_enabled = False, executionClass = ''local_worker_only''\<rparr>"

section \<open>Descriptors\<close>

record tool_behavior =
  tb_readOnly :: bool
  tb_maxAttempts :: nat
  tb_retryPolicy :: string
  tb_idempotency :: string
  tb_concurrency :: string
  tb_approval :: string
  tb_authorizationRequired :: bool
  tb_contentTrust :: string
  tb_audit :: string
  tb_errorMapping :: "(string \<times> inspection_error) list"

record inspection_tool =
  it_name :: string
  it_capability :: string
  it_operation :: string
  it_input :: "jsval \<Rightarrow> bool"
  it_output :: "hashfn \<Rightarrow> inspection_output \<Rightarrow> bool"
  it_behavior :: tool_behavior
  it_limits :: "(string \<times> int) list"

definition ARTIFACT_INSPECTION_ERROR_MAPPING :: "(string \<times> inspection_error) list" where
  "ARTIFACT_INSPECTION_ERROR_MAPPING =
     [(''validation'', AI_INVALID_REQUEST), (''unavailable'', AI_RESOURCE_UNAVAILABLE), (''unsupported'', AI_UNSUPPORTED),
      (''responseLimit'', AI_RESPONSE_LIMIT_EXCEEDED), (''integrityFailure'', AI_INTEGRITY_FAILURE),
      (''timeout'', AI_DEADLINE_EXCEEDED), (''unexpected'', AI_INTERNAL_ERROR)]"

definition ARTIFACT_INSPECTION_BEHAVIOR :: tool_behavior where
  "ARTIFACT_INSPECTION_BEHAVIOR =
     \<lparr>tb_readOnly = True, tb_maxAttempts = 1, tb_retryPolicy = ''none'', tb_idempotency = ''idempotent'',
      tb_concurrency = ''parallel_safe'', tb_approval = ''not_required'', tb_authorizationRequired = True,
      tb_contentTrust = ''untrusted'', tb_audit = ''artifact_inspection_access'',
      tb_errorMapping = ARTIFACT_INSPECTION_ERROR_MAPPING\<rparr>"

text \<open>The numbers among the limits; the unit of \<open>maxResponseBytes\<close> is that of the wire.\<close>

definition ARTIFACT_INSPECTION_SHARED_LIMITS :: "(string \<times> int) list" where
  "ARTIFACT_INSPECTION_SHARED_LIMITS =
     [(''maxResponseBytes'', int MAX_ARTIFACT_RESPONSE_BYTES), (''maxRequestIdBytes'', int MAX_ARTIFACT_REQUEST_ID_BYTES),
      (''maxExecutionMs'', MAX_ARTIFACT_TOOL_EXECUTION_MS)]"

text \<open>What the five have in common; a success of another operation is not of a tool's output schema.\<close>

definition inspection_tool_of ::
    "string \<Rightarrow> string \<Rightarrow> (jsval \<Rightarrow> bool) \<Rightarrow> (inspection_output \<Rightarrow> bool) \<Rightarrow> (string \<times> int) list \<Rightarrow> inspection_tool" where
  "inspection_tool_of name operation accepts own limits =
     \<lparr>it_name = name, it_capability = ''artifact:inspect'', it_operation = operation, it_input = accepts,
      it_output = (\<lambda>H out. output_schema H out \<and> (own out \<or> (case out of O_error _ \<Rightarrow> True | _ \<Rightarrow> False))),
      it_behavior = ARTIFACT_INSPECTION_BEHAVIOR,
      it_limits = (''maxArtifactIdLength'', int MAX_ARTIFACT_ID_LENGTH) # limits @ ARTIFACT_INSPECTION_SHARED_LIMITS\<rparr>"

definition ARTIFACT_STAT_TOOL :: inspection_tool where
  "ARTIFACT_STAT_TOOL =
     inspection_tool_of ''artifact_stat'' ''artifact_stat_v1'' (\<lambda>v. ArtifactStatInputSchema v \<noteq> None)
       (\<lambda>out. case out of O_stat _ \<Rightarrow> True | _ \<Rightarrow> False) []"

definition ARTIFACT_READ_RANGE_TOOL :: inspection_tool where
  "ARTIFACT_READ_RANGE_TOOL =
     inspection_tool_of ''artifact_read_range'' ''artifact_read_range_v1'' (\<lambda>v. ArtifactReadRangeInputSchema v \<noteq> None)
       (\<lambda>out. case out of O_range _ _ \<Rightarrow> True | _ \<Rightarrow> False)
       [(''maxRangeBytes'', int MAX_RANGE_BYTES), (''maxByteOffset'', int MAX_ARTIFACT_BYTE_OFFSET)]"

definition ARTIFACT_READ_LINES_TOOL :: inspection_tool where
  "ARTIFACT_READ_LINES_TOOL =
     inspection_tool_of ''artifact_read_lines'' ''artifact_read_lines_v1'' (\<lambda>v. ArtifactReadLinesInputSchema v \<noteq> None)
       (\<lambda>out. case out of O_lines _ _ _ \<Rightarrow> True | _ \<Rightarrow> False)
       [(''maxLineCount'', int MAX_LINE_COUNT), (''maxStartLine'', int MAX_START_LINE)]"

definition ARTIFACT_READ_HEADING_TOOL :: inspection_tool where
  "ARTIFACT_READ_HEADING_TOOL =
     inspection_tool_of ''artifact_read_heading'' ''artifact_read_heading_v1'' (\<lambda>v. ArtifactReadHeadingInputSchema v \<noteq> None)
       (\<lambda>out. case out of O_heading _ _ _ \<Rightarrow> True | _ \<Rightarrow> False) [(''maxHeadingIdLength'', int MAX_HEADING_ID_LENGTH)]"

definition ARTIFACT_SEARCH_EXACT_TOOL :: inspection_tool where
  "ARTIFACT_SEARCH_EXACT_TOOL =
     inspection_tool_of ''artifact_search_exact'' ''artifact_search_exact_v1'' (\<lambda>v. ArtifactSearchExactInputSchema v \<noteq> None)
       (\<lambda>out. case out of O_search _ _ \<Rightarrow> True | _ \<Rightarrow> False)
       [(''maxQueryLength'', int MAX_SEARCH_QUERY_LENGTH), (''maxHits'', int MAX_SEARCH_HITS)]"

definition ARTIFACT_INSPECTION_TOOLS :: "inspection_tool list" where
  "ARTIFACT_INSPECTION_TOOLS =
     [ARTIFACT_STAT_TOOL, ARTIFACT_READ_RANGE_TOOL, ARTIFACT_READ_LINES_TOOL, ARTIFACT_READ_HEADING_TOOL, ARTIFACT_SEARCH_EXACT_TOOL]"

lemma inspection_tool_names:
  "map it_name ARTIFACT_INSPECTION_TOOLS =
     [''artifact_stat'', ''artifact_read_range'', ''artifact_read_lines'', ''artifact_read_heading'', ''artifact_search_exact'']"
  by (simp add: ARTIFACT_INSPECTION_TOOLS_def inspection_tool_of_def ARTIFACT_STAT_TOOL_def ARTIFACT_READ_RANGE_TOOL_def
      ARTIFACT_READ_LINES_TOOL_def ARTIFACT_READ_HEADING_TOOL_def ARTIFACT_SEARCH_EXACT_TOOL_def)

end
