(* ===== verification/Transport.thy ===== *)
theory Transport
  imports Json_Text Wire_Length Memory_Answers
begin

text \<open>
  The bounded transport of \<open>packages/server/src/server.ts\<close>: a frame passes in either direction when its text and its
  request identifier are small enough, and closes the connection otherwise. The length of a response frame is the
  length of its identifier and a rest that does not depend on it.
\<close>

section \<open>Frames\<close>

text \<open>Messages are plain data, on which \<open>JSON.stringify\<close> does not throw.\<close>

definition completeMcpFrameByteLength :: "jsval \<Rightarrow> nat" where
  "completeMcpFrameByteLength message = length (text_encode (stringify message @ [0x0a]))"

text \<open>\<open>encode(undefined)\<close> has no bytes.\<close>

definition requestIdByteLength :: "jsval \<Rightarrow> nat" where
  "requestIdByteLength message =
     (case message of
        VObj fs \<Rightarrow>
          (case map_of fs (js ''id'') of
             None \<Rightarrow> 0
           | Some v \<Rightarrow> (case json v of None \<Rightarrow> 0 | Some t \<Rightarrow> length (text_encode t)))
      | _ \<Rightarrow> 0)"

definition frameIsBounded :: "jsval \<Rightarrow> bool" where
  "frameIsBounded message \<longleftrightarrow>
     completeMcpFrameByteLength message \<le> MAX_RESPONSE_BYTES \<and> requestIdByteLength message \<le> MAX_REQUEST_ID_BYTES"

section \<open>The transport\<close>

text \<open>What it does with the transport it wraps, and what it hands to the server.\<close>

datatype transport_effect = Deliver jsval | Inner_send jsval | Inner_close

definition transport_onmessage :: "jsval \<Rightarrow> transport_effect list" where
  "transport_onmessage message = (if \<not> frameIsBounded message then [Inner_close] else [Deliver message])"

text \<open>\<open>False\<close>: the promise is rejected with a \<open>RangeError\<close>.\<close>

definition transport_send :: "jsval \<Rightarrow> bool \<times> transport_effect list" where
  "transport_send message =
     (if \<not> frameIsBounded message then (False, [Inner_close]) else (True, [Inner_send message]))"

section \<open>Lengths\<close>

lemma text_encode_append: "well_formed s \<Longrightarrow> text_encode (s @ t) = text_encode s @ text_encode t"
  by (simp add: text_encode_def code_points_append)

lemma well_formed_js: "well_formed (js s)"
proof (rule well_formed_units, unfold list_all_iff, rule ballI)
  fix u assume "u \<in> set (js s)"
  then obtain c :: char where c: "u = of_char c" by (auto simp: js_def)
  have bound: "(of_char c :: nat) < 256" using nat_of_char_less_256 [of c] by simp
  have "unat (of_nat (of_char c) :: cunit) = of_char c"
    by (rule unat_cunit) (use bound in linarith)
  then have u: "unat u = of_char c" by (simp only: c of_nat_of_char)
  show "\<not> surrogate (unat u)" unfolding u surrogate_def using bound by linarith
qed

lemma well_formed_number: "well_formed (json_number x)"
proof (cases x)
  case (JInt k)
  have "well_formed (to_base 10 n)" for n by (rule well_formed_to_base) simp_all
  moreover have "well_formed [0x2d]" by (rule well_formed_small) simp
  ultimately have "well_formed ([0x2d] @ to_base 10 n)" "well_formed (to_base 10 n)" for n by (simp_all only: well_formed_append)
  then show ?thesis by (simp add: JInt)
qed (simp_all add: well_formed_js)

definition id_text :: "request_id \<Rightarrow> jsstring" where
  "id_text rid = stringify (id_val rid)"

lemma json_id: "json (id_val rid) = Some (id_text rid)"
  by (cases rid) (simp_all add: id_text_def stringify_def)

lemma well_formed_id: "well_formed (id_text rid)"
  by (cases rid) (simp_all add: id_text_def stringify_def well_formed_json_string well_formed_number well_formed_js)

definition response_frame :: "request_id \<Rightarrow> jsval \<Rightarrow> jsval" where
  "response_frame rid result = VObj [(js ''jsonrpc'', VStr (js ''2.0'')), (js ''id'', id_val rid), (js ''result'', result)]"

lemma frames: "readToolWireResponse rid out = response_frame rid (createReadToolMcpResult out)"
    "artifactInspectionWireResponse rid out = response_frame rid (createArtifactInspectionMcpResult out)"
  by (simp_all add: readToolWireResponse_def artifactInspectionWireResponse_def response_frame_def)

definition frame_head :: jsstring where
  "frame_head = [0x7b] @ json_string (js ''jsonrpc'') @ [0x3a] @ json_string (js ''2.0'') @ [0x2c] @ json_string (js ''id'') @ [0x3a]"

lemma frame_text:
  assumes "json result = Some t"
  shows "stringify (response_frame rid result) = frame_head @ id_text rid @ [0x2c] @ json_string (js ''result'') @ [0x3a] @ t @ [0x7d]"
  using assms by (simp add: stringify_def response_frame_def json_id join_comma_def frame_head_def)

lemma frame_length:
  assumes "json result = Some t"
  shows "completeMcpFrameByteLength (response_frame rid result) =
    length (text_encode (id_text rid)) + length (text_encode (frame_head @ [0x2c] @ json_string (js ''result'') @ [0x3a] @ t @ [0x7d, 0x0a]))"
proof -
  have h: "well_formed frame_head"
    unfolding frame_head_def
    by (intro well_formed_append well_formed_json_string well_formed_small) simp_all
  show ?thesis
    unfolding completeMcpFrameByteLength_def frame_text [OF assms] append_assoc
    unfolding text_encode_append [OF h] text_encode_append [OF well_formed_id] length_append append_Cons append_Nil by linarith
qed

lemma null_id: "length (text_encode (id_text IdNull)) = 4"
proof -
  have "printables (id_text IdNull)" by (simp add: id_text_def stringify_def js_def printable_def list_all_iff)
  from text_encode_printable [OF this] show ?thesis by (simp add: id_text_def stringify_def js_def)
qed

text \<open>A frame with an identifier is longer than the frame with \<open>null\<close> by what the identifier is longer than \<open>null\<close>.\<close>

lemma frame_with_id:
  assumes "json result \<noteq> None"
  shows "completeMcpFrameByteLength (response_frame rid result) + 4 =
    completeMcpFrameByteLength (response_frame IdNull result) + length (text_encode (id_text rid))"
  using assms frame_length [of result _ rid] frame_length [of result _ IdNull] null_id by auto

lemma frame_id_length: "requestIdByteLength (response_frame rid result) = length (text_encode (id_text rid))"
  by (simp add: requestIdByteLength_def response_frame_def json_id)

lemma results_print: "json (createReadToolMcpResult out) \<noteq> None" "json (createArtifactInspectionMcpResult out) \<noteq> None"
  by (simp_all add: createReadToolMcpResult_def createArtifactInspectionMcpResult_def)

lemma frame_lengths:
  "completeMcpFrameByteLength (readToolWireResponse rid out) = readToolWireResponseByteLength rid out"
  "completeMcpFrameByteLength (artifactInspectionWireResponse rid out) = artifactInspectionResponseByteLength rid out"
  by (simp_all add: completeMcpFrameByteLength_def readToolWireResponseByteLength_def artifactInspectionResponseByteLength_def)

lemmas with_id [simplified frames [symmetric] frame_lengths] =
  frame_with_id [OF results_print(1)] frame_with_id [OF results_print(2)]

lemma response_bounded:
  "frameIsBounded (readToolWireResponse rid out) \<longleftrightarrow>
     readToolWireResponseByteLength rid out \<le> MAX_RESPONSE_BYTES \<and> length (text_encode (id_text rid)) \<le> MAX_REQUEST_ID_BYTES"
  "frameIsBounded (artifactInspectionWireResponse rid out) \<longleftrightarrow>
     artifactInspectionResponseByteLength IdNull out + length (text_encode (id_text rid)) \<le> MAX_RESPONSE_BYTES + 4 \<and>
     length (text_encode (id_text rid)) \<le> MAX_REQUEST_ID_BYTES"
  using with_id(2) [of rid out]
  by (auto simp: frameIsBounded_def frame_lengths) (auto simp: frames frame_id_length)

end
