(* ===== verification/Inspector_Types.thy ===== *)
theory Inspector_Types
  imports Inspection_Tools Inspector_Properties Inspector_Spec Transport
begin

text \<open>
  Every answer of the inspector is of the output schema of the descriptor of its operation, and what that means for
  the transport: the schema measures the response with a \<open>null\<close> identifier, the transport the response itself.
\<close>

section \<open>Errors are small\<close>

lemma artifact_error_length: "artifactInspectionResponseByteLength IdNull (output_val (O_error e)) \<le> 2800"
proof -
  have "ascii_val (output_val (O_error e))" "weight (output_val (O_error e)) \<le> 400"
    by (cases e; simp add: js_def obj_def printable_def)+
  with wire_length [of "output_val (O_error e)"] show ?thesis by linarith
qed

lemma error_of_schema: "output_schema H (O_error e)"
  using artifact_error_length [of e] unfolding output_schema_def withinArtifactInspectionResponseByteLimit_def limits by simp

section \<open>Typed runs\<close>

fun own_output :: "inspection_operation \<Rightarrow> inspection_output \<Rightarrow> bool" where
  "own_output artifact_stat out = (case out of O_stat _ \<Rightarrow> True | O_error _ \<Rightarrow> True | _ \<Rightarrow> False)"
| "own_output artifact_read_range out = (case out of O_range _ _ \<Rightarrow> True | O_error _ \<Rightarrow> True | _ \<Rightarrow> False)"
| "own_output artifact_read_lines out = (case out of O_lines _ _ _ \<Rightarrow> True | O_error _ \<Rightarrow> True | _ \<Rightarrow> False)"
| "own_output artifact_read_heading out = (case out of O_heading _ _ _ \<Rightarrow> True | O_error _ \<Rightarrow> True | _ \<Rightarrow> False)"
| "own_output artifact_search_exact out = (case out of O_search _ _ \<Rightarrow> True | O_error _ \<Rightarrow> True | _ \<Rightarrow> False)"

lemma own_error [simp]: "own_output operation (O_error e)"
  by (cases operation) simp_all

named_theorems typed_run_intros

definition typed_run :: "hashfn \<Rightarrow> inspection_operation \<Rightarrow> run \<Rightarrow> bool" where
  "typed_run H operation r \<longleftrightarrow> (\<forall>out. fst r = Inr out \<longrightarrow> output_schema H out \<and> own_output operation out)"

lemma typed_exn [typed_run_intros]: "typed_run H operation (Inl (), eff)"
  by (simp add: typed_run_def)

lemma typed_stop [typed_run_intros]: "typed_run H operation (stop operation' ctx cs eff e)"
  by (simp add: typed_run_def error_of_schema)

lemma typed_fail [typed_run_intros]: "typed_run H operation (fail_closed operation' opts d cs eff e)"
  by (simp add: typed_run_def error_of_schema)

lemma typed_checked [typed_run_intros]:
  "own_output operation out \<Longrightarrow> typed_run H operation (deliver_checked H operation opts fd okd sc rc oc eff out)"
  by (auto simp: deliver_checked_def succeed_def typed_fail typed_stop split: prod.split bool.split) (simp add: typed_run_def)

lemma typed_deliver [typed_run_intros]:
  "own_output operation out \<Longrightarrow> typed_run H operation (deliver H operation opts fd okd lc sc rc oc eff out)"
  by (simp add: deliver_def typed_fail typed_checked)

lemma typed_artifact [typed_run_intros]:
  "(\<And>ctx now eff r. typed_run H operation (onInternal ctx now eff r)) \<Longrightarrow> (\<And>opts m eff. typed_run H operation (body opts m eff)) \<Longrightarrow>
   typed_run H operation (with_artifact H deps operation cs rawContext aid onInternal body)"
  by (simp add: with_artifact_def Let_def typed_stop split: option.split resolve_outcome.split)

lemma typed_bytes [typed_run_intros]:
  "(\<And>bytes eff. typed_run H operation (body bytes eff)) \<Longrightarrow>
   typed_run H operation (with_bytes deps operation opts d cs eff off len body)"
  by (simp add: with_bytes_def Let_def typed_stop typed_fail split: option.split sum.split)

lemma typed_source [typed_run_intros]:
  "(\<And>e. typed_run H operation (failClosed e)) \<Longrightarrow> typed_run H operation body \<Longrightarrow>
   typed_run H operation (with_verified_source H m failClosed bytes eff body)"
  by (simp add: with_verified_source_def typed_exn split: sum.split bool.split)

lemma typed_internal [typed_run_intros]: "typed_run H operation (internal_stop operation' cs ctx now eff r)"
  by (simp add: internal_stop_def typed_stop)

section \<open>The operations\<close>

lemma typed_stat: "typed_run H artifact_stat (artifactStat H deps rawContext rawInput)"
  by (auto simp: artifactStat_def stat_body_def Let_def intro!: typed_run_intros split: option.split)

lemma typed_range: "typed_run H artifact_read_range (artifactReadRange H deps rawContext rawInput)"
  by (auto simp: artifactReadRange_def range_body_def range_bytes_body_def Let_def intro!: typed_run_intros
      split: option.split sum.split)

lemma typed_past_end [typed_run_intros]: "typed_run H artifact_read_lines (lines_past_end H opts m sl c bytes eff)"
  by (auto simp: lines_past_end_def Let_def intro!: typed_run_intros split: option.split sum.split)

lemma typed_selected [typed_run_intros]: "typed_run H artifact_read_lines (lines_selected H nfc lower opts m sl c bytes idx eff)"
  by (auto simp: lines_selected_def Let_def intro!: typed_run_intros split: option.split sum.split)

lemma typed_lines: "typed_run H artifact_read_lines (artifactReadLines H nfc lower deps rawContext rawInput)"
  by (auto simp: artifactReadLines_def lines_body_def lines_bytes_body_def Let_def intro!: typed_run_intros
      split: option.split sum.split)

lemma typed_heading_selected [typed_run_intros]: "typed_run H artifact_read_heading (heading_selected H opts m hid bytes text h eff)"
  by (auto simp: heading_selected_def Let_def intro!: typed_run_intros split: option.split sum.split)

lemma typed_heading: "typed_run H artifact_read_heading (artifactReadHeading H nfc lower deps rawContext rawInput)"
  by (auto simp: artifactReadHeading_def heading_body_def heading_bytes_body_def Let_def intro!: typed_run_intros
      split: option.split sum.split)

lemma typed_search_internal [typed_run_intros]: "typed_run H operation (search_internal aid q mh ctx now eff failed)"
  by (simp add: search_internal_def typed_fail typed_stop split: option.split)

lemma typed_search_bytes [typed_run_intros]:
  "typed_run H artifact_search_exact (search_bytes_body H nfc lower opts m query qb mh bytes eff)"
  by (auto simp: search_bytes_body_def search_deliver_def Let_def intro!: typed_run_intros split: option.split sum.split)

lemma typed_search: "typed_run H artifact_search_exact (artifactSearchExact H nfc lower deps rawContext rawInput)"
  by (auto simp: artifactSearchExact_def search_body_def Let_def intro!: typed_run_intros split: option.split)

lemma typed_inspect: "typed_run H operation (inspect H nfc lower deps operation rawContext rawInput)"
  by (cases operation) (simp_all add: typed_stat typed_range typed_lines typed_heading typed_search)

definition tool_for :: "inspection_operation \<Rightarrow> inspection_tool" where
  "tool_for operation =
     (case operation of
        artifact_stat \<Rightarrow> ARTIFACT_STAT_TOOL | artifact_read_range \<Rightarrow> ARTIFACT_READ_RANGE_TOOL
      | artifact_read_lines \<Rightarrow> ARTIFACT_READ_LINES_TOOL | artifact_read_heading \<Rightarrow> ARTIFACT_READ_HEADING_TOOL
      | artifact_search_exact \<Rightarrow> ARTIFACT_SEARCH_EXACT_TOOL)"

lemma tool_output: "it_output (tool_for operation) H out \<longleftrightarrow> output_schema H out \<and> own_output operation out"
  by (cases operation; cases out)
    (simp_all add: tool_for_def inspection_tool_of_def ARTIFACT_STAT_TOOL_def ARTIFACT_READ_RANGE_TOOL_def
      ARTIFACT_READ_LINES_TOOL_def ARTIFACT_READ_HEADING_TOOL_def ARTIFACT_SEARCH_EXACT_TOOL_def)

lemma answered_typed:
  "\<exists>out. fst (inspect sha256 nfc lower deps operation rawContext rawInput) = Inr out \<and> it_output (tool_for operation) sha256 out"
proof -
  obtain out where "fst (inspect sha256 nfc lower deps operation rawContext rawInput) = Inr out"
    using inspect_shape [of nfc lower deps operation rawContext rawInput] by auto
  with typed_inspect [of sha256 operation nfc lower deps rawContext rawInput] show ?thesis
    by (auto simp: typed_run_def tool_output)
qed

text \<open>
  C13. Type: whatever the caller sends and the dependencies answer, an inspection answers a value of the output schema of
  its own descriptor: a success of its own operation that is bound to its evidence, or an error, within the response limit.
\<close>

theorem inspection_answers_typed:
  "\<exists>out. fst (inspect sha256 nfc lower deps operation rawContext rawInput) = Inr out \<and>
    it_output (tool_for operation) sha256 out \<and> tool_for operation \<in> set ARTIFACT_INSPECTION_TOOLS"
  using answered_typed [of nfc lower deps operation rawContext rawInput]
  by (cases operation) (simp_all add: tool_for_def ARTIFACT_INSPECTION_TOOLS_def)

section \<open>Answers on the wire\<close>

lemma transport_frame:
  "transport_send (artifactInspectionWireResponse rid out) =
     (if artifactInspectionResponseByteLength IdNull out + length (text_encode (id_text rid)) \<le> MAX_RESPONSE_BYTES + 4 \<and>
         length (text_encode (id_text rid)) \<le> MAX_REQUEST_ID_BYTES
      then (True, [Inner_send (artifactInspectionWireResponse rid out)]) else (False, [Inner_close]))"
  by (simp add: transport_send_def response_bounded(2))

lemma short_id_passes:
  assumes "output_schema H out" "length (text_encode (id_text rid)) \<le> 4"
  shows "transport_send (artifactInspectionWireResponse rid (output_val out)) =
    (True, [Inner_send (artifactInspectionWireResponse rid (output_val out))])"
  using assms by (simp add: transport_frame output_schema_def withinArtifactInspectionResponseByteLimit_def limits)

end
