(* ===== verification/Server_Properties.thy ===== *)
theory Server_Properties
  imports Read_Only_Server Inspector_Types
begin

text \<open>
  The server as a whole: its answers to read tools always pass its own transport, the session tool lists exactly what is
  registered, and a server exists only for a verified identity.
\<close>

section \<open>The tools of a server\<close>

lemma probe_answers: "probe_callback \<noteq> None"
proof -
  have "CompatibilityProbeOutputSchema probe_result = Some ()"
    by (simp add: CompatibilityProbeOutputSchema_def probe_result_def z_strict_obj z_literal_def z_bool_def TARGET_PROTOCOL_VERSION_def)
  then show ?thesis by (simp add: probe_callback_def)
qed

definition read_names :: "bool \<Rightarrow> string list" where
  "read_names two = [''memory_search'', ''memory_get'', ''memory_list_recent''] @ (if two then [''memory_retrieve'', ''session_capabilities_get''] else [])"

definition artifact_names :: "string list" where
  "artifact_names = [''artifact_stat'', ''artifact_read_range'', ''artifact_read_lines'', ''artifact_read_heading'', ''artifact_search_exact'']"

lemma entry_fields [simp]: "mcp_name (read_tool_entry name h) = js name" "mcp_handler (read_tool_entry name h) = h"
  by (simp_all add: read_tool_entry_def split: option.split)

lemma read_tools:
  "map mcp_name (srv_tools (register_read_tools two s)) = map mcp_name (srv_tools s) @ map js (read_names two)"
  "map mcp_handler (srv_tools (register_read_tools two s)) = map mcp_handler (srv_tools s) @
     [Memory_handler MEMORY_SEARCH_TOOL, Memory_handler MEMORY_GET_TOOL, Memory_handler MEMORY_LIST_RECENT_TOOL] @
     (if two then [Memory_handler MEMORY_RETRIEVE_TOOL, Session_handler] else [])"
  by (simp_all add: register_read_tools_def registerTool_def read_names_def Let_def)

lemma artifact_tools:
  "srv_tools (foldl (\<lambda>s t. registerTool (artifact_entry t) s) s ts) = srv_tools s @ map artifact_entry ts"
  by (induction ts arbitrary: s) (simp_all add: registerTool_def)

lemma visible_names: "visibleToolNames two arts = map js (read_names two @ (if arts then artifact_names else []))"
proof -
  have "map (js \<circ> it_name) ARTIFACT_INSPECTION_TOOLS = map js artifact_names"
    using arg_cong [OF inspection_tool_names, of "map js"] by (simp add: artifact_names_def)
  then show ?thesis
    by (cases two; cases arts) (simp_all add: visibleToolNames_def read_names_def artifact_names_def add_name_def js_def)
qed

lemma names_distinct: "distinct (map js (read_names two @ (if arts then artifact_names else [])))"
proof -
  have "distinct (map js (read_names True @ artifact_names))" by (simp add: read_names_def artifact_names_def js_def)
  then show ?thesis by (cases two; cases arts) (simp_all add: read_names_def)
qed

text \<open>What a created server is made of.\<close>

lemma created:
  assumes "createReadOnlyServer identity reg two = Inr s"
  shows "identity = Inr (ros_principal s)" "UUID (ros_principal s)"
    "map mcp_name (srv_tools (ros_server s)) = ros_visible s"
    "ros_visible s = map js (read_names two @ (if reg \<noteq> None then artifact_names else []))"
    "\<And>t. t \<in> set (srv_tools (ros_server s)) \<Longrightarrow> mcp_handler t \<in>
       {Memory_handler MEMORY_SEARCH_TOOL, Memory_handler MEMORY_GET_TOOL, Memory_handler MEMORY_LIST_RECENT_TOOL,
        Memory_handler MEMORY_RETRIEVE_TOOL, Session_handler} \<union> range Artifact_handler"
proof -
  obtain who where i: "identity = Inr who" "UUID who"
    using assms by (auto simp: createReadOnlyServer_def split: sum.splits if_splits)
  let ?base = "register_read_tools two \<lparr>srv_instructions = server_instructions two (reg \<noteq> None), srv_tools = []\<rparr>"
  have all: "ros_principal s = who \<and> ros_visible s = visibleToolNames two (reg \<noteq> None) \<and>
    srv_tools (ros_server s) = srv_tools ?base @ (if reg = None then [] else map artifact_entry (server_tools (fst (register no_tools))))"
  proof (cases reg)
    case None
    with assms i show ?thesis by (auto simp: createReadOnlyServer_def Let_def)
  next
    case (Some raw)
    with assms i obtain p where p: "prepareArtifactMcpRegistration raw who = Some p"
      by (auto simp: createReadOnlyServer_def split: option.splits)
    then have "pr_registered p = no_tools" by (auto simp: prepared)
    with assms i p Some register_shape(1) show ?thesis
      by (auto simp: createReadOnlyServer_def Let_def artifact_tools split: prod.splits bool.splits)
  qed
  then show "identity = Inr (ros_principal s)" "UUID (ros_principal s)" using i by simp_all
  show v: "ros_visible s = map js (read_names two @ (if reg \<noteq> None then artifact_names else []))"
    using all by (simp add: visible_names)
  have "map mcp_name (map artifact_entry (server_tools (fst (register no_tools)))) = map js artifact_names"
    using register_shape(3) by (simp add: artifact_entry_def o_def manifest_names artifact_names_def)
  then show "map mcp_name (srv_tools (ros_server s)) = ros_visible s"
    using all v by (cases reg) (simp_all add: read_tools)
  show "mcp_handler t \<in>
       {Memory_handler MEMORY_SEARCH_TOOL, Memory_handler MEMORY_GET_TOOL, Memory_handler MEMORY_LIST_RECENT_TOOL,
        Memory_handler MEMORY_RETRIEVE_TOOL, Session_handler} \<union> range Artifact_handler"
    if "t \<in> set (srv_tools (ros_server s))" for t
  proof -
    have "mcp_handler t \<in> set (map mcp_handler (srv_tools ?base)) \<or> mcp_handler t \<in> range Artifact_handler"
      using that all by (auto simp: artifact_entry_def split: if_splits)
    then show ?thesis unfolding read_tools by (auto split: if_splits)
  qed
qed

section \<open>Answers on the wire\<close>

lemma error_length: "readToolWireResponseByteLength IdNull (createReadToolError c) \<le> 2800"
proof -
  have "ascii_val (createReadToolError c)" "weight (createReadToolError c) \<le> 400"
    by (cases c; simp add: createReadToolError_def js_def printable_def)+
  with read_wire_length [of "createReadToolError c"] show ?thesis by linarith
qed

lemma small_bounded:
  assumes "readToolWireResponseByteLength IdNull out \<le> 60000" "length (text_encode (id_text rid)) \<le> MAX_REQUEST_ID_BYTES"
  shows "frameIsBounded (readToolWireResponse rid out)" "readToolWireResponseByteLength rid out \<le> MAX_RESPONSE_BYTES"
  using assms with_id(1) [of rid out] by (simp_all add: response_bounded(1) limits)

text \<open>A tool whose declared errors are those of the shared constructor and whose byte limit is that of the wire.\<close>

locale wire_tool =
  fixes tool :: descriptor
  assumes limit: "maxResponseBytes tool = MAX_RESPONSE_BYTES"
    and declared: "outputSchema tool v = Some w \<Longrightarrow> declared_error w \<noteq> None \<Longrightarrow> \<exists>e. w = createReadToolError e"
begin

lemma settled_length:
  "(\<exists>e. fst (settle_output tool rid ab r) = createReadToolError e) \<or>
   readToolWireResponseByteLength rid (fst (settle_output tool rid ab r)) \<le> MAX_RESPONSE_BYTES"
proof (cases r)
  case (Resolved v)
  show ?thesis
  proof (cases "outputSchema tool v")
    case (Some w)
    show ?thesis
    proof (cases "declared_error w")
      case None
      with Resolved Some limit show ?thesis by (auto simp: settle_output_def Let_def)
    next
      case (Some code)
      with Resolved \<open>outputSchema tool v = Some w\<close> declared [OF \<open>outputSchema tool v = Some w\<close>] show ?thesis
        by (simp add: settle_output_def Let_def)
    qed
  qed (use Resolved in \<open>auto simp: settle_output_def Let_def\<close>)
qed (auto simp: settle_output_def Let_def)

lemma call_length:
  "(\<exists>e. governed_call p tool ctx clock v budgets ab r now later = createReadToolError e) \<or>
   readToolWireResponseByteLength (requestId ctx) (governed_call p tool ctx clock v budgets ab r now later) \<le> MAX_RESPONSE_BYTES"
proof (cases "begin_call p tool ctx clock v budgets")
  case (Pair lim1 b)
  show ?thesis
  proof (cases b)
    case (Denied out ev)
    with Pair have "\<exists>e. out = createReadToolError e"
      by (auto simp: begin_call_def Let_def split: option.splits prod.splits if_splits)
    with Pair Denied show ?thesis by (simp add: governed_call_def)
  next
    case (Started c)
    with Pair have "run_desc c = tool" "run_ctx c = ctx"
      by (auto simp: begin_call_def Let_def split: option.splits prod.splits if_splits)
    with Pair Started have "governed_call p tool ctx clock v budgets ab r now later = fst (settle_output tool (requestId ctx) ab r)"
      by (cases "settle_output tool (requestId ctx) ab r") (simp add: governed_call_def finish_call_def)
    with settled_length [of "requestId ctx" ab r] show ?thesis by simp
  qed
qed

lemma call_bounded:
  assumes "length (text_encode (id_text (requestId ctx))) \<le> MAX_REQUEST_ID_BYTES"
  shows "frameIsBounded (readToolWireResponse (requestId ctx) (governed_call p tool ctx clock v budgets ab r now later))"
  using call_length [of p ctx clock v budgets ab r now later]
proof
  assume "\<exists>e. governed_call p tool ctx clock v budgets ab r now later = createReadToolError e"
  then obtain e where e: "governed_call p tool ctx clock v budgets ab r now later = createReadToolError e" by blast
  from error_length [of e] have "readToolWireResponseByteLength IdNull (createReadToolError e) \<le> 60000" by linarith
  from small_bounded(1) [OF this assms] show ?thesis by (simp add: e)
qed (use assms in \<open>simp add: response_bounded(1)\<close>)

end

lemma answer_declared: "declared_error (answer_val a) \<noteq> None \<Longrightarrow> \<exists>e. answer_val a = createReadToolError e"
  using declared_answer [of a] by (cases a) auto

lemma session_declared: "declared_error (session_answer_val a) \<noteq> None \<Longrightarrow> \<exists>e. session_answer_val a = createReadToolError e"
  by (cases a) (auto simp: capabilities_val_def getp_def js_def obj_def)

interpretation search_wire: wire_tool MEMORY_SEARCH_TOOL
  by unfold_locales (auto simp: MEMORY_SEARCH_TOOL_def intro: answer_declared)

interpretation get_wire: wire_tool MEMORY_GET_TOOL
  by unfold_locales (auto simp: MEMORY_GET_TOOL_def intro: answer_declared)

interpretation recent_wire: wire_tool MEMORY_LIST_RECENT_TOOL
  by unfold_locales (auto simp: MEMORY_LIST_RECENT_TOOL_def intro: answer_declared)

interpretation retrieve_wire: wire_tool MEMORY_RETRIEVE_TOOL
  by unfold_locales (auto simp: MEMORY_RETRIEVE_TOOL_def intro: answer_declared)

interpretation session_wire: wire_tool SESSION_CAPABILITIES_GET_TOOL
  by unfold_locales (auto simp: SESSION_CAPABILITIES_GET_TOOL_def intro: session_declared)

lemmas calls_bounded = search_wire.call_bounded get_wire.call_bounded recent_wire.call_bounded retrieve_wire.call_bounded
  session_wire.call_bounded

text \<open>A frame that was let in has a short identifier.\<close>

lemma delivered_id:
  assumes "transport_onmessage (VObj fs) = [Deliver (VObj fs)]" "map_of fs (js ''id'') = Some (id_val rid)"
  shows "length (text_encode (id_text rid)) \<le> MAX_REQUEST_ID_BYTES"
  using assms by (auto simp: transport_onmessage_def frameIsBounded_def requestIdByteLength_def json_id split: if_splits)

text \<open>
  C8. Safety: the transport never closes on an answer of a read tool. Whatever a request that came through the transport
  asks of a tool of the governor, in whatever state the limiter is and however the tool settles, the response frame is
  within the transport's bounds and is sent.
\<close>

theorem answers_pass_transport:
  assumes "createReadOnlyServer identity reg two = Inr s"
    and "t \<in> set (srv_tools (ros_server s))" "read_tool_descriptor (mcp_handler t) = Some d"
    and "transport_onmessage (VObj fs) = [Deliver (VObj fs)]" "map_of fs (js ''id'') = Some (id_val rid)"
  shows "transport_send (read_tool_frame s p d rid clock v budgets ab r now later) =
    (True, [Inner_send (read_tool_frame s p d rid clock v budgets ab r now later)])"
proof -
  have "d \<in> {MEMORY_SEARCH_TOOL, MEMORY_GET_TOOL, MEMORY_LIST_RECENT_TOOL, MEMORY_RETRIEVE_TOOL, SESSION_CAPABILITIES_GET_TOOL}"
    using created(5) [OF assms(1,2)] assms(3) by (auto simp: read_tool_descriptor_def)
  then have "frameIsBounded (read_tool_frame s p d rid clock v budgets ab r now later)"
    using calls_bounded [of "executionContext (ros_principal s) rid" p clock v budgets ab r now later] delivered_id [OF assms(4,5)]
    by (auto simp: read_tool_frame_def executionContext_def)
  then show ?thesis by (simp add: transport_send_def)
qed

section \<open>The session tool\<close>

lemma padded_printable: "printables (padded w n)"
  using to_base_printable [of "nat n"] by (auto simp: padded_def Let_def printable_def list_all_iff)

lemma iso_printable: "four_digit_year t \<Longrightarrow> printables (toISOString t)"
  by (cases "date_of_day (t div 86400000)")
    (simp add: four_digit_year_def toISOString_def iso_year_def Let_def padded_printable printable_def)

lemma iso_length:
  assumes "four_digit_year t"
  shows "length (toISOString t) = 24"
proof -
  obtain y mo d where f: "date_of_day (t div 86400000) = (y, mo, d)" by (cases "date_of_day (t div 86400000)")
  note cal = date_of_day_inverse [OF f]
  have "days_in_month y mo \<le> 31" by (simp add: days_in_month_def)
  then have n: "length (padded 4 y) = 4" "length (padded 2 mo) = 2" "length (padded 2 d) = 2"
    using cal assms f by (simp_all add: padded_fields four_digit_year_def)
  define u where "u = t mod 86400000"
  have u: "0 \<le> u" "u < 86400000" by (simp_all add: u_def)
  then have h: "0 \<le> u div 3600000" "u div 3600000 < 100" "0 \<le> u div 60000 mod 60" "u div 60000 mod 60 < 100"
    "0 \<le> u div 1000 mod 60" "u div 1000 mod 60 < 100" "0 \<le> u mod 1000" "u mod 1000 < 1000" by simp_all
  have m: "length (padded 2 (u div 3600000)) = 2" "length (padded 2 (u div 60000 mod 60)) = 2"
    "length (padded 2 (u div 1000 mod 60)) = 2" "length (padded 3 (u mod 1000)) = 3"
    using padded_fields(3) [OF h(1,2)] padded_fields(3) [OF h(3,4)] padded_fields(3) [OF h(5,6)] padded_fields(2) [OF h(7,8)]
    by blast+
  have "0 \<le> y" "y \<le> 9999" using assms f by (simp_all add: four_digit_year_def)
  then have "iso_year y = padded 4 y" by (simp add: iso_year_def)
  then show ?thesis unfolding toISOString_def f prod.case Let_def u_def [symmetric] by (simp add: n m)
qed

lemma sum_bound: "(\<And>x. x \<in> set xs \<Longrightarrow> f x \<le> (k :: nat)) \<Longrightarrow> sum_list (map f xs) \<le> length xs * k"
  by (induction xs) (auto intro: add_mono)

lemma digest_printable: "printables (hex bs)"
  using hex_lower [of bs] by (auto simp: list_all_iff lower_hex_def printable_def)

lemma visible_weight: "length name \<le> 64 \<Longrightarrow> 1 + weight (visible_tool_val (visibleTool name)) \<le> 400"
  by (simp add: visible_tool_val_def visibleTool_def access_val_def obj_def js_def)

lemma capabilities_small:
  assumes "length names \<le> 10" "list_all (\<lambda>n. printables n \<and> length n \<le> 64) names"
    and "four_digit_year now" "four_digit_year (now + SESSION_CAPABILITIES_DEFAULT_TTL_MS)"
  shows "readToolWireResponseByteLength IdNull (capabilities_val (session_candidate names now)) \<le> 60000"
proof -
  let ?c = "session_candidate names now"
  have set: "set (sort names) = set names" "length (sort names) = length names" by simp_all
  have "sum_list (map (\<lambda>n. 1 + weight (visible_tool_val (visibleTool n))) (sort names)) \<le> length (sort names) * 400"
    by (rule sum_bound) (use assms(2) visible_weight in \<open>auto simp: list_all_iff\<close>)
  then have tools: "sum_list (map (\<lambda>v. 1 + weight v) (map visible_tool_val (visible_tools ?c))) \<le> 4000"
    using assms(1) by (simp add: session_candidate_def projectSessionVisibleTools_def o_def)
  have times: "length (observed_at ?c) = 24" "length (expires_at ?c) = 24" "printables (observed_at ?c)" "printables (expires_at ?c)"
    using iso_length [OF assms(3)] iso_length [OF assms(4)] iso_printable [OF assms(3)] iso_printable [OF assms(4)]
    by (simp_all add: session_candidate_def)
  have dig: "length (read_semantics_digest ?c) = 64" "printables (read_semantics_digest ?c)"
    by (simp_all add: session_candidate_def SESSION_CAPABILITIES_READ_SEMANTICS_DIGEST_def digest_printable)
  have "list_all (\<lambda>t. printables (vt_name t) \<and> (\<exists>n. t = visibleTool n)) (visible_tools ?c)"
    using assms(2) by (auto simp: session_candidate_def projectSessionVisibleTools_def list_all_iff visibleTool_def)
  then have "list_all ascii_val (map visible_tool_val (visible_tools ?c))"
    by (auto simp: list_all_iff visible_tool_val_def visibleTool_def access_val_def obj_def js_def printable_def)
  then have "ascii_val (capabilities_val ?c)"
    using times dig by (simp add: capabilities_val_def discovery_val_def obj_def js_def DISCOVERY_STATUS_def printable_def num_def)
  moreover have "weight (capabilities_val ?c) \<le> 9000"
    using tools times dig
    by (simp add: capabilities_val_def discovery_val_def obj_def js_def DISCOVERY_STATUS_def num_def)
  ultimately show ?thesis using read_wire_length [of "capabilities_val ?c"] by linarith
qed

lemma capabilities_plain: "declared_error (capabilities_val c) = None" "countRows (capabilities_val c) = 0"
  by (simp_all add: capabilities_val_def getp_def js_def obj_def countRows_def rows_of_def array_length_def)

lemma visible_ok:
  assumes "createReadOnlyServer identity reg two = Inr s"
  shows "length (ros_visible s) \<le> 10" "list_all (\<lambda>n. printables n \<and> length n \<le> 64) (ros_visible s)"
    "list_all tool_name_ok (ros_visible s)" "distinct (ros_visible s)"
proof -
  note v = created(4) [OF assms]
  have "list_all tool_name_ok (map js (read_names True @ artifact_names))"
    "list_all (\<lambda>n. printables n \<and> length n \<le> 64) (map js (read_names True @ artifact_names))"
    by (simp_all add: read_names_def artifact_names_def js_def printable_def tool_name_ok_def
        SESSION_CAPABILITIES_TOOL_NAME_PATTERN_def lower_letter_def)
  then show "list_all (\<lambda>n. printables n \<and> length n \<le> 64) (ros_visible s)" "list_all tool_name_ok (ros_visible s)"
    unfolding v by (auto simp: read_names_def)
  show "length (ros_visible s) \<le> 10" unfolding v by (simp add: read_names_def artifact_names_def)
  show "distinct (ros_visible s)" unfolding v using names_distinct [of two "reg \<noteq> None"] by simp
qed

text \<open>
  C26. Functional: the session tool of a server names exactly the tools that server has registered, in the order of their
  code units. Its candidate always passes its own schema and the wire bound, for every request identifier the transport
  lets in, so an execution that is not aborted never answers an error.
\<close>

theorem session_lists_registered:
  assumes "createReadOnlyServer identity reg two = Inr s"
    and "four_digit_year now" "four_digit_year (now + SESSION_CAPABILITIES_DEFAULT_TTL_MS)"
    and "length (text_encode (id_text rid)) \<le> MAX_REQUEST_ID_BYTES"
  shows "settle_output SESSION_CAPABILITIES_GET_TOOL rid ab (session_capabilities_execute False False (ros_visible s) now) =
      (capabilities_val (session_candidate (ros_visible s) now), 0, Success, None) \<and>
    map vt_name (visible_tools (session_candidate (ros_visible s) now)) = sort (map mcp_name (srv_tools (ros_server s))) \<and>
    distinct (map mcp_name (srv_tools (ros_server s)))"
proof -
  let ?c = "session_candidate (ros_visible s) now"
  note v = visible_ok [OF assms(1)]
  have small: "readToolWireResponseByteLength IdNull (capabilities_val ?c) \<le> 60000"
    using capabilities_small [OF v(1,2) assms(2,3)] .
  then have "withinMinimumWireResponseByteLimit (capabilities_val ?c)"
    by (simp add: withinMinimumWireResponseByteLimit_def limits)
  then have build: "buildSessionCapabilitiesOutput (ros_visible s) now = S_capabilities ?c"
    and names: "map vt_name (visible_tools ?c) = sort (ros_visible s)"
    and parsed: "SessionCapabilitiesGetOutputSchema (capabilities_val ?c) = Some (S_capabilities ?c)"
    using capabilities_listed [OF v(4) assms(2,3)] v(1,3) by auto
  have "settle_output SESSION_CAPABILITIES_GET_TOOL rid ab (Resolved (capabilities_val ?c)) = (capabilities_val ?c, 0, Success, None)"
    using parsed small_bounded(2) [OF small assms(4)] capabilities_plain
    by (simp add: settle_output_def SESSION_CAPABILITIES_GET_TOOL_def Let_def)
  then show ?thesis
    using build names created(3) [OF assms(1)] v(4) by (simp add: session_capabilities_execute_def)
qed

section \<open>Artifact tools\<close>

lemma answered_output:
  assumes "tool_answers sha256 nfc lower deps owner config t rid rawInput out result"
  shows "result = createArtifactInspectionMcpResult (output_val out)" "it_output (tool_for (tool_operation t)) sha256 out"
  using assms
proof (induction rule: tool_answers.induct)
  case (1 ctx s out ev)
  let ?r = "inspect sha256 nfc lower deps (tool_operation t) (context_val ctx) rawInput"
  have inv: "op_inv sha256 ?r s" using 1(2) by (rule reachable_op_inv)
  with 1(3) have "out = deadline_error \<or> op_phase s = Settled out" by (auto simp: op_inv_def)
  with inv have "out = deadline_error \<or> out = internal_error \<or> fst ?r = Inr out" by (auto simp: op_inv_def)
  with typed_inspect [of sha256 "tool_operation t" nfc lower deps "context_val ctx" rawInput]
  show "it_output (tool_for (tool_operation t)) sha256 out"
    by (auto simp: tool_output typed_run_def createArtifactInspectionError_def error_of_schema)
qed simp

text \<open>
  C19. Safety: what becomes of an artifact answer on the wire. Every answer of a registered tool is of the schema of its
  operation; the transport sends its frame exactly when the response measured with a \<open>null\<close> identifier and the
  identifier are together within the limit and the four bytes of \<open>null\<close>, and closes the connection otherwise. With
  an identifier of at most four bytes it is always sent.
\<close>

theorem artifact_answers_on_wire:
  assumes "tool_answers sha256 nfc lower deps owner config t rid rawInput out result"
    and "length (text_encode (id_text rid)) \<le> MAX_REQUEST_ID_BYTES"
  shows "it_output (tool_for (tool_operation t)) sha256 out \<and>
    transport_send (response_frame rid result) =
      (if artifactInspectionResponseByteLength IdNull (output_val out) + length (text_encode (id_text rid)) \<le> MAX_RESPONSE_BYTES + 4
       then (True, [Inner_send (response_frame rid result)]) else (False, [Inner_close])) \<and>
    (length (text_encode (id_text rid)) \<le> 4 \<longrightarrow> fst (transport_send (response_frame rid result)))"
proof -
  note o = answered_output [OF assms(1)]
  have frame: "response_frame rid result = artifactInspectionWireResponse rid (output_val out)" by (simp add: frames o(1))
  have "output_schema sha256 out" using o(2) by (simp add: tool_output)
  then have "length (text_encode (id_text rid)) \<le> 4 \<longrightarrow> fst (transport_send (response_frame rid result))"
    unfolding frame using short_id_passes [of sha256 out rid] by simp
  then show ?thesis using o(2) assms(2) transport_frame [of rid "output_val out"] by (simp add: frame)
qed

section \<open>A concrete server\<close>

definition sample_principal :: jsstring where
  "sample_principal = js ''01234567-89ab-4cde-8f01-23456789abcd''"

definition sample_server :: read_only_server where
  "sample_server =
     \<lparr>ros_server = register_read_tools True \<lparr>srv_instructions = server_instructions True False, srv_tools = []\<rparr>,
      ros_principal = sample_principal, ros_visible = visibleToolNames True False, ros_artifacts = None\<rparr>"

lemma sample_created: "createReadOnlyServer (Inr sample_principal) None True = Inr sample_server"
proof -
  have "UUID sample_principal"
    by (rule UUID_enumerate) (simp_all add: sample_principal_def js_def hex_ci_def hex_value_def)
  then show ?thesis by (simp add: createReadOnlyServer_def sample_server_def Let_def)
qed

lemma sample_id: "length (text_encode (id_text (IdNumber (JInt 7)))) = 1"
proof -
  have "printables (id_text (IdNumber (JInt 7)))" by (simp add: id_text_def stringify_def digit_printable)
  from text_encode_printable [OF this] show ?thesis by (simp add: id_text_def stringify_def)
qed

theorem session_lists_registered_witness:
  "map vt_name (visible_tools (session_candidate (ros_visible sample_server) 1767225600000)) =
     sort (map mcp_name (srv_tools (ros_server sample_server)))"
  using session_lists_registered [OF sample_created sample_times, of "IdNumber (JInt 7)"] by (simp add: sample_id limits)

definition sample_request :: jsval where
  "sample_request = VObj [(js ''jsonrpc'', VStr (js ''2.0'')), (js ''id'', num 7), (js ''method'', VStr (js ''tools/call''))]"

lemma frame_small: "ascii_val m \<Longrightarrow> completeMcpFrameByteLength m \<le> weight m + 1"
proof -
  assume "ascii_val m"
  then obtain t where t: "json m = Some t" "printables t" "length t \<le> weight m" using json_printable by blast
  then have "printables (t @ [0x0a])" by (simp add: printable_def)
  from text_encode_printable [OF this] t show ?thesis by (simp add: completeMcpFrameByteLength_def stringify_def)
qed

lemma sample_delivered: "transport_onmessage sample_request = [Deliver sample_request]"
proof -
  have "ascii_val sample_request" "weight sample_request \<le> 500"
    by (simp_all add: sample_request_def num_def js_def printable_def)
  then have "completeMcpFrameByteLength sample_request \<le> 501" using frame_small [of sample_request] by linarith
  moreover have "requestIdByteLength sample_request = 1"
    using sample_id by (simp add: requestIdByteLength_def sample_request_def num_def js_def id_text_def stringify_def)
  ultimately show ?thesis by (simp add: transport_onmessage_def frameIsBounded_def limits)
qed

theorem answers_pass_transport_witness:
  "transport_send (read_tool_frame sample_server DEFAULT_RATE_LIMIT MEMORY_SEARCH_TOOL (IdNumber (JInt 7)) (\<lambda>i. 0) VNull [] False
      (Rejected None) 0 []) \<noteq> (False, [Inner_close])"
proof -
  have "read_tool_entry ''memory_search'' (Memory_handler MEMORY_SEARCH_TOOL) \<in> set (srv_tools (ros_server sample_server))"
    by (simp add: sample_server_def register_read_tools_def registerTool_def Let_def)
  from answers_pass_transport [OF sample_created this _ sample_delivered [unfolded sample_request_def]] show ?thesis
    by (simp add: read_tool_descriptor_def num_def js_def)
qed

theorem artifact_answers_on_wire_witness:
  "\<exists>out result. tool_answers sha256 id id (store_of sample_record sample_text) (js ''user-1'') sample_registration
     \<lparr>tool_name = js ''artifact_stat'', tool_title = [], tool_description = [], tool_operation = artifact_stat\<rparr>
     (IdNumber (JInt 7)) VNull out result \<and> fst (transport_send (response_frame (IdNumber (JInt 7)) result))"
proof -
  let ?t = "\<lparr>tool_name = js ''artifact_stat'', tool_title = [], tool_description = [], tool_operation = artifact_stat\<rparr>"
  obtain out result where a: "tool_answers sha256 id id (store_of sample_record sample_text) (js ''user-1'') sample_registration ?t
      (IdNumber (JInt 7)) VNull out result"
    using context_serves [OF sample_config_accepted, of "IdNumber (JInt 7)" id id "store_of sample_record sample_text" ?t VNull] by blast
  have "length (text_encode (id_text (IdNumber (JInt 7)))) \<le> MAX_REQUEST_ID_BYTES" by (simp add: sample_id limits)
  from artifact_answers_on_wire [OF a this]
  have "length (text_encode (id_text (IdNumber (JInt 7)))) \<le> 4 \<longrightarrow> fst (transport_send (response_frame (IdNumber (JInt 7)) result))"
    by (elim conjE)
  with a show ?thesis unfolding sample_id by (intro exI conjI) simp_all
qed

end
