(* ===== verification/Credential_Loader.thy ===== *)
theory Credential_Loader
  imports Supabase_Client Memory_Answers "HOL-Library.List_Lexorder"
begin

text \<open>
  \<open>packages/server/src/local-credential-loader.ts\<close>: the two credentials, from a file only its owner can read. The
  file system is a record of the answers it gives; \<open>Buffer\<close> decoders and \<open>JSON.parse\<close> are parameters as for the
  client.
\<close>

section \<open>Errors, files and the host\<close>

definition MAX_CREDENTIAL_BYTES :: nat where
  [limits]: "MAX_CREDENTIAL_BYTES = 16384"

datatype local_credential_error =
    CREDENTIAL_FILE_MISSING | CREDENTIAL_SYMLINK | CREDENTIAL_NOT_FILE | CREDENTIAL_FILE_TOO_LARGE
  | CREDENTIAL_INSECURE_PERMISSIONS | CREDENTIAL_PERMISSION_CHECK_UNSUPPORTED | CREDENTIAL_READ_FAILED
  | CREDENTIAL_MALFORMED | CREDENTIAL_SCHEMA_INVALID | CREDENTIAL_BLANK | CREDENTIAL_CONFLATED
  | CREDENTIAL_TOKEN_INVALID | CREDENTIAL_TOKEN_EXPIRED

record local_credentials =
  lc_publishableKey :: jsstring
  lc_accessToken :: jsstring

datatype permission_inspection = Perm_secure | Perm_insecure | Perm_unsupported

record file_metadata =
  md_isFile :: bool
  md_size :: nat
  md_mode :: "32 word"
  md_uid :: nat

text \<open>
  An open file: \<open>None\<close> where the promise is rejected. \<open>fh_read n room\<close> is what a read answers after \<open>n\<close> bytes have
  been read; a read stores at most the \<open>room\<close> it is given.
\<close>

record file_handle =
  fh_stat :: "file_metadata option"
  fh_read :: "nat \<Rightarrow> nat \<Rightarrow> byte list option"

text \<open>The \<open>code\<close> of the exception of \<open>open\<close>.\<close>

datatype open_failure = ENOENT | ELOOP | Open_other

text \<open>\<open>open_file path noFollow\<close>\<close>

record host =
  win32 :: bool
  host_getuid :: "nat option"
  open_file :: "jsstring \<Rightarrow> bool \<Rightarrow> open_failure + file_handle"

record loader_options =
  permissionInspector :: "(jsstring \<Rightarrow> 32 word \<Rightarrow> nat \<Rightarrow> permission_inspection option) option"
  loader_now :: jsnum

definition defaultPermissionInspector :: "host \<Rightarrow> jsstring \<Rightarrow> 32 word \<Rightarrow> nat \<Rightarrow> permission_inspection option" where
  "defaultPermissionInspector h path mode ownerUid =
     Some (if win32 h then Perm_unsupported
           else
             (case host_getuid h of
                None \<Rightarrow> Perm_unsupported
              | Some currentUid \<Rightarrow> if ownerUid = currentUid \<and> mode AND 0x3f = 0 then Perm_secure else Perm_insecure))"

section \<open>Reading\<close>

text \<open>The loop fills a buffer of one byte more than the limit; \<open>None\<close>: a read failed.\<close>

function read_file :: "(nat \<Rightarrow> nat \<Rightarrow> byte list option) \<Rightarrow> byte list \<Rightarrow> byte list option" where
  "read_file rd acc =
     (let room = MAX_CREDENTIAL_BYTES + 1 - length acc
      in if room = 0 then Some acc
         else
           (case rd (length acc) room of
              None \<Rightarrow> None
            | Some bs \<Rightarrow> (let got = take room bs in if got = [] then Some acc else read_file rd (acc @ got))))"
  by pat_completeness auto
termination read_file
  by (relation "measure (\<lambda>(rd, acc). MAX_CREDENTIAL_BYTES + 1 - length acc)") (auto simp: neq_Nil_conv take_Cons')

declare read_file.simps [simp del]

text \<open>From the open handle to the bytes of the file.\<close>

definition read_credential_file :: "host \<Rightarrow> loader_options \<Rightarrow> jsstring \<Rightarrow> file_handle \<Rightarrow> local_credential_error + byte list" where
  "read_credential_file h opts startupPath f =
     (case fh_stat f of
        None \<Rightarrow> Inl CREDENTIAL_READ_FAILED
      | Some md \<Rightarrow>
          if \<not> md_isFile md then Inl CREDENTIAL_NOT_FILE
          else if MAX_CREDENTIAL_BYTES < md_size md then Inl CREDENTIAL_FILE_TOO_LARGE
          else
            (case (case permissionInspector opts of None \<Rightarrow> defaultPermissionInspector h | Some p \<Rightarrow> p)
                    startupPath (md_mode md) (md_uid md) of
               None \<Rightarrow> Inl CREDENTIAL_PERMISSION_CHECK_UNSUPPORTED
             | Some Perm_unsupported \<Rightarrow> Inl CREDENTIAL_PERMISSION_CHECK_UNSUPPORTED
             | Some Perm_insecure \<Rightarrow> Inl CREDENTIAL_INSECURE_PERMISSIONS
             | Some Perm_secure \<Rightarrow>
                 (case read_file (fh_read f) [] of
                    None \<Rightarrow> Inl CREDENTIAL_READ_FAILED
                  | Some bytes \<Rightarrow>
                      if MAX_CREDENTIAL_BYTES < length bytes then Inl CREDENTIAL_FILE_TOO_LARGE else Inr bytes)))"

section \<open>Parsing\<close>

text \<open>\<open>s.split('.')\<close>\<close>

fun split_dot :: "jsstring \<Rightarrow> jsstring list" where
  "split_dot [] = [[]]"
| "split_dot (u # s) =
     (if u = 0x2e then [] # split_dot s
      else case split_dot s of [] \<Rightarrow> [[u]] | part # parts \<Rightarrow> (u # part) # parts)"

definition parseTokenExpiry ::
    "(jsstring \<Rightarrow> byte list) \<Rightarrow> (byte list \<Rightarrow> jsstring) \<Rightarrow> (jsstring \<Rightarrow> jsval option) \<Rightarrow> jsstring \<Rightarrow> local_credential_error + int" where
  "parseTokenExpiry from_base64url to_text parse token =
     (let parts = split_dot token
      in if length parts \<noteq> 3 \<or> list_ex (\<lambda>part. length part = 0) parts then Inl CREDENTIAL_TOKEN_INVALID
         else
           (case parse (to_text (from_base64url (parts ! 1))) of
              Some (VObj fs) \<Rightarrow>
                (case getp fs (js ''exp'') of
                   VNum x \<Rightarrow> if isSafeInteger x then Inr (num_int x) else Inl CREDENTIAL_TOKEN_INVALID
                 | _ \<Rightarrow> Inl CREDENTIAL_TOKEN_INVALID)
            | _ \<Rightarrow> Inl CREDENTIAL_TOKEN_INVALID))"

text \<open>\<open>expiresAt <= Math.floor(now / 1000)\<close>, for readings of the clock within the safe integers.\<close>

fun token_expired_at :: "int \<Rightarrow> jsnum \<Rightarrow> bool" where
  "token_expired_at e (JInt k) = (e \<le> k div 1000)"
| "token_expired_at e (JFrac k _) = (e \<le> k div 1000)"
| "token_expired_at e JInf = True"
| "token_expired_at e JNegInf = False"
| "token_expired_at e JNaN = False"

definition parse_credentials ::
    "(jsstring \<Rightarrow> byte list) \<Rightarrow> (byte list \<Rightarrow> jsstring) \<Rightarrow> (jsstring \<Rightarrow> jsval option) \<Rightarrow> jsnum \<Rightarrow> jsstring \<Rightarrow>
     local_credential_error + local_credentials" where
  "parse_credentials from_base64url to_text parse now body =
     (case parse body of
        None \<Rightarrow> Inl CREDENTIAL_MALFORMED
      | Some (VObj fs) \<Rightarrow>
          if sort (map fst fs) \<noteq> [js ''projectPublishableKey'', js ''userAccessToken''] then Inl CREDENTIAL_SCHEMA_INVALID
          else
            (case (getp fs (js ''projectPublishableKey''), getp fs (js ''userAccessToken'')) of
               (VStr rawKey, VStr rawToken) \<Rightarrow>
                 (let key = trim rawKey; token = trim rawToken
                  in if length key = 0 \<or> length token = 0 then Inl CREDENTIAL_BLANK
                     else if key = token \<or> length (split_dot key) = 3 then Inl CREDENTIAL_CONFLATED
                     else
                       (case parseTokenExpiry from_base64url to_text parse token of
                          Inl e \<Rightarrow> Inl e
                        | Inr expiresAt \<Rightarrow>
                            if token_expired_at expiresAt now then Inl CREDENTIAL_TOKEN_EXPIRED
                            else Inr \<lparr>lc_publishableKey = key, lc_accessToken = token\<rparr>))
             | _ \<Rightarrow> Inl CREDENTIAL_SCHEMA_INVALID)
      | Some _ \<Rightarrow> Inl CREDENTIAL_SCHEMA_INVALID)"

definition loadLocalCredentials ::
    "(jsstring \<Rightarrow> byte list) \<Rightarrow> (byte list \<Rightarrow> jsstring) \<Rightarrow> (jsstring \<Rightarrow> jsval option) \<Rightarrow> host \<Rightarrow> loader_options \<Rightarrow> jsstring \<Rightarrow>
     local_credential_error + local_credentials" where
  "loadLocalCredentials from_base64url to_text parse h opts startupPath =
     (case open_file h startupPath (\<not> win32 h) of
        Inl ENOENT \<Rightarrow> Inl CREDENTIAL_FILE_MISSING
      | Inl ELOOP \<Rightarrow> Inl CREDENTIAL_SYMLINK
      | Inl Open_other \<Rightarrow> Inl CREDENTIAL_READ_FAILED
      | Inr f \<Rightarrow>
          (case read_credential_file h opts startupPath f of
             Inl e \<Rightarrow> Inl e
           | Inr bytes \<Rightarrow> parse_credentials from_base64url to_text parse (loader_now opts) (to_text bytes)))"

section \<open>The reading loop\<close>

text \<open>Whatever the reads answer, the buffer never overflows.\<close>

lemma read_file_bounded:
  "length acc \<le> MAX_CREDENTIAL_BYTES + 1 \<Longrightarrow> read_file rd acc = Some bytes \<Longrightarrow> length bytes \<le> MAX_CREDENTIAL_BYTES + 1"
proof (induction rd acc rule: read_file.induct)
  case (1 rd acc)
  show ?case
  proof (cases "\<exists>bs. MAX_CREDENTIAL_BYTES + 1 - length acc \<noteq> 0 \<and> rd (length acc) (MAX_CREDENTIAL_BYTES + 1 - length acc) = Some bs \<and>
      take (MAX_CREDENTIAL_BYTES + 1 - length acc) bs \<noteq> []")
    case True
    then obtain bs where "MAX_CREDENTIAL_BYTES + 1 - length acc \<noteq> 0" "rd (length acc) (MAX_CREDENTIAL_BYTES + 1 - length acc) = Some bs"
      "take (MAX_CREDENTIAL_BYTES + 1 - length acc) bs \<noteq> []" by blast
    with 1 show ?thesis by (simp add: read_file.simps [of rd acc] Let_def)
  next
    case False
    with 1(2,3) show ?thesis by (auto simp: read_file.simps [of rd acc] Let_def split: option.splits if_splits)
  qed
qed

section \<open>Dots\<close>

lemma split_dot_length: "length (split_dot s) = dot_parts s"
  by (induction s) (auto simp: dot_parts_def split: list.split)

section \<open>What a loaded pair is\<close>

lemma parsed_credentials:
  assumes "parse_credentials from_base64url to_text parse now body = Inr c"
  shows "trim (lc_publishableKey c) = lc_publishableKey c" "trim (lc_accessToken c) = lc_accessToken c"
    "lc_publishableKey c \<noteq> []" "lc_accessToken c \<noteq> []" "lc_publishableKey c \<noteq> lc_accessToken c"
    "dot_parts (lc_publishableKey c) \<noteq> 3" "dot_parts (lc_accessToken c) = 3"
    "\<exists>e. parseTokenExpiry from_base64url to_text parse (lc_accessToken c) = Inr e \<and> \<not> token_expired_at e now"
proof -
  obtain fs rawKey rawToken where
    "parse body = Some (VObj fs)" "getp fs (js ''projectPublishableKey'') = VStr rawKey" "getp fs (js ''userAccessToken'') = VStr rawToken"
    using assms by (auto simp: parse_credentials_def split: option.splits jsval.splits if_splits)
  then obtain e where c: "c = \<lparr>lc_publishableKey = trim rawKey, lc_accessToken = trim rawToken\<rparr>" "trim rawKey \<noteq> []" "trim rawToken \<noteq> []"
    "trim rawKey \<noteq> trim rawToken" "length (split_dot (trim rawKey)) \<noteq> 3"
    "parseTokenExpiry from_base64url to_text parse (trim rawToken) = Inr e" "\<not> token_expired_at e now"
    using assms by (auto simp: parse_credentials_def Let_def split: if_splits sum.splits)
  moreover have "length (split_dot (trim rawToken)) = 3"
    using c(6) by (auto simp: parseTokenExpiry_def Let_def split: if_splits)
  ultimately show "trim (lc_publishableKey c) = lc_publishableKey c" "trim (lc_accessToken c) = lc_accessToken c"
    "lc_publishableKey c \<noteq> []" "lc_accessToken c \<noteq> []" "lc_publishableKey c \<noteq> lc_accessToken c"
    "dot_parts (lc_publishableKey c) \<noteq> 3" "dot_parts (lc_accessToken c) = 3"
    "\<exists>e. parseTokenExpiry from_base64url to_text parse (lc_accessToken c) = Inr e \<and> \<not> token_expired_at e now"
    by (simp_all add: split_dot_length)
qed

text \<open>The three parts of a token, and the members of its payload.\<close>

definition token_claims ::
    "(jsstring \<Rightarrow> byte list) \<Rightarrow> (byte list \<Rightarrow> jsstring) \<Rightarrow> (jsstring \<Rightarrow> jsval option) \<Rightarrow> jsstring \<Rightarrow> (jsstring \<times> jsval) list \<Rightarrow> bool" where
  "token_claims from_base64url to_text parse token claims \<longleftrightarrow>
     (\<exists>header payload signature. split_dot token = [header, payload, signature] \<and> header \<noteq> [] \<and> payload \<noteq> [] \<and> signature \<noteq> [] \<and>
        parse (to_text (from_base64url payload)) = Some (VObj claims))"

text \<open>A clock reading in milliseconds before a time in seconds.\<close>

lemma not_expired: "\<not> token_expired_at e now \<longleftrightarrow> num_lt now (1000 * e) \<or> now = JNaN"
proof -
  have "\<not> e \<le> k div 1000 \<longleftrightarrow> k < 1000 * e" for k :: int by linarith
  then show ?thesis by (cases now) auto
qed

lemma parsed_expiry:
  assumes "parseTokenExpiry from_base64url to_text parse token = Inr e"
  shows "\<exists>claims. token_claims from_base64url to_text parse token claims \<and> getp claims (js ''exp'') = VNum (JInt e)"
proof -
  from assms have "length (split_dot token) = 3" by (auto simp: parseTokenExpiry_def Let_def split: if_splits)
  then obtain a b c where parts: "split_dot token = [a, b, c]" by (auto simp: numeral_3_eq_3 length_Suc_conv)
  with assms show ?thesis
    by (auto simp: parseTokenExpiry_def token_claims_def isSafeInteger_cases split: option.splits jsval.splits if_splits)
qed

text \<open>
  The contents of a file that hold the pair: an object of exactly two text members, whose values without outer white
  space are the key and the token, a token that has not expired.
\<close>

definition pair_in_file ::
    "(jsstring \<Rightarrow> byte list) \<Rightarrow> (byte list \<Rightarrow> jsstring) \<Rightarrow> (jsstring \<Rightarrow> jsval option) \<Rightarrow> jsnum \<Rightarrow> byte list \<Rightarrow> local_credentials \<Rightarrow> bool" where
  "pair_in_file from_base64url to_text parse now bytes c \<longleftrightarrow>
     (\<exists>fs rawKey rawToken claims e.
        parse (to_text bytes) = Some (VObj fs) \<and> length fs = 2 \<and>
        fst ` set fs = {js ''projectPublishableKey'', js ''userAccessToken''} \<and>
        getp fs (js ''projectPublishableKey'') = VStr rawKey \<and> getp fs (js ''userAccessToken'') = VStr rawToken \<and>
        lc_publishableKey c = trim rawKey \<and> lc_accessToken c = trim rawToken \<and>
        trim rawKey \<noteq> [] \<and> trim rawKey \<noteq> trim rawToken \<and> length (split_dot (trim rawKey)) \<noteq> 3 \<and>
        token_claims from_base64url to_text parse (trim rawToken) claims \<and> getp claims (js ''exp'') = VNum (JInt e) \<and>
        (num_lt now (1000 * e) \<or> now = JNaN))"

lemma parsed_pair:
  assumes "parse_credentials from_base64url to_text parse now (to_text bytes) = Inr c"
  shows "pair_in_file from_base64url to_text parse now bytes c"
proof -
  obtain fs rawKey rawToken where f: "parse (to_text bytes) = Some (VObj fs)"
    "sort (map fst fs) = [js ''projectPublishableKey'', js ''userAccessToken'']"
    "getp fs (js ''projectPublishableKey'') = VStr rawKey" "getp fs (js ''userAccessToken'') = VStr rawToken"
    using assms by (auto simp: parse_credentials_def split: option.splits jsval.splits if_splits)
  then obtain e where c: "lc_publishableKey c = trim rawKey" "lc_accessToken c = trim rawToken" "trim rawKey \<noteq> []"
    "trim rawKey \<noteq> trim rawToken" "length (split_dot (trim rawKey)) \<noteq> 3"
    "parseTokenExpiry from_base64url to_text parse (trim rawToken) = Inr e" "\<not> token_expired_at e now"
    using assms by (auto simp: parse_credentials_def Let_def split: if_splits sum.splits)
  have "length fs = 2" "fst ` set fs = {js ''projectPublishableKey'', js ''userAccessToken''}"
    using arg_cong [OF f(2), of length] arg_cong [OF f(2), of set] by simp_all
  with f c parsed_expiry [OF c(6)] not_expired [of e now] show ?thesis unfolding pair_in_file_def by blast
qed

text \<open>
  The file behind a pair the default permission check lets through: opened without following a link, on a system with user
  identifiers, regular, owned by the user, with no permission bit for group or others, and within the limit.
\<close>

definition private_file :: "host \<Rightarrow> jsstring \<Rightarrow> byte list \<Rightarrow> bool" where
  "private_file h path bytes \<longleftrightarrow>
     (\<exists>f md. \<not> win32 h \<and> open_file h path True = Inr f \<and> fh_stat f = Some md \<and> md_isFile md \<and>
        host_getuid h = Some (md_uid md) \<and> (\<forall>k < 6. \<not> bit (md_mode md) k) \<and> md_size md \<le> MAX_CREDENTIAL_BYTES \<and>
        read_file (fh_read f) [] = Some bytes \<and> length bytes \<le> MAX_CREDENTIAL_BYTES)"

lemma default_secure:
  "defaultPermissionInspector h path mode ownerUid = Some Perm_secure \<longleftrightarrow>
     \<not> win32 h \<and> host_getuid h = Some ownerUid \<and> mode AND 0x3f = 0"
  by (auto simp: defaultPermissionInspector_def split: option.splits)

lemma low_bits: "mode AND 0x3f = 0 \<longleftrightarrow> (\<forall>k < 6. \<not> bit (mode :: 32 word) k)"
proof -
  have m: "mode AND 0x3f = take_bit 6 mode" by (simp add: take_bit_eq_mask mask_eq_exp_minus_1)
  show ?thesis
  proof
    assume "mode AND 0x3f = 0"
    then have "\<not> bit (take_bit 6 mode) k" for k by (simp add: m)
    then show "\<forall>k < 6. \<not> bit mode k" by (simp add: bit_take_bit_iff)
  next
    assume "\<forall>k < 6. \<not> bit mode k"
    then show "mode AND 0x3f = 0" unfolding m by (intro bit_eqI) (auto simp: bit_take_bit_iff)
  qed
qed

lemma loaded_credentials:
  assumes "loadLocalCredentials from_base64url to_text parse h opts path = Inr c"
  shows "\<exists>bytes. parse_credentials from_base64url to_text parse (loader_now opts) (to_text bytes) = Inr c \<and>
    (permissionInspector opts = None \<longrightarrow> private_file h path bytes)"
proof -
  obtain f bytes where f: "open_file h path (\<not> win32 h) = Inr f" "read_credential_file h opts path f = Inr bytes"
    "parse_credentials from_base64url to_text parse (loader_now opts) (to_text bytes) = Inr c"
    using assms by (auto simp: loadLocalCredentials_def split: sum.splits open_failure.splits)
  have "private_file h path bytes" if n: "permissionInspector opts = None"
  proof -
    from f(2) n obtain md where md: "fh_stat f = Some md" "md_isFile md" "md_size md \<le> MAX_CREDENTIAL_BYTES"
      "defaultPermissionInspector h path (md_mode md) (md_uid md) = Some Perm_secure"
      "read_file (fh_read f) [] = Some bytes" "length bytes \<le> MAX_CREDENTIAL_BYTES"
      by (simp add: read_credential_file_def not_less split: option.splits if_splits permission_inspection.splits)
    then have w: "\<not> win32 h" "host_getuid h = Some (md_uid md)" "md_mode md AND 0x3f = 0" unfolding default_secure by blast+
    have opened: "open_file h path True = Inr f" using f(1) w(1) by simp
    note low = low_bits [THEN iffD1, OF w(3)]
    show ?thesis unfolding private_file_def by (intro exI [of _ f] exI [of _ md] conjI) (fact md w opened low)+
  qed
  then show ?thesis using f(3) by (intro exI [of _ bytes] conjI impI)
qed

text \<open>
  The client accepts what the loader returns: with a loaded pair and no limits of its own, the creation
  of the client can only fail for the origin, and the client carries the pair unchanged.
\<close>

lemma pair_accepted:
  assumes "loadLocalCredentials from_base64url to_text parse h opts path = Inr c"
  shows "createFixedSupabaseClient parse_url
      \<lparr>cf_origin = origin, projectPublishableKey = Some (lc_publishableKey c), userAccessToken = Some (lc_accessToken c),
       cf_timeoutMs = None, cf_maxResponseBytes = None\<rparr> =
    (if \<exists>u. parse_url origin = Some u \<and> protocol u = js ''https:'' \<and> url_origin u = origin \<and> username u = [] \<and> password u = []
     then Inr \<lparr>fc_origin = origin, fc_key = lc_publishableKey c, fc_token = lc_accessToken c, fc_timeoutMs = DEFAULT_TIMEOUT_MS,
               fc_maxResponseBytes = DEFAULT_MAX_RESPONSE_BYTES\<rparr>
     else Inl FIXED_CLIENT_INVALID_CREDENTIAL)"
proof -
  obtain bytes where "parse_credentials from_base64url to_text parse (loader_now opts) (to_text bytes) = Inr c"
    using loaded_credentials [OF assms] by blast
  note p = parsed_credentials [OF this]
  have "boundedInteger (JInt DEFAULT_TIMEOUT_MS) MAX_TIMEOUT_MS" "boundedInteger (JInt DEFAULT_MAX_RESPONSE_BYTES) CLIENT_MAX_RESPONSE_BYTES"
    by (simp_all add: boundedInteger_def DEFAULT_TIMEOUT_MS_def MAX_TIMEOUT_MS_def DEFAULT_MAX_RESPONSE_BYTES_def
        CLIENT_MAX_RESPONSE_BYTES_def MAX_SAFE_INTEGER_def)
  with p show ?thesis by (auto simp: createFixedSupabaseClient_def Let_def split: option.split)
qed

end
