(* ===== verification/Startup.thy ===== *)
theory Startup
  imports Credential_Loader Server_Properties
begin

text \<open>
  The start of the process, \<open>packages/server/src/stdio-startup.ts\<close>: from the arguments and the environment over the
  credential file, the client and the verified identity to the served server; the command line around it with its
  shutdown. \<open>serveStdio\<close> of the MCP SDK and the signals of the process are parameters.
\<close>

section \<open>Starting\<close>

datatype startup_error =
    STDIO_STARTUP_INVALID_CONFIGURATION | Credential_failure local_credential_error | Client_failure client_error
  | Server_failure server_error | Serve_failure

text \<open>What the start does to the outside: requests over the network, the serving of stdio, the closing of the server.\<close>

datatype startup_effect = Request_made http_request | Stdio_served | Server_closed

text \<open>The host, the decoders and the network are those of the loader and of the client.\<close>

record runtime =
  rt_from_base64url :: "jsstring \<Rightarrow> byte list"
  rt_to_text :: "byte list \<Rightarrow> jsstring"
  rt_parse_json :: "jsstring \<Rightarrow> jsval option"
  rt_parse_url :: "jsstring \<Rightarrow> url option"
  rt_host :: host
  rt_now :: jsnum
  rt_network :: network
  rt_aborted :: bool
  rt_serves :: bool

text \<open>\<open>SUPABASE_ORIGIN_ENV\<close> and \<open>CREDENTIAL_FILE_ENV\<close>\<close>

record environment =
  SUPABASE_USER_MCP_ORIGIN :: "jsstring option"
  SUPABASE_USER_MCP_CREDENTIAL_FILE :: "jsstring option"

definition client_config_of :: "jsstring \<Rightarrow> local_credentials \<Rightarrow> client_config" where
  "client_config_of origin c =
     \<lparr>cf_origin = origin, projectPublishableKey = Some (lc_publishableKey c), userAccessToken = Some (lc_accessToken c),
      cf_timeoutMs = None, cf_maxResponseBytes = None\<rparr>"

definition start_server :: "runtime \<Rightarrow> fixed_client \<Rightarrow> (startup_error + read_only_server) \<times> startup_effect list" where
  "start_server rt client =
     (case verifyUserIdentity (rt_to_text rt) (rt_parse_json rt) (rt_network rt) client (rt_aborted rt) of
        (identity, reqs) \<Rightarrow>
          (case createReadOnlyServer identity None False of
             Inl e \<Rightarrow> (Inl (Server_failure e), map Request_made reqs)
           | Inr s \<Rightarrow>
               if rt_serves rt then (Inr s, map Request_made reqs @ [Stdio_served])
               else (Inl Serve_failure, map Request_made reqs @ [Server_closed])))"

definition startReadOnlyStdioFromEnvironment ::
    "runtime \<Rightarrow> jsstring list \<Rightarrow> environment \<Rightarrow> (startup_error + read_only_server) \<times> startup_effect list" where
  "startReadOnlyStdioFromEnvironment rt argv env =
     (if length argv \<noteq> 0 then (Inl STDIO_STARTUP_INVALID_CONFIGURATION, [])
      else
        (case (SUPABASE_USER_MCP_ORIGIN env, SUPABASE_USER_MCP_CREDENTIAL_FILE env) of
           (Some origin, Some credentialFile) \<Rightarrow>
             if length (trim origin) = 0 \<or> length (trim credentialFile) = 0 then (Inl STDIO_STARTUP_INVALID_CONFIGURATION, [])
             else
               (case loadLocalCredentials (rt_from_base64url rt) (rt_to_text rt) (rt_parse_json rt) (rt_host rt)
                       \<lparr>permissionInspector = None, loader_now = rt_now rt\<rparr> credentialFile of
                  Inl e \<Rightarrow> (Inl (Credential_failure e), [])
                | Inr credentials \<Rightarrow>
                    (case createFixedSupabaseClient (rt_parse_url rt) (client_config_of origin credentials) of
                       Inl e \<Rightarrow> (Inl (Client_failure e), [])
                     | Inr client \<Rightarrow> start_server rt client))
         | _ \<Rightarrow> (Inl STDIO_STARTUP_INVALID_CONFIGURATION, [])))"

section \<open>Shutting down\<close>

datatype signal = SIGINT | SIGTERM

datatype cli_message = Startup_failure_message | Transport_failure_message | Shutdown_failure_message | Ready_message | Windows_message

datatype cli_effect = Stderr cli_message | Exit_code nat | Once_signal signal | Close_called

text \<open>The promise \<open>shutdown\<close> of \<open>createIdempotentShutdown\<close>: not made, waiting for \<open>close\<close>, settled.\<close>

datatype shutdown_promise = Not_made | Closing | Settled_ok | Settled_failed

record cli_state =
  cli_shutdown :: shutdown_promise
  cli_effects :: "cli_effect list"

text \<open>A call of the returned function.\<close>

definition call_shutdown :: "signal \<Rightarrow> cli_state \<Rightarrow> cli_state" where
  "call_shutdown sig s =
     (if cli_shutdown s = Not_made then s\<lparr>cli_shutdown := Closing, cli_effects := cli_effects s @ [Close_called]\<rparr> else s)"

text \<open>\<open>close()\<close> settles; \<open>onFailure\<close> of the command line runs when it rejects.\<close>

definition close_settles :: "bool \<Rightarrow> cli_state \<Rightarrow> cli_state" where
  "close_settles fulfilled s =
     (if cli_shutdown s \<noteq> Closing then s
      else if fulfilled then s\<lparr>cli_shutdown := Settled_ok\<rparr>
      else s\<lparr>cli_shutdown := Settled_failed, cli_effects := cli_effects s @ [Stderr Shutdown_failure_message, Exit_code 1]\<rparr>)"

text \<open>
  The command line up to its last statement. \<open>early\<close> is the number of transport errors reported while \<open>start\<close> runs,
  \<open>started\<close> whether it is fulfilled.
\<close>

definition runReadOnlyStdioCli :: "bool \<Rightarrow> nat \<Rightarrow> bool \<Rightarrow> cli_state" where
  "runReadOnlyStdioCli onWindows early started =
     \<lparr>cli_shutdown = Not_made,
      cli_effects =
        (if onWindows then [Stderr Windows_message, Exit_code 1]
         else replicate early (Stderr Transport_failure_message) @
           (if \<not> started then [Stderr Startup_failure_message, Exit_code 1]
            else [Stderr Ready_message, Once_signal SIGINT, Once_signal SIGTERM]))\<rparr>"

text \<open>\<open>start\<close> was given the callback for transport errors unless the platform is refused.\<close>

inductive cli_step :: "cli_state \<Rightarrow> cli_state \<Rightarrow> bool" where
  signalled: "Once_signal sig \<in> set (cli_effects s) \<Longrightarrow> cli_step s (call_shutdown sig s)"
| settled: "cli_step s (close_settles fulfilled s)"
| transport_error: "Stderr Windows_message \<notin> set (cli_effects s) \<Longrightarrow>
    cli_step s (s\<lparr>cli_effects := cli_effects s @ [Stderr Transport_failure_message]\<rparr>)"

definition cli_reachable :: "bool \<Rightarrow> nat \<Rightarrow> bool \<Rightarrow> cli_state \<Rightarrow> bool" where
  "cli_reachable onWindows early started s \<longleftrightarrow> cli_step\<^sup>*\<^sup>* (runReadOnlyStdioCli onWindows early started) s"

inductive_cases cli_stepE: "cli_step s t"

text \<open>What the command line does until its last statement, and what the callbacks may do after it.\<close>

definition cli_prefix :: "bool \<Rightarrow> nat \<Rightarrow> bool \<Rightarrow> cli_effect list" where
  "cli_prefix onWindows early started =
     (if onWindows then [Stderr Windows_message, Exit_code 1]
      else if started then
        replicate early (Stderr Transport_failure_message) @ [Stderr Ready_message, Once_signal SIGINT, Once_signal SIGTERM]
      else replicate early (Stderr Transport_failure_message) @ [Stderr Startup_failure_message, Exit_code 1])"

definition cli_later :: "bool \<Rightarrow> bool \<Rightarrow> cli_effect set" where
  "cli_later onWindows started =
     (if onWindows then {}
      else if started then
        {Close_called, Stderr Transport_failure_message, Stderr Shutdown_failure_message, Exit_code 1}
      else {Stderr Transport_failure_message})"

text \<open>Under every interleaving the close is called as often as the promise was made, its failure reported as often as it failed.\<close>

definition rest_inv :: "bool \<Rightarrow> bool \<Rightarrow> shutdown_promise \<Rightarrow> cli_effect list \<Rightarrow> bool" where
  "rest_inv onWindows started promise rest \<longleftrightarrow>
     set rest \<subseteq> cli_later onWindows started \<and>
     count_list rest Close_called = (if promise = Not_made then 0 else 1) \<and>
     count_list rest (Stderr Shutdown_failure_message) = (if promise = Settled_failed then 1 else 0) \<and>
     count_list rest (Exit_code 1) = (if promise = Settled_failed then 1 else 0) \<and>
     set (takeWhile (\<lambda>e. e \<noteq> Close_called) rest) \<subseteq> {Stderr Transport_failure_message} \<and>
     (promise \<noteq> Not_made \<longrightarrow> \<not> onWindows \<and> started)"

definition cli_inv :: "bool \<Rightarrow> nat \<Rightarrow> bool \<Rightarrow> cli_state \<Rightarrow> bool" where
  "cli_inv onWindows early started s \<longleftrightarrow>
     (\<exists>rest. cli_effects s = cli_prefix onWindows early started @ rest \<and> rest_inv onWindows started (cli_shutdown s) rest)"

lemma before_close_snoc:
  assumes "set (takeWhile P xs) \<subseteq> S" "P x \<Longrightarrow> x \<in> S"
  shows "set (takeWhile P (xs @ [x])) \<subseteq> S"
proof (cases "\<forall>y \<in> set xs. P y")
  case True
  then have "set xs \<subseteq> S" using assms(1) by (metis takeWhile_eq_all_conv)
  with True assms(2) show ?thesis
    unfolding takeWhile_append takeWhile.simps by (cases "P x") simp_all
next
  case False
  then show ?thesis using assms(1) unfolding takeWhile_append if_not_P [OF False] by blast
qed

lemma counted: "count_list xs x = Suc n \<Longrightarrow> x \<in> set xs"
  by (metis count_notin nat.distinct(1))

lemma rest_init: "rest_inv w st Not_made []"
  by (simp add: rest_inv_def)

lemma rest_close: "rest_inv w st Not_made rest \<Longrightarrow> \<not> w \<Longrightarrow> st \<Longrightarrow> rest_inv w st Closing (rest @ [Close_called])"
  unfolding rest_inv_def by (intro conjI before_close_snoc) (auto simp: cli_later_def)

lemma rest_settled: "rest_inv w st Closing rest \<Longrightarrow> rest_inv w st Settled_ok rest"
  by (auto simp: rest_inv_def)

lemma rest_transport: "rest_inv w st p rest \<Longrightarrow> \<not> w \<Longrightarrow> rest_inv w st p (rest @ [Stderr Transport_failure_message])"
  unfolding rest_inv_def by (intro conjI before_close_snoc) (auto simp: cli_later_def)

lemma rest_failed:
  assumes "rest_inv w st Closing rest"
  shows "rest_inv w st Settled_failed (rest @ [Stderr Shutdown_failure_message, Exit_code 1])"
proof -
  from assms have c: "count_list rest Close_called = 1" "\<not> w" "st" by (auto simp: rest_inv_def)
  then have "Close_called \<in> set rest" using counted [of rest Close_called 0] by simp
  then have "takeWhile (\<lambda>e. e \<noteq> Close_called) (rest @ xs) = takeWhile (\<lambda>e. e \<noteq> Close_called) rest" for xs
    by (intro takeWhile_append1) auto
  with assms c show ?thesis by (auto simp: rest_inv_def cli_later_def)
qed

lemma registered: "cli_inv w early st s \<Longrightarrow> Once_signal sig \<in> set (cli_effects s) \<Longrightarrow> \<not> w \<and> st"
  by (auto simp: cli_inv_def cli_prefix_def rest_inv_def cli_later_def split: if_splits)

lemma refused: "cli_inv w early st s \<Longrightarrow> w \<Longrightarrow> Stderr Windows_message \<in> set (cli_effects s)"
  by (auto simp: cli_inv_def cli_prefix_def)

lemma cli_inv_start: "cli_inv w early st (runReadOnlyStdioCli w early st)"
  by (auto simp: cli_inv_def runReadOnlyStdioCli_def cli_prefix_def rest_init)

lemma cli_inv_step:
  assumes inv: "cli_inv w early st s" and step: "cli_step s t"
  shows "cli_inv w early st t"
proof -
  from inv obtain rest where r: "cli_effects s = cli_prefix w early st @ rest" "rest_inv w st (cli_shutdown s) rest"
    by (auto simp: cli_inv_def)
  from step show ?thesis
  proof (rule cli_stepE)
    fix sig
    assume t: "t = call_shutdown sig s" and "Once_signal sig \<in> set (cli_effects s)"
    then have "\<not> w" "st" using registered [OF inv] by blast+
    then show ?thesis
      using rest_close [of w st rest] r inv by (auto simp: t call_shutdown_def cli_inv_def)
  next
    fix fulfilled
    assume t: "t = close_settles fulfilled s"
    show ?thesis
      using rest_settled [of w st rest] rest_failed [of w st rest] r inv by (auto simp: t close_settles_def cli_inv_def)
  next
    assume t: "t = s\<lparr>cli_effects := cli_effects s @ [Stderr Transport_failure_message]\<rparr>"
      and "Stderr Windows_message \<notin> set (cli_effects s)"
    then have "\<not> w" using refused [OF inv] by blast
    then show ?thesis using rest_transport [OF r(2)] r(1) by (auto simp: t cli_inv_def)
  qed
qed

lemma reachable_cli_inv: "cli_reachable w early st s \<Longrightarrow> cli_inv w early st s"
  unfolding cli_reachable_def by (induction rule: rtranclp_induct) (auto intro: cli_inv_start cli_inv_step)

text \<open>
  C22. Invariant, whatever signals arrive, how often, and in whatever order with the transport errors and the end of the close.
  The command line refuses Windows, or reports a failed start, or reports that it is ready and listens to both signals; its callbacks
  only add to that. The server is closed at most once, and only when it was started; before the close nothing but
  transport errors is reported; a failed close is reported once, with exit code 1; and the exit code is 1
  exactly when the server could not start or the close failed.
\<close>

theorem closes_once:
  assumes "cli_reachable onWindows early started s"
  shows "(\<exists>rest. cli_effects s =
        (if onWindows then [Stderr Windows_message, Exit_code 1]
         else replicate early (Stderr Transport_failure_message) @
           (if started then [Stderr Ready_message, Once_signal SIGINT, Once_signal SIGTERM]
            else [Stderr Startup_failure_message, Exit_code 1])) @ rest \<and>
      set rest \<subseteq>
        (if onWindows then {}
         else if started then
           {Close_called, Stderr Transport_failure_message, Stderr Shutdown_failure_message, Exit_code 1}
         else {Stderr Transport_failure_message}) \<and>
      count_list rest (Stderr Shutdown_failure_message) = (if cli_shutdown s = Settled_failed then 1 else 0) \<and>
      set (takeWhile (\<lambda>e. e \<noteq> Close_called) rest) \<subseteq> {Stderr Transport_failure_message}) \<and>
    count_list (cli_effects s) Close_called = (if cli_shutdown s = Not_made then 0 else 1) \<and>
    (Close_called \<in> set (cli_effects s) \<longrightarrow> \<not> onWindows \<and> started) \<and>
    (Exit_code 1 \<in> set (cli_effects s) \<longleftrightarrow> onWindows \<or> \<not> started \<or> cli_shutdown s = Settled_failed)"
proof -
  from reachable_cli_inv [OF assms] obtain rest where
    r: "cli_effects s = cli_prefix onWindows early started @ rest" "rest_inv onWindows started (cli_shutdown s) rest"
    by (auto simp: cli_inv_def)
  have n: "Close_called \<notin> set (cli_prefix onWindows early started)"
    "Exit_code 1 \<in> set (cli_prefix onWindows early started) \<longleftrightarrow> onWindows \<or> \<not> started"
    by (auto simp: cli_prefix_def)
  have e: "Exit_code 1 \<in> set rest \<longleftrightarrow> cli_shutdown s = Settled_failed"
    using r(2) count_notin [of "Exit_code 1" rest] by (auto simp: rest_inv_def count_list_0_iff split: if_splits)
  have c: "Close_called \<in> set rest \<longleftrightarrow> cli_shutdown s \<noteq> Not_made"
    using r(2) by (auto simp: rest_inv_def count_list_0_iff dest: counted split: if_splits)
  have "(\<exists>rest. cli_effects s =
        (if onWindows then [Stderr Windows_message, Exit_code 1]
         else replicate early (Stderr Transport_failure_message) @
           (if started then [Stderr Ready_message, Once_signal SIGINT, Once_signal SIGTERM]
            else [Stderr Startup_failure_message, Exit_code 1])) @ rest \<and>
      set rest \<subseteq>
        (if onWindows then {}
         else if started then
           {Close_called, Stderr Transport_failure_message, Stderr Shutdown_failure_message, Exit_code 1}
         else {Stderr Transport_failure_message}) \<and>
      count_list rest (Stderr Shutdown_failure_message) = (if cli_shutdown s = Settled_failed then 1 else 0) \<and>
      set (takeWhile (\<lambda>e. e \<noteq> Close_called) rest) \<subseteq> {Stderr Transport_failure_message})"
    using r unfolding rest_inv_def cli_later_def cli_prefix_def by (intro exI [of _ rest]) (simp split: if_splits)
  moreover have "count_list (cli_effects s) Close_called = (if cli_shutdown s = Not_made then 0 else 1)"
    using r n(1) by (simp add: rest_inv_def)
  moreover have "Close_called \<in> set (cli_effects s) \<longrightarrow> \<not> onWindows \<and> started"
    using r n(1) c by (auto simp: rest_inv_def)
  moreover have "Exit_code 1 \<in> set (cli_effects s) \<longleftrightarrow> onWindows \<or> \<not> started \<or> cli_shutdown s = Settled_failed"
    using r(1) n(2) e by auto
  ultimately show ?thesis by blast
qed

theorem closes_once_witness:
  "\<exists>s. cli_reachable False 1 True s \<and> Close_called \<in> set (cli_effects s) \<and> cli_shutdown s = Settled_failed \<and>
    count_list (cli_effects s) Close_called = 1 \<and> Exit_code 1 \<in> set (cli_effects s)"
proof -
  let ?a = "runReadOnlyStdioCli False 1 True" let ?b = "call_shutdown SIGINT ?a"
  let ?c = "call_shutdown SIGTERM ?b" let ?d = "close_settles False ?c"
  have "cli_step ?a ?b" "cli_step ?b ?c" "cli_step ?c ?d"
    by (rule cli_step.intros, simp add: runReadOnlyStdioCli_def call_shutdown_def)+ (rule cli_step.intros)
  then have "cli_reachable False 1 True ?d"
    unfolding cli_reachable_def by (meson rtranclp.rtrancl_into_rtrancl rtranclp.rtrancl_refl)
  moreover have "Close_called \<in> set (cli_effects ?d)" "cli_shutdown ?d = Settled_failed"
    by (simp_all add: runReadOnlyStdioCli_def call_shutdown_def close_settles_def)
  ultimately show ?thesis using closes_once [of False 1 True ?d] by (intro exI [of _ ?d]) simp
qed

section \<open>What a started server rests on\<close>

lemma identity_requests:
  "snd (verifyUserIdentity to_text parse fetch c ab) =
     [\<lparr>rq_url = fc_origin c @ FIXED_USER_PATH, rq_method = GET, rq_headers = authHeaders c, rq_body = None, redirect_error = True\<rparr>]"
  by (simp add: verifyUserIdentity_def Let_def)

lemma created_client:
  assumes "createFixedSupabaseClient parse_url config = Inr c"
  shows "fc_origin c = cf_origin config" "\<exists>u. parse_url (cf_origin config) = Some u \<and> protocol u = js ''https:'' \<and> username u = [] \<and> password u = []"
  using assms by (auto simp: createFixedSupabaseClient_def Let_def split: option.splits if_splits)

text \<open>The identity is read from the answer of the user endpoint itself, and only from a successful one.\<close>

lemma verified_identity:
  assumes "fst (verifyUserIdentity to_text parse fetch c ab) = Inr i"
  shows "\<exists>answer fs.
    fetch \<lparr>rq_url = fc_origin c @ FIXED_USER_PATH, rq_method = GET, rq_headers = authHeaders c, rq_body = None, redirect_error = True\<rparr> =
      Some answer \<and>
    rs_ok answer \<and> \<not> rs_redirected answer \<and> (rs_url answer = [] \<or> rs_url answer = fc_origin c @ FIXED_USER_PATH) \<and>
    read_json to_text parse (fc_maxResponseBytes c) answer = Inr (VObj fs) \<and>
    getp fs (js ''id'') = VStr i \<and> UUID i \<and> getp fs (js ''aud'') = VStr (js ''authenticated'')"
  using assms by (auto simp: verifyUserIdentity_def Let_def split: option.splits if_splits sum.splits jsval.splits)

text \<open>
  C4. Safety: whatever the host, the file and the network answer, a server is served only after every check. There were no
  arguments; the credential file was opened without following a link, on a system with user identifiers, is a regular
  file of the user, with no permission bit for group or others; it holds a key and a token whose \<open>exp\<close> claim, in
  seconds, lies after the clock; the origin is https without user information; the one request made asks the
  origin for the identity of that token, under that key; its answer, successful and not redirected, names an authenticated
  user by a UUID; and the server runs under that identity, with the three memory tools.
\<close>

theorem started_server_checked:
  assumes "startReadOnlyStdioFromEnvironment rt argv env = (Inr s, effects)"
  shows "argv = [] \<and>
    (\<exists>origin path bytes c u req answer fs.
       SUPABASE_USER_MCP_ORIGIN env = Some origin \<and> SUPABASE_USER_MCP_CREDENTIAL_FILE env = Some path \<and>
       private_file (rt_host rt) path bytes \<and>
       pair_in_file (rt_from_base64url rt) (rt_to_text rt) (rt_parse_json rt) (rt_now rt) bytes c \<and>
       rt_parse_url rt origin = Some u \<and> protocol u = js ''https:'' \<and> username u = [] \<and> password u = [] \<and>
       req = \<lparr>rq_url = origin @ js ''/auth/v1/user'', rq_method = GET,
              rq_headers = [(''Accept'', js ''application/json''), (''Authorization'', js ''Bearer '' @ lc_accessToken c),
                            (''apikey'', lc_publishableKey c)],
              rq_body = None, redirect_error = True\<rparr> \<and>
       effects = [Request_made req, Stdio_served] \<and>
       rt_network rt req = Some answer \<and> rs_ok answer \<and> \<not> rs_redirected answer \<and> (rs_url answer = [] \<or> rs_url answer = rq_url req) \<and>
       read_json (rt_to_text rt) (rt_parse_json rt) 262144 answer = Inr (VObj fs) \<and>
       getp fs (js ''id'') = VStr (ros_principal s) \<and> UUID (ros_principal s) \<and> getp fs (js ''aud'') = VStr (js ''authenticated'')) \<and>
    map mcp_name (srv_tools (ros_server s)) = map js [''memory_search'', ''memory_get'', ''memory_list_recent'']"
proof -
  let ?opts = "\<lparr>permissionInspector = None, loader_now = rt_now rt\<rparr>"
  from assms have argv: "argv = []" by (auto simp: startReadOnlyStdioFromEnvironment_def split: if_splits)
  with assms obtain origin path c client where e: "SUPABASE_USER_MCP_ORIGIN env = Some origin"
    "SUPABASE_USER_MCP_CREDENTIAL_FILE env = Some path"
    "loadLocalCredentials (rt_from_base64url rt) (rt_to_text rt) (rt_parse_json rt) (rt_host rt) ?opts path = Inr c"
    "createFixedSupabaseClient (rt_parse_url rt) (client_config_of origin c) = Inr client" "start_server rt client = (Inr s, effects)"
    by (auto simp: startReadOnlyStdioFromEnvironment_def split: option.splits if_splits sum.splits)
  from loaded_credentials [OF e(3)] obtain bytes where b: "private_file (rt_host rt) path bytes"
    "pair_in_file (rt_from_base64url rt) (rt_to_text rt) (rt_parse_json rt) (rt_now rt) bytes c" using parsed_pair by auto
  obtain u where u: "rt_parse_url rt origin = Some u" "protocol u = js ''https:''" "username u = []" "password u = []"
    and cl: "client = \<lparr>fc_origin = origin, fc_key = lc_publishableKey c, fc_token = lc_accessToken c,
                 fc_timeoutMs = DEFAULT_TIMEOUT_MS, fc_maxResponseBytes = DEFAULT_MAX_RESPONSE_BYTES\<rparr>"
    using e(4) pair_accepted [OF e(3), of "rt_parse_url rt" origin] by (auto simp: client_config_of_def split: if_splits)
  let ?v = "verifyUserIdentity (rt_to_text rt) (rt_parse_json rt) (rt_network rt) client (rt_aborted rt)"
  let ?req = "\<lparr>rq_url = origin @ js ''/auth/v1/user'', rq_method = GET,
              rq_headers = [(''Accept'', js ''application/json''), (''Authorization'', js ''Bearer '' @ lc_accessToken c),
                            (''apikey'', lc_publishableKey c)],
              rq_body = None, redirect_error = True\<rparr>"
  note sent = cl authHeaders_def FIXED_USER_PATH_def DEFAULT_MAX_RESPONSE_BYTES_def
  have req: "snd ?v = [?req]" using identity_requests [of _ _ _ client] by (simp add: sent)
  have s: "createReadOnlyServer (fst ?v) None False = Inr s" "effects = [Request_made ?req, Stdio_served]"
    using e(5) req by (auto simp: start_server_def split: prod.splits sum.splits if_splits)
  have t: "map mcp_name (srv_tools (ros_server s)) = map js [''memory_search'', ''memory_get'', ''memory_list_recent'']"
    using created(3,4) [OF s(1)] by (simp add: read_names_def)
  from verified_identity [OF created(1) [OF s(1)]] obtain answer fs where a: "rt_network rt ?req = Some answer" "rs_ok answer"
    "\<not> rs_redirected answer" "rs_url answer = [] \<or> rs_url answer = rq_url ?req"
    "read_json (rt_to_text rt) (rt_parse_json rt) 262144 answer = Inr (VObj fs)" "getp fs (js ''id'') = VStr (ros_principal s)"
    "UUID (ros_principal s)" "getp fs (js ''aud'') = VStr (js ''authenticated'')" by (auto simp: sent)
  show ?thesis
    by (intro conjI exI [of _ origin] exI [of _ path] exI [of _ bytes] exI [of _ c] exI [of _ u] exI [of _ ?req] exI [of _ answer]
        exI [of _ fs]) (fact argv e(1) e(2) b u a t s(2) | rule refl)+
qed

section \<open>A start that succeeds\<close>

definition start_parse :: "jsstring \<Rightarrow> jsval option" where
  "start_parse t =
     (if t = [1] then Some (VObj [(js ''projectPublishableKey'', VStr (js ''pk'')), (js ''userAccessToken'', VStr (js ''a.b.c''))])
      else if t = [2] then Some (VObj [(js ''exp'', VNum (JInt 100))])
      else if t = [3] then Some (VObj [(js ''id'', VStr sample_principal), (js ''aud'', VStr (js ''authenticated''))])
      else None)"

definition sample_handle :: file_handle where
  "sample_handle =
     \<lparr>fh_stat = Some \<lparr>md_isFile = True, md_size = 1, md_mode = 0x180, md_uid = 7\<rparr>,
      fh_read = (\<lambda>n room. if n = 0 then Some [1] else Some [])\<rparr>"

definition sample_runtime :: runtime where
  "sample_runtime =
     \<lparr>rt_from_base64url = (\<lambda>t. [2]), rt_to_text = map ucast, rt_parse_json = start_parse,
      rt_parse_url = (\<lambda>t. Some \<lparr>protocol = js ''https:'', url_origin = t, username = [], password = []\<rparr>),
      rt_host = \<lparr>win32 = False, host_getuid = Some 7, open_file = (\<lambda>path noFollow. Inr sample_handle)\<rparr>, rt_now = JInt 0,
      rt_network = (\<lambda>req. Some \<lparr>rs_ok = True, rs_status = 200, rs_redirected = False, rs_url = [], advertisedLength = None,
                                rs_body = Stream [[3]] True\<rparr>),
      rt_aborted = False, rt_serves = True\<rparr>"

definition sample_environment :: environment where
  "sample_environment =
     \<lparr>SUPABASE_USER_MCP_ORIGIN = Some (js ''https://x.test''), SUPABASE_USER_MCP_CREDENTIAL_FILE = Some (js ''/c'')\<rparr>"

definition sample_pair :: local_credentials where
  "sample_pair = \<lparr>lc_publishableKey = js ''pk'', lc_accessToken = js ''a.b.c''\<rparr>"

lemma runtime_fields:
  "rt_to_text sample_runtime = map ucast" "rt_parse_json sample_runtime = start_parse" "rt_aborted sample_runtime = False"
  "rt_serves sample_runtime" "rt_now sample_runtime = JInt 0"
  by (simp_all add: sample_runtime_def)

lemma sample_file: "read_file (fh_read sample_handle) [] = Some [1]"
  by (simp add: read_file.simps sample_handle_def limits Let_def)

lemma sample_loaded:
  "loadLocalCredentials (rt_from_base64url sample_runtime) (rt_to_text sample_runtime) start_parse (rt_host sample_runtime)
     \<lparr>permissionInspector = None, loader_now = JInt 0\<rparr> path = Inr sample_pair"
proof -
  have "read_credential_file (rt_host sample_runtime) \<lparr>permissionInspector = None, loader_now = JInt 0\<rparr> path sample_handle = Inr [1]"
    using sample_file
    by (simp add: read_credential_file_def sample_handle_def sample_runtime_def defaultPermissionInspector_def limits)
  moreover have "parse_credentials (\<lambda>t. [2]) (map ucast) start_parse (JInt 0) [1] = Inr sample_pair"
    by code_simp
  ultimately show ?thesis by (simp add: loadLocalCredentials_def sample_runtime_def)
qed

lemma sample_client:
  "createFixedSupabaseClient (rt_parse_url sample_runtime) (client_config_of (js ''https://x.test'') sample_pair) =
     Inr \<lparr>fc_origin = js ''https://x.test'', fc_key = js ''pk'', fc_token = js ''a.b.c'', fc_timeoutMs = DEFAULT_TIMEOUT_MS,
          fc_maxResponseBytes = DEFAULT_MAX_RESPONSE_BYTES\<rparr>"
  using pair_accepted [OF sample_loaded, of "rt_parse_url sample_runtime" "js ''https://x.test''"]
  by (simp add: client_config_of_def sample_runtime_def sample_pair_def)

lemma sample_identity:
  "fc_maxResponseBytes c = DEFAULT_MAX_RESPONSE_BYTES \<Longrightarrow>
   fst (verifyUserIdentity (map ucast) start_parse (rt_network sample_runtime) c False) = Inr sample_principal"
  using created(2) [OF sample_created]
  by (simp add: verifyUserIdentity_def Let_def sample_runtime_def read_json_def readBoundedBody_def start_parse_def getp_def js_def
      DEFAULT_MAX_RESPONSE_BYTES_def sample_server_def)

theorem started_server_checked_witness:
  "\<exists>s effects. startReadOnlyStdioFromEnvironment sample_runtime [] sample_environment = (Inr s, effects) \<and>
     map mcp_name (srv_tools (ros_server s)) = map js [''memory_search'', ''memory_get'', ''memory_list_recent'']"
proof -
  let ?c = "\<lparr>fc_origin = js ''https://x.test'', fc_key = js ''pk'', fc_token = js ''a.b.c'', fc_timeoutMs = DEFAULT_TIMEOUT_MS,
          fc_maxResponseBytes = DEFAULT_MAX_RESPONSE_BYTES\<rparr>"
  have "UUID sample_principal" using created(2) [OF sample_created] by (simp add: sample_server_def)
  then obtain s where "createReadOnlyServer (Inr sample_principal) None False = Inr s"
    by (simp add: createReadOnlyServer_def Let_def)
  moreover obtain reqs where "verifyUserIdentity (map ucast) start_parse (rt_network sample_runtime) ?c False = (Inr sample_principal, reqs)"
    using sample_identity [of ?c] by (cases "verifyUserIdentity (map ucast) start_parse (rt_network sample_runtime) ?c False") simp
  ultimately obtain effects where "start_server sample_runtime ?c = (Inr s, effects)" by (simp add: start_server_def runtime_fields)
  moreover have "length (trim (js ''https://x.test'')) \<noteq> 0" "length (trim (js ''/c'')) \<noteq> 0" by code_simp+
  ultimately have "startReadOnlyStdioFromEnvironment sample_runtime [] sample_environment = (Inr s, effects)"
    using sample_loaded sample_client
    by (simp add: startReadOnlyStdioFromEnvironment_def sample_environment_def runtime_fields)
  with started_server_checked [OF this] show ?thesis by blast
qed

end
