(* ===== verification/Openapi_Census.thy ===== *)
theory Openapi_Census
  imports Supabase_Client "HOL-Library.List_Lexorder"
begin

text \<open>
  \<open>packages/server/src/postgrest-openapi-census.ts\<close>: the census of the paths PostgREST advertises, against the fixed
  paths of the client. \<open>JSON.parse\<close> is a parameter.
\<close>

definition EXPECTED_MEMORY_POSTGREST_PATHS :: "jsstring list" where
  "EXPECTED_MEMORY_POSTGREST_PATHS =
     map js [''/'', ''/rpc/authorized_memory_get_v1'', ''/rpc/authorized_memory_list_recent_v1'', ''/rpc/authorized_memory_search_v1'']"

datatype census_error = Census_not_json | Census_malformed | Census_mismatch

text \<open>A document as \<open>JSON.parse\<close> makes it; an array has no \<open>paths\<close>.\<close>

definition assertExpectedMemoryPostgrestSurface :: "jsval \<Rightarrow> census_error + jsstring list" where
  "assertExpectedMemoryPostgrestSurface document =
     (case document of
        VObj fs \<Rightarrow>
          if js ''paths'' \<notin> set (map fst fs) then Inl Census_malformed
          else
            (case getp fs (js ''paths'') of
               VObj ps \<Rightarrow>
                 (let advertisedPaths = sort (map fst ps); expectedPaths = EXPECTED_MEMORY_POSTGREST_PATHS
                  in if length advertisedPaths \<noteq> length expectedPaths \<or>
                        list_ex (\<lambda>i. advertisedPaths ! i \<noteq> expectedPaths ! i) [0..<length advertisedPaths]
                     then Inl Census_mismatch else Inr EXPECTED_MEMORY_POSTGREST_PATHS)
             | _ \<Rightarrow> Inl Census_malformed)
      | _ \<Rightarrow> Inl Census_malformed)"

definition parseExpectedMemoryPostgrestSurface :: "(jsstring \<Rightarrow> jsval option) \<Rightarrow> jsstring \<Rightarrow> census_error + jsstring list" where
  "parseExpectedMemoryPostgrestSurface parse body =
     (case parse body of None \<Rightarrow> Inl Census_not_json | Some document \<Rightarrow> assertExpectedMemoryPostgrestSurface document)"

lemma expected_sorted: "sort EXPECTED_MEMORY_POSTGREST_PATHS = EXPECTED_MEMORY_POSTGREST_PATHS" "distinct EXPECTED_MEMORY_POSTGREST_PATHS"
proof -
  have "sorted EXPECTED_MEMORY_POSTGREST_PATHS" by (simp add: EXPECTED_MEMORY_POSTGREST_PATHS_def js_def)
  then show "sort EXPECTED_MEMORY_POSTGREST_PATHS = EXPECTED_MEMORY_POSTGREST_PATHS" by (rule sorted_sort_id)
  show "distinct EXPECTED_MEMORY_POSTGREST_PATHS" by (simp add: EXPECTED_MEMORY_POSTGREST_PATHS_def js_def)
qed

text \<open>Objects have no key twice: the paths are accepted when they are the expected set.\<close>

lemma same_paths:
  assumes "distinct (map fst ps)"
  shows "sort (map fst ps) = EXPECTED_MEMORY_POSTGREST_PATHS \<longleftrightarrow> set (map fst ps) = set EXPECTED_MEMORY_POSTGREST_PATHS"
proof
  assume "set (map fst ps) = set EXPECTED_MEMORY_POSTGREST_PATHS"
  moreover have "sorted EXPECTED_MEMORY_POSTGREST_PATHS" using sorted_sort expected_sorted(1) by metis
  ultimately show "sort (map fst ps) = EXPECTED_MEMORY_POSTGREST_PATHS"
    using assms expected_sorted(2) by (intro sorted_distinct_set_unique) simp_all
next
  assume "sort (map fst ps) = EXPECTED_MEMORY_POSTGREST_PATHS"
  from arg_cong [OF this, of set] show "set (map fst ps) = set EXPECTED_MEMORY_POSTGREST_PATHS" by simp
qed

lemma differs: "(length xs \<noteq> length ys \<or> list_ex (\<lambda>i. xs ! i \<noteq> ys ! i) [0..<length xs]) \<longleftrightarrow> xs \<noteq> ys"
  unfolding list_ex_iff list_eq_iff_nth_eq [of xs ys] by auto

lemma census_iff:
  "assertExpectedMemoryPostgrestSurface document = Inr surface \<longleftrightarrow>
     surface = EXPECTED_MEMORY_POSTGREST_PATHS \<and>
     (\<exists>fs ps. document = VObj fs \<and> js ''paths'' \<in> set (map fst fs) \<and> getp fs (js ''paths'') = VObj ps \<and>
        sort (map fst ps) = EXPECTED_MEMORY_POSTGREST_PATHS)"
  unfolding assertExpectedMemoryPostgrestSurface_def Let_def differs
  by (auto split: jsval.splits if_splits)

text \<open>
  Safety: the paths a census accepts are those the client can call. An accepted document advertises, beside the root,
  exactly the remote procedures whose requests the client makes, with no path twice.
\<close>

lemma census_is_client_surface:
  assumes "parseExpectedMemoryPostgrestSurface parse body = Inr surface"
  shows "\<exists>fs ps. parse body = Some (VObj fs) \<and> getp fs (js ''paths'') = VObj ps \<and> distinct (map fst ps) \<and>
    set (map (\<lambda>p. js ''/rest/v1'' @ p) (map fst ps)) =
      {js ''/rest/v1/'', FIXED_GET_PATH, FIXED_LIST_RECENT_PATH, FIXED_SEARCH_PATH}"
proof -
  obtain fs ps where p: "parse body = Some (VObj fs)" "getp fs (js ''paths'') = VObj ps"
    "sort (map fst ps) = EXPECTED_MEMORY_POSTGREST_PATHS"
    using assms by (auto simp: parseExpectedMemoryPostgrestSurface_def census_iff split: option.splits)
  have "distinct (map fst ps)" "set (map fst ps) = set EXPECTED_MEMORY_POSTGREST_PATHS"
    using arg_cong [OF p(3), of distinct] arg_cong [OF p(3), of set] expected_sorted(2) by simp_all
  moreover have "set (map (\<lambda>p. js ''/rest/v1'' @ p) EXPECTED_MEMORY_POSTGREST_PATHS) =
      {js ''/rest/v1/'', FIXED_GET_PATH, FIXED_LIST_RECENT_PATH, FIXED_SEARCH_PATH}"
    by (simp add: EXPECTED_MEMORY_POSTGREST_PATHS_def FIXED_GET_PATH_def FIXED_LIST_RECENT_PATH_def FIXED_SEARCH_PATH_def js_def)
  ultimately have "distinct (map fst ps) \<and> set (map (\<lambda>p. js ''/rest/v1'' @ p) (map fst ps)) =
      {js ''/rest/v1/'', FIXED_GET_PATH, FIXED_LIST_RECENT_PATH, FIXED_SEARCH_PATH}"
    by (simp only: set_map simp_thms)
  with p(1,2) show ?thesis by blast
qed

end
