(* ===== verification/Calibration.thy ===== *)
theory Calibration
  imports Chunk_Manifest Wire
begin

text \<open>
  \<open>scripts/run-artifact-chunk-calibration.mjs\<close>: the deterministic sources, the sampling of chunks, the
  matrix of mutations run against the proof of the last chunk of a manifest, and the receipt the
  script prints. An uncaught \<open>Error\<close> of the script is \<open>Inl\<close>.
\<close>

section \<open>Sources\<close>

definition MAX_FULL_VERIFICATION_CHUNKS :: int where
  "MAX_FULL_VERIFICATION_CHUNKS = 32"

definition decimal :: "int \<Rightarrow> jsstring" where
  "decimal k = json_number (JInt k)"

text \<open>\<open>written\<close> is the part of the array already written, \<open>offset\<close> its length.\<close>

definition calibration_block :: "int \<Rightarrow> nat \<Rightarrow> byte list" where
  "calibration_block seed counter =
     sha256 (text_encode (js ''s1b-calibration:'' @ decimal seed @ js '':'' @ decimal (int counter)))"

function fill_blocks :: "nat \<Rightarrow> int \<Rightarrow> nat \<Rightarrow> byte list \<Rightarrow> byte list" where
  "fill_blocks len seed counter written =
     (if length written < len
      then fill_blocks len seed (Suc counter)
             (written @ take (len - length written) (calibration_block seed counter))
      else written)"
  by pat_completeness auto
termination
  by (relation "measure (\<lambda>(len, seed, counter, written). len - length written)")
    (auto simp: calibration_block_def)

declare fill_blocks.simps [simp del]

definition deterministicBytes :: "nat \<Rightarrow> int \<Rightarrow> byte list" where
  "deterministicBytes len seed = fill_blocks len seed 0 []"

definition MARKDOWN_SAMPLE :: jsstring where
  "MARKDOWN_SAMPLE =
     js ''# Titulo'' @ [0x2014] @ js ''caf'' @ [0xe9] @ js '' '' @ [0x2615] @ js '' na'' @ [0xef] @ js ''ve r''
     @ [0xe9] @ js ''sum'' @ [0xe9] @ js '' '' @ [0x65e5, 0x672c, 0x8a9e] @ js '' '' @ [0xd83c, 0xdfaf]
     @ [0x0a, 0x0a] @ js ''Body text with an em dash'' @ [0x2014] @ js ''and '' @ [0xf1] @ js '', '' @ [0xfc]
     @ js '' diacritics.'' @ [0x0a]"

definition MARKDOWN_BYTES :: "byte list" where
  "MARKDOWN_BYTES = text_encode (concat (replicate 40 MARKDOWN_SAMPLE))"

definition caseGeneratorsFor :: "int \<Rightarrow> (jsstring \<times> byte list) list" where
  "caseGeneratorsFor csize =
     (let evenMultiChunkLength = csize * 4;
          oddMultiChunkLength = csize * 3 - 100
      in [(js ''empty'', []),
          (js ''one-ascii-byte'', [0x41]),
          (js ''exact-one-chunk-boundary'', deterministicBytes (nat csize) 1),
          (js ''one-byte-over-chunk-boundary'', deterministicBytes (nat (csize + 1)) 2),
          (js ''even-multi-chunk'', deterministicBytes (nat evenMultiChunkLength) 3),
          (js ''odd-multi-chunk'', deterministicBytes (nat oddMultiChunkLength) 4),
          (js ''utf8-multibyte-markdown'', MARKDOWN_BYTES),
          (js ''max-byte-ceiling'', deterministicBytes (nat MAX_CALIBRATION_SOURCE_BYTES) 5)])"

text \<open>\<open>Array.from(new Set(xs))\<close>: the first occurrences, in order.\<close>

definition array_of_set :: "'a list \<Rightarrow> 'a list" where
  "array_of_set xs = rev (remdups (rev xs))"

definition sampleChunkIndexes :: "int \<Rightarrow> int list" where
  "sampleChunkIndexes count =
     (if count \<le> MAX_FULL_VERIFICATION_CHUNKS then [0..count - 1]
      else sort (array_of_set [0, count div 2, count - 1]))"

section \<open>Helpers of the mutations\<close>

definition flipTrailingHexDigit :: "jsstring \<Rightarrow> jsstring" where
  "flipTrailingHexDigit h = butlast h @ [if h \<noteq> [] \<and> last h = 0x30 then 0x31 else 0x30]"

definition expectedDepthFor :: "int \<Rightarrow> int" where
  "expectedDepthFor n = (if n \<le> 1 then 0 else int (ceillog2 (nat n)))"

definition findSameDepthAlternative :: "int \<Rightarrow> int option" where
  "findSameDepthAlternative n =
     (let depth = expectedDepthFor n
      in if depth = 0 then None
         else
           (let low = 2 ^ nat (depth - 1) + 1;
                high = min (2 ^ nat depth) MAX_CHUNK_COUNT
            in find (\<lambda>c. c \<noteq> n) [low..high]))"

datatype step_kind = Duplicate | Ordinary

function classifyProofSteps :: "nat \<Rightarrow> nat \<Rightarrow> step_kind list" where
  "classifyProofSteps index width =
     (if 1 < width
      then (if width mod 2 = 1 \<and> index = width - 1 then Duplicate else Ordinary)
             # classifyProofSteps (index div 2) ((width + 1) div 2)
      else [])"
  by pat_completeness auto
termination
  by (relation "measure snd") auto

declare classifyProofSteps.simps [simp del]

text \<open>\<open>xs.indexOf(x)\<close>; \<open>None\<close> is \<open>-1\<close>.\<close>

definition position_in :: "'a list \<Rightarrow> 'a \<Rightarrow> nat option" where
  "position_in xs x = find (\<lambda>i. xs ! i = x) [0..<length xs]"

fun walk_trusting :: "hashfn \<Rightarrow> byte list \<Rightarrow> proof_node list \<Rightarrow> byte list" where
  "walk_trusting H current [] = current"
| "walk_trusting H current (node # rest) =
     (let s = unhex (siblingSha256 node);
          (left, right) = (if siblingPosition node = LEFT then (s, current) else (current, s))
      in walk_trusting H (H ([0x01] @ left @ right)) rest)"

definition walkProofToRootTrusting :: "hashfn \<Rightarrow> jsstring \<Rightarrow> proof_node list \<Rightarrow> jsstring" where
  "walkProofToRootTrusting H leafHex proofNodes = hex (walk_trusting H (unhex leafHex) proofNodes)"

section \<open>The mutation matrix\<close>

datatype mutation_outcome =
    Applicable jsstring bool
  | Not_applicable jsstring jsstring

text \<open>\<open>mutated[i] = (mutated[i] + 1) & 0xff\<close>; an index out of range is ignored.\<close>

definition bump :: "nat \<Rightarrow> byte list \<Rightarrow> byte list" where
  "bump i bytes = (if i < length bytes then bytes[i := bytes ! i + 1] else bytes)"

text \<open>
  The callback of \<open>applicable\<close>: verification is \<open>false\<close>, or it throws an \<open>ArtifactChunkManifestError\<close>, whose
  \<open>code\<close> is a string.
\<close>

definition rejected :: "chunk_error + bool \<Rightarrow> bool" where
  "rejected r = (case r of Inl e \<Rightarrow> True | Inr verified \<Rightarrow> \<not> verified)"

definition applicable_proof :: "hashfn \<Rightarrow> string \<Rightarrow> byte list \<Rightarrow> chunk_proof \<Rightarrow> jsstring \<Rightarrow> mutation_outcome" where
  "applicable_proof H name chunkBytes p expectedRoot =
     Applicable (js name) (rejected (verifyArtifactChunkProof H (VBytes chunkBytes) p expectedRoot))"

definition source_check :: "hashfn \<Rightarrow> byte list \<Rightarrow> chunk_manifest \<Rightarrow> chunk_proof \<Rightarrow> mutation_outcome" where
  "source_check H sourceBytes manifest p =
     (if num_int (m_byteLength manifest) > num_int (p_byteLength p)
      then
        (let outsideIndex = (if p_byteStart p = JInt 0 then num_int (m_byteLength manifest) - 1 else 0)
         in Applicable (js ''source-bytes-outside-selected-chunk'')
              (rejected (verifyArtifactSourceManifest H (VBytes (bump (nat outsideIndex) sourceBytes)) manifest)))
      else Not_applicable (js ''source-bytes-outside-selected-chunk'')
             (js ''single-chunk artifact; no source bytes exist outside the selected chunk''))"

definition field_checks :: "hashfn \<Rightarrow> chunk_manifest \<Rightarrow> chunk_proof \<Rightarrow> byte list \<Rightarrow> mutation_outcome list" where
  "field_checks H manifest p chunkBytes =
     (let rt = merkleRoot manifest;
          csize = num_int (p_chunkSize p);
          len = num_int (p_byteLength p)
      in [applicable_proof H ''selected-chunk-bytes'' (bump 0 chunkBytes) p rt,
          applicable_proof H ''chunk-index'' chunkBytes
            (p\<lparr>p_chunkIndex := JInt (num_int (p_chunkIndex p) + 1)\<rparr>) rt,
          applicable_proof H ''byte-start'' chunkBytes
            (p\<lparr>p_byteStart := JInt (num_int (p_byteStart p) + csize)\<rparr>) rt,
          applicable_proof H ''byte-length'' chunkBytes
            (p\<lparr>p_byteLength := JInt (if p_byteLength p = p_chunkSize p then len - 1 else len + 1)\<rparr>) rt,
          applicable_proof H ''raw-chunk-hash'' chunkBytes
            (p\<lparr>p_chunkSha256 := flipTrailingHexDigit (p_chunkSha256 p)\<rparr>) rt,
          applicable_proof H ''merkle-leaf-hash'' chunkBytes
            (p\<lparr>p_merkleLeafSha256 := flipTrailingHexDigit (p_merkleLeafSha256 p)\<rparr>) rt,
          applicable_proof H ''source-byte-length'' chunkBytes
            (p\<lparr>sourceByteLength := JInt (num_int (sourceByteLength p) + csize)\<rparr>) rt])"

definition other_size :: "jsnum \<Rightarrow> int" where
  "other_size csize =
     (let currentIndex = (case position_in (map JInt ALLOWED_CHUNK_SIZES) csize of None \<Rightarrow> -1 | Some i \<Rightarrow> int i)
      in ALLOWED_CHUNK_SIZES ! nat ((currentIndex + 1) mod int (length ALLOWED_CHUNK_SIZES)))"

definition chunk_size_check :: "hashfn \<Rightarrow> chunk_manifest \<Rightarrow> chunk_proof \<Rightarrow> byte list \<Rightarrow> mutation_outcome" where
  "chunk_size_check H manifest p chunkBytes =
     (if num_gt (chunkCount manifest) 1
      then applicable_proof H ''chunk-size'' chunkBytes (p\<lparr>p_chunkSize := JInt (other_size (p_chunkSize p))\<rparr>)
             (merkleRoot manifest)
      else Not_applicable (js ''chunk-size'')
             (js ''single-chunk manifest; chunkSize has no structural effect on a lone chunk's byteStart (always 0) or byteLength (sourceByteLength - byteStart)''))"

definition chunk_total_check :: "hashfn \<Rightarrow> chunk_manifest \<Rightarrow> chunk_proof \<Rightarrow> byte list \<Rightarrow> mutation_outcome" where
  "chunk_total_check H manifest p chunkBytes =
     (case findSameDepthAlternative (num_int (totalChunkCount p)) of
        Some other \<Rightarrow>
          applicable_proof H ''total-chunk-count-same-depth'' chunkBytes (p\<lparr>totalChunkCount := JInt other\<rparr>)
            (merkleRoot manifest)
      | None \<Rightarrow>
          Not_applicable (js ''total-chunk-count-same-depth'')
            (js ''no other totalChunkCount value shares proof depth ''
             @ decimal (expectedDepthFor (num_int (totalChunkCount p)))
             @ js '' within the '' @ decimal MAX_CHUNK_COUNT @ js ''-chunk ceiling''))"

definition other_side :: "proof_node \<Rightarrow> proof_node" where
  "other_side node = node\<lparr>siblingPosition := (if siblingPosition node = LEFT then RIGHT else LEFT)\<rparr>"

definition other_hash :: "proof_node \<Rightarrow> proof_node" where
  "other_hash node = node\<lparr>siblingSha256 := flipTrailingHexDigit (siblingSha256 node)\<rparr>"

text \<open>\<open>nodes.map((node, i) => i === k ? f(node) : node)\<close>\<close>

definition change_at :: "nat \<Rightarrow> ('a \<Rightarrow> 'a) \<Rightarrow> 'a list \<Rightarrow> 'a list" where
  "change_at k f xs = map (\<lambda>(i, x). if i = k then f x else x) (enumerate 0 xs)"

definition sibling_checks ::
    "hashfn \<Rightarrow> chunk_manifest \<Rightarrow> nat \<Rightarrow> chunk_proof \<Rightarrow> byte list \<Rightarrow> mutation_outcome list" where
  "sibling_checks H manifest index p chunkBytes =
     (let stepKinds = classifyProofSteps index (nat (num_int (totalChunkCount p)));
          nodes = proof_nodes p;
          absent = ''every proof node on this selected route is an odd-width self-duplicate step; no ordinary sibling exists to mutate''
      in if nodes = [] then
           [Not_applicable (js ''sibling-position'') (js ''single-chunk artifact; the proof carries no nodes''),
            Not_applicable (js ''sibling-hash'') (js ''single-chunk artifact; the proof carries no nodes'')]
         else
           (case position_in stepKinds Ordinary of
              None \<Rightarrow> [Not_applicable (js ''sibling-position'') (js absent),
                       Not_applicable (js ''sibling-hash'') (js absent)]
            | Some k \<Rightarrow>
                [applicable_proof H ''sibling-position'' chunkBytes
                   (p\<lparr>proof_nodes := change_at k other_side nodes\<rparr>) (merkleRoot manifest),
                 applicable_proof H ''sibling-hash'' chunkBytes
                   (p\<lparr>proof_nodes := change_at k other_hash nodes\<rparr>) (merkleRoot manifest)]))"

definition ordering_check :: "hashfn \<Rightarrow> chunk_manifest \<Rightarrow> chunk_proof \<Rightarrow> byte list \<Rightarrow> mutation_outcome" where
  "ordering_check H manifest p chunkBytes =
     (case proof_nodes p of
        a # b # rest \<Rightarrow>
          applicable_proof H ''proof-ordering'' chunkBytes (p\<lparr>proof_nodes := b # a # rest\<rparr>) (merkleRoot manifest)
      | nodes \<Rightarrow>
          Not_applicable (js ''proof-ordering'')
            (js ''proof depth is '' @ decimal (int (length nodes))
             @ js ''; at least two nodes are required to test reordering''))"

text \<open>An absent node would be a \<open>TypeError\<close>, which has no \<open>code\<close>.\<close>

definition duplicate_check ::
    "hashfn \<Rightarrow> nat \<Rightarrow> chunk_proof \<Rightarrow> byte list \<Rightarrow> mutation_outcome" where
  "duplicate_check H index p chunkBytes =
     (case position_in (classifyProofSteps index (nat (num_int (totalChunkCount p)))) Duplicate of
        Some k \<Rightarrow>
          (case elem_at (proof_nodes p) k of
             None \<Rightarrow> Applicable (js ''noncanonical-odd-node-sibling'') False
           | Some original \<Rightarrow>
               (let mutatedNode = \<lparr>siblingPosition = RIGHT,
                                   siblingSha256 = flipTrailingHexDigit (siblingSha256 original)\<rparr>;
                    mutatedNodes = change_at k (\<lambda>_. mutatedNode) (proof_nodes p);
                    noncanonicalRoot = walkProofToRootTrusting H (p_merkleLeafSha256 p) mutatedNodes
                in applicable_proof H ''noncanonical-odd-node-sibling'' chunkBytes
                     (p\<lparr>proof_nodes := mutatedNodes\<rparr>) noncanonicalRoot))
      | None \<Rightarrow>
          Not_applicable (js ''noncanonical-odd-node-sibling'')
            (js ''the selected chunk route does not pass through any odd-width self-duplicate step''))"

definition runMutationChecks ::
    "hashfn \<Rightarrow> byte list \<Rightarrow> chunk_manifest \<Rightarrow> nat \<Rightarrow> chunk_proof \<Rightarrow> byte list \<Rightarrow> mutation_outcome list" where
  "runMutationChecks H sourceBytes manifest index p chunkBytes =
     [source_check H sourceBytes manifest p]
     @ field_checks H manifest p chunkBytes
     @ [chunk_size_check H manifest p chunkBytes,
        chunk_total_check H manifest p chunkBytes,
        applicable_proof H ''source-hash-shape'' chunkBytes
          (p\<lparr>p_sourceSha256 := butlast (p_sourceSha256 p)\<rparr>) (merkleRoot manifest)]
     @ sibling_checks H manifest index p chunkBytes
     @ [ordering_check H manifest p chunkBytes,
        applicable_proof H ''expected-root'' chunkBytes p (flipTrailingHexDigit (merkleRoot manifest)),
        applicable_proof H ''profile-version'' chunkBytes
          (p\<lparr>p_profileVersion := js ''artifact-chunk-merkle/9.9''\<rparr>) (merkleRoot manifest),
        duplicate_check H index p chunkBytes]"

section \<open>A case\<close>

text \<open>The message of a failed calibration, or the error a builder or verifier throws.\<close>

datatype calibration_error = Calibration_failed jsstring | Manifest_error chunk_error

fun manifest_thrown :: "chunk_error + 'a \<Rightarrow> calibration_error + 'a" where
  "manifest_thrown (Inl e) = Inl (Manifest_error e)"
| "manifest_thrown (Inr x) = Inr x"

definition fail :: "jsstring \<Rightarrow> calibration_error + 'a" where
  "fail message = Inl (Calibration_failed (js ''Calibration FAILED: '' @ message))"

definition case_text :: "jsstring \<Rightarrow> int \<Rightarrow> jsstring" where
  "case_text name csize = js ''case '' @ [0x22] @ name @ [0x22] @ js '' chunkSize '' @ decimal csize"

record case_receipt =
  case_name :: jsstring
  case_byteLength :: jsnum
  case_chunkSize :: int
  case_chunkCount :: jsnum
  case_sourceSha256 :: jsstring
  case_merkleRoot :: jsstring
  proofsChecked :: nat
  sampled :: bool
  sourceManifestVerified :: "bool option"
  mutationChecksApplicable :: "jsstring list"
  mutationChecksPassed :: "jsstring list"
  mutationChecksNotApplicable :: "(jsstring \<times> jsstring) list"

text \<open>\<open>sourceBytes.slice(proof.byteStart, proof.byteStart + proof.byteLength)\<close>\<close>

definition selected_bytes :: "byte list \<Rightarrow> chunk_proof \<Rightarrow> byte list" where
  "selected_bytes sourceBytes p =
     (let start = nat (num_int (p_byteStart p)) in subarray start (start + nat (num_int (p_byteLength p))) sourceBytes)"

text \<open>One iteration of the loop over the chunks to verify.\<close>

definition check_index ::
    "hashfn \<Rightarrow> jsstring \<Rightarrow> byte list \<Rightarrow> int \<Rightarrow> chunk_manifest \<Rightarrow> int \<Rightarrow> calibration_error + unit" where
  "check_index H name sourceBytes csize manifest index =
     (case manifest_thrown (buildArtifactChunkProof H manifest (JInt index)) of
        Inl e \<Rightarrow> Inl e
      | Inr p \<Rightarrow>
          (case manifest_thrown (verifyArtifactChunkProof H (VBytes (selected_bytes sourceBytes p)) p (merkleRoot manifest)) of
             Inl e \<Rightarrow> Inl e
           | Inr verified \<Rightarrow>
               if \<not> verified then fail (case_text name csize @ js '' chunk '' @ decimal index @ js '' did not verify.'')
               else Inr ()))"

definition check_source ::
    "hashfn \<Rightarrow> jsstring \<Rightarrow> byte list \<Rightarrow> int \<Rightarrow> chunk_manifest \<Rightarrow> calibration_error + bool option" where
  "check_source H name sourceBytes csize manifest =
     (if num_gt (chunkCount manifest) 0 then
        (case manifest_thrown (verifyArtifactSourceManifest H (VBytes sourceBytes) manifest) of
           Inl e \<Rightarrow> Inl e
         | Inr verified \<Rightarrow>
             if \<not> verified then fail (case_text name csize @ js '' source-manifest verification did not pass.'')
             else Inr (Some verified))
      else Inr None)"

definition check_outcome :: "jsstring \<Rightarrow> int \<Rightarrow> mutation_outcome \<Rightarrow> calibration_error + unit" where
  "check_outcome name csize outcome =
     (case outcome of
        Applicable n passed \<Rightarrow>
          if \<not> passed then fail (case_text name csize @ js '' mutation '' @ [0x22] @ n @ [0x22] @ js '' did not fail verification.'')
          else Inr ()
      | Not_applicable n reason \<Rightarrow> Inr ())"

definition check_mutations ::
    "hashfn \<Rightarrow> jsstring \<Rightarrow> byte list \<Rightarrow> int \<Rightarrow> chunk_manifest \<Rightarrow> calibration_error + mutation_outcome list" where
  "check_mutations H name sourceBytes csize manifest =
     (if num_gt (chunkCount manifest) 0 then
        (let selected = num_int (chunkCount manifest) - 1
         in case manifest_thrown (buildArtifactChunkProof H manifest (JInt selected)) of
              Inl e \<Rightarrow> Inl e
            | Inr p \<Rightarrow>
                (let outcomes = runMutationChecks H sourceBytes manifest (nat selected) p (selected_bytes sourceBytes p)
                 in case eachE (check_outcome name csize) outcomes of
                      Inl e \<Rightarrow> Inl e
                    | Inr _ \<Rightarrow> Inr outcomes))
      else Inr [])"

fun applicable_name :: "mutation_outcome \<Rightarrow> jsstring list" where
  "applicable_name (Applicable n passed) = [n]"
| "applicable_name (Not_applicable n reason) = []"

fun passed_name :: "mutation_outcome \<Rightarrow> jsstring list" where
  "passed_name (Applicable n passed) = (if passed then [n] else [])"
| "passed_name (Not_applicable n reason) = []"

fun reasoned_name :: "mutation_outcome \<Rightarrow> (jsstring \<times> jsstring) list" where
  "reasoned_name (Applicable n passed) = []"
| "reasoned_name (Not_applicable n reason) = [(n, reason)]"

definition runCase :: "hashfn \<Rightarrow> jsstring \<Rightarrow> byte list \<Rightarrow> int \<Rightarrow> calibration_error + case_receipt" where
  "runCase H name sourceBytes csize =
     (case manifest_thrown (buildArtifactChunkManifest H (VBytes sourceBytes) (JInt csize)) of
        Inl e \<Rightarrow> Inl e
      | Inr manifest \<Rightarrow>
          (let isSampled = num_gt (chunkCount manifest) MAX_FULL_VERIFICATION_CHUNKS;
               indexesToVerify = (if isSampled then sampleChunkIndexes (num_int (chunkCount manifest))
                                  else [0..num_int (chunkCount manifest) - 1])
           in case eachE (check_index H name sourceBytes csize manifest) indexesToVerify of
                Inl e \<Rightarrow> Inl e
              | Inr _ \<Rightarrow>
                  (case check_source H name sourceBytes csize manifest of
                     Inl e \<Rightarrow> Inl e
                   | Inr sourceVerified \<Rightarrow>
                       (case check_mutations H name sourceBytes csize manifest of
                          Inl e \<Rightarrow> Inl e
                        | Inr mutations \<Rightarrow>
                            Inr \<lparr>case_name = name, case_byteLength = m_byteLength manifest,
                                 case_chunkSize = csize, case_chunkCount = chunkCount manifest,
                                 case_sourceSha256 = sourceSha256 manifest, case_merkleRoot = merkleRoot manifest,
                                 proofsChecked = length indexesToVerify, sampled = isSampled,
                                 sourceManifestVerified = sourceVerified,
                                 mutationChecksApplicable = concat (map applicable_name mutations),
                                 mutationChecksPassed = concat (map passed_name mutations),
                                 mutationChecksNotApplicable = concat (map reasoned_name mutations)\<rparr>))))"

section \<open>The script\<close>

definition RECEIPT_SCHEMA :: jsstring where
  "RECEIPT_SCHEMA = js ''artifact-chunk-calibration-receipt/0.2''"

definition case_value :: "case_receipt \<Rightarrow> jsval" where
  "case_value c =
     VObj [(js ''name'', VStr (case_name c)), (js ''byteLength'', VNum (case_byteLength c)),
           (js ''chunkSize'', VNum (JInt (case_chunkSize c))), (js ''chunkCount'', VNum (case_chunkCount c)),
           (js ''sourceSha256'', VStr (case_sourceSha256 c)), (js ''merkleRoot'', VStr (case_merkleRoot c)),
           (js ''proofsChecked'', VNum (JInt (int (proofsChecked c)))), (js ''sampled'', VBool (sampled c)),
           (js ''sourceManifestVerified'', case sourceManifestVerified c of None \<Rightarrow> VNull | Some b \<Rightarrow> VBool b),
           (js ''mutationChecksApplicable'', VArr (map VStr (mutationChecksApplicable c))),
           (js ''mutationChecksPassed'', VArr (map VStr (mutationChecksPassed c))),
           (js ''mutationChecksNotApplicable'',
            VArr (map (\<lambda>(n, reason). VObj [(js ''name'', VStr n), (js ''reason'', VStr reason)])
                    (mutationChecksNotApplicable c)))]"

definition SAMPLING_NOTE :: jsstring where
  "SAMPLING_NOTE =
     js ''A case whose chunkCount exceeds maxFullVerificationChunks verifies a deterministic sample ''
     @ js ''(first, middle, final chunk) instead of every chunk proof; that case reports ''
     @ [0x22] @ js ''sampled'' @ [0x22] @ js '': ''
     @ js ''true. Source-manifest verification (verifyArtifactSourceManifest) always covers the ''
     @ js ''complete source bytes regardless of sampling. The mutation-class matrix always runs ''
     @ js ''against the manifest's LAST chunk.''"

definition receipt_value :: "hashfn \<Rightarrow> jsstring \<Rightarrow> case_receipt list \<Rightarrow> jsval" where
  "receipt_value H nodeVersion cases =
     VObj [(js ''schema'', VStr RECEIPT_SCHEMA),
           (js ''profileVersion'', VStr ARTIFACT_CHUNK_MERKLE_PROFILE_VERSION),
           (js ''nodeVersion'', VStr nodeVersion),
           (js ''allowedChunkSizes'', VArr (map (VNum \<circ> JInt) ALLOWED_CHUNK_SIZES)),
           (js ''bounds'', VObj
             [(js ''defaultChunkSize'', VNum DEFAULT_CHUNK_SIZE),
              (js ''maxCalibrationSourceBytes'', VNum (JInt MAX_CALIBRATION_SOURCE_BYTES)),
              (js ''maxChunkCount'', VNum (JInt MAX_CHUNK_COUNT)),
              (js ''maxMerkleProofDepth'', VNum (JInt MAX_MERKLE_PROOF_DEPTH))]),
           (js ''emptyArtifactMerkleRoot'', VStr (EMPTY_ARTIFACT_MERKLE_ROOT H)),
           (js ''caseNames'', VArr (map VStr (array_of_set (map case_name cases)))),
           (js ''maxFullVerificationChunks'', VNum (JInt MAX_FULL_VERIFICATION_CHUNKS)),
           (js ''samplingNote'', VStr SAMPLING_NOTE),
           (js ''cases'', VArr (map case_value cases)),
           (js ''totalCases'', VNum (JInt (int (length cases)))),
           (js ''result'', VStr (js ''pass''))]"

definition calibration_cases :: "(jsstring \<times> byte list \<times> int) list" where
  "calibration_cases =
     concat (map (\<lambda>csize. map (\<lambda>(name, bytes). (name, bytes, csize)) (caseGeneratorsFor csize)) ALLOWED_CHUNK_SIZES)"

text \<open>The text written to standard output, given \<open>process.version\<close>.\<close>

definition run_calibration :: "jsstring \<Rightarrow> calibration_error + jsstring" where
  "run_calibration nodeVersion =
     (case mapE (\<lambda>(name, bytes, csize). runCase sha256 name bytes csize) calibration_cases of
        Inl e \<Rightarrow> Inl e
      | Inr cases \<Rightarrow> Inr (stringify (receipt_value sha256 nodeVersion cases) @ [0x0a]))"

end
