(* ===== verification/Calibration_Properties.thy ===== *)
theory Calibration_Properties
  imports Calibration Chunk_Properties
begin

text \<open>
  Every mutation the calibration runs is detected: the walk of a proof to a root determines the
  proof, so a changed proof, chunk, source or root that verified would exhibit a collision of the
  digest among the inputs hashed.
\<close>

section \<open>The walk to a root determines the proof\<close>

lemma proof_node_eq:
  assumes "walk_input current node = walk_input current' node'" "siblingPosition node = siblingPosition node'"
    "length current = length current'" "check_proof_node node = Inr ()" "check_proof_node node' = Inr ()"
  shows "current = current' \<and> node = node'"
proof -
  have h: "HEX64_PATTERN (siblingSha256 node)" "HEX64_PATTERN (siblingSha256 node')"
    using assms(4,5) by (auto simp: check_proof_node_def ok_simps)
  with assms(1-3) have "current = current' \<and> unhex (siblingSha256 node) = unhex (siblingSha256 node')"
    by (auto simp: walk_input_def length_unhex split: if_splits)
  with h hex_unhex have "current = current' \<and> siblingSha256 node = siblingSha256 node'" by metis
  with assms(2) show ?thesis by (cases node, cases node') simp
qed

context digest
begin

lemma walk_unique:
  "walk_proof H current i w ns = Some (d, v) \<Longrightarrow> walk_proof H current' i w ns' = Some (d, v') \<Longrightarrow>
   length ns = length ns' \<Longrightarrow> i < w \<Longrightarrow> length current = 32 \<Longrightarrow> length current' = 32 \<Longrightarrow>
   eachE check_proof_node ns = Inr () \<Longrightarrow> eachE check_proof_node ns' = Inr () \<Longrightarrow>
   inj_on H (set (walk_inputs H current ns @ walk_inputs H current' ns')) \<Longrightarrow> current = current' \<and> ns = ns'"
proof (induction ns arbitrary: current current' i w ns')
  case (Cons n ns)
  from Cons.prems(3) obtain n' ms where ns': "ns' = n' # ms" "length ns = length ms"
    by (cases ns') auto
  note prems = Cons.prems [unfolded ns'(1)]
  note step = walk_proof_Cons [OF prems(1,4)] and step' = walk_proof_Cons [OF prems(2,4)]
  have ok: "check_proof_node n = Inr ()" "check_proof_node n' = Inr ()"
    "eachE check_proof_node ns = Inr ()" "eachE check_proof_node ms = Inr ()"
    using prems(7,8) unfolding eachE_ok_iff by auto
  have half: "i div 2 < (w + 1) div 2" using prems(4) by simp
  have "inj_on H (set (walk_inputs H (H (walk_input current n)) ns @ walk_inputs H (H (walk_input current' n')) ms))"
    using prems(9) by (rule inj_on_subset) auto
  from Cons.IH [OF step(1) step'(1) ns'(2) half digest_length digest_length ok(3,4) this]
  have up: "H (walk_input current n) = H (walk_input current' n')" "ns = ms" by auto
  have "walk_input current n = walk_input current' n'"
    by (rule inj_onD [OF prems(9) up(1)]) auto
  with proof_node_eq [of current n current' n'] step(2) step'(2) ok prems(5,6) up(2) ns' show ?case by simp
qed simp

lemma verified_shape:
  assumes "verifyArtifactChunkProof H (VBytes b) p rt = Inr True"
  shows "\<exists>cs len n i. shape_ok p cs len n i"
  by (rule shape_imp) (use assms in \<open>simp add: verify_proof_iff\<close>)

lemma other_nodes_collide:
  assumes "verifyArtifactChunkProof H (VBytes b) p rt = Inr True"
    "verifyArtifactChunkProof H (VBytes b) (p\<lparr>proof_nodes := ns\<rparr>) rt = Inr True" "ns \<noteq> proof_nodes p"
  shows "collision H (walk_inputs H (merkleLeafDigest H b) (proof_nodes p) @ walk_inputs H (merkleLeafDigest H b) ns)"
proof (rule ccontr)
  assume "\<not> ?thesis"
  then have inj: "inj_on H (set (walk_inputs H (merkleLeafDigest H b) (proof_nodes p)
      @ walk_inputs H (merkleLeafDigest H b) ns))" by (simp only: no_collision)
  from verified_shape [OF assms(1)] obtain cs len n i where s: "shape_ok p cs len n i" by blast
  from verified_shape [OF assms(2)] obtain cs' len' n' i' where
    s': "shape_ok (p\<lparr>proof_nodes := ns\<rparr>) cs' len' n' i'" by blast
  have p: "totalChunkCount p = JInt (int n)" "p_chunkIndex p = JInt (int i)" "i < n"
    "length (proof_nodes p) = ceillog2 n" "eachE check_proof_node (proof_nodes p) = Inr ()"
    using s by (simp_all add: shape_ok_def)
  have p': "length ns = ceillog2 n" "eachE check_proof_node ns = Inr ()"
    using s' p(1) by (simp_all add: shape_ok_def)
  obtain d where d: "walk_proof H (merkleLeafDigest H b) i n (proof_nodes p) = Some (d, 1)" "hex d = rt"
    using assms(1) p by (auto simp: verify_proof_iff)
  obtain d' where d': "walk_proof H (merkleLeafDigest H b) i n ns = Some (d', 1)" "hex d' = rt"
    using assms(2) p by (auto simp: verify_proof_iff)
  have "d' = d" using d(2) d'(2) hex_inj by metis
  with walk_unique [OF d(1) _ _ p(3) _ _ p(5) p'(2) inj] d'(1) p(4) p'(1) assms(3) show False by auto
qed

end

section \<open>The duplication rule\<close>

lemma length_classify: "length (classifyProofSteps i w) = ceillog2 w"
proof (induction i w rule: classifyProofSteps.induct)
  case (1 i w)
  then show ?case using ceillog2_half [of w] by (cases "1 < w") (auto simp: classifyProofSteps.simps [of i w])
qed

lemma duplicate_step:
  "walk_proof H current i w ns = Some r \<Longrightarrow> walk_proof H current i w ns' = Some r' \<Longrightarrow>
   take k ns = take k ns' \<Longrightarrow> k < length ns \<Longrightarrow> k < length ns' \<Longrightarrow>
   k < length (classifyProofSteps i w) \<Longrightarrow> classifyProofSteps i w ! k = Duplicate \<Longrightarrow> i < w \<Longrightarrow>
   siblingSha256 (ns ! k) = siblingSha256 (ns' ! k)"
proof (induction k arbitrary: current i w ns ns')
  case 0
  then obtain n ms n' ms' where ns: "ns = n # ms" "ns' = n' # ms'" by (cases ns; cases ns') auto
  have "w mod 2 = 1 \<and> i = w - 1"
    using "0.prems"(6,7) by (auto simp: classifyProofSteps.simps [of i w] split: if_splits)
  then show ?case using "0.prems"(1,2) by (simp add: ns split: if_splits)
next
  case (Suc k)
  obtain n ms where n: "ns = n # ms" using Suc.prems(4) by (cases ns) simp_all
  obtain n' ms' where n': "ns' = n' # ms'" using Suc.prems(5) by (cases ns') simp_all
  have ns: "ns = n # ms" "ns' = n # ms'" using Suc.prems(3) by (simp_all add: n n')
  have big: "1 < w" using Suc.prems(6) by (auto simp: classifyProofSteps.simps [of i w] split: if_splits)
  then have c: "classifyProofSteps i w = hd (classifyProofSteps i w) # classifyProofSteps (i div 2) ((w + 1) div 2)"
    by (simp add: classifyProofSteps.simps [of i w])
  note walk_proof_Cons(1) [OF Suc.prems(1) [unfolded ns] Suc.prems(8)]
    walk_proof_Cons(1) [OF Suc.prems(2) [unfolded ns] Suc.prems(8)]
  moreover have "take k ms = take k ms'" "k < length ms" "k < length ms'" using Suc.prems(3-5) by (simp_all add: ns)
  moreover have "k < length (classifyProofSteps (i div 2) ((w + 1) div 2))"
    "classifyProofSteps (i div 2) ((w + 1) div 2) ! k = Duplicate"
    using Suc.prems(6,7) c by (metis Suc_less_eq length_Cons, metis nth_Cons_Suc)
  moreover have "i div 2 < (w + 1) div 2" using Suc.prems(8) by simp
  ultimately show ?case unfolding ns nth_Cons_Suc by (rule Suc.IH)
qed

section \<open>The changes are changes\<close>

lemma flip_neq [simp]: "flipTrailingHexDigit h \<noteq> h"
proof (cases "h = []")
  case False
  then have "last (flipTrailingHexDigit h) \<noteq> last h" by (simp add: flipTrailingHexDigit_def)
  then show ?thesis by metis
qed (simp add: flipTrailingHexDigit_def)

lemmas neq_flip [simp] = not_sym [OF flip_neq]

lemma bump_neq:
  assumes "i < length bytes"
  shows "bump i bytes \<noteq> bytes"
proof -
  have "bump i bytes ! i \<noteq> bytes ! i" using assms by (simp add: bump_def)
  then show ?thesis by metis
qed

lemma length_bump [simp]: "length (bump i bytes) = length bytes"
  by (simp add: bump_def)

lemma length_change [simp]: "length (change_at k f xs) = length xs"
  by (simp add: change_at_def)

lemma nth_change: "i < length xs \<Longrightarrow> change_at k f xs ! i = (if i = k then f (xs ! i) else xs ! i)"
  by (simp add: change_at_def nth_enumerate_eq)

lemma change_neq: "k < length xs \<Longrightarrow> f (xs ! k) \<noteq> xs ! k \<Longrightarrow> change_at k f xs \<noteq> xs"
  using nth_change [of k xs k f] by auto

lemma take_change: "k < length xs \<Longrightarrow> take k (change_at k f xs) = take k xs"
  by (rule nth_equalityI) (auto simp: nth_change)

lemma other_side_neq: "other_side node \<noteq> node"
  by (cases node) (auto simp: other_side_def)

lemma other_hash_neq: "other_hash node \<noteq> node"
  by (cases node) (auto simp: other_hash_def)

lemma position_in_Some: "position_in xs x = Some i \<Longrightarrow> i < length xs \<and> xs ! i = x"
  by (auto simp: position_in_def find_Some_iff)

section \<open>Every mutation is detected\<close>

text \<open>An outcome with which the script goes on.\<close>

fun detected :: "mutation_outcome \<Rightarrow> bool" where
  "detected (Applicable name passed) = passed"
| "detected (Not_applicable name reason) = True"

lemma rejected_iff: "rejected r \<longleftrightarrow> r \<noteq> Inr True"
  by (auto simp: rejected_def split: sum.splits)

lemma detected_proof [simp]: "detected (applicable_proof H name b p rt) \<longleftrightarrow>
   verifyArtifactChunkProof H (VBytes b) p rt \<noteq> Inr True"
  by (simp add: applicable_proof_def rejected_iff)

lemma ceil_div_next: "0 < c \<Longrightarrow> ceil_div (a + c) c = ceil_div a c + 1"
  using div_mult_self1 [of c "- a" "- 1"] by (simp add: ceil_div_def)

lemma other_size_neq: "int csize \<in> set ALLOWED_CHUNK_SIZES \<Longrightarrow> other_size (JInt (int csize)) \<noteq> int csize"
  by (auto simp: allowed_sizes other_size_def position_in_def ALLOWED_CHUNK_SIZES_def upt_rec)

lemma alternative_neq: "findSameDepthAlternative n = Some k \<Longrightarrow> k \<noteq> n"
  by (auto simp: findSameDepthAlternative_def Let_def find_Some_iff split: if_splits)

text \<open>The proofs the mutations of the sibling hash, the sibling side and the order of nodes put in place.\<close>

definition changed_nodes :: "nat \<Rightarrow> chunk_proof \<Rightarrow> proof_node list list" where
  "changed_nodes i p =
     (case position_in (classifyProofSteps i (nat (num_int (totalChunkCount p)))) Ordinary of
        None \<Rightarrow> []
      | Some k \<Rightarrow> [change_at k other_side (proof_nodes p), change_at k other_hash (proof_nodes p)])
     @ (case proof_nodes p of a # b # rest \<Rightarrow> [b # a # rest] | _ \<Rightarrow> [])"

lemma next_level_hash: "d \<in> set (next_level H xs) \<Longrightarrow> \<exists>r. 0x01 # r \<in> set (pair_inputs xs) \<and> d = H (0x01 # r)"
  by (induction H xs rule: next_level.induct) (auto simp: parentDigest_def)

lemma first_node:
  assumes "buildProofNodesFromLevels (levels_from H xs) i = Inr (x # rest)" "i < length xs"
  shows "1 < length xs" "unhex (siblingSha256 x) = sibling xs i"
    "buildProofNodesFromLevels (levels_from H (next_level H xs)) (i div 2) = Inr rest"
proof -
  show big: "1 < length xs"
  proof (rule ccontr)
    assume "\<not> 1 < length xs"
    with assms(2) have "length xs = 1" by simp
    then obtain y where "xs = [y]" by (cases xs) auto
    with assms(1) show False by simp
  qed
  from assms(1) show "unhex (siblingSha256 x) = sibling xs i"
    "buildProofNodesFromLevels (levels_from H (next_level H xs)) (i div 2) = Inr rest"
    unfolding proof_node_step [OF assms(2) big] by (auto split: sum.splits)
qed

lemma first_nodes:
  assumes "buildProofNodesFromLevels (levels_from H xs) i = Inr (x # y # rest)" "i < length xs"
  shows "unhex (siblingSha256 x) = sibling xs i" "1 < length xs"
    "unhex (siblingSha256 y) = sibling (next_level H xs) (i div 2)" "i div 2 < length (next_level H xs)"
proof -
  note a = first_node [OF assms]
  show half: "i div 2 < length (next_level H xs)" using assms(2) by (simp add: length_next_level)
  show "unhex (siblingSha256 x) = sibling xs i" "1 < length xs"
    "unhex (siblingSha256 y) = sibling (next_level H xs) (i div 2)"
    using a first_node(2) [OF a(3) half] by simp_all
qed

context digest
begin

lemma field_checks_detected:
  assumes v: "verifyArtifactChunkProof H (VBytes b) p (merkleRoot m) = Inr True"
    and o: "outcome \<in> set (field_checks H m p b)"
  shows "detected outcome \<or> collision H [b, bump 0 b]"
proof -
  from verified_shape [OF v] obtain cs len n i where s: "shape_ok p cs len n i" by blast
  then have cs: "0 < cs" by (auto simp: shape_ok_def allowed_sizes)
  have b: "p_byteLength p = JInt (int (length b))" "b \<noteq> []" "p_chunkSha256 p = hex (H b)"
    "p_merkleLeafSha256 p = hex (merkleLeafDigest H b)"
    using v s by (auto simp: verify_proof_iff shape_ok_def Let_def)
  have shape: "verifyArtifactChunkProof H (VBytes c) q rt = Inr True \<Longrightarrow> \<exists>cs len n i. shape_ok q cs len n i"
    for c q rt by (rule verified_shape)
  let ?index = "p\<lparr>p_chunkIndex := JInt (num_int (p_chunkIndex p) + 1)\<rparr>"
  let ?start = "p\<lparr>p_byteStart := JInt (num_int (p_byteStart p) + num_int (p_chunkSize p))\<rparr>"
  let ?source = "p\<lparr>sourceByteLength := JInt (num_int (sourceByteLength p) + num_int (p_chunkSize p))\<rparr>"
  have "\<not> shape_ok ?index cs' len' n' i'" for cs' len' n' i'
    using s cs by (auto simp: shape_ok_def simp flip: of_nat_Suc)
  then have "verifyArtifactChunkProof H (VBytes b) ?index (merkleRoot m) \<noteq> Inr True" using shape by blast
  moreover have "\<not> shape_ok ?start cs' len' n' i'" for cs' len' n' i'
    using s cs by (auto simp: shape_ok_def)
  then have "verifyArtifactChunkProof H (VBytes b) ?start (merkleRoot m) \<noteq> Inr True" using shape by blast
  moreover have "\<not> shape_ok ?source cs' len' n' i'" for cs' len' n' i'
    using s cs ceil_div_next [of "int cs" "int len"] by (auto simp: shape_ok_def)
  then have "verifyArtifactChunkProof H (VBytes b) ?source (merkleRoot m) \<noteq> Inr True" using shape by blast
  moreover have "verifyArtifactChunkProof H (VBytes (bump 0 b)) p (merkleRoot m) = Inr True \<Longrightarrow>
      collision H [b, bump 0 b]"
    using b bump_neq [of 0 b] by (auto simp: verify_proof_iff collision_def)
  ultimately show ?thesis
    using o b by (auto simp: field_checks_def Let_def verify_proof_iff)
qed

lemma geometry_checks_detected:
  assumes v: "verifyArtifactChunkProof H (VBytes b) p (merkleRoot m) = Inr True"
    and last: "p_chunkIndex p = JInt (num_int (totalChunkCount p) - 1)" "chunkCount m = totalChunkCount p"
  shows "detected (chunk_size_check H m p b)" "detected (chunk_total_check H m p b)"
    "verifyArtifactChunkProof H (VBytes b) (p\<lparr>p_sourceSha256 := butlast (p_sourceSha256 p)\<rparr>) rt \<noteq> Inr True"
    "verifyArtifactChunkProof H (VBytes b) p (flipTrailingHexDigit (merkleRoot m)) \<noteq> Inr True"
    "verifyArtifactChunkProof H (VBytes b) (p\<lparr>p_profileVersion := js ''artifact-chunk-merkle/9.9''\<rparr>) rt \<noteq> Inr True"
proof -
  from verified_shape [OF v] obtain cs len n i where s: "shape_ok p cs len n i" by blast
  have shape: "verifyArtifactChunkProof H (VBytes c) q rt = Inr True \<Longrightarrow> \<exists>cs len n i. shape_ok q cs len n i"
    for c q rt by (rule verified_shape)
  have i: "int i = int n - 1" using s last(1) by (auto simp: shape_ok_def)
  have "num_gt (chunkCount m) 1 \<Longrightarrow>
      \<not> shape_ok (p\<lparr>p_chunkSize := JInt (other_size (p_chunkSize p))\<rparr>) cs' len' n' i'" for cs' len' n' i'
    using s other_size_neq [of cs] last(2) i by (auto simp: shape_ok_def)
  then show "detected (chunk_size_check H m p b)" by (auto simp: chunk_size_check_def dest!: shape)
  have "\<not> shape_ok (p\<lparr>totalChunkCount := JInt k\<rparr>) cs' len' n' i'"
    if "findSameDepthAlternative (int n) = Some k" for k cs' len' n' i'
  proof
    assume s': "shape_ok (p\<lparr>totalChunkCount := JInt k\<rparr>) cs' len' n' i'"
    then have "k = ceil_div (int len') (int cs')" "sourceByteLength p = JInt (int len')" "p_chunkSize p = JInt (int cs')"
      by (simp_all add: shape_ok_def)
    with s have "k = int n" by (simp add: shape_ok_def)
    with alternative_neq [OF that] show False by simp
  qed
  moreover have "num_int (totalChunkCount p) = int n" using s by (simp add: shape_ok_def)
  ultimately show "detected (chunk_total_check H m p b)"
    by (auto simp: chunk_total_check_def dest!: shape split: option.splits)
  have "\<not> shape_ok (p\<lparr>p_sourceSha256 := butlast (p_sourceSha256 p)\<rparr>) cs' len' n' i'" for cs' len' n' i'
    using s by (auto simp: shape_ok_def HEX64_PATTERN_def)
  then show "verifyArtifactChunkProof H (VBytes b) (p\<lparr>p_sourceSha256 := butlast (p_sourceSha256 p)\<rparr>) rt \<noteq> Inr True"
    using shape by blast
  show "verifyArtifactChunkProof H (VBytes b) p (flipTrailingHexDigit (merkleRoot m)) \<noteq> Inr True"
    using v unfolding verify_proof_iff by auto
  have "\<not> shape_ok (p\<lparr>p_profileVersion := js ''artifact-chunk-merkle/9.9''\<rparr>) cs' len' n' i'" for cs' len' n' i'
    by (simp add: shape_ok_def ARTIFACT_CHUNK_MERKLE_PROFILE_VERSION_def js_def)
  then show "verifyArtifactChunkProof H (VBytes b) (p\<lparr>p_profileVersion := js ''artifact-chunk-merkle/9.9''\<rparr>) rt
      \<noteq> Inr True"
    using shape by blast
qed

lemma sibling_checks_detected:
  assumes v: "verifyArtifactChunkProof H (VBytes b) p (merkleRoot m) = Inr True"
    and i: "p_chunkIndex p = JInt (int i)"
    and o: "outcome \<in> set (sibling_checks H m i p b)"
  shows "detected outcome \<or> (\<exists>ns \<in> set (changed_nodes i p).
    collision H (walk_inputs H (merkleLeafDigest H b) (proof_nodes p) @ walk_inputs H (merkleLeafDigest H b) ns))"
proof (cases "proof_nodes p = [] \<or> position_in (classifyProofSteps i (nat (num_int (totalChunkCount p)))) Ordinary = None")
  case True
  with o show ?thesis by (auto simp: sibling_checks_def Let_def split: if_splits)
next
  case False
  then obtain k where k: "position_in (classifyProofSteps i (nat (num_int (totalChunkCount p)))) Ordinary = Some k"
    "proof_nodes p \<noteq> []" by auto
  from verified_shape [OF v] obtain cs len n j where s: "shape_ok p cs len n j" by blast
  then have "length (proof_nodes p) = length (classifyProofSteps i (nat (num_int (totalChunkCount p))))"
    by (simp add: shape_ok_def length_classify)
  with position_in_Some [OF k(1)] have less: "k < length (proof_nodes p)" by simp
  have changed: "change_at k other_side (proof_nodes p) \<in> set (changed_nodes i p)"
    "change_at k other_hash (proof_nodes p) \<in> set (changed_nodes i p)"
    using k by (simp_all add: changed_nodes_def)
  have "change_at k other_side (proof_nodes p) \<noteq> proof_nodes p" "change_at k other_hash (proof_nodes p) \<noteq> proof_nodes p"
    using change_neq [OF less] other_side_neq other_hash_neq by blast+
  with o k changed show ?thesis
    using other_nodes_collide [OF v, of "change_at k other_side (proof_nodes p)"]
      other_nodes_collide [OF v, of "change_at k other_hash (proof_nodes p)"]
    by (auto simp: sibling_checks_def Let_def)
qed

lemma ordering_check_detected:
  assumes v: "verifyArtifactChunkProof H (VBytes b) p (merkleRoot m) = Inr True"
    and src: "verifyArtifactSourceManifest H (VBytes source) m = Inr True"
    and nodes: "buildProofNodesFromLevels (levels_from H (leaf_digests m)) i = Inr (proof_nodes p)"
    and i: "i < length (chunks m)"
  shows "detected (ordering_check H m p b)
    \<or> (\<exists>ns \<in> set (changed_nodes i p). collision H
         (walk_inputs H (merkleLeafDigest H b) (proof_nodes p) @ walk_inputs H (merkleLeafDigest H b) ns))
    \<or> collision H (manifest_inputs H source m)"
proof (cases "\<exists>x y rest. proof_nodes p = x # y # rest")
  case True
  then obtain x y rest where p: "proof_nodes p = x # y # rest" by blast
  show ?thesis
  proof (cases "x = y")
    case True
    from first_nodes [OF nodes [unfolded p]] i have sib: "unhex (siblingSha256 x) = sibling (leaf_digests m) i"
      "unhex (siblingSha256 y) = sibling (next_level H (leaf_digests m)) (i div 2)"
      "i div 2 < length (next_level H (leaf_digests m))" "1 < length (leaf_digests m)" by auto
    from src have eq: "\<forall>c \<in> set (chunks m). entry_matches H source c" by (simp add: verify_source_iff)
    have "sibling (leaf_digests m) i \<in> set (leaf_digests m)" using i by (intro sibling_mem) simp
    then obtain c where c: "c \<in> set (chunks m)" "sibling (leaf_digests m) i = H (0x00 # entry_bytes source c)"
      unfolding verified_leaf [OF eq] merkleLeafDigest_def by auto
    from next_level_hash [OF sibling_mem [OF sib(3)]] obtain r where
      r: "0x01 # r \<in> set (pair_inputs (leaf_digests m))"
        "sibling (next_level H (leaf_digests m)) (i div 2) = H (0x01 # r)" by blast
    have "H (0x00 # entry_bytes source c) = H (0x01 # r)" using True sib(1,2) c(2) r(2) by simp
    moreover have "0x00 # entry_bytes source c \<in> set (manifest_inputs H source m)"
      "0x01 # r \<in> set (manifest_inputs H source m)"
      using c(1) r(1) sib(4) by (auto simp: manifest_inputs_def tree_inputs_rec)
    ultimately have "collision H (manifest_inputs H source m)"
      unfolding collision_def by (intro bexI [of _ "0x00 # entry_bytes source c"] bexI [of _ "0x01 # r"]) auto
    then show ?thesis by simp
  next
    case False
    then have "y # x # rest \<noteq> proof_nodes p" "y # x # rest \<in> set (changed_nodes i p)"
      by (auto simp: p changed_nodes_def)
    with other_nodes_collide [OF v, of "y # x # rest"]
    have "verifyArtifactChunkProof H (VBytes b) (p\<lparr>proof_nodes := y # x # rest\<rparr>) (merkleRoot m) = Inr True \<Longrightarrow>
      \<exists>ns \<in> set (changed_nodes i p). collision H
        (walk_inputs H (merkleLeafDigest H b) (proof_nodes p) @ walk_inputs H (merkleLeafDigest H b) ns)" by blast
    moreover have "detected (ordering_check H m p b) \<longleftrightarrow>
        verifyArtifactChunkProof H (VBytes b) (p\<lparr>proof_nodes := y # x # rest\<rparr>) (merkleRoot m) \<noteq> Inr True"
      by (simp add: ordering_check_def p)
    ultimately show ?thesis by blast
  qed
next
  case False
  then show ?thesis by (auto simp: ordering_check_def split: list.splits)
qed

lemma duplicate_check_detected:
  assumes v: "verifyArtifactChunkProof H (VBytes b) p (merkleRoot m) = Inr True"
    and i: "p_chunkIndex p = JInt (int i)"
  shows "detected (duplicate_check H i p b)"
proof (cases "position_in (classifyProofSteps i (nat (num_int (totalChunkCount p)))) Duplicate")
  case (Some k)
  from verified_shape [OF v] obtain cs len n j where s: "shape_ok p cs len n j" by blast
  then have p: "totalChunkCount p = JInt (int n)" "i < n" "length (proof_nodes p) = ceillog2 n"
    using i by (auto simp: shape_ok_def)
  from position_in_Some [OF Some] have k: "k < length (classifyProofSteps i n)" "classifyProofSteps i n ! k = Duplicate"
    by (simp_all add: p(1))
  then have less: "k < length (proof_nodes p)" by (simp add: p(3) length_classify)
  let ?node = "\<lparr>siblingPosition = RIGHT, siblingSha256 = flipTrailingHexDigit (siblingSha256 (proof_nodes p ! k))\<rparr>"
  let ?nodes = "change_at k (\<lambda>_. ?node) (proof_nodes p)"
  have "verifyArtifactChunkProof H (VBytes b) (p\<lparr>proof_nodes := ?nodes\<rparr>) rt \<noteq> Inr True" for rt
  proof
    assume v': "verifyArtifactChunkProof H (VBytes b) (p\<lparr>proof_nodes := ?nodes\<rparr>) rt = Inr True"
    from v obtain d where d: "walk_proof H (merkleLeafDigest H b) i n (proof_nodes p) = Some (d, 1)"
      by (auto simp: verify_proof_iff i p(1))
    from v' obtain d' where d': "walk_proof H (merkleLeafDigest H b) i n ?nodes = Some (d', 1)"
      by (auto simp: verify_proof_iff i p(1))
    have "siblingSha256 (proof_nodes p ! k) = siblingSha256 (?nodes ! k)"
      by (rule duplicate_step [OF d d' _ _ _ k p(2)]) (use less take_change [OF less] in simp_all)
    then show False using less by (simp add: nth_change)
  qed
  moreover have "elem_at (proof_nodes p) k = Some (proof_nodes p ! k)" using less by (simp add: elem_at_def)
  ultimately show ?thesis by (simp add: duplicate_check_def Some Let_def)
qed (simp add: duplicate_check_def)

lemma source_check_detected:
  assumes "verifyArtifactSourceManifest H (VBytes source) m = Inr True" "source \<noteq> []"
  shows "detected (source_check H source m p)
    \<or> collision H [source, bump 0 source, bump (length source - 1) source]"
proof -
  have len: "nat (num_int (m_byteLength m) - 1) = length source - 1"
    using assms by (auto simp: verify_source_iff)
  have "verifyArtifactSourceManifest H (VBytes (bump j source)) m = Inr True \<Longrightarrow> j < length source \<Longrightarrow>
      H (bump j source) = H source \<and> bump j source \<noteq> source" for j
    using assms(1) bump_neq by (auto simp: verify_source_iff)
  from this [of 0] this [of "length source - 1"] assms(2) show ?thesis
    by (auto simp: source_check_def rejected_iff collision_def len Let_def)
qed

lemma built_proof:
  assumes ok: "manifest_ok H csize len m" and i: "i < length (chunks m)"
    and b: "buildArtifactChunkProof H m (JInt (int i)) = Inr p"
  shows "p = proof_of m i (proof_nodes p)"
    "buildProofNodesFromLevels (levels_from H (leaf_digests m)) i = Inr (proof_nodes p)"
proof -
  from build_proof_ok [OF ok i] b show "p = proof_of m i (proof_nodes p)" by (auto simp: proof_of_def Let_def)
  have "buildMerkleLevels H (leaf_digests m) = levels_from H (leaf_digests m)"
    using i by (auto simp: buildMerkleLevels_def leaf_digests_def)
  with b show "buildProofNodesFromLevels (levels_from H (leaf_digests m)) i = Inr (proof_nodes p)"
    by (auto simp: buildArtifactChunkProof_def leaf_digests_def Let_def ok_simps split: sum.splits if_splits option.splits)
qed

text \<open>What holds of the selected chunk of a verified manifest.\<close>

lemma selected_proof:
  assumes "verifyArtifactSourceManifest H (VBytes source) m = Inr True" "i < length (chunks m)"
  shows "\<exists>p. buildArtifactChunkProof H m (JInt (int i)) = Inr p
    \<and> p = proof_of m i (proof_nodes p)
    \<and> buildProofNodesFromLevels (levels_from H (leaf_digests m)) i = Inr (proof_nodes p)
    \<and> verifyArtifactChunkProof H (VBytes (selected_bytes source p)) p (merkleRoot m) = Inr True"
proof -
  from assms(1) obtain csize where ok: "manifest_ok H csize (length source) m" by (rule verified_manifest)
  from verified_source_proofs [OF assms] obtain p where p: "buildArtifactChunkProof H m (JInt (int i)) = Inr p"
    "verifyArtifactChunkProof H (VBytes (entry_bytes source (chunks m ! i))) p (merkleRoot m) = Inr True" by blast
  note b = built_proof [OF ok assms(2) p(1)]
  have "selected_bytes source (proof_of m i (proof_nodes p)) = entry_bytes source (chunks m ! i)"
    by (simp add: selected_bytes_def entry_bytes_def proof_of_def Let_def)
  with b(1) have "selected_bytes source p = entry_bytes source (chunks m ! i)" by simp
  with p b show ?thesis by auto
qed

end

text \<open>The inputs hashed by the mutation checks of the proof \<open>p\<close> of chunk \<open>i\<close>.\<close>

definition mutation_inputs :: "hashfn \<Rightarrow> byte list \<Rightarrow> chunk_manifest \<Rightarrow> nat \<Rightarrow> chunk_proof \<Rightarrow> byte list list" where
  "mutation_inputs H source m i p =
     (let b = selected_bytes source p
      in [source, bump 0 source, bump (length source - 1) source, b, bump 0 b]
         @ manifest_inputs H source m
         @ concat (map (walk_inputs H (merkleLeafDigest H b)) (proof_nodes p # changed_nodes i p)))"

lemma collision_mono: "collision H xs \<Longrightarrow> set xs \<subseteq> set ys \<Longrightarrow> collision H ys"
  unfolding collision_def by blast

context digest
begin

lemma mutations_detected:
  assumes src: "verifyArtifactSourceManifest H (VBytes source) m = Inr True"
    and i: "Suc i = length (chunks m)" and p: "buildArtifactChunkProof H m (JInt (int i)) = Inr p"
    and o: "outcome \<in> set (runMutationChecks H source m i p (selected_bytes source p))"
  shows "detected outcome \<or> collision H (mutation_inputs H source m i p)"
proof (rule disjCI)
  assume nc: "\<not> collision H (mutation_inputs H source m i p)"
  from i have less: "i < length (chunks m)" by simp
  let ?b = "selected_bytes source p"
  from selected_proof [OF src less] p have q: "p = proof_of m i (proof_nodes p)"
    "buildProofNodesFromLevels (levels_from H (leaf_digests m)) i = Inr (proof_nodes p)"
    "verifyArtifactChunkProof H (VBytes ?b) p (merkleRoot m) = Inr True" by auto
  from src obtain csize where ok: "manifest_ok H csize (length source) m" by (rule verified_manifest)
  then have m: "chunkIndex (chunks m ! i) = JInt (int i)" "chunkCount m = JInt (int (length (chunks m)))"
    using less by (simp_all add: manifest_ok_def entry_ok_def)
  have "p_chunkIndex (proof_of m i (proof_nodes p)) = JInt (int i)"
    "totalChunkCount (proof_of m i (proof_nodes p)) = chunkCount m"
    using m by (simp_all add: proof_of_def Let_def)
  then have f: "p_chunkIndex p = JInt (int i)" "totalChunkCount p = chunkCount m" using q(1) by simp_all
  then have last: "p_chunkIndex p = JInt (num_int (totalChunkCount p) - 1)" using m(2) i by simp
  have ne: "source \<noteq> []" using manifest_ok_count [OF ok] less chunk_count_0 [of csize source] by auto
  have no: "\<not> collision H xs" if "set xs \<subseteq> set (mutation_inputs H source m i p)" for xs
    using nc collision_mono that by blast
  have "\<not> collision H [?b, bump 0 ?b]" "\<not> collision H [source, bump 0 source, bump (length source - 1) source]"
    "\<not> collision H (manifest_inputs H source m)"
    by (rule no, force simp: mutation_inputs_def Let_def)+
  moreover have "\<forall>ns \<in> set (changed_nodes i p). \<not> collision H
      (walk_inputs H (merkleLeafDigest H ?b) (proof_nodes p) @ walk_inputs H (merkleLeafDigest H ?b) ns)"
    by (intro ballI no) (auto simp: mutation_inputs_def Let_def)
  moreover note o [unfolded runMutationChecks_def]
  ultimately show "detected outcome"
    using field_checks_detected [OF q(3)] geometry_checks_detected [OF q(3) last f(2) [symmetric]]
      sibling_checks_detected [OF q(3) f(1)] ordering_check_detected [OF q(3) src q(2) less]
      duplicate_check_detected [OF q(3) f(1)] source_check_detected [OF src ne]
    by fastforce
qed

end

section \<open>Every case passes\<close>

text \<open>The inputs hashed by the mutation checks of a case.\<close>

definition case_inputs :: "hashfn \<Rightarrow> byte list \<Rightarrow> int \<Rightarrow> byte list list" where
  "case_inputs H source csize =
     (case buildArtifactChunkManifest H (VBytes source) (JInt csize) of
        Inl e \<Rightarrow> []
      | Inr m \<Rightarrow>
          (case buildArtifactChunkProof H m (JInt (num_int (chunkCount m) - 1)) of
             Inl e \<Rightarrow> []
           | Inr p \<Rightarrow> mutation_inputs H source m (nat (num_int (chunkCount m) - 1)) p))"

lemma detected_passed: "\<forall>x \<in> set outcomes. detected x \<Longrightarrow>
   concat (map passed_name outcomes) = concat (map applicable_name outcomes)"
proof (induction outcomes)
  case (Cons x xs)
  then show ?case by (cases x) simp_all
qed simp

lemma check_outcome_ok: "detected x \<Longrightarrow> check_outcome name csize x = Inr ()"
  by (cases x) (simp_all add: check_outcome_def)

lemma sampled_indexes:
  assumes "32 < n"
  shows "set (sampleChunkIndexes n) \<subseteq> {0..<n}" "length (sampleChunkIndexes n) = 3"
proof -
  have "0 < n div 2" "n div 2 < n - 1" using assms by linarith+
  then show "set (sampleChunkIndexes n) \<subseteq> {0..<n}" "length (sampleChunkIndexes n) = 3"
    using assms by (auto simp: sampleChunkIndexes_def MAX_FULL_VERIFICATION_CHUNKS_def array_of_set_def)
qed

context digest
begin

lemma case_passes:
  assumes c: "int csize \<in> set ALLOWED_CHUNK_SIZES" "int (length source) \<le> MAX_CALIBRATION_SOURCE_BYTES"
  shows "(\<exists>r. runCase H name source (int csize) = Inr r
      \<and> case_merkleRoot r = merkleRoot (source_manifest H source csize)
      \<and> proofsChecked r = (if chunk_count source csize \<le> 32 then chunk_count source csize else 3)
      \<and> sourceManifestVerified r = (if source = [] then None else Some True)
      \<and> mutationChecksPassed r = mutationChecksApplicable r)
    \<or> collision H (case_inputs H source (int csize))"
proof (rule disjCI)
  assume nc: "\<not> collision H (case_inputs H source (int csize))"
  let ?m = "source_manifest H source csize" and ?n = "chunk_count source csize"
  have b: "buildArtifactChunkManifest H (VBytes source) (JInt (int csize)) = Inr ?m" by (rule build_eq [OF c])
  then have v: "verifyArtifactSourceManifest H (VBytes source) ?m = Inr True"
    by (simp add: verify_source_eq_build source_manifest_def)
  have n: "chunkCount ?m = JInt (int ?n)" "length (chunks ?m) = ?n" by (simp_all add: source_manifest_def)
  have empty: "?n = 0 \<longleftrightarrow> source = []" using c(1) by (intro chunk_count_0) (auto simp: allowed_sizes)
  let ?is = "if num_gt (chunkCount ?m) MAX_FULL_VERIFICATION_CHUNKS then sampleChunkIndexes (num_int (chunkCount ?m))
    else [0..num_int (chunkCount ?m) - 1]"
  have "check_index H name source (int csize) ?m (int i) = Inr ()" if "i < ?n" for i
    using selected_proof [OF v, of i] that n(2) by (auto simp: check_index_def)
  then have "check_index H name source (int csize) ?m j = Inr ()" if "0 \<le> j" "j < int ?n" for j
    using that by (metis nonneg_int_cases of_nat_less_iff)
  moreover have "set ?is \<subseteq> {0..<int ?n}"
    using sampled_indexes(1) [of "int ?n"] by (auto simp: n(1) MAX_FULL_VERIFICATION_CHUNKS_def)
  ultimately have checked: "eachE (check_index H name source (int csize) ?m) ?is = Inr ()"
    unfolding eachE_ok_iff by (meson atLeastLessThan_iff subsetD)
  have count: "length ?is = (if ?n \<le> 32 then ?n else 3)"
    using sampled_indexes(2) [of "int ?n"] by (auto simp: n(1) MAX_FULL_VERIFICATION_CHUNKS_def)
  have source: "check_source H name source (int csize) ?m = Inr (if source = [] then None else Some True)"
    using v empty by (auto simp: check_source_def n(1))
  have "\<exists>outcomes. check_mutations H name source (int csize) ?m = Inr outcomes \<and> (\<forall>x \<in> set outcomes. detected x)"
  proof (cases "source = []")
    case True
    with empty show ?thesis unfolding check_mutations_def n(1) by simp
  next
    case False
    then have last: "Suc (?n - 1) = length (chunks ?m)" "num_int (chunkCount ?m) - 1 = int (?n - 1)"
      using empty n by auto
    with selected_proof [OF v, of "?n - 1"] obtain p where
      p: "buildArtifactChunkProof H ?m (JInt (int (?n - 1))) = Inr p" by auto
    have ins: "case_inputs H source (int csize) = mutation_inputs H source ?m (?n - 1) p"
      using b p last(2) by (simp add: case_inputs_def)
    let ?outcomes = "runMutationChecks H source ?m (?n - 1) p (selected_bytes source p)"
    have all: "\<forall>x \<in> set ?outcomes. detected x"
      using mutations_detected [OF v last(1) p] nc unfolding ins by blast
    then have "eachE (check_outcome name (int csize)) ?outcomes = Inr ()"
      unfolding eachE_ok_iff using check_outcome_ok by blast
    moreover have "num_gt (chunkCount ?m) 0" using False empty by (simp add: n(1))
    ultimately have "check_mutations H name source (int csize) ?m = Inr ?outcomes"
      by (simp only: check_mutations_def Let_def if_True last(2) nat_int p manifest_thrown.simps sum.case)
    with all show ?thesis by blast
  qed
  then obtain outcomes where o: "check_mutations H name source (int csize) ?m = Inr outcomes"
    "\<forall>x \<in> set outcomes. detected x" by blast
  show "\<exists>r. runCase H name source (int csize) = Inr r \<and> case_merkleRoot r = merkleRoot ?m
      \<and> proofsChecked r = (if ?n \<le> 32 then ?n else 3)
      \<and> sourceManifestVerified r = (if source = [] then None else Some True)
      \<and> mutationChecksPassed r = mutationChecksApplicable r"
    using detected_passed [OF o(2)] unfolding runCase_def b manifest_thrown.simps sum.case Let_def checked source o(1) count
    by simp
qed

end

lemma length_fill: "length written \<le> len \<Longrightarrow> length (fill_blocks len seed k written) = len"
proof (induction len seed k written rule: fill_blocks.induct)
  case (1 len seed k written)
  then show ?case
    by (cases "length written < len") (simp_all add: fill_blocks.simps [of len seed k written] calibration_block_def)
qed

lemma length_deterministic [simp]: "length (deterministicBytes len seed) = len"
  by (simp add: deterministicBytes_def length_fill)


section \<open>The script\<close>

text \<open>
  C28. Every outcome of a calibration case: the two input errors, and otherwise the receipt: the
  first 32 chunks or a sample of three have verified, so has the source, and every applicable
  mutation of the matrix has been detected; unless two different inputs among those the mutation
  checks hashed have the same SHA-256 digest.
\<close>

theorem calibration_case_outcomes:
  "if csize \<notin> {1024, 4096, 8192}
   then runCase sha256 name source csize = Inl (Manifest_error UNSUPPORTED_CHUNK_SIZE)
   else if 1048576 < length source
   then runCase sha256 name source csize = Inl (Manifest_error SOURCE_TOO_LARGE)
   else
     (\<exists>r. runCase sha256 name source csize = Inr r
        \<and> case_merkleRoot r = merkleRoot (source_manifest sha256 source (nat csize))
        \<and> (let n = chunk_count source (nat csize) in proofsChecked r = (if n \<le> 32 then n else 3))
        \<and> sourceManifestVerified r = (if source = [] then None else Some True)
        \<and> mutationChecksPassed r = mutationChecksApplicable r)
     \<or> collision sha256 (case_inputs sha256 source csize)"
proof -
  have build: "buildArtifactChunkManifest sha256 (VBytes source) (JInt csize) = Inl e \<Longrightarrow>
      runCase sha256 name source csize = Inl (Manifest_error e)" for e
    by (simp add: runCase_def)
  have outcomes: "buildArtifactChunkManifest sha256 (VBytes source) (JInt csize) =
      (if csize \<notin> {1024, 4096, 8192} then Inl UNSUPPORTED_CHUNK_SIZE
       else if 1048576 < length source then Inl SOURCE_TOO_LARGE
       else Inr (source_manifest sha256 source (nat csize)))"
    by (simp add: build_manifest_outcomes)
  show ?thesis
  proof (cases "csize \<notin> {1024, 4096, 8192} \<or> 1048576 < length source")
    case True
    then show ?thesis using build outcomes by auto
  next
    case False
    then have "int (nat csize) = csize" "int (nat csize) \<in> set ALLOWED_CHUNK_SIZES"
      "int (length source) \<le> MAX_CALIBRATION_SOURCE_BYTES" by (auto simp: allowed_sizes limits)
    with sha.case_passes [of "nat csize" source name] False show ?thesis
      unfolding Let_def by (simp only: if_False not_not de_Morgan_disj simp_thms)
  qed
qed

lemma encode_bound: "length (text_encode s) \<le> 4 * length s"
proof -
  have "length (utf8_enc c) \<le> 4" for c by (simp add: utf8_enc.simps)
  then have "length (concat (map (\<lambda>c. utf8_enc (f c)) cs)) \<le> 4 * length cs" for f :: "nat \<Rightarrow> nat" and cs
    by (induction cs) (simp_all add: add_mono)
  from this [of "\<lambda>c. if surrogate c then 65533 else c" "code_points s"]
  have "length (text_encode s) \<le> 4 * length (code_points s)" by (simp add: text_encode_def)
  moreover have "length (code_points s) \<le> length s" by (induction s rule: code_points.induct) auto
  ultimately show ?thesis by linarith
qed

lemma calibration_sources:
  "(name, source, csize) \<in> set calibration_cases \<Longrightarrow> csize \<in> {1024, 4096, 8192} \<and> length source \<le> 1048576"
proof -
  have "length MARKDOWN_SAMPLE \<le> 100" by (simp add: MARKDOWN_SAMPLE_def js_def)
  then have "length MARKDOWN_BYTES \<le> 1048576"
    using encode_bound [of "concat (replicate 40 MARKDOWN_SAMPLE)"]
    by (simp add: MARKDOWN_BYTES_def length_concat sum_list_replicate)
  moreover assume "(name, source, csize) \<in> set calibration_cases"
  ultimately show "csize \<in> {1024, 4096, 8192} \<and> length source \<le> 1048576"
    by (auto simp: calibration_cases_def ALLOWED_CHUNK_SIZES_def caseGeneratorsFor_def Let_def limits)
qed

text \<open>
  The script prints its receipt: every one of its 24 cases passes, unless two different inputs
  among those its mutation checks hashed have the same SHA-256 digest.
\<close>

lemma calibration_prints:
  "(\<exists>cases. run_calibration nodeVersion = Inr (stringify (receipt_value sha256 nodeVersion cases) @ [0x0a])
      \<and> length cases = 24 \<and> map mutationChecksPassed cases = map mutationChecksApplicable cases)
   \<or> collision sha256 (concat (map (\<lambda>(name, source, csize). case_inputs sha256 source csize) calibration_cases))"
proof (rule disjCI)
  let ?run = "\<lambda>(name, source, csize). runCase sha256 name source csize"
  assume nc: "\<not> collision sha256 (concat (map (\<lambda>(name, source, csize). case_inputs sha256 source csize) calibration_cases))"
  have "\<exists>r. ?run x = Inr r \<and> mutationChecksPassed r = mutationChecksApplicable r" if x: "x \<in> set calibration_cases" for x
  proof -
    obtain name source csize where x': "x = (name, source, csize)" by (cases x)
    from calibration_sources x x' have c: "csize \<in> {1024, 4096, 8192}" "length source \<le> 1048576" by blast+
    then have "int (nat csize) = csize" "int (nat csize) \<in> set ALLOWED_CHUNK_SIZES"
      "int (length source) \<le> MAX_CALIBRATION_SOURCE_BYTES" by (auto simp: allowed_sizes limits)
    moreover have "\<not> collision sha256 (case_inputs sha256 source csize)"
    proof
      assume "collision sha256 (case_inputs sha256 source csize)"
      moreover have "set (case_inputs sha256 source csize)
          \<subseteq> set (concat (map (\<lambda>(name, source, csize). case_inputs sha256 source csize) calibration_cases))"
        using x unfolding x' by force
      ultimately show False using nc collision_mono by blast
    qed
    ultimately show ?thesis using sha.case_passes [of "nat csize" source name] x' by auto
  qed
  then obtain r where r: "?run x = Inr (r x)" "mutationChecksPassed (r x) = mutationChecksApplicable (r x)"
    if "x \<in> set calibration_cases" for x by metis
  have "mapE ?run calibration_cases = Inr (map r calibration_cases)" using r(1) by (rule mapE_all_ok)
  moreover have "length calibration_cases = 24"
    by (simp add: calibration_cases_def ALLOWED_CHUNK_SIZES_def caseGeneratorsFor_def Let_def)
  ultimately show "\<exists>cases. run_calibration nodeVersion = Inr (stringify (receipt_value sha256 nodeVersion cases) @ [0x0a])
      \<and> length cases = 24 \<and> map mutationChecksPassed cases = map mutationChecksApplicable cases"
    using r(2) by (intro exI [of _ "map r calibration_cases"]) (simp add: run_calibration_def)
qed

end
