(* ===== verification/Spec2Isabelle.thy ===== *)
theory Spec2Isabelle
  imports Chunk_Properties Text_Properties Wire_Properties Governor_Properties Storage_Properties Authorization
    Credential_Policy Write_Containment Inspector_Properties Registration_Config Memory_Properties Governed_Tools
    Session_Capabilities Argument_Digest Inspector_Types Server_Properties Startup Openapi_Census
    Calibration_Properties
begin

text \<open>
  Verification of the user-scoped MCP read surface.

  The program is a server that lets a language model read records and artifacts of one Supabase user. Its
  core is a set of validators and pure state transformers under \<open>packages/contracts/src\<close> and
  \<open>packages/server/src\<close>: an artifact is split into chunks whose hashes form a Merkle tree, text is indexed by
  lines and headings, five inspection operations return pieces of an artifact with the evidence that they are
  authentic, and every answer passes an envelope that bounds its size and marks its content as untrusted.

  1. What models what

  Foundations.
    Prelude: bytes, thrown errors as \<open>'e + 'a\<close>, array reads and slices.
    Js_Values: numbers, strings of UTF-16 code units, untyped values, UTF-8 and UTF-16 codecs with their
      round trips. Zod: the schema combinators, as parsers into \<open>option\<close>, with a rule of acceptance for each.
    Iso_Date: the ISO timestamps the contracts accept and \<open>Date.parse\<close> on them.
    Sha256, Hex: the digest \<open>createHash('sha256')\<close> computes, written out and executable, and its text form.

  Chunks (\<open>artifact-chunk-manifest.ts\<close>).
    Chunk_Manifest holds the manifest, the proofs and all operations, for a hash function \<open>H\<close> that is
    instantiated by SHA-256 only where a value is computed. Merkle_Tree and Chunk_Correct hold the tree of the
    specification, the walk of a proof and the inversion of the validators; Chunk_Properties the properties:
    what verifies is what the builder makes (both directions), a verified proof gives the bytes of the chunk or a
    collision, a proof exists for every chunk, the root fixes the source, and the outcomes of the builders.
    Calibration (\<open>scripts/run-artifact-chunk-calibration.mjs\<close>): the script that mutates proofs; Calibration_Properties:
    the walk to a root determines the proof, so every mutation is detected and every case passes.

  Text (\<open>artifact-text-index.ts\<close>).
    Text_Index holds the scanner, the heading slugs and the readers; \<open>normalize('NFC')\<close> and \<open>toLowerCase\<close> are
    parameters of which nothing is assumed. Text_Lines shows that the lines partition the source, Text_Headings
    that identifiers are distinct and well formed, Text_Properties that the index is accepted exactly when it
    is the built one and that a read returns exactly the requested lines.

  The inspector (\<open>artifact-inspector.ts\<close>, \<open>artifact-inspection.ts\<close>).
    Inspection_Contract: identifiers, input schemas, integrity metadata, outputs, receipts and the envelope.
    Inspector: the effects. An operation is a program over the injected registry, byte source, clock and proof
      cache; a program is a tree of calls (\<open>proc\<close>) and its run is the list of calls with their answers, so that
      order, failure and absence of a call can be stated. Every answer of an injected dependency is arbitrary.
    Inspector_Operations: stat, read_range, read_lines, read_heading, search_exact, statement by statement.
    Inspector_Runs and Inspector_Total: which calls a run makes and that every run ends with one outcome.
    Inspector_Evidence and Inspector_Spec: what evidence an outcome carries, and the abstract operation on the
      bytes of an artifact (\<open>range_spec\<close>, \<open>lines_spec\<close>, \<open>heading_spec\<close>, \<open>search_spec\<close>, \<open>stat_spec\<close>). The
      \<open>_refines\<close> lemmas show that the chunk-wise code computes it; lines and headings are those of the source split
      at its line feeds, whatever byte range the index recorded. Inspector_Lines and Inspector_Search hold
      the line and search reasoning, Inspector_Store a concrete registered artifact and the proof that a
      registry record survives its parser, Inspector_Properties the properties.

  The receipt journal (\<open>artifact-receipt-journal.ts\<close>) and the registration (\<open>artifact-mcp-registration.ts\<close>).
    Object_Graph: objects with identity on a heap, their properties and prototypes, and the walk that admits plain
      trees only. Json_Text: \<open>JSON.stringify\<close> of strings and numbers is injective. Canonical_Json: the canonical text
      of a value. Receipt_Schema: receipts as objects and back. Receipt_Journal: bytes, digest and append.
      Journal_Properties: when an append is acknowledged, that the bytes identify a receipt, and that the walk ends.
    Operation_Gate: one registered operation as a step relation over the gate, the journal, the deadline and the
      run of the inspector; every interleaving is a path. Gate_Properties: its invariant, what the observers and the
      caller get to see, that every path returns, and that no receipt is withheld.
    Artifact_Registration: the closure manifest, the trusted context of a request, and the registered tools.
    Registration_Config: the configuration with its injected functions, and that a prepared registration serves
      every request.
    Inspection_Tools: derivations and the descriptors of the tools; Inspector_Types: every answer of the inspector is of
      the output schema of its descriptor.

  The read tools (\<open>read-tools.ts\<close>, \<open>read-tool-governor.ts\<close>).
    Wire: \<open>JSON.stringify\<close>, the error objects, the model-visible text and the envelope. Wire_Length bounds the
      envelope of printable values; Wire_Properties shows that the boundary marker occurs once whatever the
      output holds and that the serializer succeeds exactly within its byte bound.
    Governor: the limiter state and the executor as a function of the state and of the answers of the clock and
      of the executed call. Governor_Properties: the invariant of the state, the rate bound of a window, when a
      call succeeds, and which failure class every rejection has.

    Argument_Digest: the digest of the arguments in an event, independent of the order of the members.

  The memory tools (\<open>memory-search.ts\<close>, \<open>memory-get.ts\<close>, \<open>memory-list-recent.ts\<close>, \<open>memory-retrieve.ts\<close>,
    \<open>defensive-retrieval.ts\<close>, \<open>fixed-supabase-client.ts\<close>, \<open>session-capabilities-get.ts\<close>).
    Memory_Schemas and Memory_Answers: inputs and outputs and when their schemas accept them. Supabase_Client: the
      client, whose network is a function; Memory_Tools: the tools over a client; Defensive_Retrieval: search, then read.
      Memory_Properties: typed answers, confined requests, and what an answer says of upstream. Governed_Tools: the same
      under the governor. Session_Capabilities, with Iso_Round_Trip on its times: the tool that lists the tools.

  The process (\<open>local-credential-loader.ts\<close>, \<open>server.ts\<close>, \<open>stdio-startup.ts\<close>, \<open>postgrest-openapi-census.ts\<close>).
    Credential_Loader: the credential file with its checks, and what a file behind a loaded pair is and holds. Transport: the bounded frames. Read_Only_Server: the tools a
      server registers and what a call of a read tool puts on the wire. Server_Properties: such a frame always passes, an
      artifact frame passes exactly when it fits with its identifier, and the session tool names what is registered.
    Startup: from the environment to the served server, and the command line as a step relation over the signals, the end of
      the close and the transport errors, which may come before the start has ended. Openapi_Census: the paths upstream may
      advertise.

  Policies (\<open>storage-bounds.ts\<close>, \<open>authorization.ts\<close>, \<open>local-credential-protocol-policy.ts\<close>,
    \<open>issue-2-authorized-write-containment.ts\<close>).
    Storage_Bounds and Storage_Properties, Authorization, Credential_Policy, Write_Containment: validators with
    an exact characterisation of what they accept.

  2. How the parts meet

  The text index and the chunk manifest describe the same bytes; the inspector reads covering chunks through the
  byte source, checks each chunk proof against the registered root, and cuts the requested bytes out. The
  refinement properties compose Chunk_Correct (a verified chunk is the chunk of the source), Text_Lines (where a
  line is) and the guards of the operation: whatever the byte source answers, a delivered answer is the one the
  abstract operation gives on the registered source, or two hashed inputs collide. The envelope of a delivered
  answer is the one of Wire. The run of an inspection is the input of the gate, which hands its receipt to the journal
  before anything leaves; the journal takes the receipts because the inspector emits valid ones. The memory tools
  stand between the client and the governor: the client is the function they await, and the governor sees their
  answers as values of the output schema. The server joins them: it exists for a verified identity, gives that identity
  to every call, and sends what the governor or the registration answers through the transport, whose bound both have
  measured. A start is the composition of the loader, the client, the identity request and the server.

  3. Bounds and termination

  Every loop of the source is a total function: structural recursion, a decreasing measure (\<open>replaceAll\<close>, the
  level loop of the tree, the line scan), or the number of remaining items. No fuel is used; the heading suffix
  loop ends because only finitely many identifiers are taken. Machine integers appear in SHA-256 and the codecs
  (\<open>word\<close>); the numbers of the source are doubles, kept as \<open>jsnum\<close> where they are untrusted and as \<open>nat\<close> or \<open>int\<close>
  after a safe-integer check. Ceilings are those of the code: sources of at most 1 MiB in 1024 chunks (proof depth
  10), texts of 262144 bytes, 10000 lines and 1000 headings, reads of 8192 bytes, envelopes of 65536 bytes.

  4. What is not modelled

  The SQL policies and the driver of their tests are another language, the entry points call what is modelled. Timers appear as
  the point where a deadline fires or as the abort flag an operation sees; elapsed times of the inspector's events are left
  out. The file system, the network, \<open>new URL\<close>, \<open>JSON.parse\<close>, the decoders, the MCP SDK (registered tools, \<open>serveStdio\<close>)
  and the signals of the process are parameters or records of their answers. Of the arguments of \<open>registerTool\<close> the
  schemas are those of the descriptor the handler carries.
  Some corners are left out. A \<open>cancel\<close> of a body that is rejected, where the code would answer a network failure in place of
  the size error; the expanded years of \<open>Date.parse\<close>; numbers of 1e21 and more in \<open>JSON.stringify\<close>, which no bounded field
  reaches; clock readings that are not finite in the times of a session answer. The governor is modelled for one policy,
  while its table of limiters is one for the process.
  Freezing and defensive copies have no counterpart for values. Values the schemas reject by their nature (functions,
  symbols, accessors, class instances) are one constructor of \<open>jsval\<close>; only the receipt journal, which looks at them,
  has the objects themselves.
\<close>

end
